(* ===== verification/Prelude.thy ===== *)
theory Prelude
  imports Main "HOL-Library.Word"
begin

text \<open>
  Shared vocabulary of the development: the machine types of the C sources, byte strings,
  the unaligned big and little endian accessors of \<open>src/utils/common.h\<close>, and the generic
  list and word lemmas the component theories rely on.

  Conventions. A C buffer with a length is a list of bytes. A pointer that may be NULL is an
  \<open>option\<close>. Addresses of objects that the code only compares (network contexts, handler
  functions, user data) are natural numbers, with NULL as \<open>0\<close>. C's unsigned integers of fixed
  width are words; signed \<open>int\<close> counters that stay far from their bounds are \<open>int\<close> or \<open>nat\<close>.
  Debug output (\<open>wpa_printf\<close>, \<open>wpa_hexdump\<close>) has no effect on the state and is not modelled.
\<close>

unbundle bit_operations_syntax

type_synonym u8 = "8 word"
type_synonym u16 = "16 word"
type_synonym u32 = "32 word"
type_synonym u64 = "64 word"
type_synonym bytes = "8 word list"

named_theorems endian_defs \<open>definitions of the unaligned accessors\<close>
named_theorems sm_defs \<open>state entry actions and step functions of the state machines\<close>
named_theorems frame \<open>fields that an operation leaves alone\<close>

section \<open>Unaligned memory accesses\<close>

definition WPA_GET_BE16 :: "bytes \<Rightarrow> u16" where
  "WPA_GET_BE16 a = push_bit 8 (ucast (a ! 0)) OR ucast (a ! 1)"

definition WPA_PUT_BE16 :: "u16 \<Rightarrow> bytes" where
  "WPA_PUT_BE16 val = [ucast (drop_bit 8 val), ucast (val AND 0xff)]"

definition WPA_GET_LE16 :: "bytes \<Rightarrow> u16" where
  "WPA_GET_LE16 a = push_bit 8 (ucast (a ! 1)) OR ucast (a ! 0)"

definition WPA_PUT_LE16 :: "u16 \<Rightarrow> bytes" where
  "WPA_PUT_LE16 val = [ucast (val AND 0xff), ucast (drop_bit 8 val)]"

definition WPA_GET_BE24 :: "bytes \<Rightarrow> u32" where
  "WPA_GET_BE24 a = push_bit 16 (ucast (a ! 0)) OR push_bit 8 (ucast (a ! 1)) OR ucast (a ! 2)"

definition WPA_PUT_BE24 :: "u32 \<Rightarrow> bytes" where
  "WPA_PUT_BE24 val =
     [ucast (drop_bit 16 val AND 0xff), ucast (drop_bit 8 val AND 0xff), ucast (val AND 0xff)]"

definition WPA_GET_BE32 :: "bytes \<Rightarrow> u32" where
  "WPA_GET_BE32 a = push_bit 24 (ucast (a ! 0)) OR push_bit 16 (ucast (a ! 1)) OR
     push_bit 8 (ucast (a ! 2)) OR ucast (a ! 3)"

definition WPA_PUT_BE32 :: "u32 \<Rightarrow> bytes" where
  "WPA_PUT_BE32 val =
     [ucast (drop_bit 24 val AND 0xff), ucast (drop_bit 16 val AND 0xff),
      ucast (drop_bit 8 val AND 0xff), ucast (val AND 0xff)]"

definition WPA_GET_LE32 :: "bytes \<Rightarrow> u32" where
  "WPA_GET_LE32 a = push_bit 24 (ucast (a ! 3)) OR push_bit 16 (ucast (a ! 2)) OR
     push_bit 8 (ucast (a ! 1)) OR ucast (a ! 0)"

definition WPA_PUT_LE32 :: "u32 \<Rightarrow> bytes" where
  "WPA_PUT_LE32 val =
     [ucast (val AND 0xff), ucast (drop_bit 8 val AND 0xff),
      ucast (drop_bit 16 val AND 0xff), ucast (drop_bit 24 val AND 0xff)]"

lemmas [endian_defs] =
  WPA_GET_BE16_def WPA_PUT_BE16_def WPA_GET_LE16_def WPA_PUT_LE16_def
  WPA_GET_BE24_def WPA_PUT_BE24_def WPA_GET_BE32_def WPA_PUT_BE32_def
  WPA_GET_LE32_def WPA_PUT_LE32_def

lemma length_put_endian [simp]:
  "length (WPA_PUT_BE16 h) = 2" "length (WPA_PUT_LE16 h) = 2" "length (WPA_PUT_BE24 v) = 3"
  "length (WPA_PUT_BE32 w) = 4" "length (WPA_PUT_LE32 w) = 4"
  by (simp_all add: endian_defs)

lemma ff_eq_mask: "(0xff :: 'a::len word) = mask 8"
  by (simp add: mask_eq_exp_minus_1)

lemma join_bytes_16:
  "push_bit 8 (ucast (ucast (drop_bit 8 v) :: u8) :: u16) OR ucast (ucast (v AND 0xff) :: u8)
     = (v :: u16)"
  by (rule bit_word_eqI) (auto simp: ff_eq_mask bit_simps)

definition join4 :: "u8 \<Rightarrow> u8 \<Rightarrow> u8 \<Rightarrow> u8 \<Rightarrow> u32" where
  "join4 a b c d = push_bit 24 (ucast a) OR push_bit 16 (ucast b) OR push_bit 8 (ucast c) OR ucast d"

lemma join4_parts:
  "join4 (ucast (drop_bit 24 v AND 0xff)) (ucast (drop_bit 16 v AND 0xff))
     (ucast (drop_bit 8 v AND 0xff)) (ucast (v AND 0xff)) = v"
proof (rule bit_word_eqI)
  fix n assume n: "n < LENGTH(32)"
  consider "n < 8" | "8 \<le> n" "n < 16" | "16 \<le> n" "n < 24" | "24 \<le> n" by linarith
  then show "bit (join4 (ucast (drop_bit 24 v AND 0xff)) (ucast (drop_bit 16 v AND 0xff))
     (ucast (drop_bit 8 v AND 0xff)) (ucast (v AND 0xff))) n = bit v n"
    using n by cases (auto simp: join4_def ff_eq_mask bit_simps)
qed

lemma get_put_BE16 [simp]: "WPA_GET_BE16 (WPA_PUT_BE16 v @ rest) = v"
  using join_bytes_16 [of v] by (simp add: endian_defs)

lemma get_put_LE16 [simp]: "WPA_GET_LE16 (WPA_PUT_LE16 v @ rest) = v"
  using join_bytes_16 [of v] by (simp add: endian_defs)

lemma get_put_BE32 [simp]: "WPA_GET_BE32 (WPA_PUT_BE32 v @ rest) = v"
  using join4_parts [of v] by (simp add: endian_defs join4_def)

lemma get_put_LE32 [simp]: "WPA_GET_LE32 (WPA_PUT_LE32 v @ rest) = v"
  using join4_parts [of v] by (simp add: endian_defs join4_def)

section \<open>Octets and nibbles\<close>

lemma u8_all_iff: "(\<forall>b::u8. P b) \<longleftrightarrow> list_all P (map word_of_nat [0..<256])"
proof
  assume l: "list_all P (map word_of_nat [0..<256])"
  show "\<forall>b. P b"
  proof
    fix b :: u8
    have "unat b < 256" using unsigned_less [of b] by simp
    then have "b \<in> set (map word_of_nat [0..<256])"
      by (auto intro!: image_eqI [where x = "unat b"])
    then show "P b" using l by (simp only: list_all_iff)
  qed
qed (simp add: list_all_iff)

lemma u8_less_16: 
  assumes "(d :: u8) < 16" shows "d \<in> set [0,1,2,3,4,5,6,7,8,9,10,11,12,13,14,15]"
proof -
  have "unat d < 16" using assms by (simp add: word_less_nat_alt)
  then have "unat d \<in> {0,1,2,3,4,5,6,7,8,9,10,11,12,13,14,15}" by (simp; presburger)
  then have "word_of_nat (unat d) \<in> (word_of_nat :: nat \<Rightarrow> u8) ` {0,1,2,3,4,5,6,7,8,9,10,11,12,13,14,15}"
    by (rule imageI)
  then show ?thesis by simp
qed

lemma low_nibble: "(b :: u8) AND 0x0f < 16"
  using and_mask_less' [of 4 b] by (simp add: mask_eq_exp_minus_1)

lemma high_nibble: "drop_bit 4 (b :: u8) < 16"
  using unsigned_less [of b, where 'a = nat] by (simp add: word_less_nat_alt drop_bit_eq_div unat_div)

lemma join_nibbles: "push_bit 4 (drop_bit 4 b) OR (b AND 0x0f) = (b :: u8)"
proof -
  have "(0x0f :: u8) = mask 4" by (simp add: mask_eq_exp_minus_1)
  show ?thesis unfolding \<open>(0x0f :: u8) = mask 4\<close> by (rule bit_word_eqI) (auto simp: bit_simps)
qed

section \<open>Byte strings\<close>

definition xor_bytes :: "bytes \<Rightarrow> bytes \<Rightarrow> bytes" where
  "xor_bytes a b = map2 (XOR) a b"

lemma length_xor_bytes [simp]: "length (xor_bytes a b) = min (length a) (length b)"
  by (simp add: xor_bytes_def)

lemma xor_bytes_Nil [simp]: "xor_bytes [] b = []" "xor_bytes a [] = []"
  by (simp_all add: xor_bytes_def)

lemma xor_bytes_Cons [simp]: "xor_bytes (x # a) (y # b) = (x XOR y) # xor_bytes a b"
  by (simp add: xor_bytes_def)

lemma nth_xor_bytes [simp]:
  "i < length a \<Longrightarrow> i < length b \<Longrightarrow> xor_bytes a b ! i = a ! i XOR b ! i"
  by (simp add: xor_bytes_def)

lemma xor_bytes_cancel [simp]:
  "length a \<le> length b \<Longrightarrow> xor_bytes (xor_bytes a b) b = a"
  by (rule nth_equalityI) (simp_all add: xor.assoc)

lemma xor_bytes_cancel_left [simp]:
  "length a \<le> length b \<Longrightarrow> xor_bytes b (xor_bytes b a) = a"
  by (rule nth_equalityI) (simp_all flip: xor.assoc)

lemma xor_bytes_commute: "xor_bytes a b = xor_bytes b a"
  by (rule nth_equalityI) (simp_all add: xor.commute)

lemma xor_bytes_append:
  "length a = length c \<Longrightarrow> xor_bytes (a @ b) (c @ d) = xor_bytes a c @ xor_bytes b d"
  by (simp add: xor_bytes_def)

section \<open>Big endian numbers\<close>

text \<open>The number that a big endian octet array stands for.\<close>

definition be_value :: "bytes \<Rightarrow> nat" where
  "be_value bs = foldl (\<lambda>v b. 256 * v + unat b) 0 bs"

lemma be_value_Nil [simp]: "be_value [] = 0"
  by (simp add: be_value_def)

lemma be_value_snoc [simp]: "be_value (bs @ [b]) = 256 * be_value bs + unat b"
  by (simp add: be_value_def)

lemma be_value_append: "be_value (bs @ cs) = be_value bs * 256 ^ length cs + be_value cs"
  by (induction cs rule: rev_induct) (simp_all flip: append_assoc add: algebra_simps)

lemma be_value_less: "be_value bs < 256 ^ length bs"
proof (induction bs rule: rev_induct)
  case (snoc b bs)
  then have "256 * be_value bs + 256 \<le> 256 * 256 ^ length bs" by simp
  moreover have "unat b < 256" using unsigned_less [of b, where 'a = nat] by simp
  ultimately show ?case by simp
qed simp

lemma be_value_Cons: "be_value (b # bs) = unat b * 256 ^ length bs + be_value bs"
  using be_value_append [of "[b]" bs] by (simp add: be_value_def)

section \<open>Buffers and C strings\<close>

text \<open>
  A C string is the list of its characters without the terminating NUL; \<open>cs_at s i\<close> is the
  character at offset \<open>i\<close>, which is NUL at the end. \<open>buf_put\<close> overwrites part of a fixed buffer.
\<close>

definition cs_at :: "bytes \<Rightarrow> nat \<Rightarrow> u8" where
  "cs_at s i = (if i < length s then s ! i else 0)"

lemma cs_at_Nil [simp]: "cs_at [] i = 0"
  by (simp add: cs_at_def)

lemma cs_at_Cons_0 [simp]: "cs_at (c # s) 0 = c"
  by (simp add: cs_at_def)

lemma cs_at_Cons_Suc [simp]: "cs_at (c # s) (Suc i) = cs_at s i"
  by (simp add: cs_at_def)

lemma cs_at_append: "cs_at (s @ t) i = (if i < length s then s ! i else cs_at t (i - length s))"
  by (auto simp: cs_at_def nth_append)

definition buf_put :: "'a list \<Rightarrow> nat \<Rightarrow> 'a list \<Rightarrow> 'a list" where
  "buf_put buf pos xs = take pos buf @ xs @ drop (pos + length xs) buf"

lemma length_buf_put [simp]:
  "pos + length xs \<le> length buf \<Longrightarrow> length (buf_put buf pos xs) = length buf"
  by (simp add: buf_put_def)

lemma take_buf_put [simp]:
  "pos + length xs \<le> length buf \<Longrightarrow> n = pos + length xs \<Longrightarrow>
     take n (buf_put buf pos xs) = take pos buf @ xs"
  by (simp add: buf_put_def)

lemma take_buf_put_le [simp]:
  "pos + length xs \<le> length buf \<Longrightarrow> n \<le> pos \<Longrightarrow> take n (buf_put buf pos xs) = take n buf"
  by (simp add: buf_put_def min_def)

lemma drop_buf_put_before [simp]:
  "pos + length xs \<le> length buf \<Longrightarrow> n + k \<le> pos \<Longrightarrow>
     take k (drop n (buf_put buf pos xs)) = take k (drop n buf)"
  by (simp add: take_drop)

lemma buf_put_restore:
  assumes "pos + n \<le> length buf" "length z = n"
  shows "buf_put (buf_put buf pos z) pos (take n (drop pos buf)) = buf"
proof -
  have "drop (pos + n) (buf_put buf pos z) = drop (pos + n) buf"
    using assms by (simp add: buf_put_def)
  moreover have "take pos buf @ take n (drop pos buf) @ drop (pos + n) buf = buf"
    by (metis append_assoc append_take_drop_id take_add)
  ultimately show ?thesis using assms by (simp add: buf_put_def [of "buf_put buf pos z"])
qed

definition os_snprintf :: "bytes \<Rightarrow> nat \<Rightarrow> nat \<Rightarrow> bytes \<Rightarrow> bytes \<times> nat" where
  "os_snprintf buf pos room txt =
     (if room = 0 then buf else buf_put buf pos (take (room - 1) txt @ [0]), length txt)"

section \<open>Lists\<close>

lemma takeWhile_dropWhile_not:
  "dropWhile P xs = y # ys \<Longrightarrow> \<not> P y"
  by (metis dropWhile_eq_Cons_conv)

lemma sorted_wrt_filter_mono: "sorted_wrt R xs \<Longrightarrow> sorted_wrt R (filter P xs)"
  by (rule sorted_wrt_filter)

lemma length_filter_remove1:
  "P x \<Longrightarrow> x \<in> set xs \<Longrightarrow> length (filter P xs) > 0"
  by (induction xs) auto

end
