(* ===== verification/HexText.thy ===== *)
theory HexText
  imports Prelude
begin

text \<open>
  The text helpers of \<open>src/utils/common.c\<close>: hexadecimal and MAC address parsing, hexadecimal
  printing, the escaped form used for SSIDs, the string values of the configuration file, and the
  small array helpers of the same file.

  A C function that returns \<open>-1\<close> or NULL on failure returns \<open>None\<close> here; what it has written into
  its output buffer before failing is not part of the result. Where the code allocates memory,
  a boolean argument says whether that allocation succeeds.
\<close>

section \<open>Parsing\<close>

definition hex2num :: "u8 \<Rightarrow> u8 option" where
  "hex2num c =
     (if 0x30 \<le> c \<and> c \<le> 0x39 then Some (c - 0x30)
      else if 0x61 \<le> c \<and> c \<le> 0x66 then Some (c - 0x61 + 10)
      else if 0x41 \<le> c \<and> c \<le> 0x46 then Some (c - 0x41 + 10)
      else None)"

definition hex2byte :: "bytes \<Rightarrow> u8 option" where
  "hex2byte hex =
     (case hex2num (cs_at hex 0) of
        None \<Rightarrow> None
      | Some a \<Rightarrow>
          (case hex2num (cs_at hex 1) of
             None \<Rightarrow> None
           | Some b \<Rightarrow> Some (push_bit 4 a OR b)))"

text \<open>The loops of the three MAC address parsers; \<open>n\<close> counts the octets still to be read.\<close>

fun aton_loop :: "bool \<Rightarrow> nat \<Rightarrow> bytes \<Rightarrow> bytes option" where
  "aton_loop colon 0 txt = Some []"
| "aton_loop colon (Suc n) txt =
     (case hex2byte txt of
        None \<Rightarrow> None
      | Some b \<Rightarrow>
          if colon \<and> n > 0 then
            (if cs_at txt 2 \<noteq> 0x3a then None
             else map_option ((#) b) (aton_loop colon n (drop 3 txt)))
          else map_option ((#) b) (aton_loop colon n (drop 2 txt)))"

definition hwaddr_aton :: "bytes \<Rightarrow> bytes option" where
  "hwaddr_aton txt = aton_loop True 6 txt"

definition hwaddr_compact_aton :: "bytes \<Rightarrow> bytes option" where
  "hwaddr_compact_aton txt = aton_loop False 6 txt"

definition is_addr_sep :: "u8 \<Rightarrow> bool" where
  "is_addr_sep c \<longleftrightarrow> c = 0x3a \<or> c = 0x2e \<or> c = 0x2d"

fun aton2_loop :: "nat \<Rightarrow> bytes \<Rightarrow> (bytes \<times> bytes) option" where
  "aton2_loop 0 pos = Some ([], pos)"
| "aton2_loop (Suc n) pos =
     (let pos = dropWhile is_addr_sep pos in
      case hex2byte pos of
        None \<Rightarrow> None
      | Some b \<Rightarrow> map_option (\<lambda>(bs, rest). (b # bs, rest)) (aton2_loop n (drop 2 pos)))"

definition hwaddr_aton2 :: "bytes \<Rightarrow> (nat \<times> bytes) option" where
  "hwaddr_aton2 txt =
     map_option (\<lambda>(bs, rest). (length txt - length rest, bs)) (aton2_loop 6 txt)"

fun hexstr2bin :: "bytes \<Rightarrow> nat \<Rightarrow> bytes option" where
  "hexstr2bin hex 0 = Some []"
| "hexstr2bin hex (Suc len) =
     (case hex2byte hex of
        None \<Rightarrow> None
      | Some a \<Rightarrow> map_option ((#) a) (hexstr2bin (drop 2 hex) len))"

section \<open>Printing\<close>

definition hex_digit :: "bool \<Rightarrow> u8 \<Rightarrow> u8" where
  "hex_digit upper d = (if d < 10 then 0x30 + d else if upper then 0x37 + d else 0x57 + d)"

text \<open>The two digits that \<open>%02x\<close> and \<open>%02X\<close> print for an octet.\<close>

definition fmt_02x :: "bool \<Rightarrow> u8 \<Rightarrow> bytes" where
  "fmt_02x upper b = [hex_digit upper (drop_bit 4 b), hex_digit upper (b AND 0x0f)]"

fun snprintf_hex_loop :: "bool \<Rightarrow> nat \<Rightarrow> bytes \<Rightarrow> nat \<Rightarrow> bytes \<Rightarrow> bytes \<times> nat" where
  "snprintf_hex_loop upper bsz [] pos buf = (buf[bsz - 1 := 0], pos)"
| "snprintf_hex_loop upper bsz (d # data) pos buf =
     (let (buf', ret) = os_snprintf buf pos (bsz - pos) (fmt_02x upper d) in
      if ret \<ge> bsz - pos then (buf'[bsz - 1 := 0], pos)
      else snprintf_hex_loop upper bsz data (pos + ret) buf')"

text \<open>The buffer is given with its old content; its length is \<open>buf_size\<close>.\<close>

definition wpa_snprintf_hex_gen :: "bytes \<Rightarrow> bytes \<Rightarrow> bool \<Rightarrow> bytes \<times> nat" where
  "wpa_snprintf_hex_gen buf data upper =
     (if length buf = 0 then (buf, 0)
      else snprintf_hex_loop upper (length buf) data 0 buf)"

definition wpa_snprintf_hex :: "bytes \<Rightarrow> bytes \<Rightarrow> bytes \<times> nat" where
  "wpa_snprintf_hex buf data = wpa_snprintf_hex_gen buf data False"

definition wpa_snprintf_hex_uppercase :: "bytes \<Rightarrow> bytes \<Rightarrow> bytes \<times> nat" where
  "wpa_snprintf_hex_uppercase buf data = wpa_snprintf_hex_gen buf data True"

section \<open>Escaped text\<close>

text \<open>What \<open>printf_encode\<close> appends for one octet.\<close>

definition encode_octet :: "u8 \<Rightarrow> bytes" where
  "encode_octet d =
     (if d = 0x22 then [0x5c, 0x22]
      else if d = 0x5c then [0x5c, 0x5c]
      else if d = 0x1b then [0x5c, 0x65]
      else if d = 0x0a then [0x5c, 0x6e]
      else if d = 0x0d then [0x5c, 0x72]
      else if d = 0x09 then [0x5c, 0x74]
      else if 32 \<le> d \<and> d \<le> 127 then [d]
      else [0x5c, 0x78] @ fmt_02x False d)"

fun printf_encode_loop :: "nat \<Rightarrow> bytes \<Rightarrow> bytes \<Rightarrow> bytes" where
  "printf_encode_loop maxlen txt [] = txt"
| "printf_encode_loop maxlen txt (d # data) =
     (if length txt + 4 \<ge> maxlen then txt
      else printf_encode_loop maxlen (txt @ encode_octet d) data)"

text \<open>The text that \<open>printf_encode\<close> leaves in a buffer of \<open>maxlen\<close> octets; a NUL follows it.\<close>

definition printf_encode :: "nat \<Rightarrow> bytes \<Rightarrow> bytes" where
  "printf_encode maxlen data = printf_encode_loop maxlen [] data"

definition is_octal :: "u8 \<Rightarrow> bool" where
  "is_octal c \<longleftrightarrow> 0x30 \<le> c \<and> c \<le> 0x37"

text \<open>
  The octal escape: up to three digits starting at \<open>pos\<close>, whose first one is known to be octal;
  the value is stored into an octet, so that it is truncated to eight bits.
\<close>

definition decode_octal :: "bytes \<Rightarrow> u8 \<times> bytes" where
  "decode_octal pos =
     (let val = cs_at pos 0 - 0x30; pos = drop 1 pos;
          (val, pos) = (if is_octal (cs_at pos 0) then (val * 8 + (cs_at pos 0 - 0x30), drop 1 pos)
                        else (val, pos));
          (val, pos) = (if is_octal (cs_at pos 0) then (val * 8 + (cs_at pos 0 - 0x30), drop 1 pos)
                        else (val, pos))
      in (val, pos))"

text \<open>
  What follows a backslash: the octet stored, if any, and the rest of the input. An unknown
  character after the backslash is not consumed.
\<close>

definition decode_escape :: "bytes \<Rightarrow> u8 option \<times> bytes" where
  "decode_escape pos =
     (let c = cs_at pos 0 in
      if c = 0x5c then (Some 0x5c, drop 1 pos)
      else if c = 0x22 then (Some 0x22, drop 1 pos)
      else if c = 0x6e then (Some 0x0a, drop 1 pos)
      else if c = 0x72 then (Some 0x0d, drop 1 pos)
      else if c = 0x74 then (Some 0x09, drop 1 pos)
      else if c = 0x65 then (Some 0x1b, drop 1 pos)
      else if c = 0x78 then
        (let pos = drop 1 pos in
         case hex2byte pos of
           Some val \<Rightarrow> (Some val, drop 2 pos)
         | None \<Rightarrow>
             (case hex2num (cs_at pos 0) of
                None \<Rightarrow> (None, pos)
              | Some val \<Rightarrow> (Some val, drop 1 pos)))
      else if is_octal c then
        (let (val, pos) = decode_octal pos in (Some val, pos))
      else (None, pos))"

lemma length_decode_octal: "length (snd (decode_octal pos)) \<le> length pos"
  by (auto simp: decode_octal_def Let_def)

lemma length_decode_escape: "length (snd (decode_escape pos)) \<le> length pos"
  using length_decode_octal [of pos]
  by (auto simp: decode_escape_def Let_def split: option.splits prod.splits)

function printf_decode_loop :: "nat \<Rightarrow> bytes \<Rightarrow> bytes \<Rightarrow> bytes" where
  "printf_decode_loop maxlen buf [] = buf"
| "printf_decode_loop maxlen buf (c # pos) =
     (if length buf + 1 \<ge> maxlen then buf
      else if c = 0x5c then
        (case fst (decode_escape pos) of
           None \<Rightarrow> printf_decode_loop maxlen buf (snd (decode_escape pos))
         | Some val \<Rightarrow> printf_decode_loop maxlen (buf @ [val]) (snd (decode_escape pos)))
      else printf_decode_loop maxlen (buf @ [c]) pos)"
  by pat_completeness auto
termination
  by (relation "measure (\<lambda>(_, _, pos). length pos)")
     (use length_decode_escape in \<open>auto simp: less_Suc_eq_le\<close>)

text \<open>The octets that \<open>printf_decode\<close> stores; its return value is their number.\<close>

definition printf_decode :: "nat \<Rightarrow> bytes \<Rightarrow> bytes" where
  "printf_decode maxlen str = printf_decode_loop maxlen [] str"

definition wpa_ssid_txt :: "bytes option \<Rightarrow> bytes" where
  "wpa_ssid_txt ssid = (case ssid of None \<Rightarrow> [] | Some s \<Rightarrow> printf_encode (32 * 4 + 1) s)"

section \<open>Configuration strings\<close>

definition dup_binstr :: "bool \<Rightarrow> bytes option \<Rightarrow> bytes option" where
  "dup_binstr malloc_ok src =
     (case src of None \<Rightarrow> None
      | Some s \<Rightarrow> if malloc_ok then Some (s @ [0]) else None)"

text \<open>\<open>os_strrchr\<close>: the offset of the last occurrence of a character.\<close>

fun os_strrchr :: "bytes \<Rightarrow> u8 \<Rightarrow> nat option" where
  "os_strrchr [] c = None"
| "os_strrchr (x # s) c =
     (case os_strrchr s c of
        Some i \<Rightarrow> Some (Suc i)
      | None \<Rightarrow> if x = c then Some 0 else None)"

text \<open>
  The value and its length; \<open>m1\<close> and \<open>m2\<close> are the outcomes of the first and second allocation.
\<close>

definition wpa_config_parse_string :: "bool \<Rightarrow> bool \<Rightarrow> bytes \<Rightarrow> (bytes \<times> nat) option" where
  "wpa_config_parse_string m1 m2 value =
     (if cs_at value 0 = 0x22 then
        (let value = drop 1 value in
         case os_strrchr value 0x22 of
           None \<Rightarrow> None
         | Some pos \<Rightarrow>
             if cs_at value (pos + 1) \<noteq> 0 then None
             else map_option (\<lambda>str. (butlast str, pos)) (dup_binstr m1 (Some (take pos value))))
      else if cs_at value 0 = 0x50 \<and> cs_at value 1 = 0x22 then
        (let value = drop 2 value in
         case os_strrchr value 0x22 of
           None \<Rightarrow> None
         | Some pos \<Rightarrow>
             if cs_at value (pos + 1) \<noteq> 0 then None
             else
               (case dup_binstr m1 (Some (take pos value)) of
                  None \<Rightarrow> None
                | Some tstr \<Rightarrow>
                    if \<not> m2 then None
                    else (let str = printf_decode (pos + 1) (takeWhile (\<lambda>c. c \<noteq> 0) tstr)
                          in Some (str, length str))))
      else
        (let hlen = length value in
         if odd hlen then None
         else if \<not> m1 then None
         else map_option (\<lambda>str. (str, hlen div 2)) (hexstr2bin value (hlen div 2))))"

definition is_hex :: "bytes \<Rightarrow> bool" where
  "is_hex data = list_ex (\<lambda>d. d < 32 \<or> d \<ge> 127) data"

section \<open>Counters, bits and arrays\<close>

text \<open>The loop of \<open>inc_byte_array\<close>; the second argument is \<open>pos + 1\<close>.\<close>

fun inc_byte_array_loop :: "bytes \<Rightarrow> nat \<Rightarrow> bytes" where
  "inc_byte_array_loop counter 0 = counter"
| "inc_byte_array_loop counter (Suc pos) =
     (let counter = counter[pos := counter ! pos + 1] in
      if counter ! pos \<noteq> 0 then counter else inc_byte_array_loop counter pos)"

definition inc_byte_array :: "bytes \<Rightarrow> bytes" where
  "inc_byte_array counter = inc_byte_array_loop counter (length counter)"

lemma unat_drop_bit_1_less: "v \<noteq> 0 \<Longrightarrow> unat (drop_bit 1 v) < unat (v :: u32)"
  by (simp add: unat_div unat_gt_0 drop_bit_eq_div)

function find_first_bit_loop :: "u32 \<Rightarrow> nat \<Rightarrow> nat option" where
  "find_first_bit_loop v pos =
     (if v = 0 then None
      else if v AND 1 \<noteq> 0 then Some pos
      else find_first_bit_loop (drop_bit 1 v) (pos + 1))"
  by pat_completeness auto
termination
  by (relation "measure (\<lambda>(v, _). unat v)") (use unat_drop_bit_1_less in auto)

declare find_first_bit_loop.simps [simp del]

definition find_first_bit :: "u32 \<Rightarrow> nat option" where
  "find_first_bit v = find_first_bit_loop v 0"

text \<open>The merged prefix and its length; the rest of the result buffer is zero.\<close>

definition merge_byte_arrays ::
    "nat \<Rightarrow> bytes option \<Rightarrow> bytes option \<Rightarrow> bytes \<times> nat" where
  "merge_byte_arrays res_len src1 src2 =
     (let res = replicate res_len 0; len = 0 in
      case (case src1 of
              None \<Rightarrow> Inr (res, len)
            | Some s1 \<Rightarrow>
                if length s1 \<ge> res_len then Inl (buf_put res 0 (take res_len s1), res_len)
                else Inr (buf_put res 0 s1, len + length s1)) of
        Inl r \<Rightarrow> r
      | Inr (res, len) \<Rightarrow>
          (case src2 of
             None \<Rightarrow> (res, len)
           | Some s2 \<Rightarrow>
               if len + length s2 \<ge> res_len
               then (buf_put res len (take (res_len - len) s2), res_len)
               else (buf_put res len s2, len + length s2)))"

record wpa_freq_range =
  fr_min :: u32
  fr_max :: u32

fun freq_range_loop :: "wpa_freq_range list \<Rightarrow> u32 \<Rightarrow> bool" where
  "freq_range_loop [] freq = False"
| "freq_range_loop (r # rs) freq =
     (if freq \<ge> fr_min r \<and> freq \<le> fr_max r then True else freq_range_loop rs freq)"

definition freq_range_list_includes :: "wpa_freq_range list option \<Rightarrow> u32 \<Rightarrow> bool" where
  "freq_range_list_includes l freq =
     (case l of None \<Rightarrow> False | Some rs \<Rightarrow> freq_range_loop rs freq)"

text \<open>
  The zero terminated integer arrays. An array is the list of all its elements, terminator
  included; \<open>None\<close> is NULL.
\<close>

definition int_array_len :: "int list option \<Rightarrow> nat" where
  "int_array_len a = (case a of None \<Rightarrow> 0 | Some xs \<Rightarrow> length (takeWhile (\<lambda>x. x \<noteq> 0) xs))"

text \<open>The outer \<open>None\<close> is the dereference of a NULL second array.\<close>

definition int_array_concat ::
    "bool \<Rightarrow> int list option \<Rightarrow> int list option \<Rightarrow> int list option option" where
  "int_array_concat malloc_ok res a =
     (let reslen = int_array_len res; alen = int_array_len a in
      if \<not> malloc_ok then Some None
      else
        (case a of
           None \<Rightarrow> None
         | Some xs \<Rightarrow>
             Some (Some (take reslen (case res of None \<Rightarrow> [] | Some r \<Rightarrow> r) @ take (alen + 1) xs))))"

function int_array_unique_loop :: "int list \<Rightarrow> nat \<Rightarrow> nat \<Rightarrow> int list \<times> nat" where
  "int_array_unique_loop a i j =
     (if j < length a \<and> a ! i \<noteq> 0 \<and> a ! j \<noteq> 0 then
        (if a ! i = a ! j then int_array_unique_loop a i (j + 1)
         else int_array_unique_loop (a[i + 1 := a ! j]) (i + 1) (j + 1))
      else (a, i))"
  by pat_completeness auto
termination
  by (relation "measure (\<lambda>(a, i, j). length a - j)") auto

declare int_array_unique_loop.simps [simp del]

definition int_array_sort_unique :: "int list option \<Rightarrow> int list option" where
  "int_array_sort_unique arr =
     (case arr of
        None \<Rightarrow> None
      | Some a \<Rightarrow>
          (let alen = int_array_len (Some a);
               a = sort (take alen a) @ drop alen a;
               (a, i) = int_array_unique_loop a 0 1;
               i = (if a ! i \<noteq> 0 then i + 1 else i)
           in Some (a[i := 0])))"

definition int_array_add_unique :: "bool \<Rightarrow> int list option \<Rightarrow> int \<Rightarrow> int list option" where
  "int_array_add_unique malloc_ok res a =
     (let cur = (case res of None \<Rightarrow> [] | Some r \<Rightarrow> takeWhile (\<lambda>x. x \<noteq> 0) r) in
      if a \<in> set cur then res
      else if \<not> malloc_ok then None
      else Some (cur @ [a, 0]))"

section \<open>Lemmas on hexadecimal text\<close>

lemma hex2num_digit [simp]:
  assumes "d < 16" shows "hex2num (hex_digit upper d) = Some d"
  using u8_less_16 [OF assms] by (simp, elim disjE) (cases upper; simp add: hex2num_def hex_digit_def)+

lemma hex2byte_fmt [simp]: "hex2byte (fmt_02x upper b @ rest) = Some b"
  by (simp add: hex2byte_def fmt_02x_def cs_at_def low_nibble high_nibble join_nibbles)

lemma length_fmt_02x [simp]: "length (fmt_02x upper b) = 2"
  by (simp add: fmt_02x_def)

lemma fmt_02x_drop [simp]: "drop 2 (fmt_02x upper b @ rest) = rest"
  by (simp add: fmt_02x_def)

lemma hexstr2bin_fmt [simp]:
  "hexstr2bin (concat (map (fmt_02x upper) data) @ rest) (length data) = Some data"
  by (induction data) (simp_all add: fmt_02x_drop)

lemma length_hexstr2bin: "hexstr2bin hex len = Some bs \<Longrightarrow> length bs = len"
  by (induction hex len arbitrary: bs rule: hexstr2bin.induct) (auto split: option.splits)

lemma snprintf_hex_loop_fits:
  assumes "pos + 2 * length data < bsz" "length buf = bsz"
  shows "snd (snprintf_hex_loop upper bsz data pos buf) = pos + 2 * length data \<and>
    take (pos + 2 * length data) (fst (snprintf_hex_loop upper bsz data pos buf)) =
      take pos buf @ concat (map (fmt_02x upper) data)"
  using assms
proof (induction data arbitrary: pos buf)
  case Nil
  then show ?case by (simp add: take_update_cancel)
next
  case (Cons d data)
  let ?buf = "buf_put buf pos (fmt_02x upper d @ [0])"
  have "snprintf_hex_loop upper bsz (d # data) pos buf =
      snprintf_hex_loop upper bsz data (pos + 2) ?buf"
  proof -
    have "\<not> bsz - pos \<le> 2" "bsz - pos \<noteq> 0" "take (bsz - pos - 1) (fmt_02x upper d) = fmt_02x upper d"
      using Cons.prems by simp_all
    then show ?thesis by (simp add: os_snprintf_def del: diff_is_0_eq)
  qed
  moreover have "take (pos + 2) ?buf = take pos buf @ fmt_02x upper d"
    using Cons.prems by (simp add: buf_put_def)
  moreover have "length ?buf = bsz" using Cons.prems by simp
  ultimately show ?case using Cons.IH [of "pos + 2" ?buf] Cons.prems by simp
qed

lemma snprintf_hex_loop_bounds:
  assumes "pos < bsz" "length buf = bsz"
  shows "snd (snprintf_hex_loop upper bsz data pos buf) < bsz \<and>
    length (fst (snprintf_hex_loop upper bsz data pos buf)) = bsz \<and>
    fst (snprintf_hex_loop upper bsz data pos buf) ! (bsz - 1) = 0"
  using assms
proof (induction data arbitrary: pos buf)
  case (Cons d data)
  show ?case
  proof (cases "2 \<ge> bsz - pos")
    case True
    then show ?thesis using Cons.prems
      by (auto simp: os_snprintf_def)
  next
    case False
    then show ?thesis using Cons.prems Cons.IH [of "pos + 2"]
      by (simp add: os_snprintf_def)
  qed
qed simp

text \<open>Hexadecimal printing into a large enough buffer is inverted by hexstr2bin.\<close>

theorem wpa_snprintf_hex_roundtrip:
  assumes "2 * length data < length buf"
  shows "snd (wpa_snprintf_hex_gen buf data upper) = 2 * length data \<and>
    hexstr2bin (take (snd (wpa_snprintf_hex_gen buf data upper))
                  (fst (wpa_snprintf_hex_gen buf data upper))) (length data) = Some data"
proof -
  have "buf \<noteq> []" using assms by auto
  then show ?thesis
    using snprintf_hex_loop_fits [of 0 data "length buf" buf upper] assms
      hexstr2bin_fmt [of upper data "[]"]
    by (simp add: wpa_snprintf_hex_gen_def)
qed

theorem wpa_snprintf_hex_roundtrip_witness:
  "snd (wpa_snprintf_hex_gen [1,1,1,1,1,1] [0xab, 0x01] False) = 4"
  using wpa_snprintf_hex_roundtrip [of "[0xab, 0x01]" "[1,1,1,1,1,1]" False] by simp

lemma wpa_snprintf_hex_bounds:
  assumes "buf \<noteq> []"
  shows "snd (wpa_snprintf_hex_gen buf data upper) < length buf \<and>
    length (fst (wpa_snprintf_hex_gen buf data upper)) = length buf \<and>
    last (fst (wpa_snprintf_hex_gen buf data upper)) = 0"
proof -
  note b = snprintf_hex_loop_bounds [of 0 "length buf" buf upper data]
  have "fst (wpa_snprintf_hex_gen buf data upper) \<noteq> []"
    using assms b by (auto simp: wpa_snprintf_hex_gen_def)
  then show ?thesis using assms b by (auto simp: wpa_snprintf_hex_gen_def last_conv_nth)
qed

section \<open>Lemmas on escaped text\<close>

lemma encode_octet_length: "1 \<le> length (encode_octet d)" "length (encode_octet d) \<le> 4"
  by (simp_all add: encode_octet_def)

lemma printf_encode_loop_length:
  "length (printf_encode_loop maxlen out data) \<le> max (length out) (maxlen - 1)"
proof (induction data arbitrary: out)
  case (Cons d data)
  then show ?case
    using encode_octet_length [of d] Cons.IH [of "out @ encode_octet d"] by auto
qed simp

lemma printf_encode_loop_fits:
  "length out + 4 * length data < maxlen \<Longrightarrow>
     printf_encode_loop maxlen out data = out @ concat (map encode_octet data)"
proof (induction data arbitrary: out)
  case (Cons d data)
  then show ?case
    using encode_octet_length [of d] Cons.IH [of "out @ encode_octet d"] by simp
qed simp

text \<open>Decoding the escape of one octet gives the octet back and consumes exactly the escape.\<close>

lemma decode_encode_octet:
  assumes "length buf + 1 < maxlen"
  shows "printf_decode_loop maxlen buf (encode_octet d @ rest) =
    printf_decode_loop maxlen (buf @ [d]) rest"
proof (cases "encode_octet d = [d]")
  case True
  then have "d \<noteq> 0x5c" by (auto simp: encode_octet_def)
  then show ?thesis using True assms by simp
next
  case False
  then obtain es where es: "encode_octet d = 0x5c # es"
    by (auto simp: encode_octet_def split: if_splits)
  have "decode_escape (es @ rest) = (Some d, rest)"
  proof (cases "es = 0x78 # fmt_02x False d")
    case True
    then show ?thesis by (simp add: decode_escape_def fmt_02x_def)
       (use hex2byte_fmt [of False d rest] in \<open>simp add: fmt_02x_def\<close>)
  next
    case False
    then show ?thesis using es \<open>encode_octet d \<noteq> [d]\<close>
      by (auto simp: encode_octet_def decode_escape_def split: if_splits)
  qed
  then show ?thesis using assms by (simp add: es)
qed

lemma printf_decode_loop_encoded:
  "length buf + length data < maxlen \<Longrightarrow>
     printf_decode_loop maxlen buf (concat (map encode_octet data)) = buf @ data"
proof (induction data arbitrary: buf)
  case (Cons d data)
  then show ?case
    using decode_encode_octet [of buf maxlen d "concat (map encode_octet data)"]
      Cons.IH [of "buf @ [d]"] by simp
qed simp

text \<open>C34: printf_decode inverts printf_encode on every octet string, given room.\<close>

theorem printf_decode_encode:
  assumes "4 * length data < m1" "length data < m2"
  shows "printf_decode m2 (printf_encode m1 data) = data"
  using assms printf_encode_loop_fits [of "[]" data m1] printf_decode_loop_encoded [of "[]" data m2]
  by (simp add: printf_decode_def printf_encode_def)

theorem printf_decode_encode_witness:
  "printf_decode 9 (printf_encode 40 [0x22, 0x5c, 0x00, 0x41, 0xff]) = [0x22, 0x5c, 0x00, 0x41, 0xff]"
  by (rule printf_decode_encode) simp_all

section \<open>Lemmas on MAC addresses\<close>

lemma hex2byte_not_sep: "hex2byte s = Some b \<Longrightarrow> s \<noteq> [] \<and> \<not> is_addr_sep (hd s)"
  by (cases s) (auto simp: hex2byte_def is_addr_sep_def hex2num_def split: option.splits if_splits)

lemma aton_loop_head: "aton_loop colon (Suc n) s = Some bs \<Longrightarrow> \<exists>b. hex2byte s = Some b"
  by (auto split: option.splits)

lemma dropWhile_sep_id: "s \<noteq> [] \<Longrightarrow> \<not> is_addr_sep (hd s) \<Longrightarrow> dropWhile is_addr_sep s = s"
  by (cases s) auto

lemma aton2_loop_after_sep:
  "aton2_loop n (drop 3 s) = r \<Longrightarrow> cs_at s 2 = 0x3a \<Longrightarrow> n > 0 \<Longrightarrow> aton2_loop n (drop 2 s) = r"
proof -
  assume r: "aton2_loop n (drop 3 s) = r" and c: "cs_at s 2 = 0x3a" and "n > 0"
  then obtain m where "n = Suc m" using gr0_implies_Suc by blast
  moreover have "2 < length s" using c by (auto simp: cs_at_def split: if_splits)
  then have "drop 2 s = 0x3a # drop 3 s"
    using c Cons_nth_drop_Suc [of 2 s] by (simp add: cs_at_def numeral_3_eq_3 numeral_2_eq_2)
  ultimately show ?thesis using r by (simp add: is_addr_sep_def)
qed

lemma aton2_loop_of_aton_loop:
  "aton_loop colon n s = Some bs \<Longrightarrow> \<exists>rest. aton2_loop n s = Some (bs, rest)"
proof (induction n arbitrary: s bs)
  case (Suc n)
  then obtain b where b: "hex2byte s = Some b" using aton_loop_head by blast
  have skip: "dropWhile is_addr_sep s = s"
    using hex2byte_not_sep [OF b] by (simp add: dropWhile_sep_id)
  show ?case
  proof (cases "colon \<and> n > 0")
    case True
    then obtain bs' where "bs = b # bs'" "cs_at s 2 = 0x3a" "aton_loop colon n (drop 3 s) = Some bs'"
      using Suc.prems b by (auto split: if_splits)
    then show ?thesis
      using Suc.IH [of "drop 3 s" bs'] aton2_loop_after_sep [of n s] True b skip by (fastforce simp: Let_def)
  next
    case False
    then obtain bs' where "bs = b # bs'" "aton_loop colon n (drop 2 s) = Some bs'"
      using Suc.prems b by auto
    then show ?thesis using Suc.IH [of "drop 2 s" bs'] b skip by (fastforce simp: Let_def)
  qed
qed simp

text \<open>hwaddr_aton2 accepts every address that the two strict parsers accept, with the same octets.\<close>

theorem hwaddr_aton2_agrees:
  assumes "hwaddr_aton s = Some addr \<or> hwaddr_compact_aton s = Some addr"
  shows "\<exists>used. hwaddr_aton2 s = Some (used, addr) \<and> used \<le> length s"
proof -
  obtain colon where "aton_loop colon 6 s = Some addr"
    using assms unfolding hwaddr_aton_def hwaddr_compact_aton_def by blast
  then obtain rest where "aton2_loop 6 s = Some (addr, rest)"
    using aton2_loop_of_aton_loop by blast
  then show ?thesis by (simp add: hwaddr_aton2_def)
qed

theorem hwaddr_aton2_agrees_witness:
  "\<exists>used. hwaddr_aton2 [0x30,0x31,0x30,0x32,0x30,0x33,0x30,0x34,0x61,0x62,0x46,0x46]
     = Some (used, [1,2,3,4,0xab,0xff]) \<and> used \<le> 12"
proof -
  have "hwaddr_compact_aton [0x30,0x31,0x30,0x32,0x30,0x33,0x30,0x34,0x61,0x62,0x46,0x46]
      = Some [1,2,3,4,0xab,0xff]"
    by code_simp
  then show ?thesis using hwaddr_aton2_agrees by fastforce
qed

section \<open>Lemmas on counters and arrays\<close>

lemma unat_inc: "b + 1 \<noteq> (0 :: u8) \<Longrightarrow> unat (b + 1) = unat b + 1"
  using unatSuc [of b] by (simp add: add.commute)

lemma inc_byte_array_loop_prefix:
  "\<exists>c'. inc_byte_array_loop (c @ t) (length c) = c' @ t \<and> length c' = length c \<and>
     be_value c' = (be_value c + 1) mod 256 ^ length c"
proof (induction c arbitrary: t rule: rev_induct)
  case (snoc b c)
  show ?case
  proof (cases "b + 1 = 0")
    case True
    then have "b = - 1" by (simp add: eq_neg_iff_add_eq_0)
    then have "be_value (c @ [b]) + 1 = 256 * (be_value c + 1)" by (simp add: unsigned_minus_1_eq_mask mask_eq_exp_minus_1)
    moreover obtain c' where "inc_byte_array_loop (c @ 0 # t) (length c) = c' @ 0 # t"
        "length c' = length c" "be_value c' = (be_value c + 1) mod 256 ^ length c"
      using snoc.IH [of "0 # t"] by blast
    ultimately show ?thesis using True
      by (intro exI [of _ "c' @ [0]"]) (simp add: nth_append list_update_append mult_mod_right)
  next
    case False
    then have "be_value (c @ [b]) + 1 = be_value (c @ [b + 1])" by (simp add: unat_inc)
    then show ?thesis using False be_value_less [of "c @ [b + 1]"]
      by (intro exI [of _ "c @ [b + 1]"]) (simp add: nth_append list_update_append)
  qed
qed simp

text \<open>inc_byte_array adds one to the big endian number, modulo its size.\<close>

theorem inc_byte_array_value:
  "length (inc_byte_array counter) = length counter \<and>
   be_value (inc_byte_array counter) = (be_value counter + 1) mod 256 ^ length counter"
  using inc_byte_array_loop_prefix [of counter "[]"] by (auto simp: inc_byte_array_def)

lemma int_array_unique_loop_spec:
  assumes "i < j" "j \<le> n" "n < length a" "a ! n = 0" "a ! i \<noteq> 0" "\<forall>k\<in>{j..<n}. a ! k \<noteq> 0"
  shows "\<exists>a' i'. int_array_unique_loop a i j = (a', i') \<and> i' < length a' \<and> length a' = length a \<and>
    take (i' + 1) a' = take i a @ remdups_adj (a ! i # drop j (take n a)) \<and> i' < n"
  using assms
proof (induction a i j rule: int_array_unique_loop.induct)
  case (1 a i j)
  show ?case
  proof (cases "j < n")
    case False
    then have "j = n" using 1 by simp
    then show ?thesis using "1.prems"
      by (simp add: int_array_unique_loop.simps [of a i n] take_Suc_conv_app_nth)
  next
    case jn: True
    then have nz: "j < length a \<and> a ! i \<noteq> 0 \<and> a ! j \<noteq> 0" using "1.prems" by auto
    have dr: "drop j (take n a) = a ! j # drop (j + 1) (take n a)"
      using jn "1.prems" by (simp add: Cons_nth_drop_Suc [symmetric])
    show ?thesis
    proof (cases "a ! i = a ! j")
      case True
      then show ?thesis
        using "1.IH"(1) [OF nz True] "1.prems" jn nz dr
        by (simp add: int_array_unique_loop.simps [of a i j] del: drop_take)
    next
      case False
      let ?a = "a[i + 1 := a ! j]"
      have "drop (j + 1) (take n ?a) = drop (j + 1) (take n a)"
        using "1.prems" by (simp add: take_update_swap)
      moreover have "take (i + 1) ?a = take i a @ [a ! i]"
        using "1.prems" by (simp add: take_Suc_conv_app_nth)
      moreover have "\<forall>k\<in>{j + 1..<n}. ?a ! k \<noteq> 0" "?a ! (i + 1) = a ! j" "?a ! n = 0"
        using "1.prems" jn by auto
      ultimately show ?thesis
        using "1.IH"(2) [OF nz False] "1.prems" jn nz dr False
        by (simp add: int_array_unique_loop.simps [of a i j] del: drop_take nth_list_update_eq)
    qed
  qed
qed


lemma distinct_remdups_adj_sorted: "sorted (zs :: int list) \<Longrightarrow> distinct (remdups_adj zs)"
  by (induction zs rule: remdups_adj.induct) auto

lemma remdups_adj_sort: "remdups_adj (sort zs) = sorted_list_of_set (set (zs :: int list))"
  by (rule sorted_distinct_set_unique) (simp_all add: distinct_remdups_adj_sorted)

text \<open>
  int_array_sort_unique leaves the sorted list of the distinct elements in front of the
  terminator, whatever follows the old terminator in memory.
\<close>

theorem int_array_sort_unique_correct:
  assumes "0 \<notin> set xs"
  shows "\<exists>a. int_array_sort_unique (Some (xs @ 0 # rest)) = Some a \<and>
    length a = length xs + 1 + length rest \<and>
    takeWhile (\<lambda>x. x \<noteq> 0) a = sorted_list_of_set (set xs) \<and>
    length (takeWhile (\<lambda>x. x \<noteq> 0) a) < length a"
proof -
  let ?s = "sort xs @ 0 # rest"
  have len: "int_array_len (Some (xs @ 0 # rest)) = length xs"
    using assms by (simp add: int_array_len_def takeWhile_append2)
      (metis (mono_tags, lifting) takeWhile_append2 append_Nil2 takeWhile.simps)
  show ?thesis
  proof (cases xs)
    case Nil
    then show ?thesis
      by (simp add: int_array_sort_unique_def int_array_len_def int_array_unique_loop.simps)
  next
    case (Cons y ys)
    have nz: "\<forall>k<length xs. sort xs ! k \<noteq> 0"
      using assms by (metis length_sort nth_mem set_sort)
    have "0 < length xs" using Cons by simp
    then have i0: "?s ! 0 \<noteq> 0" using nz by (simp add: nth_append)
    have rest_nz: "\<forall>k\<in>{1..<length xs}. ?s ! k \<noteq> 0" using nz by (simp add: nth_append)
    obtain a i where loop: "int_array_unique_loop ?s 0 1 = (a, i)" "i < length a"
        "length a = length ?s" "i < length xs"
        "take (i + 1) a = remdups_adj (?s ! 0 # drop 1 (take (length xs) ?s))"
      using int_array_unique_loop_spec [of 0 1 "length xs" ?s] i0 rest_nz \<open>0 < length xs\<close>
      by (auto simp: nth_append)
    have "?s ! 0 # drop 1 (take (length xs) ?s) = sort xs"
    proof -
      have "take (length xs) ?s = sort xs" "sort xs \<noteq> []" using \<open>0 < length xs\<close>
        by (simp, metis length_0_conv length_sort less_irrefl)
      then show ?thesis by (cases "sort xs") simp_all
    qed
    then have pre: "take (i + 1) a = sorted_list_of_set (set xs)"
      using loop(5) by (simp add: remdups_adj_sort del: sorted_list_of_set_sort_remdups)
    have "a ! i \<in> set (take (i + 1) a)" using loop(2) by (simp add: take_Suc_conv_app_nth)
    then have "a ! i \<in> set xs" unfolding pre by simp
    then have ai: "a ! i \<noteq> 0" using assms by auto
    have "int_array_sort_unique (Some (xs @ 0 # rest)) = Some (a[i + 1 := 0])"
      using len loop(1) ai by (simp add: int_array_sort_unique_def)
    moreover have "takeWhile (\<lambda>x. x \<noteq> 0) (a[i + 1 := 0]) = sorted_list_of_set (set xs)"
    proof -
      have "a[i + 1 := 0] = sorted_list_of_set (set xs) @ 0 # drop (i + 2) a"
        using loop by (simp add: upd_conv_take_nth_drop flip: pre)
      then show ?thesis using assms by (simp add: takeWhile_append)
    qed
    moreover have "length (sorted_list_of_set (set xs)) < length a"
      unfolding pre [symmetric] using loop(3,4) by simp
    ultimately show ?thesis using loop(3) by simp
  qed
qed

theorem int_array_sort_unique_correct_witness:
  "\<exists>a. int_array_sort_unique (Some [2462, 2412, 2462, 0, 7]) = Some a \<and>
     takeWhile (\<lambda>x. x \<noteq> 0) a = [2412, 2462]"
proof -
  have "sorted_list_of_set (set [2462, 2412, 2462]) = [2412, 2462 :: int]"
    by (simp flip: remdups_adj_sort del: set_simps)
  then show ?thesis using int_array_sort_unique_correct [of "[2462, 2412, 2462]" "[7]"] by auto
qed

end
