(* ===== verification/EapCommon.thy ===== *)
theory EapCommon
  imports Prelude
begin

text \<open>
  The packet helpers of \<open>src/eap_common/eap_common.c\<close>. A \<open>wpabuf\<close> is the list of the octets it
  holds, a NULL buffer is \<open>None\<close>. Allocation is a parameter: \<open>alloc n\<close> tells whether a buffer of
  \<open>n\<close> octets can be had. An EAP header has four octets: code, identifier, and the big endian
  length.
\<close>

section \<open>Numbers of the protocol\<close>

abbreviation (input) EAP_CODE_REQUEST :: u8 where "EAP_CODE_REQUEST \<equiv> 1"
abbreviation (input) EAP_CODE_RESPONSE :: u8 where "EAP_CODE_RESPONSE \<equiv> 2"
abbreviation (input) EAP_CODE_SUCCESS :: u8 where "EAP_CODE_SUCCESS \<equiv> 3"
abbreviation (input) EAP_CODE_FAILURE :: u8 where "EAP_CODE_FAILURE \<equiv> 4"

abbreviation (input) EAP_TYPE_NONE :: u32 where "EAP_TYPE_NONE \<equiv> 0"
abbreviation (input) EAP_TYPE_IDENTITY :: u32 where "EAP_TYPE_IDENTITY \<equiv> 1"
abbreviation (input) EAP_TYPE_NOTIFICATION :: u32 where "EAP_TYPE_NOTIFICATION \<equiv> 2"
abbreviation (input) EAP_TYPE_NAK :: u32 where "EAP_TYPE_NAK \<equiv> 3"
abbreviation (input) EAP_TYPE_TLS :: u32 where "EAP_TYPE_TLS \<equiv> 13"
abbreviation (input) EAP_TYPE_LEAP :: u32 where "EAP_TYPE_LEAP \<equiv> 17"
abbreviation (input) EAP_TYPE_AKA :: u32 where "EAP_TYPE_AKA \<equiv> 23"
abbreviation (input) EAP_TYPE_PEAP :: u32 where "EAP_TYPE_PEAP \<equiv> 25"
abbreviation (input) EAP_TYPE_AKA_PRIME :: u32 where "EAP_TYPE_AKA_PRIME \<equiv> 50"
abbreviation (input) EAP_TYPE_EXPANDED :: u32 where "EAP_TYPE_EXPANDED \<equiv> 254"

abbreviation (input) EAP_VENDOR_IETF :: u32 where "EAP_VENDOR_IETF \<equiv> 0"

section \<open>Header fields\<close>

definition hdr_code :: "bytes \<Rightarrow> u8" where
  "hdr_code b = b ! 0"

definition hdr_identifier :: "bytes \<Rightarrow> u8" where
  "hdr_identifier b = b ! 1"

definition hdr_length :: "bytes \<Rightarrow> nat" where
  "hdr_length b = unat (WPA_GET_BE16 (drop 2 b))"

definition eap_hdr_len_valid :: "bytes option \<Rightarrow> nat \<Rightarrow> bool" where
  "eap_hdr_len_valid msg min_payload =
     (case msg of
        None \<Rightarrow> False
      | Some b \<Rightarrow>
          if length b < 4 then False
          else if hdr_length b < 4 + min_payload \<or> hdr_length b > length b then False
          else True)"

text \<open>The payload after the type field: its offset in the message, and its length.\<close>

definition eap_hdr_validate :: "u32 \<Rightarrow> u32 \<Rightarrow> bytes option \<Rightarrow> (nat \<times> nat) option" where
  "eap_hdr_validate vendor eap_type msg =
     (if \<not> eap_hdr_len_valid msg 1 then None
      else
        (let b = the msg; len = hdr_length b in
         if ucast (b ! 4) = EAP_TYPE_EXPANDED then
           (if len < 4 + 8 then None
            else
              (let exp_vendor = WPA_GET_BE24 (drop 5 b); exp_type = WPA_GET_BE32 (drop 8 b) in
               if exp_vendor \<noteq> vendor \<or> exp_type \<noteq> eap_type then None
               else Some (12, len - 4 - 8)))
         else
           (if vendor \<noteq> EAP_VENDOR_IETF \<or> ucast (b ! 4) \<noteq> eap_type then None
            else Some (5, len - 4 - 1))))"

definition eap_msg_len :: "u32 \<Rightarrow> nat \<Rightarrow> nat" where
  "eap_msg_len vendor payload_len = 4 + (if vendor = EAP_VENDOR_IETF then 1 else 8) + payload_len"

definition eap_msg_alloc ::
    "(nat \<Rightarrow> bool) \<Rightarrow> u32 \<Rightarrow> u32 \<Rightarrow> nat \<Rightarrow> u8 \<Rightarrow> u8 \<Rightarrow> bytes option" where
  "eap_msg_alloc alloc vendor type payload_len code identifier =
     (let len = eap_msg_len vendor payload_len in
      if \<not> alloc len then None
      else Some
        ([code, identifier] @ WPA_PUT_BE16 (word_of_nat len) @
         (if vendor = EAP_VENDOR_IETF then [ucast type]
          else [ucast EAP_TYPE_EXPANDED] @ WPA_PUT_BE24 vendor @ WPA_PUT_BE32 type)))"

definition eap_update_len :: "bytes \<Rightarrow> bytes" where
  "eap_update_len msg =
     (if length msg < 4 then msg else buf_put msg 2 (WPA_PUT_BE16 (word_of_nat (length msg))))"

definition eap_get_id :: "bytes \<Rightarrow> u8" where
  "eap_get_id msg = (if length msg < 4 then 0 else hdr_identifier msg)"

definition eap_get_type :: "bytes \<Rightarrow> u32" where
  "eap_get_type msg = (if length msg < 4 + 1 then EAP_TYPE_NONE else ucast (msg ! 4))"

section \<open>Lemmas\<close>

lemma eap_hdr_len_validD:
  assumes "eap_hdr_len_valid msg n"
  obtains b where "msg = Some b" "4 + n \<le> hdr_length b" "hdr_length b \<le> length b"
  using assms by (auto simp: eap_hdr_len_valid_def split: option.splits if_splits)

lemma eap_hdr_validate_in_bounds:
  assumes "eap_hdr_validate vendor typ msg = Some (pos, plen)"
  shows "\<exists>b. msg = Some b \<and> 5 \<le> pos \<and> pos + plen = hdr_length b \<and> hdr_length b \<le> length b"
proof -
  have "eap_hdr_len_valid msg 1" using assms by (simp add: eap_hdr_validate_def split: if_splits)
  then obtain b where "msg = Some b" "5 \<le> hdr_length b" "hdr_length b \<le> length b"
    by (elim eap_hdr_len_validD) simp
  then show ?thesis
    using assms by (auto simp: eap_hdr_validate_def Let_def split: if_splits)
qed

lemma drop_4_eap_msg_alloc:
  "eap_msg_alloc alloc v t n c i = Some m \<Longrightarrow>
     drop 4 m = (if v = EAP_VENDOR_IETF then [ucast t]
                 else [ucast EAP_TYPE_EXPANDED] @ WPA_PUT_BE24 v @ WPA_PUT_BE32 t)"
  by (auto simp: eap_msg_alloc_def Let_def WPA_PUT_BE16_def split: if_splits)

lemma length_eap_msg_alloc:
  "eap_msg_alloc alloc v t n c i = Some m \<Longrightarrow> length m = eap_msg_len v 0"
  by (auto simp: eap_msg_alloc_def eap_msg_len_def Let_def split: if_splits)

lemma drop_eap_update_len: "4 \<le> length m \<Longrightarrow> drop 4 (eap_update_len m) = drop 4 m"
  by (simp add: eap_update_len_def buf_put_def)

lemma length_eap_update_len [simp]: "length (eap_update_len m) = length m"
  by (simp add: eap_update_len_def)

lemma hdr_length_update_len:
  assumes "4 \<le> length m" "length m < 65536"
  shows "hdr_length (eap_update_len m) = length m"
proof -
  have "drop 2 (eap_update_len m) = WPA_PUT_BE16 (word_of_nat (length m)) @ drop 4 m"
    using assms by (simp add: eap_update_len_def buf_put_def)
  then show ?thesis using assms by (simp add: hdr_length_def unat_of_nat)
qed

lemma nth_4_drop: "4 < length m \<Longrightarrow> m ! 4 = hd (drop 4 m)"
  by (simp add: hd_drop_conv_nth)

lemma drop_Suc_from_drop: "m = Suc n \<Longrightarrow> drop n xs = y # ys \<Longrightarrow> drop m xs = ys"
  by (metis drop_Suc list.sel(3) tl_drop)

lemma get_put_BE24 [simp]:
  assumes "v < 2 ^ 24" shows "WPA_GET_BE24 (WPA_PUT_BE24 v @ rest) = v"
proof -
  have "unat (drop_bit 24 v) = 0"
    using assms by (simp add: unat_div drop_bit_eq_div word_less_nat_alt)
  then have "drop_bit 24 v = 0" by (simp add: unat_eq_0)
  then show ?thesis using join4_parts [of v] by (simp add: endian_defs join4_def)
qed

lemma ucast_octet_id:
  assumes "v < 256" shows "ucast (ucast (v :: u32) :: u8) = v"
proof -
  have "unat v < 256" using assms by (simp add: word_less_nat_alt)
  then have "unat (ucast (ucast v :: u8) :: u32) = unat v"
    by (simp add: unsigned_ucast_eq take_bit_eq_mod unat_mod)
  then show ?thesis by (rule unsigned_word_eqI)
qed

text \<open>
  A message that is built with eap_msg_alloc, filled with its payload and closed with
  eap_update_len is accepted by eap_hdr_validate for the same vendor and type, which finds exactly
  the payload.
\<close>

theorem eap_msg_roundtrip:
  assumes "eap_msg_alloc alloc vendor type n code ident = Some m"
    and "length m + length payload < 65536"
    and "vendor < 2 ^ 24" "vendor = EAP_VENDOR_IETF \<Longrightarrow> type < EAP_TYPE_EXPANDED"
  shows "\<exists>pos plen. eap_hdr_validate vendor type (Some (eap_update_len (m @ payload))) = Some (pos, plen)
    \<and> take plen (drop pos (eap_update_len (m @ payload))) = payload"
proof -
  let ?m = "eap_update_len (m @ payload)"
  note lm = length_eap_msg_alloc [OF assms(1)]
  have l: "4 < length m" using lm by (simp add: eap_msg_len_def)
  have hl: "hdr_length ?m = length m + length payload"
    using hdr_length_update_len [of "m @ payload"] l assms(2) by simp
  have d: "drop 4 ?m = drop 4 m @ payload" using drop_eap_update_len [of "m @ payload"] l by simp
  have v: "eap_hdr_len_valid (Some ?m) 1" using hl l by (simp add: eap_hdr_len_valid_def)
  have h: "?m ! 4 = hd (drop 4 m @ payload)" using nth_4_drop [of ?m] l d by simp
  show ?thesis
  proof (cases "vendor = EAP_VENDOR_IETF")
    case True
    then have t: "type < 254" using assms(4) by simp
    have d4: "drop 4 ?m = ucast type # payload"
      using True d drop_4_eap_msg_alloc [OF assms(1)] by simp
    have "drop 5 ?m = payload" by (rule drop_Suc_from_drop [OF _ d4]) simp
    moreover have "ucast (?m ! 4) = type" "type \<noteq> 254"
    proof -
      have "type < 256" using t by (rule order.strict_trans) simp
      then show "ucast (?m ! 4) = type"
        using True h drop_4_eap_msg_alloc [OF assms(1)] ucast_octet_id [of type] by simp
      show "type \<noteq> 254" using t by auto
    qed
    ultimately show ?thesis using True v hl lm
      by (intro exI [of _ 5] exI [of _ "length payload"])
        (simp add: eap_hdr_validate_def eap_msg_len_def)
  next
    case False
    have d4: "drop 4 ?m = 254 # WPA_PUT_BE24 vendor @ WPA_PUT_BE32 type @ payload"
      using False d drop_4_eap_msg_alloc [OF assms(1)] by simp
    have d5: "drop 5 ?m = WPA_PUT_BE24 vendor @ WPA_PUT_BE32 type @ payload"
      by (rule drop_Suc_from_drop [OF _ d4]) simp
    have "drop 8 ?m = drop 3 (drop 5 ?m)" "drop 12 ?m = drop 7 (drop 5 ?m)" by simp_all
    then have d8: "drop 8 ?m = WPA_PUT_BE32 type @ payload" and d12: "drop 12 ?m = payload"
      unfolding d5 by simp_all
    have h4: "?m ! 4 = 254" using h drop_4_eap_msg_alloc [OF assms(1)] False by simp
    show ?thesis using False v hl h4 d5 d8 d12 lm assms(3)
      by (intro exI [of _ 12] exI [of _ "length payload"])
        (simp add: eap_hdr_validate_def eap_msg_len_def Let_def)
  qed
qed

theorem eap_msg_roundtrip_witness:
  "\<exists>pos plen. eap_hdr_validate 0 1 (Some (eap_update_len ([2, 7, 0, 8, 1] @ [0x61, 0x62]))) = Some (pos, plen)
     \<and> take plen (drop pos (eap_update_len ([2, 7, 0, 8, 1] @ [0x61, 0x62]))) = [0x61, 0x62]"
proof (rule eap_msg_roundtrip)
  show "eap_msg_alloc (\<lambda>_. True) 0 1 3 2 7 = Some [2, 7, 0, 8, 1]"
    by (simp add: eap_msg_alloc_def eap_msg_len_def WPA_PUT_BE16_def)
qed simp_all

end
