(* ===== verification/EapPeer.thy ===== *)
theory EapPeer
  imports EapCommon
begin

text \<open>
  The EAP peer state machine (RFC 4137) of \<open>src/eap_peer/eap.c\<close>.

  The state machine keeps its variables in \<open>eap_sm\<close> and reaches the variables it shares with the
  lower layer only through the callbacks of \<open>struct eapol_callbacks\<close>; the record
  \<open>eapol_callbacks\<close> is that structure, for a lower layer context of any type \<open>'c\<close>. The registered
  EAP methods are a list of records of functions (\<open>struct eap_method\<close>); a method has private data
  of type \<open>'p\<close> and reaches the state machine only through \<open>method_ctx\<close>, the fields that the
  methods under \<open>src/eap_peer\<close> read and write. The pointer \<open>sm->m\<close> is an index into that list.

  The environment \<open>eap_env\<close> holds what lies outside the component: the method list, the outcome of
  allocations, the MD5 function and the smart card. Status notifications and control interface
  messages only inform and are not modelled.
\<close>

section \<open>Data\<close>

datatype EapDecision = DECISION_FAIL | DECISION_COND_SUCC | DECISION_UNCOND_SUCC

datatype EapMethodState = METHOD_NONE | METHOD_INIT | METHOD_CONT | METHOD_MAY_CONT | METHOD_DONE

datatype eap_state =
    EAP_INITIALIZE | EAP_DISABLED | EAP_IDLE | EAP_RECEIVED | EAP_GET_METHOD | EAP_METHOD
  | EAP_SEND_RESPONSE | EAP_DISCARD | EAP_IDENTITY | EAP_NOTIFICATION | EAP_RETRANSMIT
  | EAP_SUCCESS | EAP_FAILURE

datatype eapol_bool_var =
    EAPOL_eapSuccess | EAPOL_eapRestart | EAPOL_eapFail | EAPOL_eapResp | EAPOL_eapNoResp
  | EAPOL_eapReq | EAPOL_portEnabled | EAPOL_altAccept | EAPOL_altReject

datatype eapol_int_var = EAPOL_idleWhile

datatype wpa_ctrl_req_type =
    WPA_CTRL_REQ_EAP_IDENTITY | WPA_CTRL_REQ_EAP_PASSWORD | WPA_CTRL_REQ_EAP_NEW_PASSWORD
  | WPA_CTRL_REQ_EAP_PIN | WPA_CTRL_REQ_EAP_OTP | WPA_CTRL_REQ_EAP_PASSPHRASE | WPA_CTRL_REQ_SIM

text \<open>
  The fields of \<open>struct eap_peer_config\<close> that the state machine uses. \<open>cfg_addr\<close> stands for the
  address of the structure, which is compared with \<open>last_config\<close>.
\<close>

record eap_peer_config =
  cfg_addr :: nat
  cfg_identity :: "bytes option"
  cfg_anonymous_identity :: "bytes option"
  cfg_eap_methods :: "(u32 \<times> u32) list option"
  cfg_pcsc :: bool
  cfg_pin :: "bytes option"
  cfg_pending_req_identity :: nat
  cfg_pending_req_password :: nat
  cfg_pending_req_new_password :: nat
  cfg_pending_req_pin :: nat
  cfg_pending_req_passphrase :: nat
  cfg_pending_req_otp :: "bytes option"

record 'c eapol_callbacks =
  cb_get_config :: "'c \<Rightarrow> eap_peer_config option"
  cb_put_config :: "eap_peer_config option \<Rightarrow> 'c \<Rightarrow> 'c"
  cb_get_bool :: "eapol_bool_var \<Rightarrow> 'c \<Rightarrow> bool"
  cb_set_bool :: "eapol_bool_var \<Rightarrow> bool \<Rightarrow> 'c \<Rightarrow> 'c"
  cb_get_int :: "eapol_int_var \<Rightarrow> 'c \<Rightarrow> nat"
  cb_set_int :: "eapol_int_var \<Rightarrow> nat \<Rightarrow> 'c \<Rightarrow> 'c"
  cb_get_eapReqData :: "'c \<Rightarrow> bytes option"

record eap_method_ret =
  ret_ignore :: bool
  ret_methodState :: EapMethodState
  ret_decision :: EapDecision
  ret_allowNotifications :: bool

record method_ctx =
  mc_ClientTimeout :: nat
  mc_leap_done :: bool
  mc_peap_done :: bool
  mc_expected_failure :: bool
  mc_config :: "eap_peer_config option"

record 'p eap_method =
  m_vendor :: u32
  m_method :: u32
  m_init :: "method_ctx \<Rightarrow> 'p option \<times> method_ctx"
  m_process :: "'p option \<Rightarrow> method_ctx \<Rightarrow> eap_method_ret \<Rightarrow> bytes \<Rightarrow>
                  'p \<times> method_ctx \<times> eap_method_ret \<times> bytes option"
  m_isKeyAvailable :: "('p option \<Rightarrow> bool) option"
  m_getKey :: "('p option \<Rightarrow> bytes option) option"
  m_getSessionId :: "('p option \<Rightarrow> bytes option) option"
  m_has_reauth_data :: "('p option \<Rightarrow> bool) option"
  m_deinit_for_reauth :: "'p option \<Rightarrow> 'p"
  m_init_for_reauth :: "'p option \<Rightarrow> method_ctx \<Rightarrow> 'p option \<times> method_ctx"
  m_get_identity :: "('p option \<Rightarrow> bytes option) option"

record 'p eap_env =
  env_methods :: "'p eap_method list"
  env_alloc :: "nat \<Rightarrow> bool"
  env_md5 :: "bytes \<Rightarrow> bytes"
  env_scard_set_pin :: "bytes option \<Rightarrow> bool"
  env_scard_imsi :: "bytes option"
  env_scard_mnc_len :: int

record 'p eap_sm =
  EAP_state :: eap_state
  selectedMethod :: u32
  methodState :: EapMethodState
  lastId :: int
  lastRespData :: "bytes option"
  decision :: EapDecision
  rxReq :: bool
  rxSuccess :: bool
  rxFailure :: bool
  reqId :: int
  reqMethod :: u32
  reqVendor :: u32
  reqVendorMethod :: u32
  ignore :: bool
  ClientTimeout :: nat
  allowNotifications :: bool
  eapRespData :: "bytes option"
  eapKeyAvailable :: bool
  eapKeyData :: "bytes option"
  eapSessionId :: "bytes option"
  sm_m :: "nat option"
  eap_changed :: bool
  eap_method_priv :: "'p option"
  fast_reauth :: bool
  rxResp :: bool
  leap_done :: bool
  peap_done :: bool
  req_md5 :: bytes
  last_md5 :: bytes
  workaround :: bool
  num_rounds :: nat
  force_disabled :: bool
  prev_failure :: bool
  last_config :: nat
  expected_failure :: bool
  ext_pw_buf :: "bytes option"

abbreviation (input) EAP_MAX_AUTH_ROUNDS :: nat where "EAP_MAX_AUTH_ROUNDS \<equiv> 50"
abbreviation (input) EAP_CLIENT_TIMEOUT_DEFAULT :: nat where "EAP_CLIENT_TIMEOUT_DEFAULT \<equiv> 60"

text \<open>\<open>os_zalloc\<close> followed by the assignments of \<open>eap_peer_sm_init\<close>.\<close>

definition eap_peer_sm_init :: "bool \<Rightarrow> bool \<Rightarrow> 'p eap_sm option" where
  "eap_peer_sm_init alloc_ok tls_ok =
     (if \<not> alloc_ok then None
      else if \<not> tls_ok then None
      else Some
       \<lparr>EAP_state = EAP_INITIALIZE, selectedMethod = EAP_TYPE_NONE, methodState = METHOD_NONE,
        lastId = 0, lastRespData = None, decision = DECISION_FAIL, rxReq = False,
        rxSuccess = False, rxFailure = False, reqId = 0, reqMethod = EAP_TYPE_NONE,
        reqVendor = 0, reqVendorMethod = 0, ignore = False,
        ClientTimeout = EAP_CLIENT_TIMEOUT_DEFAULT, allowNotifications = False,
        eapRespData = None, eapKeyAvailable = False, eapKeyData = None, eapSessionId = None,
        sm_m = None, eap_changed = False, eap_method_priv = None, fast_reauth = False,
        rxResp = False, leap_done = False, peap_done = False,
        req_md5 = replicate 16 0, last_md5 = replicate 16 0, workaround = False,
        num_rounds = 0, force_disabled = False, prev_failure = False, last_config = 0,
        expected_failure = False, ext_pw_buf = None\<rparr>)"

section \<open>Helpers\<close>

definition last_config_addr :: "eap_peer_config option \<Rightarrow> nat" where
  "last_config_addr cfg = (case cfg of None \<Rightarrow> 0 | Some c \<Rightarrow> cfg_addr c)"

definition eap_sm_free_key :: "'p eap_sm \<Rightarrow> 'p eap_sm" where
  "eap_sm_free_key sm = sm\<lparr>eapKeyData := None\<rparr>"

definition eap_deinit_prev_method :: "'p eap_sm \<Rightarrow> 'p eap_sm" where
  "eap_deinit_prev_method sm =
     (let sm = sm\<lparr>ext_pw_buf := None\<rparr> in
      if sm_m sm = None \<or> eap_method_priv sm = None then sm
      else sm\<lparr>eap_method_priv := None, sm_m := None\<rparr>)"

text \<open>The list of allowed methods ends at the entry with vendor and method zero.\<close>

fun eap_allowed_loop :: "(u32 \<times> u32) list \<Rightarrow> u32 \<Rightarrow> u32 \<Rightarrow> bool" where
  "eap_allowed_loop [] vendor method = False"
| "eap_allowed_loop ((v, t) # ms) vendor method =
     (if v = EAP_VENDOR_IETF \<and> t = EAP_TYPE_NONE then False
      else if v = vendor \<and> t = method then True
      else eap_allowed_loop ms vendor method)"

definition eap_allowed_method :: "eap_peer_config option \<Rightarrow> u32 \<Rightarrow> u32 \<Rightarrow> bool" where
  "eap_allowed_method config vendor method =
     (case config of
        None \<Rightarrow> True
      | Some cfg \<Rightarrow>
          (case cfg_eap_methods cfg of
             None \<Rightarrow> True
           | Some m \<Rightarrow> eap_allowed_loop m vendor method))"

fun get_method_loop :: "'p eap_method list \<Rightarrow> nat \<Rightarrow> u32 \<Rightarrow> u32 \<Rightarrow> nat option" where
  "get_method_loop [] i vendor method = None"
| "get_method_loop (m # ms) i vendor method =
     (if m_vendor m = vendor \<and> m_method m = method then Some i
      else get_method_loop ms (Suc i) vendor method)"

definition eap_peer_get_eap_method :: "'p eap_env \<Rightarrow> u32 \<Rightarrow> u32 \<Rightarrow> nat option" where
  "eap_peer_get_eap_method env vendor method = get_method_loop (env_methods env) 0 vendor method"

definition eap_sm_allowMethod :: "'p eap_env \<Rightarrow> eap_peer_config option \<Rightarrow> u32 \<Rightarrow> u32 \<Rightarrow> bool" where
  "eap_sm_allowMethod env config vendor method =
     (if \<not> eap_allowed_method config vendor method then False
      else eap_peer_get_eap_method env vendor method \<noteq> None)"

text \<open>The method that \<open>sm->m\<close> points to; callers have checked that it is not NULL.\<close>

definition cur_method :: "'p eap_env \<Rightarrow> 'p eap_sm \<Rightarrow> 'p eap_method" where
  "cur_method env sm = env_methods env ! the (sm_m sm)"

text \<open>What a method sees of the state machine, and writing its changes back.\<close>

definition method_ctx_of :: "'c eapol_callbacks \<Rightarrow> 'p eap_sm \<Rightarrow> 'c \<Rightarrow> method_ctx" where
  "method_ctx_of cb sm c =
     \<lparr>mc_ClientTimeout = ClientTimeout sm, mc_leap_done = leap_done sm,
      mc_peap_done = peap_done sm, mc_expected_failure = expected_failure sm,
      mc_config = cb_get_config cb c\<rparr>"

definition put_method_ctx :: "method_ctx \<Rightarrow> 'p eap_sm \<Rightarrow> 'p eap_sm" where
  "put_method_ctx mc sm =
     sm\<lparr>ClientTimeout := mc_ClientTimeout mc, leap_done := mc_leap_done mc,
        peap_done := mc_peap_done mc, expected_failure := mc_expected_failure mc\<rparr>"

text \<open>
  \<open>eap_sm_request\<close> for the requests without a message: the counter of pending requests is
  incremented. A one-time-password request without a message only repeats a pending one.
\<close>

definition eap_sm_request ::
    "wpa_ctrl_req_type \<Rightarrow> bool \<Rightarrow> bytes option \<Rightarrow> eap_peer_config option \<Rightarrow> eap_peer_config option" where
  "eap_sm_request field malloc_ok msg config =
     (case config of
        None \<Rightarrow> None
      | Some cfg \<Rightarrow> Some
         (case field of
            WPA_CTRL_REQ_EAP_IDENTITY \<Rightarrow>
              cfg\<lparr>cfg_pending_req_identity := cfg_pending_req_identity cfg + 1\<rparr>
          | WPA_CTRL_REQ_EAP_PASSWORD \<Rightarrow>
              cfg\<lparr>cfg_pending_req_password := cfg_pending_req_password cfg + 1\<rparr>
          | WPA_CTRL_REQ_EAP_NEW_PASSWORD \<Rightarrow>
              cfg\<lparr>cfg_pending_req_new_password := cfg_pending_req_new_password cfg + 1\<rparr>
          | WPA_CTRL_REQ_EAP_PIN \<Rightarrow>
              cfg\<lparr>cfg_pending_req_pin := cfg_pending_req_pin cfg + 1\<rparr>
          | WPA_CTRL_REQ_EAP_OTP \<Rightarrow>
              (case msg of
                 None \<Rightarrow> cfg
               | Some txt \<Rightarrow>
                   if malloc_ok then cfg\<lparr>cfg_pending_req_otp := Some ([0x5b] @ txt @ [0x5d])\<rparr>
                   else cfg)
          | WPA_CTRL_REQ_EAP_PASSPHRASE \<Rightarrow>
              cfg\<lparr>cfg_pending_req_passphrase := cfg_pending_req_passphrase cfg + 1\<rparr>
          | WPA_CTRL_REQ_SIM \<Rightarrow> cfg))"

section \<open>Smart card identity\<close>

text \<open>\<open>atoi\<close> on the three country code digits of an IMSI; a character that is no digit stops it.\<close>

fun atoi_digits :: "nat \<Rightarrow> bytes \<Rightarrow> nat" where
  "atoi_digits v [] = v"
| "atoi_digits v (c # s) =
     (if 0x30 \<le> c \<and> c \<le> 0x39 then atoi_digits (10 * v + unat (c - 0x30)) s else v)"

definition mnc_len_from_imsi :: "bytes \<Rightarrow> int" where
  "mnc_len_from_imsi imsi =
     (let mcc = atoi_digits 0 (take 3 imsi) in
      if mcc = 228 then 2 else if mcc = 244 then 2 else - 1)"

text \<open>
  The text \<open>@wlan.mnc...mcc....3gppnetwork.org\<close> appended to an IMSI; the buffer has 100 octets.
  \<open>scard_get_mnc_len\<close> returns 2, 3 or a negative error.
\<close>

definition eap_sm_append_3gpp_realm :: "'p eap_env \<Rightarrow> bytes \<Rightarrow> bytes option" where
  "eap_sm_append_3gpp_realm env imsi =
     (if length imsi + 36 > 100 then None
      else
        (let mnc_len = env_scard_mnc_len env;
             mnc_len = (if mnc_len < 0 then mnc_len_from_imsi imsi else mnc_len);
             mnc_len = (if mnc_len < 0 then 3 else mnc_len);
             mnc = (if mnc_len = 2 then [0x30, imsi ! 3, imsi ! 4]
                    else [imsi ! 3, imsi ! 4, imsi ! 5])
         in Some (imsi @ [0x40, 0x77, 0x6c, 0x61, 0x6e, 0x2e, 0x6d, 0x6e, 0x63] @ mnc @
              [0x2e, 0x6d, 0x63, 0x63, imsi ! 0, imsi ! 1, imsi ! 2] @
              [0x2e, 0x33, 0x67, 0x70, 0x70, 0x6e, 0x65, 0x74, 0x77, 0x6f, 0x72, 0x6b,
               0x2e, 0x6f, 0x72, 0x67])))"

fun imsi_method_digit :: "(u32 \<times> u32) list \<Rightarrow> u8" where
  "imsi_method_digit [] = 0x31"
| "imsi_method_digit ((v, t) # ms) =
     (if v = EAP_VENDOR_IETF \<and> t = EAP_TYPE_NONE then 0x31
      else if v = EAP_VENDOR_IETF \<and> t = EAP_TYPE_AKA_PRIME then 0x36
      else if v = EAP_VENDOR_IETF \<and> t = EAP_TYPE_AKA then 0x30
      else imsi_method_digit ms)"

text \<open>The result says whether the identity could be built; a failed allocation clears it.\<close>

definition eap_sm_imsi_identity :: "'p eap_env \<Rightarrow> eap_peer_config \<Rightarrow> bool \<times> eap_peer_config" where
  "eap_sm_imsi_identity env conf =
     (case env_scard_imsi env of
        None \<Rightarrow> (False, conf)
      | Some imsi \<Rightarrow>
          if length imsi < 7 then (False, conf)
          else
            (case eap_sm_append_3gpp_realm env imsi of
               None \<Rightarrow> (False, conf)
             | Some imsi \<Rightarrow>
                 (let digit = imsi_method_digit (case cfg_eap_methods conf of None \<Rightarrow> [] | Some m \<Rightarrow> m) in
                  if \<not> env_alloc env (1 + length imsi) then (False, conf\<lparr>cfg_identity := None\<rparr>)
                  else (True, conf\<lparr>cfg_identity := Some (digit # imsi)\<rparr>))))"

definition eap_sm_set_scard_pin :: "'p eap_env \<Rightarrow> eap_peer_config \<Rightarrow> bool \<times> eap_peer_config" where
  "eap_sm_set_scard_pin env conf =
     (if \<not> env_scard_set_pin env (cfg_pin conf) then
        (False, the (eap_sm_request WPA_CTRL_REQ_EAP_PIN True None (Some (conf\<lparr>cfg_pin := None\<rparr>))))
      else (True, conf))"

definition eap_sm_get_scard_identity :: "'p eap_env \<Rightarrow> eap_peer_config \<Rightarrow> bool \<times> eap_peer_config" where
  "eap_sm_get_scard_identity env conf =
     (case eap_sm_set_scard_pin env conf of
        (False, conf) \<Rightarrow> (False, conf)
      | (True, conf) \<Rightarrow> eap_sm_imsi_identity env conf)"

section \<open>Building responses\<close>

fun nak_expanded_types ::
    "eap_peer_config option \<Rightarrow> u32 \<Rightarrow> u32 \<Rightarrow> 'p eap_method list \<Rightarrow> bytes" where
  "nak_expanded_types config vend meth [] = []"
| "nak_expanded_types config vend meth (m # ms) =
     (if vend = m_vendor m \<and> meth = m_method m then nak_expanded_types config vend meth ms
      else if eap_allowed_method config (m_vendor m) (m_method m) then
        [ucast EAP_TYPE_EXPANDED] @ WPA_PUT_BE24 (m_vendor m) @ WPA_PUT_BE32 (m_method m) @
          nak_expanded_types config vend meth ms
      else nak_expanded_types config vend meth ms)"

definition eap_sm_build_expanded_nak ::
    "'p eap_env \<Rightarrow> eap_peer_config option \<Rightarrow> 'p eap_sm \<Rightarrow> int \<Rightarrow> bytes option" where
  "eap_sm_build_expanded_nak env config sm ident =
     (case eap_msg_alloc (env_alloc env) EAP_VENDOR_IETF EAP_TYPE_EXPANDED
             (8 + 8 * (length (env_methods env) + 1)) EAP_CODE_RESPONSE (word_of_int ident) of
        None \<Rightarrow> None
      | Some resp \<Rightarrow>
          (let types = nak_expanded_types config (reqVendor sm) (reqVendorMethod sm) (env_methods env);
               types = (if types = [] then
                          [ucast EAP_TYPE_EXPANDED] @ WPA_PUT_BE24 EAP_VENDOR_IETF @ WPA_PUT_BE32 EAP_TYPE_NONE
                        else types)
           in Some (eap_update_len
                (resp @ WPA_PUT_BE24 EAP_VENDOR_IETF @ WPA_PUT_BE32 EAP_TYPE_NAK @ types))))"

fun nak_types :: "eap_peer_config option \<Rightarrow> u32 \<Rightarrow> bool \<Rightarrow> 'p eap_method list \<Rightarrow> bytes" where
  "nak_types config reqm expanded_found [] = []"
| "nak_types config reqm expanded_found (m # ms) =
     (if m_vendor m = EAP_VENDOR_IETF \<and> m_method m = reqm then nak_types config reqm expanded_found ms
      else if eap_allowed_method config (m_vendor m) (m_method m) then
        (if m_vendor m \<noteq> EAP_VENDOR_IETF then
           (if expanded_found then nak_types config reqm expanded_found ms
            else ucast EAP_TYPE_EXPANDED # nak_types config reqm True ms)
         else ucast (m_method m) # nak_types config reqm expanded_found ms)
      else nak_types config reqm expanded_found ms)"

definition eap_sm_buildNak ::
    "'p eap_env \<Rightarrow> eap_peer_config option \<Rightarrow> 'p eap_sm \<Rightarrow> int \<Rightarrow> bytes option" where
  "eap_sm_buildNak env config sm ident =
     (if env_methods env = [] then None
      else if reqMethod sm = EAP_TYPE_EXPANDED then eap_sm_build_expanded_nak env config sm ident
      else
        (case eap_msg_alloc (env_alloc env) EAP_VENDOR_IETF EAP_TYPE_NAK
                (4 + 1 + length (env_methods env) + 1) EAP_CODE_RESPONSE (word_of_int ident) of
           None \<Rightarrow> None
         | Some resp \<Rightarrow>
             (let types = nak_types config (reqMethod sm) False (env_methods env)
              in Some (eap_update_len
                   (resp @ (if types = [] then [ucast EAP_TYPE_NONE] else types))))))"

text \<open>The response, and the configuration, whose identity and request counters may change.\<close>

definition eap_sm_buildIdentity ::
    "'p eap_env \<Rightarrow> eap_peer_config option \<Rightarrow> 'p eap_sm \<Rightarrow> int \<Rightarrow> bool \<Rightarrow>
       bytes option \<times> eap_peer_config option" where
  "eap_sm_buildIdentity env config sm ident encrypted =
     (case config of
        None \<Rightarrow> (None, None)
      | Some cfg \<Rightarrow>
          (let method_id =
                 (if sm_m sm = None then None
                  else case m_get_identity (cur_method env sm) of
                         None \<Rightarrow> None
                       | Some f \<Rightarrow> f (eap_method_priv sm));
               identity =
                 (if method_id \<noteq> None then method_id
                  else if \<not> encrypted \<and> cfg_anonymous_identity cfg \<noteq> None
                  then cfg_anonymous_identity cfg
                  else cfg_identity cfg);
               step =
                 (if identity = None then
                    (if cfg_pcsc cfg then
                       (case eap_sm_get_scard_identity env cfg of
                          (False, cfg) \<Rightarrow> Inl cfg
                        | (True, cfg) \<Rightarrow> Inr (cfg_identity cfg, cfg))
                     else Inl (the (eap_sm_request WPA_CTRL_REQ_EAP_IDENTITY True None (Some cfg))))
                  else if cfg_pcsc cfg then
                    (case eap_sm_set_scard_pin env cfg of
                       (False, cfg) \<Rightarrow> Inl cfg
                     | (True, cfg) \<Rightarrow> Inr (identity, cfg))
                  else Inr (identity, cfg))
           in case step of
                Inl cfg \<Rightarrow> (None, Some cfg)
              | Inr (identity, cfg) \<Rightarrow>
                  (let d = (case identity of None \<Rightarrow> [] | Some i \<Rightarrow> i) in
                   case eap_msg_alloc (env_alloc env) EAP_VENDOR_IETF EAP_TYPE_IDENTITY (length d)
                          EAP_CODE_RESPONSE (word_of_int ident) of
                     None \<Rightarrow> (None, Some cfg)
                   | Some resp \<Rightarrow> (Some (resp @ d), Some cfg))))"

definition eap_sm_buildNotify :: "'p eap_env \<Rightarrow> int \<Rightarrow> bytes option" where
  "eap_sm_buildNotify env ident =
     eap_msg_alloc (env_alloc env) EAP_VENDOR_IETF EAP_TYPE_NOTIFICATION 0 EAP_CODE_RESPONSE
       (word_of_int ident)"

section \<open>Parsing a request\<close>

definition eap_sm_parseEapReq :: "'p eap_env \<Rightarrow> bytes option \<Rightarrow> 'p eap_sm \<Rightarrow> 'p eap_sm" where
  "eap_sm_parseEapReq env req sm =
     (let sm = sm\<lparr>rxReq := False, rxResp := False, rxSuccess := False, rxFailure := False,
                  reqId := 0, reqMethod := EAP_TYPE_NONE, reqVendor := EAP_VENDOR_IETF,
                  reqVendorMethod := EAP_TYPE_NONE\<rparr> in
      case req of
        None \<Rightarrow> sm
      | Some b \<Rightarrow>
          if length b < 4 then sm
          else
            (let plen = hdr_length b in
             if plen > length b then sm
             else
               (let sm = sm\<lparr>reqId := uint (hdr_identifier b)\<rparr>;
                    sm = (if workaround sm then sm\<lparr>req_md5 := env_md5 env (take plen b)\<rparr> else sm);
                    code = hdr_code b
                in
                if code = EAP_CODE_REQUEST then
                  (if plen < 4 + 1 then sm
                   else
                     (let sm = sm\<lparr>rxReq := True, reqMethod := ucast (b ! 4)\<rparr> in
                      if reqMethod sm = EAP_TYPE_EXPANDED then
                        (if plen < 4 + 8 then sm
                         else sm\<lparr>reqVendor := WPA_GET_BE24 (drop 5 b),
                                 reqVendorMethod := WPA_GET_BE32 (drop 8 b)\<rparr>)
                      else sm))
                else if code = EAP_CODE_RESPONSE then
                  (if selectedMethod sm = EAP_TYPE_LEAP then
                     (if plen < 4 + 1 then sm
                      else sm\<lparr>rxResp := True, reqMethod := ucast (b ! 4)\<rparr>)
                   else sm)
                else if code = EAP_CODE_SUCCESS then sm\<lparr>rxSuccess := True\<rparr>
                else if code = EAP_CODE_FAILURE then sm\<lparr>rxFailure := True\<rparr>
                else sm)))"

section \<open>State entry actions\<close>

text \<open>\<open>SM_ENTRY\<close>: the flag \<open>changed\<close> is set unless a global transition re-enters the same state.\<close>

definition EAP_entry :: "eap_state \<Rightarrow> bool \<Rightarrow> 'p eap_sm \<Rightarrow> 'p eap_sm" where
  "EAP_entry st glob sm =
     sm\<lparr>eap_changed := (if \<not> glob \<or> EAP_state sm \<noteq> st then True else eap_changed sm),
        EAP_state := st\<rparr>"

definition sm_EAP_INITIALIZE_Enter ::
    "'p eap_env \<Rightarrow> 'c eapol_callbacks \<Rightarrow> bool \<Rightarrow> 'p eap_sm \<times> 'c \<Rightarrow> 'p eap_sm \<times> 'c" where
  "sm_EAP_INITIALIZE_Enter env cb glob = (\<lambda>(sm, c).
     let sm = EAP_entry EAP_INITIALIZE glob sm;
         keep = fast_reauth sm \<and> sm_m sm \<noteq> None \<and>
                (case m_has_reauth_data (cur_method env sm) of
                   None \<Rightarrow> False | Some f \<Rightarrow> f (eap_method_priv sm)) \<and>
                \<not> prev_failure sm \<and>
                last_config sm = last_config_addr (cb_get_config cb c);
         sm = (if keep then
                 sm\<lparr>eap_method_priv := map_option
                      (\<lambda>_. m_deinit_for_reauth (cur_method env sm) (eap_method_priv sm)) (eap_method_priv sm)\<rparr>
               else eap_deinit_prev_method
                      (sm\<lparr>last_config := last_config_addr (cb_get_config cb c)\<rparr>));
         sm = sm\<lparr>selectedMethod := EAP_TYPE_NONE, methodState := METHOD_NONE,
                 allowNotifications := True, decision := DECISION_FAIL,
                 ClientTimeout := EAP_CLIENT_TIMEOUT_DEFAULT\<rparr>;
         c = cb_set_int cb EAPOL_idleWhile (ClientTimeout sm) c;
         c = cb_set_bool cb EAPOL_eapSuccess False c;
         c = cb_set_bool cb EAPOL_eapFail False c;
         sm = (eap_sm_free_key sm)\<lparr>eapSessionId := None, eapKeyAvailable := False\<rparr>;
         c = cb_set_bool cb EAPOL_eapRestart False c;
         sm = sm\<lparr>lastId := - 1\<rparr>;
         c = cb_set_bool cb EAPOL_eapResp False c;
         c = cb_set_bool cb EAPOL_eapNoResp False c;
         sm = sm\<lparr>num_rounds := 0, prev_failure := False, expected_failure := False\<rparr>
     in (sm, c))"

definition sm_EAP_DISABLED_Enter ::
    "'c eapol_callbacks \<Rightarrow> bool \<Rightarrow> 'p eap_sm \<times> 'c \<Rightarrow> 'p eap_sm \<times> 'c" where
  "sm_EAP_DISABLED_Enter cb glob = (\<lambda>(sm, c).
     ((EAP_entry EAP_DISABLED glob sm)\<lparr>num_rounds := 0\<rparr>, cb_set_int cb EAPOL_idleWhile 0 c))"

definition sm_EAP_IDLE_Enter :: "bool \<Rightarrow> 'p eap_sm \<times> 'c \<Rightarrow> 'p eap_sm \<times> 'c" where
  "sm_EAP_IDLE_Enter glob = (\<lambda>(sm, c). (EAP_entry EAP_IDLE glob sm, c))"

definition sm_EAP_RECEIVED_Enter ::
    "'p eap_env \<Rightarrow> 'c eapol_callbacks \<Rightarrow> bool \<Rightarrow> 'p eap_sm \<times> 'c \<Rightarrow> 'p eap_sm \<times> 'c" where
  "sm_EAP_RECEIVED_Enter env cb glob = (\<lambda>(sm, c).
     let sm = eap_sm_parseEapReq env (cb_get_eapReqData cb c) (EAP_entry EAP_RECEIVED glob sm)
     in (sm\<lparr>num_rounds := num_rounds sm + 1\<rparr>, c))"

text \<open>The code after the label \<open>nak\<close>.\<close>

definition get_method_nak ::
    "'p eap_env \<Rightarrow> 'c eapol_callbacks \<Rightarrow> 'p eap_sm \<times> 'c \<Rightarrow> 'p eap_sm \<times> 'c" where
  "get_method_nak env cb = (\<lambda>(sm, c).
     (sm\<lparr>eapRespData := eap_sm_buildNak env (cb_get_config cb c) sm (reqId sm)\<rparr>, c))"

definition req_method_number :: "'p eap_sm \<Rightarrow> u32" where
  "req_method_number sm =
     (if reqMethod sm = EAP_TYPE_EXPANDED then reqVendorMethod sm else reqMethod sm)"

text \<open>The condition for keeping the data of the previous method for fast re-authentication.\<close>

definition get_method_reinit :: "'p eap_env \<Rightarrow> 'p eap_sm \<Rightarrow> u32 \<Rightarrow> bool" where
  "get_method_reinit env sm method \<longleftrightarrow>
     fast_reauth sm \<and> sm_m sm \<noteq> None \<and>
     m_vendor (cur_method env sm) = reqVendor sm \<and>
     m_method (cur_method env sm) = method \<and>
     (case m_has_reauth_data (cur_method env sm) of
        None \<Rightarrow> False | Some f \<Rightarrow> f (eap_method_priv sm))"

text \<open>Initialization of the selected method.\<close>

definition get_method_init ::
    "'p eap_env \<Rightarrow> 'c eapol_callbacks \<Rightarrow> bool \<Rightarrow> 'p eap_sm \<times> 'c \<Rightarrow> 'p eap_sm \<times> 'c" where
  "get_method_init env cb reinit = (\<lambda>(sm, c).
     let sm = sm\<lparr>ClientTimeout := EAP_CLIENT_TIMEOUT_DEFAULT\<rparr>;
         (priv, mc) =
           (if reinit then
              m_init_for_reauth (cur_method env sm) (eap_method_priv sm) (method_ctx_of cb sm c)
            else m_init (cur_method env sm) (method_ctx_of cb sm c))
     in ((put_method_ctx mc sm)\<lparr>eap_method_priv := priv\<rparr>, cb_put_config cb (mc_config mc) c))"

text \<open>What follows a failed initialization; a pending PIN or passphrase suppresses the Nak.\<close>

definition get_method_failed ::
    "'p eap_env \<Rightarrow> 'c eapol_callbacks \<Rightarrow> 'p eap_sm \<times> 'c \<Rightarrow> 'p eap_sm \<times> 'c" where
  "get_method_failed env cb = (\<lambda>(sm, c).
     let sm = sm\<lparr>sm_m := None, methodState := METHOD_NONE, selectedMethod := EAP_TYPE_NONE\<rparr> in
     if reqMethod sm = EAP_TYPE_TLS \<and>
        (case cb_get_config cb c of
           None \<Rightarrow> False
         | Some cfg \<Rightarrow> cfg_pending_req_pin cfg > 0 \<or> cfg_pending_req_passphrase cfg > 0)
     then (sm, c)
     else get_method_nak env cb (sm, c))"

definition get_method_start ::
    "'p eap_env \<Rightarrow> 'c eapol_callbacks \<Rightarrow> bool \<Rightarrow> 'p eap_sm \<times> 'c \<Rightarrow> 'p eap_sm \<times> 'c" where
  "get_method_start env cb reinit st =
     (let (sm, c) = get_method_init env cb reinit st in
      if eap_method_priv sm = None then get_method_failed env cb (sm, c)
      else (sm\<lparr>methodState := METHOD_INIT\<rparr>, c))"

text \<open>The choice of the method: keep the previous one, or take the registered one.\<close>

definition get_method_select :: "'p eap_env \<Rightarrow> bool \<Rightarrow> u32 \<Rightarrow> 'p eap_sm \<Rightarrow> 'p eap_sm" where
  "get_method_select env reinit method sm =
     (let sm = (if reinit then sm else eap_deinit_prev_method sm);
          sm = sm\<lparr>selectedMethod := reqMethod sm\<rparr>
      in if sm_m sm = None
         then sm\<lparr>sm_m := eap_peer_get_eap_method env (reqVendor sm) method\<rparr> else sm)"

definition sm_EAP_GET_METHOD_Enter ::
    "'p eap_env \<Rightarrow> 'c eapol_callbacks \<Rightarrow> bool \<Rightarrow> 'p eap_sm \<times> 'c \<Rightarrow> 'p eap_sm \<times> 'c" where
  "sm_EAP_GET_METHOD_Enter env cb glob = (\<lambda>(sm, c).
     let sm = EAP_entry EAP_GET_METHOD glob sm; method = req_method_number sm in
     if \<not> eap_sm_allowMethod env (cb_get_config cb c) (reqVendor sm) method
     then get_method_nak env cb (sm, c)
     else
       (let reinit = get_method_reinit env sm method;
            sm = get_method_select env reinit method sm
        in
        if sm_m sm = None then get_method_nak env cb (sm, c)
        else get_method_start env cb reinit (sm, c)))"

text \<open>The part of the METHOD state after the method has processed the request.\<close>

definition method_fetch_key :: "'p eap_env \<Rightarrow> 'p eap_sm \<Rightarrow> 'p eap_sm" where
  "method_fetch_key env sm =
     (let m = cur_method env sm; priv = eap_method_priv sm in
      case (m_isKeyAvailable m, m_getKey m) of
        (Some avail, Some getKey) \<Rightarrow>
          if avail priv then
            (eap_sm_free_key sm)\<lparr>eapKeyData := getKey priv,
              eapSessionId := (case m_getSessionId m of None \<Rightarrow> None | Some f \<Rightarrow> f priv)\<rparr>
          else sm
      | _ \<Rightarrow> sm)"

text \<open>The call of the method, with its results stored, and what follows an accepted request.\<close>

definition method_call ::
    "'p eap_env \<Rightarrow> 'c eapol_callbacks \<Rightarrow> bytes \<Rightarrow> 'p eap_sm \<times> 'c \<Rightarrow>
       eap_method_ret \<times> 'p eap_sm \<times> 'c" where
  "method_call env cb req = (\<lambda>(sm, c).
     let ret = \<lparr>ret_ignore = ignore sm, ret_methodState = methodState sm,
                ret_decision = decision sm, ret_allowNotifications = allowNotifications sm\<rparr>;
         (priv, mc, ret, resp) =
           m_process (cur_method env sm) (eap_method_priv sm) (method_ctx_of cb sm c) ret req
     in (ret,
         (put_method_ctx mc sm)
           \<lparr>eap_method_priv := map_option (\<lambda>_. priv) (eap_method_priv sm),
            eapRespData := resp, ignore := ret_ignore ret\<rparr>,
         cb_put_config cb (mc_config mc) c))"

definition method_accept :: "'p eap_env \<Rightarrow> eap_method_ret \<Rightarrow> 'p eap_sm \<Rightarrow> 'p eap_sm" where
  "method_accept env ret sm =
     method_fetch_key env
       (sm\<lparr>methodState := ret_methodState ret, decision := ret_decision ret,
           allowNotifications := ret_allowNotifications ret\<rparr>)"

definition sm_EAP_METHOD_Enter ::
    "'p eap_env \<Rightarrow> 'c eapol_callbacks \<Rightarrow> bool \<Rightarrow> 'p eap_sm \<times> 'c \<Rightarrow> 'p eap_sm \<times> 'c" where
  "sm_EAP_METHOD_Enter env cb glob = (\<lambda>(sm, c).
     let sm = EAP_entry EAP_METHOD glob sm in
     if sm_m sm = None then (sm, c)
     else
       (let m = cur_method env sm;
            min_len = (if m_vendor m = EAP_VENDOR_IETF \<and> m_method m = EAP_TYPE_LEAP then 0 else 1);
            req = cb_get_eapReqData cb c
        in
        if \<not> eap_hdr_len_valid req min_len then (sm, c)
        else
          (let (ret, sm, c) = method_call env cb (the req) (sm, c) in
           if ignore sm then (sm, c) else (method_accept env ret sm, c))))"

definition sm_EAP_SEND_RESPONSE_Enter ::
    "'p eap_env \<Rightarrow> 'c eapol_callbacks \<Rightarrow> bool \<Rightarrow> 'p eap_sm \<times> 'c \<Rightarrow> 'p eap_sm \<times> 'c" where
  "sm_EAP_SEND_RESPONSE_Enter env cb glob = (\<lambda>(sm, c).
     let sm = EAP_entry EAP_SEND_RESPONSE glob sm;
         (sm, c) =
           (case eapRespData sm of
              Some resp \<Rightarrow>
                (let sm = (if workaround sm then sm\<lparr>last_md5 := req_md5 sm\<rparr> else sm);
                     sm = sm\<lparr>lastId := reqId sm,
                             lastRespData := (if env_alloc env (length resp) then Some resp else None)\<rparr>
                 in (sm, cb_set_bool cb EAPOL_eapResp True c))
            | None \<Rightarrow> (sm\<lparr>lastRespData := None\<rparr>, c));
         c = cb_set_bool cb EAPOL_eapReq False c;
         c = cb_set_int cb EAPOL_idleWhile (ClientTimeout sm) c
     in (sm, c))"

definition sm_EAP_DISCARD_Enter ::
    "'c eapol_callbacks \<Rightarrow> bool \<Rightarrow> 'p eap_sm \<times> 'c \<Rightarrow> 'p eap_sm \<times> 'c" where
  "sm_EAP_DISCARD_Enter cb glob = (\<lambda>(sm, c).
     (EAP_entry EAP_DISCARD glob sm,
      cb_set_bool cb EAPOL_eapNoResp True (cb_set_bool cb EAPOL_eapReq False c)))"

definition sm_EAP_IDENTITY_Enter ::
    "'p eap_env \<Rightarrow> 'c eapol_callbacks \<Rightarrow> bool \<Rightarrow> 'p eap_sm \<times> 'c \<Rightarrow> 'p eap_sm \<times> 'c" where
  "sm_EAP_IDENTITY_Enter env cb glob = (\<lambda>(sm, c).
     let sm = EAP_entry EAP_IDENTITY glob sm in
     if \<not> eap_hdr_len_valid (cb_get_eapReqData cb c) 1 then (sm, c)
     else
       (let (resp, cfg) = eap_sm_buildIdentity env (cb_get_config cb c) sm (reqId sm) False
        in (sm\<lparr>eapRespData := resp\<rparr>, cb_put_config cb cfg c)))"

definition sm_EAP_NOTIFICATION_Enter ::
    "'p eap_env \<Rightarrow> 'c eapol_callbacks \<Rightarrow> bool \<Rightarrow> 'p eap_sm \<times> 'c \<Rightarrow> 'p eap_sm \<times> 'c" where
  "sm_EAP_NOTIFICATION_Enter env cb glob = (\<lambda>(sm, c).
     let sm = EAP_entry EAP_NOTIFICATION glob sm in
     if \<not> eap_hdr_len_valid (cb_get_eapReqData cb c) 1 then (sm, c)
     else (sm\<lparr>eapRespData := eap_sm_buildNotify env (reqId sm)\<rparr>, c))"

definition sm_EAP_RETRANSMIT_Enter ::
    "'p eap_env \<Rightarrow> bool \<Rightarrow> 'p eap_sm \<times> 'c \<Rightarrow> 'p eap_sm \<times> 'c" where
  "sm_EAP_RETRANSMIT_Enter env glob = (\<lambda>(sm, c).
     let sm = EAP_entry EAP_RETRANSMIT glob sm in
     (sm\<lparr>eapRespData :=
           (case lastRespData sm of
              None \<Rightarrow> None
            | Some d \<Rightarrow> if env_alloc env (length d) then Some d else None)\<rparr>, c))"

definition sm_EAP_SUCCESS_Enter ::
    "'c eapol_callbacks \<Rightarrow> bool \<Rightarrow> 'p eap_sm \<times> 'c \<Rightarrow> 'p eap_sm \<times> 'c" where
  "sm_EAP_SUCCESS_Enter cb glob = (\<lambda>(sm, c).
     let sm = EAP_entry EAP_SUCCESS glob sm;
         sm = (if eapKeyData sm \<noteq> None then sm\<lparr>eapKeyAvailable := True\<rparr> else sm);
         c = cb_set_bool cb EAPOL_eapSuccess True c;
         c = cb_set_bool cb EAPOL_eapReq False c;
         c = cb_set_bool cb EAPOL_eapNoResp True c
     in (sm, c))"

definition sm_EAP_FAILURE_Enter ::
    "'c eapol_callbacks \<Rightarrow> bool \<Rightarrow> 'p eap_sm \<times> 'c \<Rightarrow> 'p eap_sm \<times> 'c" where
  "sm_EAP_FAILURE_Enter cb glob = (\<lambda>(sm, c).
     let sm = EAP_entry EAP_FAILURE glob sm;
         c = cb_set_bool cb EAPOL_eapFail True c;
         c = cb_set_bool cb EAPOL_eapReq False c;
         c = cb_set_bool cb EAPOL_eapNoResp True c
     in (sm\<lparr>prev_failure := True\<rparr>, c))"

section \<open>Transitions\<close>

definition eap_success_workaround :: "'p eap_sm \<Rightarrow> int \<Rightarrow> int \<Rightarrow> bool" where
  "eap_success_workaround sm req_id last_id \<longleftrightarrow>
     workaround sm \<and> (req_id = (last_id + 1) AND 0xff \<or> req_id = (last_id + 2) AND 0xff)"

definition eap_peer_sm_step_idle ::
    "'p eap_env \<Rightarrow> 'c eapol_callbacks \<Rightarrow> 'p eap_sm \<times> 'c \<Rightarrow> 'p eap_sm \<times> 'c" where
  "eap_peer_sm_step_idle env cb = (\<lambda>(sm, c).
     if cb_get_bool cb EAPOL_eapReq c then sm_EAP_RECEIVED_Enter env cb False (sm, c)
     else if (cb_get_bool cb EAPOL_altAccept c \<and> decision sm \<noteq> DECISION_FAIL) \<or>
             (cb_get_int cb EAPOL_idleWhile c = 0 \<and> decision sm = DECISION_UNCOND_SUCC)
     then sm_EAP_SUCCESS_Enter cb False (sm, c)
     else if cb_get_bool cb EAPOL_altReject c \<or>
             (cb_get_int cb EAPOL_idleWhile c = 0 \<and> decision sm \<noteq> DECISION_UNCOND_SUCC) \<or>
             (cb_get_bool cb EAPOL_altAccept c \<and> methodState sm \<noteq> METHOD_CONT \<and>
              decision sm = DECISION_FAIL)
     then sm_EAP_FAILURE_Enter cb False (sm, c)
     else if selectedMethod sm = EAP_TYPE_LEAP \<and> leap_done sm \<and> decision sm \<noteq> DECISION_FAIL \<and>
             methodState sm = METHOD_DONE
     then sm_EAP_SUCCESS_Enter cb False (sm, c)
     else if selectedMethod sm = EAP_TYPE_PEAP \<and> peap_done sm \<and> decision sm \<noteq> DECISION_FAIL \<and>
             methodState sm = METHOD_DONE
     then sm_EAP_SUCCESS_Enter cb False (sm, c)
     else (sm, c))"

definition eap_peer_req_is_duplicate :: "'p eap_sm \<Rightarrow> bool" where
  "eap_peer_req_is_duplicate sm =
     (let duplicate = reqId sm = lastId sm \<and> rxReq sm in
      if workaround sm \<and> duplicate \<and> req_md5 sm \<noteq> last_md5 sm then False else duplicate)"

definition eap_peer_sm_step_received ::
    "'p eap_env \<Rightarrow> 'c eapol_callbacks \<Rightarrow> 'p eap_sm \<times> 'c \<Rightarrow> 'p eap_sm \<times> 'c" where
  "eap_peer_sm_step_received env cb = (\<lambda>(sm, c).
     let duplicate = eap_peer_req_is_duplicate sm in
     if rxSuccess sm \<and> decision sm \<noteq> DECISION_FAIL \<and>
        (reqId sm = lastId sm \<or> eap_success_workaround sm (reqId sm) (lastId sm))
     then sm_EAP_SUCCESS_Enter cb False (sm, c)
     else if methodState sm \<noteq> METHOD_CONT \<and>
        ((rxFailure sm \<and> decision sm \<noteq> DECISION_UNCOND_SUCC) \<or>
         (rxSuccess sm \<and> decision sm = DECISION_FAIL \<and>
          (selectedMethod sm \<noteq> EAP_TYPE_LEAP \<or> methodState sm \<noteq> METHOD_MAY_CONT))) \<and>
        (reqId sm = lastId sm \<or> eap_success_workaround sm (reqId sm) (lastId sm))
     then sm_EAP_FAILURE_Enter cb False (sm, c)
     else if rxReq sm \<and> duplicate
     then sm_EAP_RETRANSMIT_Enter env False (sm, c)
     else if rxReq sm \<and> \<not> duplicate \<and> reqMethod sm = EAP_TYPE_NOTIFICATION \<and> allowNotifications sm
     then sm_EAP_NOTIFICATION_Enter env cb False (sm, c)
     else if rxReq sm \<and> \<not> duplicate \<and> selectedMethod sm = EAP_TYPE_NONE \<and>
        reqMethod sm = EAP_TYPE_IDENTITY
     then sm_EAP_IDENTITY_Enter env cb False (sm, c)
     else if rxReq sm \<and> \<not> duplicate \<and> selectedMethod sm = EAP_TYPE_NONE \<and>
        reqMethod sm \<noteq> EAP_TYPE_IDENTITY \<and> reqMethod sm \<noteq> EAP_TYPE_NOTIFICATION
     then sm_EAP_GET_METHOD_Enter env cb False (sm, c)
     else if rxReq sm \<and> \<not> duplicate \<and> reqMethod sm = selectedMethod sm \<and>
        methodState sm \<noteq> METHOD_DONE
     then sm_EAP_METHOD_Enter env cb False (sm, c)
     else if selectedMethod sm = EAP_TYPE_LEAP \<and> (rxSuccess sm \<or> rxResp sm)
     then sm_EAP_METHOD_Enter env cb False (sm, c)
     else sm_EAP_DISCARD_Enter cb False (sm, c))"

definition eap_peer_sm_step_local ::
    "'p eap_env \<Rightarrow> 'c eapol_callbacks \<Rightarrow> 'p eap_sm \<times> 'c \<Rightarrow> 'p eap_sm \<times> 'c" where
  "eap_peer_sm_step_local env cb = (\<lambda>(sm, c).
     case EAP_state sm of
       EAP_INITIALIZE \<Rightarrow> sm_EAP_IDLE_Enter False (sm, c)
     | EAP_DISABLED \<Rightarrow>
         if cb_get_bool cb EAPOL_portEnabled c \<and> \<not> force_disabled sm
         then sm_EAP_INITIALIZE_Enter env cb False (sm, c) else (sm, c)
     | EAP_IDLE \<Rightarrow> eap_peer_sm_step_idle env cb (sm, c)
     | EAP_RECEIVED \<Rightarrow> eap_peer_sm_step_received env cb (sm, c)
     | EAP_GET_METHOD \<Rightarrow>
         if selectedMethod sm = reqMethod sm then sm_EAP_METHOD_Enter env cb False (sm, c)
         else sm_EAP_SEND_RESPONSE_Enter env cb False (sm, c)
     | EAP_METHOD \<Rightarrow>
         if ignore sm then sm_EAP_DISCARD_Enter cb False (sm, c)
         else if methodState sm = METHOD_DONE \<and> decision sm = DECISION_FAIL \<and> eapRespData sm = None
         then sm_EAP_FAILURE_Enter cb False (sm, c)
         else sm_EAP_SEND_RESPONSE_Enter env cb False (sm, c)
     | EAP_SEND_RESPONSE \<Rightarrow> sm_EAP_IDLE_Enter False (sm, c)
     | EAP_DISCARD \<Rightarrow> sm_EAP_IDLE_Enter False (sm, c)
     | EAP_IDENTITY \<Rightarrow> sm_EAP_SEND_RESPONSE_Enter env cb False (sm, c)
     | EAP_NOTIFICATION \<Rightarrow> sm_EAP_SEND_RESPONSE_Enter env cb False (sm, c)
     | EAP_RETRANSMIT \<Rightarrow> sm_EAP_SEND_RESPONSE_Enter env cb False (sm, c)
     | EAP_SUCCESS \<Rightarrow> (sm, c)
     | EAP_FAILURE \<Rightarrow> (sm, c))"

definition SM_STEP_EAP ::
    "'p eap_env \<Rightarrow> 'c eapol_callbacks \<Rightarrow> 'p eap_sm \<times> 'c \<Rightarrow> 'p eap_sm \<times> 'c" where
  "SM_STEP_EAP env cb = (\<lambda>(sm, c).
     if cb_get_bool cb EAPOL_eapRestart c \<and> cb_get_bool cb EAPOL_portEnabled c
     then sm_EAP_INITIALIZE_Enter env cb True (sm, c)
     else if \<not> cb_get_bool cb EAPOL_portEnabled c \<or> force_disabled sm
     then sm_EAP_DISABLED_Enter cb True (sm, c)
     else if num_rounds sm > EAP_MAX_AUTH_ROUNDS then
       (if num_rounds sm = EAP_MAX_AUTH_ROUNDS + 1
        then sm_EAP_FAILURE_Enter cb True (sm\<lparr>num_rounds := num_rounds sm + 1\<rparr>, c)
        else (sm, c))
     else eap_peer_sm_step_local env cb (sm, c))"

text \<open>
  One pass of the loop body of \<open>eap_peer_sm_step\<close>, and the loop with a bound on its passes:
  \<open>None\<close> means that the bound was too small. The boolean is the return value. The bound
  \<open>EAP_STEP_FUEL\<close> is shown below to be always enough.
\<close>

definition eap_step_body ::
    "'p eap_env \<Rightarrow> 'c eapol_callbacks \<Rightarrow> 'p eap_sm \<times> 'c \<Rightarrow> 'p eap_sm \<times> 'c" where
  "eap_step_body env cb = (\<lambda>(sm, c). SM_STEP_EAP env cb (sm\<lparr>eap_changed := False\<rparr>, c))"

fun eap_step_loop ::
    "'p eap_env \<Rightarrow> 'c eapol_callbacks \<Rightarrow> nat \<Rightarrow> bool \<Rightarrow> 'p eap_sm \<times> 'c \<Rightarrow>
       (bool \<times> 'p eap_sm \<times> 'c) option" where
  "eap_step_loop env cb 0 res st = None"
| "eap_step_loop env cb (Suc n) res st =
     (let st = eap_step_body env cb st in
      if eap_changed (fst st) then eap_step_loop env cb n True st else Some (res, st))"

abbreviation (input) EAP_STEP_FUEL :: nat where "EAP_STEP_FUEL \<equiv> 16"

definition eap_peer_sm_step ::
    "'p eap_env \<Rightarrow> 'c eapol_callbacks \<Rightarrow> 'p eap_sm \<times> 'c \<Rightarrow> bool \<times> 'p eap_sm \<times> 'c" where
  "eap_peer_sm_step env cb st =
     (case eap_step_loop env cb EAP_STEP_FUEL False st of
        Some r \<Rightarrow> r
      | None \<Rightarrow> (True, st))"

section \<open>Interface functions\<close>

definition eap_sm_abort :: "'c eapol_callbacks \<Rightarrow> 'p eap_sm \<times> 'c \<Rightarrow> 'p eap_sm \<times> 'c" where
  "eap_sm_abort cb = (\<lambda>(sm, c).
     ((eap_sm_free_key (sm\<lparr>lastRespData := None, eapRespData := None\<rparr>))\<lparr>eapSessionId := None\<rparr>,
      cb_set_bool cb EAPOL_eapSuccess False c))"

definition eap_set_fast_reauth :: "bool \<Rightarrow> 'p eap_sm \<Rightarrow> 'p eap_sm" where
  "eap_set_fast_reauth enabled sm = sm\<lparr>fast_reauth := enabled\<rparr>"

definition eap_set_workaround :: "bool \<Rightarrow> 'p eap_sm \<Rightarrow> 'p eap_sm" where
  "eap_set_workaround w sm = sm\<lparr>workaround := w\<rparr>"

definition eap_set_force_disabled :: "bool \<Rightarrow> 'p eap_sm \<Rightarrow> 'p eap_sm" where
  "eap_set_force_disabled d sm = sm\<lparr>force_disabled := d\<rparr>"

definition eap_key_available :: "'p eap_sm \<Rightarrow> bool" where
  "eap_key_available sm = eapKeyAvailable sm"

definition eap_notify_success :: "'p eap_sm \<Rightarrow> 'p eap_sm" where
  "eap_notify_success sm = sm\<lparr>decision := DECISION_COND_SUCC, EAP_state := EAP_SUCCESS\<rparr>"

definition eap_notify_lower_layer_success ::
    "'c eapol_callbacks \<Rightarrow> 'p eap_sm \<times> 'c \<Rightarrow> 'p eap_sm \<times> 'c" where
  "eap_notify_lower_layer_success cb = (\<lambda>(sm, c).
     if cb_get_bool cb EAPOL_eapSuccess c \<or> decision sm = DECISION_FAIL \<or>
        (methodState sm \<noteq> METHOD_MAY_CONT \<and> methodState sm \<noteq> METHOD_DONE)
     then (sm, c)
     else
       (if eapKeyData sm \<noteq> None then sm\<lparr>eapKeyAvailable := True\<rparr> else sm,
        cb_set_bool cb EAPOL_eapSuccess True c))"

definition eap_get_eapSessionId :: "'p eap_sm \<Rightarrow> bytes option" where
  "eap_get_eapSessionId sm = eapSessionId sm"

definition eap_get_eapKeyData :: "'p eap_sm \<Rightarrow> bytes option" where
  "eap_get_eapKeyData sm = eapKeyData sm"

definition eap_get_eapRespData :: "'p eap_sm \<Rightarrow> bytes option \<times> 'p eap_sm" where
  "eap_get_eapRespData sm =
     (case eapRespData sm of
        None \<Rightarrow> (None, sm)
      | Some resp \<Rightarrow> (Some resp, sm\<lparr>eapRespData := None\<rparr>))"

definition eap_invalidate_cached_session :: "'p eap_sm \<Rightarrow> 'p eap_sm" where
  "eap_invalidate_cached_session sm = eap_deinit_prev_method sm"

definition eap_sm_set_ext_pw_ctx :: "'p eap_sm \<Rightarrow> 'p eap_sm" where
  "eap_sm_set_ext_pw_ctx sm = sm\<lparr>ext_pw_buf := None\<rparr>"

definition eap_peer_was_failure_expected :: "'p eap_sm \<Rightarrow> bool" where
  "eap_peer_was_failure_expected sm = expected_failure sm"

section \<open>Frame properties of the entry actions\<close>

lemmas eap_enter_defs =
  sm_EAP_INITIALIZE_Enter_def sm_EAP_DISABLED_Enter_def sm_EAP_IDLE_Enter_def
  sm_EAP_RECEIVED_Enter_def sm_EAP_SEND_RESPONSE_Enter_def
  sm_EAP_DISCARD_Enter_def sm_EAP_IDENTITY_Enter_def sm_EAP_NOTIFICATION_Enter_def
  sm_EAP_RETRANSMIT_Enter_def sm_EAP_SUCCESS_Enter_def sm_EAP_FAILURE_Enter_def EAP_entry_def

lemma eap_sm_parseEapReq_frame [simp]:
  "EAP_state (eap_sm_parseEapReq env req sm) = EAP_state sm"
  "force_disabled (eap_sm_parseEapReq env req sm) = force_disabled sm"
  "eap_changed (eap_sm_parseEapReq env req sm) = eap_changed sm"
  "decision (eap_sm_parseEapReq env req sm) = decision sm"
  "lastId (eap_sm_parseEapReq env req sm) = lastId sm"
  "lastRespData (eap_sm_parseEapReq env req sm) = lastRespData sm"
  "num_rounds (eap_sm_parseEapReq env req sm) = num_rounds sm"
  "workaround (eap_sm_parseEapReq env req sm) = workaround sm"
  "methodState (eap_sm_parseEapReq env req sm) = methodState sm"
  "selectedMethod (eap_sm_parseEapReq env req sm) = selectedMethod sm"
  "sm_m (eap_sm_parseEapReq env req sm) = sm_m sm"
  "eap_method_priv (eap_sm_parseEapReq env req sm) = eap_method_priv sm"
  "eapKeyData (eap_sm_parseEapReq env req sm) = eapKeyData sm"
  "eapKeyAvailable (eap_sm_parseEapReq env req sm) = eapKeyAvailable sm"
  "ClientTimeout (eap_sm_parseEapReq env req sm) = ClientTimeout sm"
  "last_md5 (eap_sm_parseEapReq env req sm) = last_md5 sm"
  by (simp_all add: eap_sm_parseEapReq_def Let_def split: option.split)

text \<open>Fields that the entry actions leave alone, whatever the callbacks do.\<close>

lemma eap_enter_state [simp]:
  "EAP_state (fst (sm_EAP_INITIALIZE_Enter env cb g st)) = EAP_INITIALIZE"
  "EAP_state (fst (sm_EAP_DISABLED_Enter cb g st)) = EAP_DISABLED"
  "EAP_state (fst (sm_EAP_IDLE_Enter g st)) = EAP_IDLE"
  "EAP_state (fst (sm_EAP_RECEIVED_Enter env cb g st)) = EAP_RECEIVED"
  "EAP_state (fst (sm_EAP_SEND_RESPONSE_Enter env cb g st)) = EAP_SEND_RESPONSE"
  "EAP_state (fst (sm_EAP_DISCARD_Enter cb g st)) = EAP_DISCARD"
  "EAP_state (fst (sm_EAP_IDENTITY_Enter env cb g st)) = EAP_IDENTITY"
  "EAP_state (fst (sm_EAP_NOTIFICATION_Enter env cb g st)) = EAP_NOTIFICATION"
  "EAP_state (fst (sm_EAP_RETRANSMIT_Enter env g st)) = EAP_RETRANSMIT"
  "EAP_state (fst (sm_EAP_SUCCESS_Enter cb g st)) = EAP_SUCCESS"
  "EAP_state (fst (sm_EAP_FAILURE_Enter cb g st)) = EAP_FAILURE"
  by (cases st; simp add: eap_enter_defs Let_def eap_deinit_prev_method_def eap_sm_free_key_def
        split: option.split prod.split)+

lemma eap_enter_force_disabled [simp]:
  "force_disabled (fst (sm_EAP_INITIALIZE_Enter env cb g st)) = force_disabled (fst st)"
  "force_disabled (fst (sm_EAP_DISABLED_Enter cb g st)) = force_disabled (fst st)"
  "force_disabled (fst (sm_EAP_IDLE_Enter g st)) = force_disabled (fst st)"
  "force_disabled (fst (sm_EAP_RECEIVED_Enter env cb g st)) = force_disabled (fst st)"
  "force_disabled (fst (sm_EAP_SEND_RESPONSE_Enter env cb g st)) = force_disabled (fst st)"
  "force_disabled (fst (sm_EAP_DISCARD_Enter cb g st)) = force_disabled (fst st)"
  "force_disabled (fst (sm_EAP_IDENTITY_Enter env cb g st)) = force_disabled (fst st)"
  "force_disabled (fst (sm_EAP_NOTIFICATION_Enter env cb g st)) = force_disabled (fst st)"
  "force_disabled (fst (sm_EAP_RETRANSMIT_Enter env g st)) = force_disabled (fst st)"
  "force_disabled (fst (sm_EAP_SUCCESS_Enter cb g st)) = force_disabled (fst st)"
  "force_disabled (fst (sm_EAP_FAILURE_Enter cb g st)) = force_disabled (fst st)"
  by (cases st; simp add: eap_enter_defs Let_def eap_deinit_prev_method_def eap_sm_free_key_def
        split: option.split prod.split)+

lemma eap_helper_frame [simp]:
  "EAP_state (eap_deinit_prev_method sm) = EAP_state sm"
  "force_disabled (eap_deinit_prev_method sm) = force_disabled sm"
  "EAP_state (put_method_ctx mc sm) = EAP_state sm"
  "force_disabled (put_method_ctx mc sm) = force_disabled sm"
  "sm_m (put_method_ctx mc sm) = sm_m sm"
  "reqMethod (put_method_ctx mc sm) = reqMethod sm"
  "EAP_state (method_fetch_key env sm) = EAP_state sm"
  "force_disabled (method_fetch_key env sm) = force_disabled sm"
  "EAP_state (get_method_select env r mt sm) = EAP_state sm"
  "force_disabled (get_method_select env r mt sm) = force_disabled sm"
  by (simp_all add: eap_deinit_prev_method_def put_method_ctx_def method_fetch_key_def
        eap_sm_free_key_def get_method_select_def Let_def split: option.split)

lemma eap_method_helper_frame [simp]:
  "EAP_state (fst (get_method_nak env cb st)) = EAP_state (fst st)"
  "force_disabled (fst (get_method_nak env cb st)) = force_disabled (fst st)"
  "EAP_state (fst (get_method_failed env cb st)) = EAP_state (fst st)"
  "force_disabled (fst (get_method_failed env cb st)) = force_disabled (fst st)"
  "EAP_state (fst (get_method_init env cb r st)) = EAP_state (fst st)"
  "force_disabled (fst (get_method_init env cb r st)) = force_disabled (fst st)"
  "EAP_state (fst (get_method_start env cb r st)) = EAP_state (fst st)"
  "force_disabled (fst (get_method_start env cb r st)) = force_disabled (fst st)"
  "EAP_state (fst (snd (method_call env cb q st))) = EAP_state (fst st)"
  "force_disabled (fst (snd (method_call env cb q st))) = force_disabled (fst st)"
  "EAP_state (method_accept env ret sm) = EAP_state sm"
  "force_disabled (method_accept env ret sm) = force_disabled sm"
proof -
  show nak: "EAP_state (fst (get_method_nak env cb st)) = EAP_state (fst st)"
    "force_disabled (fst (get_method_nak env cb st)) = force_disabled (fst st)" for st
    by (simp_all add: get_method_nak_def split_beta)
  show failed: "EAP_state (fst (get_method_failed env cb st)) = EAP_state (fst st)"
    "force_disabled (fst (get_method_failed env cb st)) = force_disabled (fst st)" for st
    by (simp_all add: get_method_failed_def nak split_beta Let_def)
  show init: "EAP_state (fst (get_method_init env cb r st)) = EAP_state (fst st)"
    "force_disabled (fst (get_method_init env cb r st)) = force_disabled (fst st)"
    by (simp_all add: get_method_init_def split_beta Let_def)
  show "EAP_state (fst (get_method_start env cb r st)) = EAP_state (fst st)"
    "force_disabled (fst (get_method_start env cb r st)) = force_disabled (fst st)"
    by (simp_all add: get_method_start_def split_beta Let_def failed init)
  show "EAP_state (fst (snd (method_call env cb q st))) = EAP_state (fst st)"
    "force_disabled (fst (snd (method_call env cb q st))) = force_disabled (fst st)"
    by (simp_all add: method_call_def split_beta Let_def)
  show "EAP_state (method_accept env ret sm) = EAP_state sm"
    "force_disabled (method_accept env ret sm) = force_disabled sm"
    by (simp_all add: method_accept_def)
qed

lemma eap_enter_method_frame [simp]:
  "EAP_state (fst (sm_EAP_GET_METHOD_Enter env cb g st)) = EAP_GET_METHOD"
  "force_disabled (fst (sm_EAP_GET_METHOD_Enter env cb g st)) = force_disabled (fst st)"
  "EAP_state (fst (sm_EAP_METHOD_Enter env cb g st)) = EAP_METHOD"
  "force_disabled (fst (sm_EAP_METHOD_Enter env cb g st)) = force_disabled (fst st)"
  by (simp_all add: sm_EAP_GET_METHOD_Enter_def sm_EAP_METHOD_Enter_def EAP_entry_def Let_def split_beta)

text \<open>
  The measure of the loop of \<open>eap_peer_sm_step\<close>: a restart comes first, a disabled machine has at
  most one transition left, and otherwise the rank of a state bounds the number of transitions
  until the machine waits in IDLE, SUCCESS or FAILURE; a pending request counts once, because
  every path that handles it clears it.
\<close>

definition eap_rank :: "eap_state \<Rightarrow> bool \<Rightarrow> nat" where
  "eap_rank s req =
     (case s of
        EAP_FAILURE \<Rightarrow> 0 | EAP_SUCCESS \<Rightarrow> 1
      | EAP_IDLE \<Rightarrow> if req then 7 else 2
      | EAP_SEND_RESPONSE \<Rightarrow> if req then 8 else 3
      | EAP_DISCARD \<Rightarrow> if req then 8 else 3
      | EAP_METHOD \<Rightarrow> 4 | EAP_IDENTITY \<Rightarrow> 4 | EAP_NOTIFICATION \<Rightarrow> 4 | EAP_RETRANSMIT \<Rightarrow> 4
      | EAP_GET_METHOD \<Rightarrow> 5 | EAP_RECEIVED \<Rightarrow> 6 | EAP_INITIALIZE \<Rightarrow> 9 | EAP_DISABLED \<Rightarrow> 10)"

definition eap_measure :: "'c eapol_callbacks \<Rightarrow> 'p eap_sm \<times> 'c \<Rightarrow> nat" where
  "eap_measure cb st =
     (if cb_get_bool cb EAPOL_eapRestart (snd st) \<and> cb_get_bool cb EAPOL_portEnabled (snd st) then 11
      else if \<not> cb_get_bool cb EAPOL_portEnabled (snd st) \<or> force_disabled (fst st)
      then (if EAP_state (fst st) = EAP_DISABLED then 0 else 1)
      else eap_rank (EAP_state (fst st)) (cb_get_bool cb EAPOL_eapReq (snd st)))"

lemma eap_rank_le: "eap_rank s req \<le> 10"
  by (cases s) (simp_all add: eap_rank_def)

lemma eap_measure_le: "eap_measure cb st \<le> 11"
  using eap_rank_le [of "EAP_state (fst st)" "cb_get_bool cb EAPOL_eapReq (snd st)"]
  by (simp add: eap_measure_def)

lemma eap_changed_global [simp]:
  "eap_changed (fst (sm_EAP_DISABLED_Enter cb True (sm, c))) =
     (EAP_state sm \<noteq> EAP_DISABLED \<or> eap_changed sm)"
  "eap_changed (fst (sm_EAP_FAILURE_Enter cb True (sm, c))) =
     (EAP_state sm \<noteq> EAP_FAILURE \<or> eap_changed sm)"
  by (simp_all add: eap_enter_defs Let_def)

text \<open>The outcomes of a step in IDLE and in RECEIVED, as rules for case analysis.\<close>

lemma step_idle_cases:
  assumes "cb_get_bool cb EAPOL_eapReq c \<Longrightarrow> Q (sm_EAP_RECEIVED_Enter env cb False (sm, c))"
    and "\<not> cb_get_bool cb EAPOL_eapReq c \<Longrightarrow> decision sm \<noteq> DECISION_FAIL \<Longrightarrow>
           Q (sm_EAP_SUCCESS_Enter cb False (sm, c))"
    and "\<not> cb_get_bool cb EAPOL_eapReq c \<Longrightarrow> Q (sm_EAP_FAILURE_Enter cb False (sm, c))"
    and "\<not> cb_get_bool cb EAPOL_eapReq c \<Longrightarrow> Q (sm, c)"
  shows "Q (eap_peer_sm_step_idle env cb (sm, c))"
  using assms(1) assms(2) [simplified] assms(3) assms(4)
  by (cases "decision sm") (simp_all add: eap_peer_sm_step_idle_def)

lemma step_received_cases:
  assumes "decision sm \<noteq> DECISION_FAIL \<Longrightarrow> Q (sm_EAP_SUCCESS_Enter cb False (sm, c))"
    and "Q (sm_EAP_FAILURE_Enter cb False (sm, c))"
    and "Q (sm_EAP_RETRANSMIT_Enter env False (sm, c))"
    and "Q (sm_EAP_NOTIFICATION_Enter env cb False (sm, c))"
    and "Q (sm_EAP_IDENTITY_Enter env cb False (sm, c))"
    and "Q (sm_EAP_GET_METHOD_Enter env cb False (sm, c))"
    and "Q (sm_EAP_METHOD_Enter env cb False (sm, c))"
    and "Q (sm_EAP_DISCARD_Enter cb False (sm, c))"
  shows "Q (eap_peer_sm_step_received env cb (sm, c))"
  using assms by (simp add: eap_peer_sm_step_received_def Let_def)

locale eapol_callbacks_laws =
  fixes cb :: "'c eapol_callbacks"
  assumes get_set_bool: "cb_get_bool cb v (cb_set_bool cb w b c) = (if v = w then b else cb_get_bool cb v c)"
    and get_bool_set_int: "cb_get_bool cb v (cb_set_int cb i n c) = cb_get_bool cb v c"
    and get_bool_put_config: "cb_get_bool cb v (cb_put_config cb cfg c) = cb_get_bool cb v c"
    and get_set_int: "cb_get_int cb i (cb_set_int cb j n c) = n"
    and get_int_set_bool: "cb_get_int cb i (cb_set_bool cb w b c) = cb_get_int cb i c"
    and get_int_put_config: "cb_get_int cb i (cb_put_config cb cfg c) = cb_get_int cb i c"
    and req_set_bool: "cb_get_eapReqData cb (cb_set_bool cb w b c) = cb_get_eapReqData cb c"
    and req_set_int: "cb_get_eapReqData cb (cb_set_int cb i n c) = cb_get_eapReqData cb c"
    and req_put_config: "cb_get_eapReqData cb (cb_put_config cb cfg c) = cb_get_eapReqData cb c"
begin

lemmas laws = get_set_bool get_bool_set_int get_bool_put_config get_set_int get_int_set_bool
  get_int_put_config req_set_bool req_set_int req_put_config

lemma enter_bools [simp]:
  "cb_get_bool cb v (snd (sm_EAP_INITIALIZE_Enter env cb g st)) =
     (if v \<in> {EAPOL_eapSuccess, EAPOL_eapFail, EAPOL_eapRestart, EAPOL_eapResp, EAPOL_eapNoResp}
      then False else cb_get_bool cb v (snd st))"
  "cb_get_bool cb v (snd (sm_EAP_DISABLED_Enter cb g st)) = cb_get_bool cb v (snd st)"
  "cb_get_bool cb v (snd (sm_EAP_IDLE_Enter g st)) = cb_get_bool cb v (snd st)"
  "cb_get_bool cb v (snd (sm_EAP_RECEIVED_Enter env cb g st)) = cb_get_bool cb v (snd st)"
  "cb_get_bool cb v (snd (sm_EAP_SEND_RESPONSE_Enter env cb g st)) =
     (if v = EAPOL_eapReq then False
      else if v = EAPOL_eapResp then cb_get_bool cb v (snd st) \<or> eapRespData (fst st) \<noteq> None
      else cb_get_bool cb v (snd st))"
  "cb_get_bool cb v (snd (sm_EAP_DISCARD_Enter cb g st)) =
     (if v = EAPOL_eapReq then False else if v = EAPOL_eapNoResp then True
      else cb_get_bool cb v (snd st))"
  "cb_get_bool cb v (snd (sm_EAP_IDENTITY_Enter env cb g st)) = cb_get_bool cb v (snd st)"
  "cb_get_bool cb v (snd (sm_EAP_NOTIFICATION_Enter env cb g st)) = cb_get_bool cb v (snd st)"
  "cb_get_bool cb v (snd (sm_EAP_RETRANSMIT_Enter env g st)) = cb_get_bool cb v (snd st)"
  "cb_get_bool cb v (snd (sm_EAP_SUCCESS_Enter cb g st)) =
     (if v = EAPOL_eapSuccess \<or> v = EAPOL_eapNoResp then True
      else if v = EAPOL_eapReq then False else cb_get_bool cb v (snd st))"
  "cb_get_bool cb v (snd (sm_EAP_FAILURE_Enter cb g st)) =
     (if v = EAPOL_eapFail \<or> v = EAPOL_eapNoResp then True
      else if v = EAPOL_eapReq then False else cb_get_bool cb v (snd st))"
  by (cases st; simp add: eap_enter_defs Let_def laws split: option.split prod.split)+

lemma enter_bools_method [simp]:
  "cb_get_bool cb v (snd (get_method_nak env cb st)) = cb_get_bool cb v (snd st)"
  "cb_get_bool cb v (snd (get_method_failed env cb st)) = cb_get_bool cb v (snd st)"
  "cb_get_bool cb v (snd (get_method_init env cb r st)) = cb_get_bool cb v (snd st)"
  "cb_get_bool cb v (snd (get_method_start env cb r st)) = cb_get_bool cb v (snd st)"
  "cb_get_bool cb v (snd (sm_EAP_GET_METHOD_Enter env cb g st)) = cb_get_bool cb v (snd st)"
  "cb_get_bool cb v (snd (snd (method_call env cb q st))) = cb_get_bool cb v (snd st)"
  "cb_get_bool cb v (snd (sm_EAP_METHOD_Enter env cb g st)) = cb_get_bool cb v (snd st)"
proof -
  show nak: "cb_get_bool cb v (snd (get_method_nak env cb st)) = cb_get_bool cb v (snd st)" for st
    by (simp add: get_method_nak_def split_beta)
  show failed: "cb_get_bool cb v (snd (get_method_failed env cb st)) = cb_get_bool cb v (snd st)" for st
    by (simp add: get_method_failed_def split_beta Let_def nak)
  show init: "cb_get_bool cb v (snd (get_method_init env cb r st)) = cb_get_bool cb v (snd st)" for r st
    by (simp add: get_method_init_def split_beta Let_def laws)
  show start: "cb_get_bool cb v (snd (get_method_start env cb r st)) = cb_get_bool cb v (snd st)" for r st
    by (simp add: get_method_start_def split_beta Let_def failed init)
  show "cb_get_bool cb v (snd (sm_EAP_GET_METHOD_Enter env cb g st)) = cb_get_bool cb v (snd st)"
    by (simp add: sm_EAP_GET_METHOD_Enter_def split_beta Let_def nak start)
  show call: "cb_get_bool cb v (snd (snd (method_call env cb q st))) = cb_get_bool cb v (snd st)" for q st
    by (simp add: method_call_def split_beta Let_def laws)
  show "cb_get_bool cb v (snd (sm_EAP_METHOD_Enter env cb g st)) = cb_get_bool cb v (snd st)"
    by (simp add: sm_EAP_METHOD_Enter_def split_beta Let_def call)
qed

lemma step_local_frame:
  "cb_get_bool cb EAPOL_portEnabled (snd (eap_peer_sm_step_local env cb (sm, c))) =
     cb_get_bool cb EAPOL_portEnabled c"
  "cb_get_bool cb EAPOL_eapRestart (snd (eap_peer_sm_step_local env cb (sm, c))) \<Longrightarrow>
     cb_get_bool cb EAPOL_eapRestart c"
  "force_disabled (fst (eap_peer_sm_step_local env cb (sm, c))) = force_disabled sm"
proof -
  let ?st = "eap_peer_sm_step_local env cb (sm, c)"
  have "cb_get_bool cb EAPOL_portEnabled (snd ?st) = cb_get_bool cb EAPOL_portEnabled c \<and>
    (cb_get_bool cb EAPOL_eapRestart (snd ?st) \<longrightarrow> cb_get_bool cb EAPOL_eapRestart c) \<and>
    force_disabled (fst ?st) = force_disabled sm"
  proof (cases "EAP_state sm")
    case EAP_IDLE
    show ?thesis unfolding eap_peer_sm_step_local_def EAP_IDLE split_conv eap_state.case
      by (rule step_idle_cases) simp_all
  next
    case EAP_RECEIVED
    show ?thesis unfolding eap_peer_sm_step_local_def EAP_RECEIVED split_conv eap_state.case
      by (rule step_received_cases) simp_all
  qed (simp_all add: eap_peer_sm_step_local_def)
  then show "cb_get_bool cb EAPOL_portEnabled (snd ?st) = cb_get_bool cb EAPOL_portEnabled c"
    "cb_get_bool cb EAPOL_eapRestart (snd ?st) \<Longrightarrow> cb_get_bool cb EAPOL_eapRestart c"
    "force_disabled (fst ?st) = force_disabled sm"
    by simp_all
qed

lemma step_local_rank:
  assumes "eap_changed (fst (eap_peer_sm_step_local env cb (sm, c)))" "\<not> eap_changed sm"
  shows "eap_rank (EAP_state (fst (eap_peer_sm_step_local env cb (sm, c))))
           (cb_get_bool cb EAPOL_eapReq (snd (eap_peer_sm_step_local env cb (sm, c))))
         < eap_rank (EAP_state sm) (cb_get_bool cb EAPOL_eapReq c)"
proof (cases "EAP_state sm")
  case EAP_IDLE
  then have idle: "eap_peer_sm_step_local env cb (sm, c) = eap_peer_sm_step_idle env cb (sm, c)"
    by (simp add: eap_peer_sm_step_local_def)
  have "(\<lambda>r. eap_changed (fst r) \<longrightarrow>
      eap_rank (EAP_state (fst r)) (cb_get_bool cb EAPOL_eapReq (snd r))
        < eap_rank (EAP_state sm) (cb_get_bool cb EAPOL_eapReq c)) (eap_peer_sm_step_idle env cb (sm, c))"
    by (rule step_idle_cases) (simp_all add: eap_rank_def EAP_IDLE assms(2))
  then show ?thesis using assms(1) unfolding idle by blast
next
  case EAP_RECEIVED
  then have rec: "eap_peer_sm_step_local env cb (sm, c) = eap_peer_sm_step_received env cb (sm, c)"
    by (simp add: eap_peer_sm_step_local_def)
  show ?thesis unfolding rec
    by (rule step_received_cases) (simp_all add: eap_rank_def EAP_RECEIVED)
qed (use assms in \<open>simp_all add: eap_peer_sm_step_local_def eap_rank_def split: if_splits\<close>)

lemma step_body_measure:
  assumes "eap_changed (fst (eap_step_body env cb st))"
  shows "eap_measure cb (eap_step_body env cb st) < eap_measure cb st"
proof -
  obtain sm c where st: "st = (sm, c)" by (cases st)
  let ?sm = "sm\<lparr>eap_changed := False\<rparr>"
  let ?restart = "cb_get_bool cb EAPOL_eapRestart c \<and> cb_get_bool cb EAPOL_portEnabled c"
  let ?off = "\<not> cb_get_bool cb EAPOL_portEnabled c \<or> force_disabled sm"
  show ?thesis
  proof (cases "?restart \<or> ?off \<or> num_rounds sm > EAP_MAX_AUTH_ROUNDS")
    case True
    then show ?thesis using assms
      by (auto simp: st eap_step_body_def SM_STEP_EAP_def eap_measure_def eap_rank_def
            split: if_splits eap_state.splits)
  next
    case False
    then have body: "eap_step_body env cb (sm, c) = eap_peer_sm_step_local env cb (?sm, c)"
      by (simp add: eap_step_body_def SM_STEP_EAP_def)
    show ?thesis
      using False step_local_frame [of env ?sm c] step_local_rank [of env ?sm c] assms
      by (auto simp: eap_measure_def body st)
  qed
qed

lemma step_loop_terminates:
  "eap_measure cb st < n \<Longrightarrow> \<exists>r. eap_step_loop env cb n res st = Some r"
proof (induction n arbitrary: st res)
  case (Suc n)
  show ?case
  proof (cases "eap_changed (fst (eap_step_body env cb st))")
    case True
    then have "eap_measure cb (eap_step_body env cb st) < n"
      using step_body_measure [OF True] Suc.prems by simp
    then show ?thesis using Suc.IH True by (simp add: Let_def)
  qed (simp add: Let_def)
qed simp

lemma step_loop_fuel: "\<exists>r. eap_step_loop env cb EAP_STEP_FUEL res st = Some r"
  using step_loop_terminates [of st EAP_STEP_FUEL] eap_measure_le [of cb st] by force

lemma step_loop_invariant:
  assumes "\<And>st. I st \<Longrightarrow> I (eap_step_body env cb st)"
  shows "eap_step_loop env cb n res st = Some (r, st') \<Longrightarrow> I st \<Longrightarrow> I st' \<and> (n > 0 \<longrightarrow> \<not> eap_changed (fst st'))"
proof (induction n arbitrary: st res)
  case (Suc n)
  show ?case
  proof (cases "eap_changed (fst (eap_step_body env cb st))")
    case True
    then have "n > 0" using Suc.prems(1) by (cases n) (simp_all add: Let_def)
    then show ?thesis using Suc.IH [of True "eap_step_body env cb st"] Suc.prems assms True
      by (simp add: Let_def)
  next
    case False
    have "I (eap_step_body env cb st)" by (rule assms) (rule Suc.prems(2))
    then show ?thesis using False Suc.prems(1) by (auto simp: Let_def)
  qed
qed simp

lemma peer_sm_step_invariant:
  assumes "\<And>st. I st \<Longrightarrow> I (eap_step_body env cb st)" "I st"
  shows "I (snd (eap_peer_sm_step env cb st)) \<and> \<not> eap_changed (fst (snd (eap_peer_sm_step env cb st)))"
proof -
  obtain r st' where loop: "eap_step_loop env cb EAP_STEP_FUEL False st = Some (r, st')"
    using step_loop_fuel [of env False st] by auto
  then have "I st' \<and> \<not> eap_changed (fst st')"
    using step_loop_invariant [OF assms(1) loop assms(2)] by simp
  then show ?thesis using loop by (simp add: eap_peer_sm_step_def)
qed

text \<open>
  eapSuccess is only ever set by entering SUCCESS, which takes a decision other than FAIL, an
  enabled port and a number of rounds within the limit; \<open>was\<close> tells whether it was set before.
\<close>

definition success_inv :: "bool \<Rightarrow> 'p eap_sm \<times> 'c \<Rightarrow> bool" where
  "success_inv was st \<longleftrightarrow>
     (cb_get_bool cb EAPOL_eapSuccess (snd st) \<longrightarrow>
        was \<or> (EAP_state (fst st) = EAP_SUCCESS \<and> decision (fst st) \<noteq> DECISION_FAIL \<and>
               cb_get_bool cb EAPOL_portEnabled (snd st) \<and> \<not> force_disabled (fst st) \<and>
               num_rounds (fst st) \<le> EAP_MAX_AUTH_ROUNDS))"

lemma success_inv_body:
  assumes "success_inv was st"
  shows "success_inv was (eap_step_body env cb st)"
proof -
  obtain sm c where st: "st = (sm, c)" by (cases st)
  let ?sm = "sm\<lparr>eap_changed := False\<rparr>"
  let ?restart = "cb_get_bool cb EAPOL_eapRestart c \<and> cb_get_bool cb EAPOL_portEnabled c"
  let ?off = "\<not> cb_get_bool cb EAPOL_portEnabled c \<or> force_disabled sm"
  show ?thesis
  proof (cases "?restart \<or> ?off \<or> num_rounds sm > EAP_MAX_AUTH_ROUNDS")
    case True
    then show ?thesis using assms
      by (auto simp: st eap_step_body_def SM_STEP_EAP_def success_inv_def)
  next
    case False
    then have body: "eap_step_body env cb (sm, c) = eap_peer_sm_step_local env cb (?sm, c)"
      by (simp add: eap_step_body_def SM_STEP_EAP_def)
    have "success_inv was (eap_peer_sm_step_local env cb (?sm, c))"
    proof (cases "EAP_state sm")
      case EAP_IDLE
      have "success_inv was (eap_peer_sm_step_idle env cb (?sm, c))"
        by (rule step_idle_cases)
          (use assms False EAP_IDLE in \<open>auto simp: success_inv_def st sm_EAP_SUCCESS_Enter_def EAP_entry_def Let_def laws\<close>)
      then show ?thesis by (simp add: eap_peer_sm_step_local_def EAP_IDLE)
    next
      case EAP_RECEIVED
      have "success_inv was (eap_peer_sm_step_received env cb (?sm, c))"
        by (rule step_received_cases)
          (use assms False EAP_RECEIVED in \<open>auto simp: success_inv_def st sm_EAP_SUCCESS_Enter_def EAP_entry_def Let_def laws\<close>)
      then show ?thesis by (simp add: eap_peer_sm_step_local_def EAP_RECEIVED)
    qed (use assms False in \<open>auto simp: success_inv_def st eap_peer_sm_step_local_def\<close>)
    then show ?thesis by (simp add: st body)
  qed
qed

lemma step_success_safe:
  assumes "cb_get_bool cb EAPOL_eapSuccess (snd (snd (eap_peer_sm_step env cb st)))"
    and "\<not> cb_get_bool cb EAPOL_eapSuccess (snd st)"
  shows "EAP_state (fst (snd (eap_peer_sm_step env cb st))) = EAP_SUCCESS \<and>
    decision (fst (snd (eap_peer_sm_step env cb st))) \<noteq> DECISION_FAIL"
proof -
  have "success_inv False st" using assms(2) by (simp add: success_inv_def)
  then have "success_inv False (snd (eap_peer_sm_step env cb st))"
    using peer_sm_step_invariant [of "success_inv False" env st] success_inv_body by blast
  then show ?thesis using assms(1) by (simp add: success_inv_def)
qed

end
text \<open>
  A property of the lower layer's context that every write callback preserves is preserved by the
  whole state machine, since it has no other way to reach the context. The variables portEnabled,
  altAccept and altReject are never written by the state machine.
\<close>

locale eap_ctx_invariant =
  fixes cb :: "'c eapol_callbacks"
    and J :: "'c \<Rightarrow> bool"
  assumes J_set_bool: "v \<notin> {EAPOL_portEnabled, EAPOL_altAccept, EAPOL_altReject} \<Longrightarrow>
      J c \<Longrightarrow> J (cb_set_bool cb v b c)"
    and J_set_int: "J c \<Longrightarrow> J (cb_set_int cb i n c)"
    and J_put_config: "J c \<Longrightarrow> J (cb_put_config cb cfg c)"
begin

lemma J_enter:
  assumes "J (snd st)"
  shows "J (snd (sm_EAP_INITIALIZE_Enter env cb g st))" "J (snd (sm_EAP_DISABLED_Enter cb g st))"
    "J (snd (sm_EAP_IDLE_Enter g st))" "J (snd (sm_EAP_RECEIVED_Enter env cb g st))"
    "J (snd (sm_EAP_SEND_RESPONSE_Enter env cb g st))" "J (snd (sm_EAP_DISCARD_Enter cb g st))"
    "J (snd (sm_EAP_IDENTITY_Enter env cb g st))" "J (snd (sm_EAP_NOTIFICATION_Enter env cb g st))"
    "J (snd (sm_EAP_RETRANSMIT_Enter env g st))" "J (snd (sm_EAP_SUCCESS_Enter cb g st))"
    "J (snd (sm_EAP_FAILURE_Enter cb g st))"
  using assms
  by (cases st; simp add: eap_enter_defs Let_def J_set_bool J_set_int J_put_config
        split: option.split prod.split)+

lemma J_enter_method:
  assumes "J (snd st)"
  shows "J (snd (sm_EAP_GET_METHOD_Enter env cb g st))" "J (snd (sm_EAP_METHOD_Enter env cb g st))"
proof -
  have nak: "J (snd st) \<Longrightarrow> J (snd (get_method_nak env cb st))" for st :: "'a eap_sm \<times> 'c"
    by (simp add: get_method_nak_def split_beta)
  have failed: "J (snd st) \<Longrightarrow> J (snd (get_method_failed env cb st))" for st :: "'a eap_sm \<times> 'c"
    by (simp add: get_method_failed_def split_beta Let_def nak)
  have init: "J (snd st) \<Longrightarrow> J (snd (get_method_init env cb r st))" for r and st :: "'a eap_sm \<times> 'c"
    by (simp add: get_method_init_def split_beta Let_def J_put_config)
  have start: "J (snd st) \<Longrightarrow> J (snd (get_method_start env cb r st))" for r and st :: "'a eap_sm \<times> 'c"
    by (simp add: get_method_start_def split_beta Let_def failed init)
  show "J (snd (sm_EAP_GET_METHOD_Enter env cb g st))"
    using assms by (simp add: sm_EAP_GET_METHOD_Enter_def split_beta Let_def nak start)
  have call: "J (snd st) \<Longrightarrow> J (snd (snd (method_call env cb q st)))" for q and st :: "'a eap_sm \<times> 'c"
    by (simp add: method_call_def split_beta Let_def J_put_config)
  show "J (snd (sm_EAP_METHOD_Enter env cb g st))"
    using assms by (simp add: sm_EAP_METHOD_Enter_def split_beta Let_def call)
qed

lemma J_body:
  assumes "J (snd st)" shows "J (snd (eap_step_body env cb st))"
proof -
  obtain sm c where st: "st = (sm, c)" by (cases st)
  have idle: "J (snd (eap_peer_sm_step_idle env cb (sm, c)))" if "J c" for sm :: "'a eap_sm"
    by (rule step_idle_cases) (use that J_enter [of "(sm, c)"] in simp_all)
  have rec: "J (snd (eap_peer_sm_step_received env cb (sm, c)))" if "J c" for sm :: "'a eap_sm"
    by (rule step_received_cases) (use that J_enter [of "(sm, c)"] J_enter_method [of "(sm, c)"] in simp_all)
  have "J (snd (eap_peer_sm_step_local env cb (sm, c)))" if "J c" for sm :: "'a eap_sm"
    using that by (simp add: eap_peer_sm_step_local_def idle rec J_enter J_enter_method split: eap_state.split)
  then show ?thesis using assms
    by (simp add: st eap_step_body_def SM_STEP_EAP_def J_enter)
qed

lemma J_loop: "J (snd st) \<Longrightarrow> eap_step_loop env cb n res st = Some (r, st') \<Longrightarrow> J (snd st')"
proof (induction n arbitrary: st res)
  case (Suc n)
  then show ?case using J_body [of st env] by (simp add: Let_def split: if_splits)
qed simp

lemma J_step:
  assumes "J (snd st)" shows "J (snd (snd (eap_peer_sm_step env cb st)))"
proof (cases "eap_step_loop env cb EAP_STEP_FUEL False st")
  case (Some r)
  then show ?thesis
    using J_loop [OF assms, of env EAP_STEP_FUEL False "fst r" "snd r"] by (simp add: eap_peer_sm_step_def)
qed (simp add: eap_peer_sm_step_def assms)

end

end
