(* ===== verification/Rc4.thy ===== *)
theory Rc4
  imports Prelude "HOL-Library.Multiset"
begin

text \<open>
  The RC4 stream cipher of \<open>src/crypto/rc4.c\<close>. The indices \<open>i\<close> and \<open>j\<close> are \<open>u32\<close> variables that the
  code masks with \<open>0xff\<close>; they are natural numbers below 256 here. The state array has 256 octets.
\<close>

section \<open>Definitions\<close>

definition S_SWAP :: "bytes \<Rightarrow> nat \<Rightarrow> nat \<Rightarrow> bytes" where
  "S_SWAP S a b = (let t = S ! a; S = S[a := S ! b] in S[b := t])"

text \<open>The key schedule; \<open>n\<close> iterations are left.\<close>

fun rc4_setup_loop :: "bytes \<Rightarrow> nat \<Rightarrow> bytes \<Rightarrow> nat \<Rightarrow> nat \<Rightarrow> bytes" where
  "rc4_setup_loop key 0 S j kpos = S"
| "rc4_setup_loop key (Suc n) S j kpos =
     (let i = 255 - n;
          j = (j + unat (S ! i) + unat (key ! kpos)) mod 256;
          kpos = (if kpos + 1 \<ge> length key then 0 else kpos + 1)
      in rc4_setup_loop key n (S_SWAP S i j) j kpos)"

definition rc4_setup :: "bytes \<Rightarrow> bytes" where
  "rc4_setup key = rc4_setup_loop key 256 (map word_of_nat [0..<256]) 0 0"

text \<open>One step of the generator: the indices and the state after the swap.\<close>

definition rc4_next :: "bytes \<times> nat \<times> nat \<Rightarrow> bytes \<times> nat \<times> nat" where
  "rc4_next = (\<lambda>(S, i, j).
     let i = (i + 1) mod 256; j = (j + unat (S ! i)) mod 256
     in (S_SWAP S i j, i, j))"

definition rc4_octet :: "bytes \<times> nat \<times> nat \<Rightarrow> u8" where
  "rc4_octet = (\<lambda>(S, i, j). S ! ((unat (S ! i) + unat (S ! j)) mod 256))"

fun rc4_skip_loop :: "nat \<Rightarrow> bytes \<times> nat \<times> nat \<Rightarrow> bytes \<times> nat \<times> nat" where
  "rc4_skip_loop 0 st = st"
| "rc4_skip_loop (Suc k) st = rc4_skip_loop k (rc4_next st)"

fun rc4_apply :: "bytes \<times> nat \<times> nat \<Rightarrow> bytes \<Rightarrow> bytes" where
  "rc4_apply st [] = []"
| "rc4_apply st (d # data) =
     (let st = rc4_next st in (d XOR rc4_octet st) # rc4_apply st data)"

definition rc4_skip :: "bytes \<Rightarrow> nat \<Rightarrow> bytes \<Rightarrow> bytes" where
  "rc4_skip key skip data = rc4_apply (rc4_skip_loop skip (rc4_setup key, 0, 0)) data"

section \<open>The state stays a permutation\<close>

text \<open>The state array holds every octet exactly once, and the indices are in range.\<close>

definition rc4_perm :: "bytes \<Rightarrow> bool" where
  "rc4_perm S \<longleftrightarrow> mset S = mset (map word_of_nat [0..<256])"

lemma length_rc4_perm: "rc4_perm S \<Longrightarrow> length S = 256"
  by (metis rc4_perm_def size_mset length_map length_upt diff_zero)

lemma rc4_perm_swap:
  assumes "rc4_perm S" "a < 256" "b < 256" shows "rc4_perm (S_SWAP S a b)"
proof -
  have "mset (S[a := S ! b, b := S ! a]) = mset S"
    using assms length_rc4_perm [OF assms(1)] by (simp add: mset_swap)
  moreover have "S_SWAP S a b = S[a := S ! b, b := S ! a]" by (simp add: S_SWAP_def)
  ultimately show ?thesis using assms(1) by (simp add: rc4_perm_def)
qed

lemma rc4_perm_setup_loop:
  "rc4_perm S \<Longrightarrow> rc4_perm (rc4_setup_loop key n S j kpos)"
  by (induction key n S j kpos rule: rc4_setup_loop.induct) (simp_all add: Let_def rc4_perm_swap)

definition rc4_inv :: "bytes \<times> nat \<times> nat \<Rightarrow> bool" where
  "rc4_inv = (\<lambda>(S, i, j). rc4_perm S \<and> i < 256 \<and> j < 256)"

lemma rc4_inv_next: "rc4_inv st \<Longrightarrow> rc4_inv (rc4_next st)"
  by (auto simp: rc4_inv_def rc4_next_def Let_def rc4_perm_swap)

lemma rc4_inv_skip_loop: "rc4_inv st \<Longrightarrow> rc4_inv (rc4_skip_loop k st)"
  by (induction k arbitrary: st) (simp_all add: rc4_inv_next)

text \<open>The RC4 state stays a permutation of all octets from the key schedule through every step.\<close>

theorem rc4_state_permutation:
  "rc4_inv (rc4_skip_loop n (rc4_setup key, 0, 0))"
proof -
  have "rc4_perm (rc4_setup key)"
    unfolding rc4_setup_def by (rule rc4_perm_setup_loop) (simp add: rc4_perm_def)
  then show ?thesis by (intro rc4_inv_skip_loop) (simp add: rc4_inv_def)
qed

section \<open>Encryption is its own inverse\<close>

fun rc4_stream :: "bytes \<times> nat \<times> nat \<Rightarrow> nat \<Rightarrow> bytes" where
  "rc4_stream st 0 = []"
| "rc4_stream st (Suc n) = rc4_octet (rc4_next st) # rc4_stream (rc4_next st) n"

lemma rc4_apply_stream: "rc4_apply st data = xor_bytes data (rc4_stream st (length data))"
  by (induction data arbitrary: st) (simp_all add: Let_def)

lemma length_rc4_stream [simp]: "length (rc4_stream st n) = n"
  by (induction n arbitrary: st) simp_all

lemma rc4_stream_split:
  "rc4_stream st (m + n) = rc4_stream st m @ rc4_stream (rc4_skip_loop m st) n"
  by (induction m arbitrary: st) simp_all

lemma length_rc4_skip [simp]: "length (rc4_skip key skip data) = length data"
  by (simp add: rc4_skip_def rc4_apply_stream)

text \<open>
  Decrypting with the same key and skip count gives the plain text back, and encrypting a
  message in two parts, the second with the skip count advanced, is encrypting it at once.
\<close>

theorem rc4_skip_involution:
  "rc4_skip key skip (rc4_skip key skip data) = data \<and>
   rc4_skip key skip (a @ b) = rc4_skip key skip a @ rc4_skip key (skip + length a) b"
proof -
  have skip_add: "rc4_skip_loop (m + n) st = rc4_skip_loop n (rc4_skip_loop m st)" for m n st
    by (induction m arbitrary: st) simp_all
  show ?thesis
    by (simp add: rc4_skip_def rc4_apply_stream rc4_stream_split xor_bytes_append skip_add)
qed

end
