(* ===== verification/EapolSupp.thy ===== *)
theory EapolSupp
  imports EapPeer Rc4
begin

text \<open>
  The EAPOL supplicant state machines (IEEE 802.1X-2004) of \<open>src/eapol_supp/eapol_supp_sm.c\<close>: the
  port timers, the PAE, the key receive and the backend state machine, the processing of EAPOL
  frames, and the notifications from the rest of the supplicant.

  The state is a pair: the EAP state machine that \<open>sm->eap\<close> points to, and the record \<open>eapol_sm\<close>.
  What the component does to the outside (frames sent, callbacks made, results reported) is a list
  of events, oldest first. A registered event loop timeout is a count: \<open>tick_timeouts\<close> for
  \<open>eapol_port_timers_tick\<close>, \<open>step_timeouts\<close> for \<open>eapol_sm_step_timeout\<close>.

  Modelled configuration: no \<open>CONFIG_EAP_PROXY\<close>, no \<open>CONFIG_MACSEC\<close>, no \<open>CONFIG_FIPS\<close>;
  \<open>CONFIG_WPS\<close> is a field of the environment. The callbacks of \<open>struct eapol_ctx\<close> do not call
  back into the state machine.
\<close>

section \<open>Data\<close>

datatype PortControl = Auto | ForceUnauthorized | ForceAuthorized
datatype PortStatus = Unauthorized | Authorized

datatype supp_pae_state =
    SUPP_PAE_UNKNOWN | SUPP_PAE_DISCONNECTED | SUPP_PAE_LOGOFF | SUPP_PAE_CONNECTING
  | SUPP_PAE_AUTHENTICATING | SUPP_PAE_AUTHENTICATED | SUPP_PAE_HELD | SUPP_PAE_RESTART
  | SUPP_PAE_S_FORCE_AUTH | SUPP_PAE_S_FORCE_UNAUTH

datatype key_rx_state = KEY_RX_UNKNOWN | KEY_RX_NO_KEY_RECEIVE | KEY_RX_KEY_RECEIVE

datatype supp_be_state =
    SUPP_BE_UNKNOWN | SUPP_BE_INITIALIZE | SUPP_BE_IDLE | SUPP_BE_REQUEST | SUPP_BE_RECEIVE
  | SUPP_BE_RESPONSE | SUPP_BE_FAIL | SUPP_BE_TIMEOUT | SUPP_BE_SUCCESS

datatype eapol_cb_status = EAPOL_CB_IN_PROGRESS | EAPOL_CB_SUCCESS | EAPOL_CB_FAILURE

datatype eapol_supp_result =
    EAPOL_SUPP_RESULT_FAILURE | EAPOL_SUPP_RESULT_SUCCESS | EAPOL_SUPP_RESULT_EXPECTED_FAILURE

datatype eapol_event =
    EvSend u8 bytes
  | EvPort bool
  | EvDone
  | EvAbortedCached
  | EvWepKey bool u8 bytes
  | EvResult eapol_supp_result

record eapol_config =
  conf_accept_802_1x_keys :: bool
  conf_required_keys :: u32
  conf_fast_reauth :: bool
  conf_workaround :: bool
  conf_eap_disabled :: bool

record eapol_stats =
  dot1xSuppEapolFramesRx :: nat
  dot1xSuppEapolFramesTx :: nat
  dot1xSuppEapolStartFramesTx :: nat
  dot1xSuppEapolLogoffFramesTx :: nat
  dot1xSuppEapolRespFramesTx :: nat
  dot1xSuppEapolReqIdFramesRx :: nat
  dot1xSuppEapolReqFramesRx :: nat
  dot1xSuppInvalidEapolFramesRx :: nat
  dot1xSuppEapLengthErrorFramesRx :: nat
  dot1xSuppLastEapolFrameVersion :: u8
  dot1xSuppLastEapolFrameSource :: bytes

record eapol_sm =
  authWhile :: nat
  heldWhile :: nat
  startWhen :: nat
  idleWhile :: nat
  timer_tick_enabled :: bool
  eapFail :: bool
  eapolEap :: bool
  eapSuccess :: bool
  initialize :: bool
  keyDone :: bool
  keyRun :: bool
  portControl :: PortControl
  portEnabled :: bool
  suppPortStatus :: PortStatus
  portValid :: bool
  suppAbort :: bool
  suppFail :: bool
  suppStart :: bool
  suppSuccess :: bool
  suppTimeout :: bool
  SUPP_PAE_state :: supp_pae_state
  userLogoff :: bool
  logoffSent :: bool
  startCount :: nat
  eapRestart :: bool
  sPortMode :: PortControl
  heldPeriod :: nat
  startPeriod :: nat
  maxStart :: nat
  KEY_RX_state :: key_rx_state
  rxKey :: bool
  SUPP_BE_state :: supp_be_state
  eapNoResp :: bool
  eapReq :: bool
  eapResp :: bool
  authPeriod :: nat
  stats :: eapol_stats
  changed :: bool
  config :: "eap_peer_config option"
  initial_req :: bool
  last_rx_key :: "bytes option"
  eapReqData :: "bytes option"
  altAccept :: bool
  altReject :: bool
  replay_counter_valid :: bool
  last_replay_counter :: bytes
  conf :: eapol_config
  cb_status :: eapol_cb_status
  cached_pmk :: bool
  unicast_key_received :: bool
  broadcast_key_received :: bool
  force_authorized_update :: bool
  tick_timeouts :: nat
  step_timeouts :: nat
  events :: "eapol_event list"

text \<open>
  The environment: that of the EAP state machine, which callbacks of \<open>struct eapol_ctx\<close> are set,
  the driver's answer to a key, HMAC-MD5, and the content of the stack memory that
  \<open>eapol_sm_processKey\<close> finds in its uninitialized variable \<open>keydata\<close> (64 octets).
\<close>

record 'p supp_env =
  eenv :: "'p eap_env"
  env_wps :: bool
  has_port_cb :: bool
  has_done_cb :: bool
  has_result_cb :: bool
  has_aborted_cached_cb :: bool
  has_set_wep_key :: bool
  env_set_wep_key :: "bool \<Rightarrow> u8 \<Rightarrow> bytes \<Rightarrow> bool"
  env_hmac_md5 :: "bytes \<Rightarrow> bytes \<Rightarrow> bytes"
  env_stack :: bytes

type_synonym 'p supp = "'p eap_sm \<times> eapol_sm"

section \<open>The callbacks given to the EAP state machine\<close>

definition emit :: "eapol_event \<Rightarrow> eapol_sm \<Rightarrow> eapol_sm" where
  "emit ev s = s\<lparr>events := events s @ [ev]\<rparr>"

definition eapol_enable_timer_tick :: "eapol_sm \<Rightarrow> eapol_sm" where
  "eapol_enable_timer_tick s =
     (if timer_tick_enabled s then s
      else s\<lparr>timer_tick_enabled := True, tick_timeouts := 1\<rparr>)"

definition eapol_sm_get_bool :: "eapol_bool_var \<Rightarrow> eapol_sm \<Rightarrow> bool" where
  "eapol_sm_get_bool v s =
     (case v of
        EAPOL_eapSuccess \<Rightarrow> eapSuccess s
      | EAPOL_eapRestart \<Rightarrow> eapRestart s
      | EAPOL_eapFail \<Rightarrow> eapFail s
      | EAPOL_eapResp \<Rightarrow> eapResp s
      | EAPOL_eapNoResp \<Rightarrow> eapNoResp s
      | EAPOL_eapReq \<Rightarrow> eapReq s
      | EAPOL_portEnabled \<Rightarrow> portEnabled s
      | EAPOL_altAccept \<Rightarrow> altAccept s
      | EAPOL_altReject \<Rightarrow> altReject s)"

definition eapol_sm_set_bool :: "eapol_bool_var \<Rightarrow> bool \<Rightarrow> eapol_sm \<Rightarrow> eapol_sm" where
  "eapol_sm_set_bool v b s =
     (case v of
        EAPOL_eapSuccess \<Rightarrow> s\<lparr>eapSuccess := b\<rparr>
      | EAPOL_eapRestart \<Rightarrow> s\<lparr>eapRestart := b\<rparr>
      | EAPOL_eapFail \<Rightarrow> s\<lparr>eapFail := b\<rparr>
      | EAPOL_eapResp \<Rightarrow> s\<lparr>eapResp := b\<rparr>
      | EAPOL_eapNoResp \<Rightarrow> s\<lparr>eapNoResp := b\<rparr>
      | EAPOL_eapReq \<Rightarrow> s\<lparr>eapReq := b\<rparr>
      | EAPOL_portEnabled \<Rightarrow> s\<lparr>portEnabled := b\<rparr>
      | EAPOL_altAccept \<Rightarrow> s\<lparr>altAccept := b\<rparr>
      | EAPOL_altReject \<Rightarrow> s\<lparr>altReject := b\<rparr>)"

definition eapol_sm_get_int :: "eapol_int_var \<Rightarrow> eapol_sm \<Rightarrow> nat" where
  "eapol_sm_get_int v s = (case v of EAPOL_idleWhile \<Rightarrow> idleWhile s)"

definition eapol_sm_set_int :: "eapol_int_var \<Rightarrow> nat \<Rightarrow> eapol_sm \<Rightarrow> eapol_sm" where
  "eapol_sm_set_int v n s =
     (case v of
        EAPOL_idleWhile \<Rightarrow>
          (let s = s\<lparr>idleWhile := n\<rparr> in
           if idleWhile s > 0 then eapol_enable_timer_tick s else s))"

definition eapol_sm_get_config :: "eapol_sm \<Rightarrow> eap_peer_config option" where
  "eapol_sm_get_config s = config s"

definition eapol_sm_get_eapReqData :: "eapol_sm \<Rightarrow> bytes option" where
  "eapol_sm_get_eapReqData s = eapReqData s"

text \<open>Writing through the pointer that \<open>get_config\<close> returns.\<close>

definition eapol_sm_put_config :: "eap_peer_config option \<Rightarrow> eapol_sm \<Rightarrow> eapol_sm" where
  "eapol_sm_put_config cfg s = s\<lparr>config := cfg\<rparr>"

definition eapol_cb :: "eapol_sm eapol_callbacks" where
  "eapol_cb =
     \<lparr>cb_get_config = eapol_sm_get_config, cb_put_config = eapol_sm_put_config,
      cb_get_bool = eapol_sm_get_bool, cb_set_bool = eapol_sm_set_bool,
      cb_get_int = eapol_sm_get_int, cb_set_int = eapol_sm_set_int,
      cb_get_eapReqData = eapol_sm_get_eapReqData\<rparr>"

lemma eapol_cb_simps [simp]:
  "cb_get_config eapol_cb = eapol_sm_get_config" "cb_put_config eapol_cb = eapol_sm_put_config"
  "cb_get_bool eapol_cb = eapol_sm_get_bool" "cb_set_bool eapol_cb = eapol_sm_set_bool"
  "cb_get_int eapol_cb = eapol_sm_get_int" "cb_set_int eapol_cb = eapol_sm_set_int"
  "cb_get_eapReqData eapol_cb = eapol_sm_get_eapReqData"
  by (simp_all add: eapol_cb_def)

lemma eapol_sm_get_bool_simps [simp]:
  "eapol_sm_get_bool EAPOL_eapSuccess s = eapSuccess s"
  "eapol_sm_get_bool EAPOL_eapRestart s = eapRestart s"
  "eapol_sm_get_bool EAPOL_eapFail s = eapFail s"
  "eapol_sm_get_bool EAPOL_eapResp s = eapResp s"
  "eapol_sm_get_bool EAPOL_eapNoResp s = eapNoResp s"
  "eapol_sm_get_bool EAPOL_eapReq s = eapReq s"
  "eapol_sm_get_bool EAPOL_portEnabled s = portEnabled s"
  "eapol_sm_get_bool EAPOL_altAccept s = altAccept s"
  "eapol_sm_get_bool EAPOL_altReject s = altReject s"
  by (simp_all add: eapol_sm_get_bool_def)

text \<open>The callbacks obey the laws that the EAP state machine relies on.\<close>

interpretation eapol: eapol_callbacks_laws eapol_cb
  by unfold_locales
    (auto simp: eapol_sm_get_bool_def eapol_sm_set_bool_def eapol_sm_get_int_def eapol_sm_set_int_def
       eapol_sm_get_eapReqData_def eapol_sm_put_config_def eapol_enable_timer_tick_def Let_def
       split: eapol_bool_var.splits eapol_int_var.splits)

section \<open>Transmission and the port\<close>

definition eapol_sm_txLogoff :: "eapol_sm \<Rightarrow> eapol_sm" where
  "eapol_sm_txLogoff s =
     (emit (EvSend 2 []) s)\<lparr>stats := (stats s)
        \<lparr>dot1xSuppEapolLogoffFramesTx := dot1xSuppEapolLogoffFramesTx (stats s) + 1,
         dot1xSuppEapolFramesTx := dot1xSuppEapolFramesTx (stats s) + 1\<rparr>\<rparr>"

definition eapol_sm_txStart :: "eapol_sm \<Rightarrow> eapol_sm" where
  "eapol_sm_txStart s =
     (emit (EvSend 1 []) s)\<lparr>stats := (stats s)
        \<lparr>dot1xSuppEapolStartFramesTx := dot1xSuppEapolStartFramesTx (stats s) + 1,
         dot1xSuppEapolFramesTx := dot1xSuppEapolFramesTx (stats s) + 1\<rparr>\<rparr>"

definition eapol_sm_set_port_authorized :: "'p supp_env \<Rightarrow> eapol_sm \<Rightarrow> eapol_sm" where
  "eapol_sm_set_port_authorized env s =
     (let cb = suppPortStatus s \<noteq> Authorized \<or> force_authorized_update s;
          s = s\<lparr>force_authorized_update := False, suppPortStatus := Authorized\<rparr>
      in if cb \<and> has_port_cb env then emit (EvPort True) s else s)"

definition eapol_sm_set_port_unauthorized :: "'p supp_env \<Rightarrow> eapol_sm \<Rightarrow> eapol_sm" where
  "eapol_sm_set_port_unauthorized env s =
     (let cb = suppPortStatus s \<noteq> Unauthorized \<or> force_authorized_update s;
          s = s\<lparr>force_authorized_update := False, suppPortStatus := Unauthorized\<rparr>
      in if cb \<and> has_port_cb env then emit (EvPort False) s else s)"

definition eapol_done_cb :: "'p supp_env \<Rightarrow> eapol_sm \<Rightarrow> eapol_sm" where
  "eapol_done_cb env s = (if has_done_cb env then emit EvDone s else s)"

section \<open>Supplicant PAE state machine\<close>

definition PAE_entry :: "supp_pae_state \<Rightarrow> bool \<Rightarrow> eapol_sm \<Rightarrow> eapol_sm" where
  "PAE_entry st glob s =
     s\<lparr>changed := (if \<not> glob \<or> SUPP_PAE_state s \<noteq> st then True else changed s),
       SUPP_PAE_state := st\<rparr>"

definition sm_SUPP_PAE_LOGOFF_Enter :: "'p supp_env \<Rightarrow> bool \<Rightarrow> eapol_sm \<Rightarrow> eapol_sm" where
  "sm_SUPP_PAE_LOGOFF_Enter env glob s =
     (let s = eapol_sm_txLogoff (PAE_entry SUPP_PAE_LOGOFF glob s)
      in eapol_sm_set_port_unauthorized env (s\<lparr>logoffSent := True\<rparr>))"

definition sm_SUPP_PAE_DISCONNECTED_Enter :: "'p supp_env \<Rightarrow> bool \<Rightarrow> eapol_sm \<Rightarrow> eapol_sm" where
  "sm_SUPP_PAE_DISCONNECTED_Enter env glob s =
     (let s = (PAE_entry SUPP_PAE_DISCONNECTED glob s)
                \<lparr>sPortMode := Auto, startCount := 0, logoffSent := False\<rparr>;
          s = eapol_sm_set_port_unauthorized env s
      in s\<lparr>suppAbort := True, unicast_key_received := False, broadcast_key_received := False,
           heldWhile := 0\<rparr>)"

definition sm_SUPP_PAE_CONNECTING_Enter :: "'p supp_env \<Rightarrow> bool \<Rightarrow> eapol_sm \<Rightarrow> eapol_sm" where
  "sm_SUPP_PAE_CONNECTING_Enter env glob s =
     (let send_start = SUPP_PAE_state s = SUPP_PAE_CONNECTING;
          s = PAE_entry SUPP_PAE_CONNECTING glob s;
          s = (if send_start then s\<lparr>startWhen := startPeriod s, startCount := startCount s + 1\<rparr>
               else s\<lparr>startWhen := (if env_wps env then 1 else 3)\<rparr>);
          s = (eapol_enable_timer_tick s)\<lparr>eapolEap := False\<rparr>
      in if send_start then eapol_sm_txStart s else s)"

definition sm_SUPP_PAE_AUTHENTICATING_Enter :: "bool \<Rightarrow> eapol_sm \<Rightarrow> eapol_sm" where
  "sm_SUPP_PAE_AUTHENTICATING_Enter glob s =
     (PAE_entry SUPP_PAE_AUTHENTICATING glob s)
       \<lparr>startCount := 0, suppSuccess := False, suppFail := False, suppTimeout := False,
        keyRun := False, keyDone := False, suppStart := True\<rparr>"

definition sm_SUPP_PAE_HELD_Enter :: "'p supp_env \<Rightarrow> bool \<Rightarrow> eapol_sm \<Rightarrow> eapol_sm" where
  "sm_SUPP_PAE_HELD_Enter env glob s =
     (let s = PAE_entry SUPP_PAE_HELD glob s;
          s = eapol_enable_timer_tick (s\<lparr>heldWhile := heldPeriod s\<rparr>)
      in (eapol_sm_set_port_unauthorized env s)\<lparr>cb_status := EAPOL_CB_FAILURE\<rparr>)"

definition sm_SUPP_PAE_AUTHENTICATED_Enter :: "'p supp_env \<Rightarrow> bool \<Rightarrow> eapol_sm \<Rightarrow> eapol_sm" where
  "sm_SUPP_PAE_AUTHENTICATED_Enter env glob s =
     (eapol_sm_set_port_authorized env (PAE_entry SUPP_PAE_AUTHENTICATED glob s))
       \<lparr>cb_status := EAPOL_CB_SUCCESS\<rparr>"

definition sm_SUPP_PAE_RESTART_Enter :: "bool \<Rightarrow> eapol_sm \<Rightarrow> eapol_sm" where
  "sm_SUPP_PAE_RESTART_Enter glob s = (PAE_entry SUPP_PAE_RESTART glob s)\<lparr>eapRestart := True\<rparr>"

definition sm_SUPP_PAE_S_FORCE_AUTH_Enter :: "'p supp_env \<Rightarrow> bool \<Rightarrow> eapol_sm \<Rightarrow> eapol_sm" where
  "sm_SUPP_PAE_S_FORCE_AUTH_Enter env glob s =
     (eapol_sm_set_port_authorized env (PAE_entry SUPP_PAE_S_FORCE_AUTH glob s))
       \<lparr>sPortMode := ForceAuthorized\<rparr>"

definition sm_SUPP_PAE_S_FORCE_UNAUTH_Enter :: "'p supp_env \<Rightarrow> bool \<Rightarrow> eapol_sm \<Rightarrow> eapol_sm" where
  "sm_SUPP_PAE_S_FORCE_UNAUTH_Enter env glob s =
     eapol_sm_txLogoff
       ((eapol_sm_set_port_unauthorized env (PAE_entry SUPP_PAE_S_FORCE_UNAUTH glob s))
          \<lparr>sPortMode := ForceUnauthorized\<rparr>)"

text \<open>The \<open>case\<close> labels of the switch.\<close>

definition pae_step_connecting :: "'p supp_env \<Rightarrow> eapol_sm \<Rightarrow> eapol_sm" where
  "pae_step_connecting env s =
     (if startWhen s = 0 \<and> startCount s < maxStart s then sm_SUPP_PAE_CONNECTING_Enter env False s
      else if startWhen s = 0 \<and> startCount s \<ge> maxStart s \<and> portValid s
      then sm_SUPP_PAE_AUTHENTICATED_Enter env False s
      else if eapSuccess s \<or> eapFail s then sm_SUPP_PAE_AUTHENTICATING_Enter False s
      else if eapolEap s then sm_SUPP_PAE_RESTART_Enter False s
      else if startWhen s = 0 \<and> startCount s \<ge> maxStart s \<and> \<not> portValid s
      then sm_SUPP_PAE_HELD_Enter env False s
      else s)"

definition pae_step_authenticating :: "'p supp_env \<Rightarrow> eapol_sm \<Rightarrow> eapol_sm" where
  "pae_step_authenticating env s =
     (let s = (if eapSuccess s \<and> \<not> portValid s \<and> conf_accept_802_1x_keys (conf s) \<and>
                  conf_required_keys (conf s) = 0
               then eapol_done_cb env (s\<lparr>portValid := True\<rparr>) else s)
      in if eapSuccess s \<and> portValid s then sm_SUPP_PAE_AUTHENTICATED_Enter env False s
         else if eapFail s \<or> (keyDone s \<and> \<not> portValid s) then sm_SUPP_PAE_HELD_Enter env False s
         else if suppTimeout s then sm_SUPP_PAE_CONNECTING_Enter env False s
         else s)"

definition SM_STEP_SUPP_PAE_local :: "'p supp_env \<Rightarrow> eapol_sm \<Rightarrow> eapol_sm" where
  "SM_STEP_SUPP_PAE_local env s =
     (case SUPP_PAE_state s of
        SUPP_PAE_UNKNOWN \<Rightarrow> s
      | SUPP_PAE_LOGOFF \<Rightarrow>
          if \<not> userLogoff s then sm_SUPP_PAE_DISCONNECTED_Enter env False s else s
      | SUPP_PAE_DISCONNECTED \<Rightarrow> sm_SUPP_PAE_CONNECTING_Enter env False s
      | SUPP_PAE_CONNECTING \<Rightarrow> pae_step_connecting env s
      | SUPP_PAE_AUTHENTICATING \<Rightarrow> pae_step_authenticating env s
      | SUPP_PAE_HELD \<Rightarrow>
          if heldWhile s = 0 then sm_SUPP_PAE_CONNECTING_Enter env False s
          else if eapolEap s then sm_SUPP_PAE_RESTART_Enter False s
          else s
      | SUPP_PAE_AUTHENTICATED \<Rightarrow>
          if eapolEap s \<and> portValid s then sm_SUPP_PAE_RESTART_Enter False s
          else if \<not> portValid s then sm_SUPP_PAE_DISCONNECTED_Enter env False s
          else s
      | SUPP_PAE_RESTART \<Rightarrow>
          if \<not> eapRestart s then sm_SUPP_PAE_AUTHENTICATING_Enter False s else s
      | SUPP_PAE_S_FORCE_AUTH \<Rightarrow> s
      | SUPP_PAE_S_FORCE_UNAUTH \<Rightarrow> s)"

definition SM_STEP_SUPP_PAE :: "'p supp_env \<Rightarrow> eapol_sm \<Rightarrow> eapol_sm" where
  "SM_STEP_SUPP_PAE env s =
     (if (userLogoff s \<and> \<not> logoffSent s) \<and> \<not> (initialize s \<or> \<not> portEnabled s)
      then sm_SUPP_PAE_LOGOFF_Enter env True s
      else if (portControl s = Auto \<and> sPortMode s \<noteq> portControl s) \<or> initialize s \<or> \<not> portEnabled s
      then sm_SUPP_PAE_DISCONNECTED_Enter env True s
      else if portControl s = ForceAuthorized \<and> sPortMode s \<noteq> portControl s \<and>
              \<not> (initialize s \<or> \<not> portEnabled s)
      then sm_SUPP_PAE_S_FORCE_AUTH_Enter env True s
      else if portControl s = ForceUnauthorized \<and> sPortMode s \<noteq> portControl s \<and>
              \<not> (initialize s \<or> \<not> portEnabled s)
      then sm_SUPP_PAE_S_FORCE_UNAUTH_Enter env True s
      else SM_STEP_SUPP_PAE_local env s)"

section \<open>Processing of EAPOL-Key frames\<close>

text \<open>The result code and the buffer, which is only written when enough key material is there.\<close>

definition eapol_sm_get_key :: "'p eap_sm \<Rightarrow> bytes \<Rightarrow> nat \<Rightarrow> int \<times> bytes" where
  "eapol_sm_get_key e key len =
     (if \<not> eap_key_available e then (- 1, key)
      else
        (case eap_get_eapKeyData e of
           None \<Rightarrow> (- 1, key)
         | Some eap_key \<Rightarrow>
             if len > length eap_key then (int (length eap_key), key)
             else (0, buf_put key 0 (take len eap_key))))"

definition eapol_sm_get_session_id :: "'p eap_sm \<Rightarrow> bytes option" where
  "eapol_sm_get_session_id e =
     (if \<not> eap_key_available e then None else eap_get_eapSessionId e)"

text \<open>
  \<open>struct eap_key_data\<close>: 32 octets of encryption key, then 32 octets of signature key. The result
  is the structure with the lengths of the signature and the encryption key.
\<close>

definition processKey_keydata :: "'p supp_env \<Rightarrow> 'p eap_sm \<Rightarrow> (bytes \<times> nat \<times> nat) option" where
  "processKey_keydata env e =
     (let (res, kd) = eapol_sm_get_key e (env_stack env) 64 in
      if res < 0 then None
      else if res = 16 then
        (let (res, kd) = eapol_sm_get_key e kd 16 in
         if res \<noteq> 0 then None
         else Some (buf_put kd 32 (take 16 kd), 16, 16))
      else if res \<noteq> 0 then None
      else Some (kd, 32, 32))"

text \<open>\<open>os_memcmp\<close>: the sign of the first difference.\<close>

fun os_memcmp :: "bytes \<Rightarrow> bytes \<Rightarrow> int" where
  "os_memcmp (a # as) (b # bs) =
     (if a = b then os_memcmp as bs else uint a - uint b)"
| "os_memcmp _ _ = 0"

text \<open>The WEP key: decrypted from the frame, or the start of the encryption key.\<close>

definition processKey_datakey :: "bytes \<Rightarrow> bytes \<Rightarrow> nat \<Rightarrow> nat \<Rightarrow> nat \<Rightarrow> bytes option" where
  "processKey_datakey pkt kd encr_key_len key_len rx_key_length =
     (if key_len > 32 \<or> rx_key_length > 32 then None
      else if key_len = rx_key_length then
        Some (rc4_skip (take 16 (drop 15 pkt) @ take encr_key_len kd) 0 (take key_len (drop 48 pkt)))
      else if key_len = 0 then Some (take rx_key_length kd)
      else None)"

text \<open>What follows a valid key: the driver is told, and the port may become valid.\<close>

definition processKey_install :: "'p supp_env \<Rightarrow> u8 \<Rightarrow> bytes \<Rightarrow> eapol_sm \<Rightarrow> eapol_sm" where
  "processKey_install env key_index datakey s =
     (let unicast = (key_index AND 0x80 \<noteq> 0);
          idx = key_index AND 0x03;
          s = (if has_set_wep_key env then emit (EvWepKey unicast idx datakey) s else s)
      in
      if has_set_wep_key env \<and> \<not> env_set_wep_key env unicast idx datakey then s
      else
        (let s = (if unicast then s\<lparr>unicast_key_received := True\<rparr>
                  else s\<lparr>broadcast_key_received := True\<rparr>)
         in
         if (unicast_key_received s \<or> conf_required_keys (conf s) AND 1 = 0) \<and>
            (broadcast_key_received s \<or> conf_required_keys (conf s) AND 2 = 0)
         then eapol_done_cb env (s\<lparr>portValid := True\<rparr>)
         else s))"

definition processKey_verified ::
    "'p supp_env \<Rightarrow> bytes \<Rightarrow> bytes \<Rightarrow> nat \<Rightarrow> nat \<Rightarrow> eapol_sm \<Rightarrow> eapol_sm" where
  "processKey_verified env pkt kd sign_key_len encr_key_len s =
     (let plen = unat (WPA_GET_BE16 (drop 2 pkt));
          rx_key_length = unat (WPA_GET_BE16 (drop 5 pkt));
          orig_key_sign = take 16 (drop 32 pkt);
          zeroed = buf_put pkt 32 (replicate 16 0);
          mac = env_hmac_md5 env (take sign_key_len (drop 32 kd)) (take (4 + plen) zeroed)
      in
      if mac \<noteq> orig_key_sign then s
      else
        (let pkt = buf_put zeroed 32 mac; s = s\<lparr>last_rx_key := Some pkt\<rparr> in
         case processKey_datakey pkt kd encr_key_len (plen - 44) rx_key_length of
           None \<Rightarrow> s
         | Some datakey \<Rightarrow>
             processKey_install env (pkt ! 31) datakey
               (s\<lparr>replay_counter_valid := True,
                  last_replay_counter :=
                    buf_put (last_replay_counter s) 0 (take 8 (drop 7 pkt))\<rparr>)))"

definition eapol_sm_processKey :: "'p supp_env \<Rightarrow> 'p supp \<Rightarrow> 'p supp" where
  "eapol_sm_processKey env = (\<lambda>(e, s).
     case last_rx_key s of
       None \<Rightarrow> (e, s)
     | Some pkt \<Rightarrow>
         if \<not> conf_accept_802_1x_keys (conf s) then (e, s)
         else if length pkt < 4 + 44 then (e, s)
         else
           (let plen = unat (WPA_GET_BE16 (drop 2 pkt)) in
            if 4 + plen > length pkt \<or> plen < 44 then (e, s)
            else
              (let (e, s) = eap_notify_lower_layer_success eapol_cb (e, s) in
               case processKey_keydata env e of
                 None \<Rightarrow> (e, s)
               | Some (kd, sign_key_len, encr_key_len) \<Rightarrow>
                   if replay_counter_valid s \<and>
                      os_memcmp (take 8 (last_replay_counter s)) (take 8 (drop 7 pkt)) \<ge> 0
                   then (e, s)
                   else (e, processKey_verified env pkt kd sign_key_len encr_key_len s))))"

section \<open>Key receive state machine\<close>

definition KEY_RX_entry :: "key_rx_state \<Rightarrow> bool \<Rightarrow> eapol_sm \<Rightarrow> eapol_sm" where
  "KEY_RX_entry st glob s =
     s\<lparr>changed := (if \<not> glob \<or> KEY_RX_state s \<noteq> st then True else changed s), KEY_RX_state := st\<rparr>"

definition sm_KEY_RX_NO_KEY_RECEIVE_Enter :: "bool \<Rightarrow> 'p supp \<Rightarrow> 'p supp" where
  "sm_KEY_RX_NO_KEY_RECEIVE_Enter glob = (\<lambda>(e, s). (e, KEY_RX_entry KEY_RX_NO_KEY_RECEIVE glob s))"

definition sm_KEY_RX_KEY_RECEIVE_Enter :: "'p supp_env \<Rightarrow> bool \<Rightarrow> 'p supp \<Rightarrow> 'p supp" where
  "sm_KEY_RX_KEY_RECEIVE_Enter env glob = (\<lambda>(e, s).
     let (e, s) = eapol_sm_processKey env (e, KEY_RX_entry KEY_RX_KEY_RECEIVE glob s)
     in (e, s\<lparr>rxKey := False\<rparr>))"

definition SM_STEP_KEY_RX :: "'p supp_env \<Rightarrow> 'p supp \<Rightarrow> 'p supp" where
  "SM_STEP_KEY_RX env st =
     (let (e, s) = (if initialize (snd st) \<or> \<not> portEnabled (snd st)
                    then sm_KEY_RX_NO_KEY_RECEIVE_Enter True st else st)
      in case KEY_RX_state s of
           KEY_RX_UNKNOWN \<Rightarrow> (e, s)
         | KEY_RX_NO_KEY_RECEIVE \<Rightarrow>
             if rxKey s then sm_KEY_RX_KEY_RECEIVE_Enter env False (e, s) else (e, s)
         | KEY_RX_KEY_RECEIVE \<Rightarrow>
             if rxKey s then sm_KEY_RX_KEY_RECEIVE_Enter env False (e, s) else (e, s))"

section \<open>Supplicant backend state machine\<close>

definition BE_entry :: "supp_be_state \<Rightarrow> bool \<Rightarrow> eapol_sm \<Rightarrow> eapol_sm" where
  "BE_entry st glob s =
     s\<lparr>changed := (if \<not> glob \<or> SUPP_BE_state s \<noteq> st then True else changed s), SUPP_BE_state := st\<rparr>"

definition eapol_sm_txSuppRsp :: "'p supp \<Rightarrow> 'p supp" where
  "eapol_sm_txSuppRsp = (\<lambda>(e, s).
     case eap_get_eapRespData e of
       (None, e) \<Rightarrow> (e, s)
     | (Some resp, e) \<Rightarrow>
         (let s = emit (EvSend 0 resp) s; t = stats s;
              t = (if initial_req s
                   then t\<lparr>dot1xSuppEapolReqIdFramesRx := dot1xSuppEapolReqIdFramesRx t + 1\<rparr>
                   else t\<lparr>dot1xSuppEapolReqFramesRx := dot1xSuppEapolReqFramesRx t + 1\<rparr>)
          in (e, s\<lparr>stats := t\<lparr>dot1xSuppEapolRespFramesTx := dot1xSuppEapolRespFramesTx t + 1,
                             dot1xSuppEapolFramesTx := dot1xSuppEapolFramesTx t + 1\<rparr>\<rparr>)))"

definition eapol_sm_abortSupp :: "'p supp \<Rightarrow> 'p supp" where
  "eapol_sm_abortSupp = (\<lambda>(e, s).
     eap_sm_abort eapol_cb (e, s\<lparr>last_rx_key := None, eapReqData := None\<rparr>))"

definition sm_SUPP_BE_REQUEST_Enter :: "bool \<Rightarrow> 'p supp \<Rightarrow> 'p supp" where
  "sm_SUPP_BE_REQUEST_Enter glob = (\<lambda>(e, s).
     (e, (BE_entry SUPP_BE_REQUEST glob s)\<lparr>authWhile := 0, eapReq := True\<rparr>))"

definition sm_SUPP_BE_RESPONSE_Enter :: "bool \<Rightarrow> 'p supp \<Rightarrow> 'p supp" where
  "sm_SUPP_BE_RESPONSE_Enter glob = (\<lambda>(e, s).
     let (e, s) = eapol_sm_txSuppRsp (e, BE_entry SUPP_BE_RESPONSE glob s)
     in (e, s\<lparr>eapResp := False\<rparr>))"

definition sm_SUPP_BE_SUCCESS_Enter :: "bool \<Rightarrow> 'p supp \<Rightarrow> 'p supp" where
  "sm_SUPP_BE_SUCCESS_Enter glob = (\<lambda>(e, s).
     let s = (BE_entry SUPP_BE_SUCCESS glob s)\<lparr>keyRun := True, suppSuccess := True\<rparr>
     in (e, if eap_key_available e then s\<lparr>replay_counter_valid := False\<rparr> else s))"

definition sm_SUPP_BE_FAIL_Enter :: "bool \<Rightarrow> 'p supp \<Rightarrow> 'p supp" where
  "sm_SUPP_BE_FAIL_Enter glob = (\<lambda>(e, s).
     (e, (BE_entry SUPP_BE_FAIL glob s)\<lparr>suppFail := True\<rparr>))"

definition sm_SUPP_BE_TIMEOUT_Enter :: "bool \<Rightarrow> 'p supp \<Rightarrow> 'p supp" where
  "sm_SUPP_BE_TIMEOUT_Enter glob = (\<lambda>(e, s).
     (e, (BE_entry SUPP_BE_TIMEOUT glob s)\<lparr>suppTimeout := True\<rparr>))"

definition sm_SUPP_BE_IDLE_Enter :: "bool \<Rightarrow> 'p supp \<Rightarrow> 'p supp" where
  "sm_SUPP_BE_IDLE_Enter glob = (\<lambda>(e, s).
     (e, (BE_entry SUPP_BE_IDLE glob s)\<lparr>suppStart := False, initial_req := True\<rparr>))"

definition sm_SUPP_BE_INITIALIZE_Enter :: "bool \<Rightarrow> 'p supp \<Rightarrow> 'p supp" where
  "sm_SUPP_BE_INITIALIZE_Enter glob = (\<lambda>(e, s).
     let (e, s) = eapol_sm_abortSupp (e, BE_entry SUPP_BE_INITIALIZE glob s)
     in (e, s\<lparr>suppAbort := False, authWhile := 0\<rparr>))"

definition sm_SUPP_BE_RECEIVE_Enter :: "bool \<Rightarrow> 'p supp \<Rightarrow> 'p supp" where
  "sm_SUPP_BE_RECEIVE_Enter glob = (\<lambda>(e, s).
     let s = BE_entry SUPP_BE_RECEIVE glob s;
         s = eapol_enable_timer_tick (s\<lparr>authWhile := authPeriod s\<rparr>)
     in (e, s\<lparr>eapolEap := False, eapNoResp := False, initial_req := False\<rparr>))"

definition SM_STEP_SUPP_BE :: "'p supp \<Rightarrow> 'p supp" where
  "SM_STEP_SUPP_BE = (\<lambda>(e, s).
     if initialize s \<or> suppAbort s then sm_SUPP_BE_INITIALIZE_Enter True (e, s)
     else
       (case SUPP_BE_state s of
          SUPP_BE_UNKNOWN \<Rightarrow> (e, s)
        | SUPP_BE_REQUEST \<Rightarrow>
            if eapResp s then sm_SUPP_BE_RESPONSE_Enter False (e, s)
            else if eapNoResp s then sm_SUPP_BE_RECEIVE_Enter False (e, s)
            else if eapFail s then sm_SUPP_BE_FAIL_Enter False (e, s)
            else if eapSuccess s then sm_SUPP_BE_SUCCESS_Enter False (e, s)
            else (e, s)
        | SUPP_BE_RESPONSE \<Rightarrow> sm_SUPP_BE_RECEIVE_Enter False (e, s)
        | SUPP_BE_SUCCESS \<Rightarrow> sm_SUPP_BE_IDLE_Enter False (e, s)
        | SUPP_BE_FAIL \<Rightarrow> sm_SUPP_BE_IDLE_Enter False (e, s)
        | SUPP_BE_TIMEOUT \<Rightarrow> sm_SUPP_BE_IDLE_Enter False (e, s)
        | SUPP_BE_IDLE \<Rightarrow>
            if eapFail s \<and> suppStart s then sm_SUPP_BE_FAIL_Enter False (e, s)
            else if eapolEap s \<and> suppStart s then sm_SUPP_BE_REQUEST_Enter False (e, s)
            else if eapSuccess s \<and> suppStart s then sm_SUPP_BE_SUCCESS_Enter False (e, s)
            else (e, s)
        | SUPP_BE_INITIALIZE \<Rightarrow> sm_SUPP_BE_IDLE_Enter False (e, s)
        | SUPP_BE_RECEIVE \<Rightarrow>
            if eapolEap s then sm_SUPP_BE_REQUEST_Enter False (e, s)
            else if eapFail s then sm_SUPP_BE_FAIL_Enter False (e, s)
            else if authWhile s = 0 then sm_SUPP_BE_TIMEOUT_Enter False (e, s)
            else if eapSuccess s then sm_SUPP_BE_SUCCESS_Enter False (e, s)
            else (e, s)))"

section \<open>The step function\<close>

text \<open>The body of the loop, and the loop with its limit of 100 iterations.\<close>

definition eapol_step_body :: "'p supp_env \<Rightarrow> 'p supp \<Rightarrow> 'p supp" where
  "eapol_step_body env = (\<lambda>(e, s).
     let s = SM_STEP_SUPP_PAE env (s\<lparr>changed := False\<rparr>);
         st = SM_STEP_SUPP_BE (SM_STEP_KEY_RX env (e, s));
         (res, e, s) = eap_peer_sm_step (eenv env) eapol_cb st
     in (e, if res then s\<lparr>changed := True\<rparr> else s))"

fun eapol_step_loop :: "'p supp_env \<Rightarrow> nat \<Rightarrow> 'p supp \<Rightarrow> 'p supp" where
  "eapol_step_loop env 0 st = st"
| "eapol_step_loop env (Suc n) st =
     (let st = eapol_step_body env st in
      if \<not> changed (snd st) then st else eapol_step_loop env n st)"

definition eapol_step_finish :: "'p supp_env \<Rightarrow> 'p supp \<Rightarrow> 'p supp" where
  "eapol_step_finish env = (\<lambda>(e, s).
     let s = (if changed s then s\<lparr>step_timeouts := 1\<rparr> else s) in
     if has_result_cb env \<and> cb_status s \<noteq> EAPOL_CB_IN_PROGRESS then
       (let result =
              (if cb_status s = EAPOL_CB_SUCCESS then EAPOL_SUPP_RESULT_SUCCESS
               else if eap_peer_was_failure_expected e then EAPOL_SUPP_RESULT_EXPECTED_FAILURE
               else EAPOL_SUPP_RESULT_FAILURE)
        in (e, emit (EvResult result) (s\<lparr>cb_status := EAPOL_CB_IN_PROGRESS\<rparr>)))
     else (e, s))"

definition eapol_sm_step :: "'p supp_env \<Rightarrow> 'p supp \<Rightarrow> 'p supp" where
  "eapol_sm_step env st = eapol_step_finish env (eapol_step_loop env 100 st)"

section \<open>Timeouts\<close>

text \<open>
  The two event loop timeouts. The event loop has removed the timeout before it calls the handler.
\<close>

definition port_timers_dec :: "eapol_sm \<Rightarrow> eapol_sm" where
  "port_timers_dec s =
     (let s = (if authWhile s > 0 then s\<lparr>authWhile := authWhile s - 1\<rparr> else s);
          s = (if heldWhile s > 0 then s\<lparr>heldWhile := heldWhile s - 1\<rparr> else s);
          s = (if startWhen s > 0 then s\<lparr>startWhen := startWhen s - 1\<rparr> else s);
          s = (if idleWhile s > 0 then s\<lparr>idleWhile := idleWhile s - 1\<rparr> else s)
      in s)"

definition eapol_port_timers_tick :: "'p supp_env \<Rightarrow> 'p supp \<Rightarrow> 'p supp" where
  "eapol_port_timers_tick env = (\<lambda>(e, s).
     let s = port_timers_dec (s\<lparr>tick_timeouts := tick_timeouts s - 1\<rparr>);
         s = (if authWhile s \<noteq> 0 \<or> heldWhile s \<noteq> 0 \<or> startWhen s \<noteq> 0 \<or> idleWhile s \<noteq> 0
              then s\<lparr>tick_timeouts := tick_timeouts s + 1\<rparr>
              else s\<lparr>timer_tick_enabled := False\<rparr>)
     in eapol_sm_step env (e, s))"

definition eapol_sm_step_timeout :: "'p supp_env \<Rightarrow> 'p supp \<Rightarrow> 'p supp" where
  "eapol_sm_step_timeout env = (\<lambda>(e, s).
     eapol_sm_step env (e, s\<lparr>step_timeouts := step_timeouts s - 1\<rparr>))"

section \<open>Received frames\<close>

definition eapol_sm_abort_cached :: "'p supp_env \<Rightarrow> eapol_sm \<Rightarrow> eapol_sm" where
  "eapol_sm_abort_cached env s =
     (let s = s\<lparr>cached_pmk := False, SUPP_PAE_state := SUPP_PAE_CONNECTING\<rparr>;
          s = eapol_sm_set_port_unauthorized env s;
          s = eapol_enable_timer_tick (s\<lparr>startWhen := 3\<rparr>)
      in if has_aborted_cached_cb env then emit EvAbortedCached s else s)"

text \<open>The payload length, with the workaround for a too short length in the EAPOL header.\<close>

definition rx_eapol_plen :: "'p supp_env \<Rightarrow> eapol_sm \<Rightarrow> bytes \<Rightarrow> nat" where
  "rx_eapol_plen env s buf =
     (let plen = unat (WPA_GET_BE16 (drop 2 buf)) in
      if env_wps env \<and> conf_workaround (conf s) \<and> plen < length buf - 4 \<and> buf ! 1 = 0 \<and>
         length buf - 4 > 4
      then
        (let elen = unat (WPA_GET_BE16 (drop 6 buf)) in
         if elen > plen \<and> elen \<le> length buf - 4 then elen else plen)
      else plen)"

definition rx_eap_packet :: "'p supp_env \<Rightarrow> bytes \<Rightarrow> nat \<Rightarrow> 'p supp \<Rightarrow> 'p supp" where
  "rx_eap_packet env buf plen = (\<lambda>(e, s).
     if conf_workaround (conf s) \<and> plen \<ge> 4 \<and> buf ! 4 = 10 then (e, s)
     else
       (let s = (if cached_pmk s then eapol_sm_abort_cached env s else s);
            s = s\<lparr>eapReqData :=
                  (if env_alloc (eenv env) plen then Some (take plen (drop 4 buf)) else None)\<rparr>
        in if eapReqData s \<noteq> None then eapol_sm_step env (e, s\<lparr>eapolEap := True\<rparr>) else (e, s)))"

text \<open>The result is 1 unless the frame belongs to the WPA state machine.\<close>

definition rx_eapol_key :: "'p supp_env \<Rightarrow> bytes \<Rightarrow> nat \<Rightarrow> 'p supp \<Rightarrow> nat \<times> 'p supp" where
  "rx_eapol_key env buf plen = (\<lambda>(e, s).
     if plen < 44 then (1, e, s)
     else if buf ! 4 = 254 \<or> buf ! 4 = 2 then (0, e, s)
     else if buf ! 4 \<noteq> 1 then (1, e, s)
     else
       (let data_len = plen + 4;
            s = s\<lparr>last_rx_key := (if env_alloc (eenv env) data_len then Some (take data_len buf) else None)\<rparr>
        in if last_rx_key s \<noteq> None then (1, eapol_sm_step env (e, s\<lparr>rxKey := True\<rparr>)) else (1, e, s)))"

definition eapol_sm_rx_eapol ::
    "'p supp_env \<Rightarrow> bytes \<Rightarrow> bytes \<Rightarrow> 'p supp \<Rightarrow> nat \<times> 'p supp" where
  "eapol_sm_rx_eapol env src buf = (\<lambda>(e, s).
     let s = s\<lparr>stats := (stats s)\<lparr>dot1xSuppEapolFramesRx := dot1xSuppEapolFramesRx (stats s) + 1\<rparr>\<rparr> in
     if length buf < 4 then
       (0, e, s\<lparr>stats := (stats s)
                 \<lparr>dot1xSuppInvalidEapolFramesRx := dot1xSuppInvalidEapolFramesRx (stats s) + 1\<rparr>\<rparr>)
     else
       (let s = s\<lparr>stats := (stats s)\<lparr>dot1xSuppLastEapolFrameVersion := buf ! 0,
                                    dot1xSuppLastEapolFrameSource := take 6 src\<rparr>\<rparr> in
        if unat (WPA_GET_BE16 (drop 2 buf)) > length buf - 4 then
          (0, e, s\<lparr>stats := (stats s)
                   \<lparr>dot1xSuppEapLengthErrorFramesRx := dot1xSuppEapLengthErrorFramesRx (stats s) + 1\<rparr>\<rparr>)
        else
          (let plen = rx_eapol_plen env s buf in
           if buf ! 1 = 0 then (1, rx_eap_packet env buf plen (e, s))
           else if buf ! 1 = 3 then rx_eapol_key env buf plen (e, s)
           else
             (1, e, s\<lparr>stats := (stats s)
                     \<lparr>dot1xSuppInvalidEapolFramesRx := dot1xSuppInvalidEapolFramesRx (stats s) + 1\<rparr>\<rparr>))))"

section \<open>Notifications and requests\<close>

definition eapol_sm_configure :: "int \<Rightarrow> int \<Rightarrow> int \<Rightarrow> int \<Rightarrow> 'p supp \<Rightarrow> 'p supp" where
  "eapol_sm_configure held auth start maxs = (\<lambda>(e, s).
     let s = (if held \<ge> 0 then s\<lparr>heldPeriod := nat held\<rparr> else s);
         s = (if auth \<ge> 0 then s\<lparr>authPeriod := nat auth\<rparr> else s);
         s = (if start \<ge> 0 then s\<lparr>startPeriod := nat start\<rparr> else s);
         s = (if maxs \<ge> 0 then s\<lparr>maxStart := nat maxs\<rparr> else s)
     in (e, s))"

definition eapol_sm_notify_tx_eapol_key :: "'p supp \<Rightarrow> 'p supp" where
  "eapol_sm_notify_tx_eapol_key = (\<lambda>(e, s).
     (e, s\<lparr>stats := (stats s)\<lparr>dot1xSuppEapolFramesTx := dot1xSuppEapolFramesTx (stats s) + 1\<rparr>\<rparr>))"

definition eapol_sm_notify_portEnabled :: "'p supp_env \<Rightarrow> bool \<Rightarrow> 'p supp \<Rightarrow> 'p supp" where
  "eapol_sm_notify_portEnabled env enabled = (\<lambda>(e, s).
     let s = (if portEnabled s \<noteq> enabled then s\<lparr>force_authorized_update := True\<rparr> else s)
     in eapol_sm_step env (e, s\<lparr>portEnabled := enabled\<rparr>))"

definition eapol_sm_notify_portValid :: "'p supp_env \<Rightarrow> bool \<Rightarrow> 'p supp \<Rightarrow> 'p supp" where
  "eapol_sm_notify_portValid env valid = (\<lambda>(e, s). eapol_sm_step env (e, s\<lparr>portValid := valid\<rparr>))"

definition eapol_sm_notify_eap_success :: "'p supp_env \<Rightarrow> bool \<Rightarrow> 'p supp \<Rightarrow> 'p supp" where
  "eapol_sm_notify_eap_success env success = (\<lambda>(e, s).
     eapol_sm_step env (if success then eap_notify_success e else e,
                        s\<lparr>eapSuccess := success, altAccept := success\<rparr>))"

definition eapol_sm_notify_eap_fail :: "'p supp_env \<Rightarrow> bool \<Rightarrow> 'p supp \<Rightarrow> 'p supp" where
  "eapol_sm_notify_eap_fail env fail = (\<lambda>(e, s).
     eapol_sm_step env (e, s\<lparr>eapFail := fail, altReject := fail\<rparr>))"

definition eapol_sm_notify_config ::
    "eap_peer_config option \<Rightarrow> eapol_config option \<Rightarrow> 'p supp \<Rightarrow> 'p supp" where
  "eapol_sm_notify_config cfg newconf = (\<lambda>(e, s).
     let s = s\<lparr>config := cfg\<rparr> in
     case newconf of
       None \<Rightarrow> (e, s)
     | Some c \<Rightarrow>
         (eap_set_force_disabled (conf_eap_disabled c)
            (eap_set_workaround (conf_workaround c) (eap_set_fast_reauth (conf_fast_reauth c) e)),
          s\<lparr>conf := (conf s)\<lparr>conf_accept_802_1x_keys := conf_accept_802_1x_keys c,
                            conf_required_keys := conf_required_keys c,
                            conf_fast_reauth := conf_fast_reauth c,
                            conf_workaround := conf_workaround c\<rparr>\<rparr>))"

definition eapol_sm_notify_logoff :: "'p supp_env \<Rightarrow> bool \<Rightarrow> 'p supp \<Rightarrow> 'p supp" where
  "eapol_sm_notify_logoff env logoff = (\<lambda>(e, s).
     let s = s\<lparr>userLogoff := logoff\<rparr>
     in eapol_sm_step env (e, if \<not> logoff then s\<lparr>startWhen := 0\<rparr> else s))"

definition eapol_sm_notify_cached :: "'p supp_env \<Rightarrow> 'p supp \<Rightarrow> 'p supp" where
  "eapol_sm_notify_cached env = (\<lambda>(e, s).
     eapol_sm_step env (eap_notify_success e, s\<lparr>eapSuccess := True\<rparr>))"

definition eapol_sm_notify_pmkid_attempt :: "bool \<Rightarrow> 'p supp \<Rightarrow> 'p supp" where
  "eapol_sm_notify_pmkid_attempt attempt = (\<lambda>(e, s). (e, s\<lparr>cached_pmk := attempt\<rparr>))"

definition eapol_sm_notify_portControl :: "'p supp_env \<Rightarrow> PortControl \<Rightarrow> 'p supp \<Rightarrow> 'p supp" where
  "eapol_sm_notify_portControl env pc = (\<lambda>(e, s). eapol_sm_step env (e, s\<lparr>portControl := pc\<rparr>))"

text \<open>
  \<open>eapol_sm_notify_pending\<close>, called by an EAP method, has the same body.
\<close>

definition eapol_sm_notify_ctrl_response :: "'p supp_env \<Rightarrow> 'p supp \<Rightarrow> 'p supp" where
  "eapol_sm_notify_ctrl_response env = (\<lambda>(e, s).
     if eapReqData s \<noteq> None \<and> \<not> eapReq s
     then eapol_sm_step env (e, s\<lparr>eapolEap := True, eapReq := True\<rparr>)
     else (e, s))"

definition eapol_sm_notify_pending :: "'p supp_env \<Rightarrow> 'p supp \<Rightarrow> 'p supp" where
  "eapol_sm_notify_pending env = (\<lambda>(e, s).
     if eapReqData s \<noteq> None \<and> \<not> eapReq s
     then eapol_sm_step env (e, s\<lparr>eapolEap := True, eapReq := True\<rparr>)
     else (e, s))"

definition eapol_sm_request_reauth :: "'p supp \<Rightarrow> 'p supp" where
  "eapol_sm_request_reauth = (\<lambda>(e, s).
     if SUPP_PAE_state s \<noteq> SUPP_PAE_AUTHENTICATED then (e, s) else (e, eapol_sm_txStart s))"

definition eapol_sm_notify_lower_layer_success :: "'p supp_env \<Rightarrow> bool \<Rightarrow> 'p supp \<Rightarrow> 'p supp" where
  "eapol_sm_notify_lower_layer_success env in_eapol_sm st =
     (let st = eap_notify_lower_layer_success eapol_cb st
      in if \<not> in_eapol_sm then eapol_sm_step env st else st)"

definition eapol_sm_invalidate_cached_session :: "'p supp \<Rightarrow> 'p supp" where
  "eapol_sm_invalidate_cached_session = (\<lambda>(e, s). (eap_invalidate_cached_session e, s))"

definition eapol_sm_set_ext_pw_ctx :: "'p supp \<Rightarrow> 'p supp" where
  "eapol_sm_set_ext_pw_ctx = (\<lambda>(e, s). (eap_sm_set_ext_pw_ctx e, s))"

definition eapol_sm_failed :: "'p supp \<Rightarrow> bool" where
  "eapol_sm_failed = (\<lambda>(e, s). \<not> eapSuccess s \<and> eapFail s)"

text \<open>\<open>os_zalloc\<close> and the assignments of \<open>eapol_sm_init\<close> before the first step.\<close>

definition eapol_sm_zero :: eapol_sm where
  "eapol_sm_zero =
     \<lparr>authWhile = 0, heldWhile = 0, startWhen = 0, idleWhile = 0, timer_tick_enabled = False,
      eapFail = False, eapolEap = False, eapSuccess = False, initialize = False, keyDone = False,
      keyRun = False, portControl = Auto, portEnabled = False, suppPortStatus = Unauthorized,
      portValid = False, suppAbort = False, suppFail = False, suppStart = False,
      suppSuccess = False, suppTimeout = False, SUPP_PAE_state = SUPP_PAE_UNKNOWN,
      userLogoff = False, logoffSent = False, startCount = 0, eapRestart = False,
      sPortMode = Auto, heldPeriod = 60, startPeriod = 30, maxStart = 3,
      KEY_RX_state = KEY_RX_UNKNOWN, rxKey = False, SUPP_BE_state = SUPP_BE_UNKNOWN,
      eapNoResp = False, eapReq = False, eapResp = False, authPeriod = 30,
      stats = \<lparr>dot1xSuppEapolFramesRx = 0, dot1xSuppEapolFramesTx = 0,
               dot1xSuppEapolStartFramesTx = 0, dot1xSuppEapolLogoffFramesTx = 0,
               dot1xSuppEapolRespFramesTx = 0, dot1xSuppEapolReqIdFramesRx = 0,
               dot1xSuppEapolReqFramesRx = 0, dot1xSuppInvalidEapolFramesRx = 0,
               dot1xSuppEapLengthErrorFramesRx = 0, dot1xSuppLastEapolFrameVersion = 0,
               dot1xSuppLastEapolFrameSource = replicate 6 0\<rparr>,
      changed = False, config = None, initial_req = False, last_rx_key = None,
      eapReqData = None, altAccept = False, altReject = False, replay_counter_valid = False,
      last_replay_counter = replicate 16 0,
      conf = \<lparr>conf_accept_802_1x_keys = False, conf_required_keys = 0, conf_fast_reauth = False,
              conf_workaround = False, conf_eap_disabled = False\<rparr>,
      cb_status = EAPOL_CB_IN_PROGRESS, cached_pmk = False, unicast_key_received = False,
      broadcast_key_received = False, force_authorized_update = False, tick_timeouts = 0,
      step_timeouts = 0, events = []\<rparr>"

definition eapol_sm_init :: "'p supp_env \<Rightarrow> bool \<Rightarrow> bool \<Rightarrow> bool \<Rightarrow> 'p supp option" where
  "eapol_sm_init env alloc_ok eap_alloc_ok tls_ok =
     (if \<not> alloc_ok then None
      else
        (case eap_peer_sm_init eap_alloc_ok tls_ok of
           None \<Rightarrow> None
         | Some e \<Rightarrow>
             (let s = eapol_sm_zero\<lparr>force_authorized_update := True, initialize := True\<rparr>;
                  (e, s) = eapol_sm_step env (e, s);
                  (e, s) = eapol_sm_step env (e, s\<lparr>initialize := False\<rparr>)
              in Some (e, s\<lparr>timer_tick_enabled := True, tick_timeouts := tick_timeouts s + 1\<rparr>))))"

section \<open>Invariants of the state\<close>

text \<open>What the controlled port must be in each state of the PAE state machine.\<close>

definition port_inv :: "eapol_sm \<Rightarrow> bool" where
  "port_inv s \<longleftrightarrow>
     (SUPP_PAE_state s \<in> {SUPP_PAE_DISCONNECTED, SUPP_PAE_LOGOFF, SUPP_PAE_HELD, SUPP_PAE_S_FORCE_UNAUTH}
        \<longrightarrow> suppPortStatus s = Unauthorized) \<and>
     (SUPP_PAE_state s \<in> {SUPP_PAE_AUTHENTICATED, SUPP_PAE_S_FORCE_AUTH}
        \<longrightarrow> suppPortStatus s = Authorized)"

text \<open>
  A running timer has a tick to count it down, and the tick is registered exactly once.
\<close>

definition timer_inv :: "eapol_sm \<Rightarrow> bool" where
  "timer_inv s \<longleftrightarrow>
     tick_timeouts s = (if timer_tick_enabled s then 1 else 0) \<and>
     (authWhile s > 0 \<or> heldWhile s > 0 \<or> startWhen s > 0 \<or> idleWhile s > 0 \<longrightarrow> timer_tick_enabled s)"

definition supp_inv :: "eapol_sm \<Rightarrow> bool" where
  "supp_inv s \<longleftrightarrow> port_inv s \<and> timer_inv s"

lemmas supp_inv_defs = supp_inv_def port_inv_def timer_inv_def

lemmas pae_enter_defs =
  sm_SUPP_PAE_LOGOFF_Enter_def sm_SUPP_PAE_DISCONNECTED_Enter_def sm_SUPP_PAE_CONNECTING_Enter_def
  sm_SUPP_PAE_AUTHENTICATING_Enter_def sm_SUPP_PAE_HELD_Enter_def sm_SUPP_PAE_AUTHENTICATED_Enter_def
  sm_SUPP_PAE_RESTART_Enter_def sm_SUPP_PAE_S_FORCE_AUTH_Enter_def
  sm_SUPP_PAE_S_FORCE_UNAUTH_Enter_def PAE_entry_def

lemmas port_defs =
  eapol_sm_set_port_authorized_def eapol_sm_set_port_unauthorized_def eapol_sm_txStart_def
  eapol_sm_txLogoff_def emit_def eapol_enable_timer_tick_def eapol_done_cb_def

lemma supp_inv_pae_enter:
  assumes "supp_inv s"
  shows "supp_inv (sm_SUPP_PAE_LOGOFF_Enter env g s)"
    "supp_inv (sm_SUPP_PAE_DISCONNECTED_Enter env g s)"
    "supp_inv (sm_SUPP_PAE_CONNECTING_Enter env g s)"
    "supp_inv (sm_SUPP_PAE_AUTHENTICATING_Enter g s)"
    "supp_inv (sm_SUPP_PAE_HELD_Enter env g s)"
    "supp_inv (sm_SUPP_PAE_AUTHENTICATED_Enter env g s)"
    "supp_inv (sm_SUPP_PAE_RESTART_Enter g s)"
    "supp_inv (sm_SUPP_PAE_S_FORCE_AUTH_Enter env g s)"
    "supp_inv (sm_SUPP_PAE_S_FORCE_UNAUTH_Enter env g s)"
  using assms by (simp_all add: supp_inv_defs pae_enter_defs port_defs Let_def)

text \<open>Fields that do not matter to the invariant.\<close>

lemma supp_inv_frame [simp]:
  "supp_inv (s\<lparr>changed := b\<rparr>) = supp_inv s" "supp_inv (s\<lparr>portValid := b\<rparr>) = supp_inv s"
  "supp_inv (s\<lparr>rxKey := b\<rparr>) = supp_inv s" "supp_inv (s\<lparr>events := ev\<rparr>) = supp_inv s"
  "supp_inv (emit x s) = supp_inv s" "supp_inv (eapol_done_cb env s) = supp_inv s"
  "supp_inv (BE_entry st g s) = supp_inv s" "supp_inv (KEY_RX_entry st' g s) = supp_inv s"
  by (simp_all add: supp_inv_defs emit_def eapol_done_cb_def BE_entry_def KEY_RX_entry_def)

lemma supp_inv_if:
  "(b \<Longrightarrow> supp_inv x) \<Longrightarrow> (\<not> b \<Longrightarrow> supp_inv y) \<Longrightarrow> supp_inv (if b then x else y)"
  by simp

lemma supp_inv_authenticating: "supp_inv s \<Longrightarrow> supp_inv (pae_step_authenticating env s)"
proof -
  assume inv: "supp_inv s"
  show ?thesis unfolding pae_step_authenticating_def Let_def
    by (intro supp_inv_if supp_inv_pae_enter) (simp_all only: supp_inv_frame inv)
qed

lemma supp_inv_pae_local: "supp_inv s \<Longrightarrow> supp_inv (SM_STEP_SUPP_PAE_local env s)"
  unfolding SM_STEP_SUPP_PAE_local_def pae_step_connecting_def
  by (cases "SUPP_PAE_state s"; simp only: supp_pae_state.case;
      (intro supp_inv_if supp_inv_pae_enter supp_inv_authenticating)?; assumption)

lemma supp_inv_pae_step: "supp_inv s \<Longrightarrow> supp_inv (SM_STEP_SUPP_PAE env s)"
  unfolding SM_STEP_SUPP_PAE_def
  by (intro supp_inv_if supp_inv_pae_enter supp_inv_pae_local)

interpretation inv_ctx: eap_ctx_invariant eapol_cb supp_inv
  by unfold_locales
    (auto simp: supp_inv_defs eapol_sm_set_bool_def eapol_sm_set_int_def eapol_sm_put_config_def
       eapol_enable_timer_tick_def Let_def split: eapol_bool_var.splits eapol_int_var.splits if_splits)

lemma supp_inv_lower_layer: "supp_inv s \<Longrightarrow> supp_inv (snd (eap_notify_lower_layer_success eapol_cb (e, s)))"
  by (simp add: eap_notify_lower_layer_success_def inv_ctx.J_set_bool [simplified])

lemma supp_inv_frame_key [simp]:
  "supp_inv (s\<lparr>unicast_key_received := b\<rparr>) = supp_inv s"
  "supp_inv (s\<lparr>broadcast_key_received := b\<rparr>) = supp_inv s"
  "supp_inv (s\<lparr>last_rx_key := k\<rparr>) = supp_inv s"
  "supp_inv (s\<lparr>replay_counter_valid := b, last_replay_counter := r\<rparr>) = supp_inv s"
  by (simp_all add: supp_inv_defs)

lemma supp_inv_install: "supp_inv s \<Longrightarrow> supp_inv (processKey_install env idx key s)"
  unfolding processKey_install_def Let_def by (intro supp_inv_if) simp_all

lemma supp_inv_verified: "supp_inv s \<Longrightarrow> supp_inv (processKey_verified env pkt kd sl el s)"
  unfolding processKey_verified_def Let_def
  by (intro supp_inv_if) (simp_all add: supp_inv_install split: option.split)

lemma supp_inv_processKey: "supp_inv s \<Longrightarrow> supp_inv (snd (eapol_sm_processKey env (e, s)))"
  using supp_inv_lower_layer [of s e]
  by (auto simp: eapol_sm_processKey_def Let_def supp_inv_verified split: option.split prod.split)

lemma supp_inv_key_rx: "supp_inv (snd st) \<Longrightarrow> supp_inv (snd (SM_STEP_KEY_RX env st))"
  by (cases st)
    (simp add: SM_STEP_KEY_RX_def sm_KEY_RX_NO_KEY_RECEIVE_Enter_def sm_KEY_RX_KEY_RECEIVE_Enter_def
      Let_def split_beta supp_inv_processKey split: key_rx_state.split)

lemmas be_enter_defs =
  sm_SUPP_BE_REQUEST_Enter_def sm_SUPP_BE_RESPONSE_Enter_def sm_SUPP_BE_SUCCESS_Enter_def
  sm_SUPP_BE_FAIL_Enter_def sm_SUPP_BE_TIMEOUT_Enter_def sm_SUPP_BE_IDLE_Enter_def
  sm_SUPP_BE_INITIALIZE_Enter_def sm_SUPP_BE_RECEIVE_Enter_def BE_entry_def

lemma supp_inv_be_enter:
  assumes "supp_inv s"
  shows "supp_inv (snd (sm_SUPP_BE_REQUEST_Enter g (e, s)))"
    "supp_inv (snd (sm_SUPP_BE_RESPONSE_Enter g (e, s)))"
    "supp_inv (snd (sm_SUPP_BE_SUCCESS_Enter g (e, s)))"
    "supp_inv (snd (sm_SUPP_BE_FAIL_Enter g (e, s)))"
    "supp_inv (snd (sm_SUPP_BE_TIMEOUT_Enter g (e, s)))"
    "supp_inv (snd (sm_SUPP_BE_IDLE_Enter g (e, s)))"
    "supp_inv (snd (sm_SUPP_BE_INITIALIZE_Enter g (e, s)))"
    "supp_inv (snd (sm_SUPP_BE_RECEIVE_Enter g (e, s)))"
  using assms
  by (simp_all add: be_enter_defs eapol_sm_txSuppRsp_def eapol_sm_abortSupp_def eap_sm_abort_def
      eapol_sm_set_bool_def eap_get_eapRespData_def emit_def Let_def eapol_enable_timer_tick_def
      supp_inv_defs split: option.split) auto

lemma supp_inv_if_snd:
  "(b \<Longrightarrow> supp_inv (snd x)) \<Longrightarrow> (\<not> b \<Longrightarrow> supp_inv (snd y)) \<Longrightarrow> supp_inv (snd (if b then x else y))"
  by simp

lemma supp_inv_be: "supp_inv (snd st) \<Longrightarrow> supp_inv (snd (SM_STEP_SUPP_BE st))"
proof -
  assume inv: "supp_inv (snd st)"
  obtain e s where st: "st = (e, s)" by (cases st)
  have "supp_inv s" using inv by (simp add: st)
  then show ?thesis unfolding SM_STEP_SUPP_BE_def st split_conv
    by (cases "SUPP_BE_state s"; simp only: supp_be_state.case;
        (intro supp_inv_if_snd supp_inv_be_enter)?; simp)
qed

lemma supp_inv_body: "supp_inv (snd st) \<Longrightarrow> supp_inv (snd (eapol_step_body env st))"
  by (simp add: eapol_step_body_def Let_def split_beta inv_ctx.J_step supp_inv_be supp_inv_key_rx
      supp_inv_pae_step)

lemma supp_inv_loop: "supp_inv (snd st) \<Longrightarrow> supp_inv (snd (eapol_step_loop env n st))"
  by (induction n arbitrary: st) (simp_all add: Let_def supp_inv_body)

lemma supp_inv_finish: "supp_inv (snd st) \<Longrightarrow> supp_inv (snd (eapol_step_finish env st))"
  by (simp add: eapol_step_finish_def Let_def split_beta) (simp add: supp_inv_defs emit_def)

lemma supp_inv_step: "supp_inv (snd st) \<Longrightarrow> supp_inv (snd (eapol_sm_step env st))"
  by (simp add: eapol_sm_step_def supp_inv_finish supp_inv_loop)


section \<open>Reachable states\<close>

text \<open>The entry points of the component, as operations on its state.\<close>

datatype supp_op =
    OpStep | OpTick | OpStepTimeout | OpRx bytes bytes | OpConfigure int int int int
  | OpTxKey | OpPortEnabled bool | OpPortValid bool | OpEapSuccess bool | OpEapFail bool
  | OpConfig "eap_peer_config option" "eapol_config option" | OpLogoff bool | OpCached
  | OpPmkidAttempt bool | OpPortControl PortControl | OpCtrlResponse | OpPending
  | OpRequestReauth | OpLowerLayerSuccess bool | OpInvalidate | OpExtPw

definition supp_exec :: "'p supp_env \<Rightarrow> supp_op \<Rightarrow> 'p supp \<Rightarrow> 'p supp" where
  "supp_exec env opr st =
     (case opr of
        OpStep \<Rightarrow> eapol_sm_step env st
      | OpTick \<Rightarrow> if tick_timeouts (snd st) > 0 then eapol_port_timers_tick env st else st
      | OpStepTimeout \<Rightarrow> if step_timeouts (snd st) > 0 then eapol_sm_step_timeout env st else st
      | OpRx src buf \<Rightarrow> snd (eapol_sm_rx_eapol env src buf st)
      | OpConfigure held auth start maxs \<Rightarrow> eapol_sm_configure held auth start maxs st
      | OpTxKey \<Rightarrow> eapol_sm_notify_tx_eapol_key st
      | OpPortEnabled b \<Rightarrow> eapol_sm_notify_portEnabled env b st
      | OpPortValid b \<Rightarrow> eapol_sm_notify_portValid env b st
      | OpEapSuccess b \<Rightarrow> eapol_sm_notify_eap_success env b st
      | OpEapFail b \<Rightarrow> eapol_sm_notify_eap_fail env b st
      | OpConfig cfg cnf \<Rightarrow> eapol_sm_notify_config cfg cnf st
      | OpLogoff b \<Rightarrow> eapol_sm_notify_logoff env b st
      | OpCached \<Rightarrow> eapol_sm_notify_cached env st
      | OpPmkidAttempt b \<Rightarrow> eapol_sm_notify_pmkid_attempt b st
      | OpPortControl pc \<Rightarrow> eapol_sm_notify_portControl env pc st
      | OpCtrlResponse \<Rightarrow> eapol_sm_notify_ctrl_response env st
      | OpPending \<Rightarrow> eapol_sm_notify_pending env st
      | OpRequestReauth \<Rightarrow> eapol_sm_request_reauth st
      | OpLowerLayerSuccess b \<Rightarrow> eapol_sm_notify_lower_layer_success env b st
      | OpInvalidate \<Rightarrow> eapol_sm_invalidate_cached_session st
      | OpExtPw \<Rightarrow> eapol_sm_set_ext_pw_ctx st)"

inductive supp_reachable :: "'p supp_env \<Rightarrow> 'p supp \<Rightarrow> bool" for env where
  init: "eapol_sm_init env True True True = Some st \<Longrightarrow> supp_reachable env st"
| exec: "supp_reachable env st \<Longrightarrow> supp_reachable env (supp_exec env opr st)"

lemma supp_inv_abort_cached: "supp_inv s \<Longrightarrow> supp_inv (eapol_sm_abort_cached env s)"
  by (simp add: eapol_sm_abort_cached_def port_defs supp_inv_defs Let_def)

lemma port_timers_dec_eq:
  "port_timers_dec s =
     s\<lparr>authWhile := authWhile s - 1, heldWhile := heldWhile s - 1, startWhen := startWhen s - 1,
       idleWhile := idleWhile s - 1\<rparr>"
proof -
  have "(if authWhile s > 0 then s\<lparr>authWhile := authWhile s - 1\<rparr> else s) = s\<lparr>authWhile := authWhile s - 1\<rparr>"
    "(if heldWhile s > 0 then s\<lparr>heldWhile := heldWhile s - 1\<rparr> else s) = s\<lparr>heldWhile := heldWhile s - 1\<rparr>"
    "(if startWhen s > 0 then s\<lparr>startWhen := startWhen s - 1\<rparr> else s) = s\<lparr>startWhen := startWhen s - 1\<rparr>"
    "(if idleWhile s > 0 then s\<lparr>idleWhile := idleWhile s - 1\<rparr> else s) = s\<lparr>idleWhile := idleWhile s - 1\<rparr>"
    for s :: eapol_sm
    by (cases s; simp)+
  then show ?thesis by (simp add: port_timers_dec_def)
qed

lemma supp_inv_tick:
  assumes "supp_inv s" "tick_timeouts s > 0"
  shows "supp_inv (snd (eapol_port_timers_tick env (e, s)))"
proof -
  have t: "timer_tick_enabled s" "tick_timeouts s = 1" and p: "port_inv s"
    using assms by (auto simp: supp_inv_def timer_inv_def split: if_splits)
  define s' where "s' = port_timers_dec (s\<lparr>tick_timeouts := tick_timeouts s - 1\<rparr>)"
  have s': "timer_tick_enabled s'" "tick_timeouts s' = 0" "port_inv s'"
    using t p by (simp_all add: s'_def port_timers_dec_eq port_inv_def)
  have "supp_inv (s'\<lparr>tick_timeouts := tick_timeouts s' + 1\<rparr>)"
    using s' by (simp add: supp_inv_defs)
  moreover have "supp_inv (s'\<lparr>timer_tick_enabled := False\<rparr>)"
    if "\<not> (authWhile s' \<noteq> 0 \<or> heldWhile s' \<noteq> 0 \<or> startWhen s' \<noteq> 0 \<or> idleWhile s' \<noteq> 0)"
    using s' that by (simp add: supp_inv_defs)
  ultimately show ?thesis
    unfolding eapol_port_timers_tick_def split_conv Let_def s'_def [symmetric]
    by (intro supp_inv_step) simp
qed

lemma supp_inv_frame_ops [simp]:
  "supp_inv (s\<lparr>stats := x\<rparr>) = supp_inv s" "supp_inv (s\<lparr>eapReqData := d\<rparr>) = supp_inv s"
  "supp_inv (s\<lparr>eapolEap := b\<rparr>) = supp_inv s" "supp_inv (s\<lparr>eapReq := b\<rparr>) = supp_inv s"
  "supp_inv (s\<lparr>step_timeouts := n\<rparr>) = supp_inv s" "supp_inv (s\<lparr>cached_pmk := b\<rparr>) = supp_inv s"
  "supp_inv (s\<lparr>eapSuccess := b\<rparr>) = supp_inv s" "supp_inv (s\<lparr>altAccept := b\<rparr>) = supp_inv s"
  "supp_inv (s\<lparr>eapFail := b\<rparr>) = supp_inv s" "supp_inv (s\<lparr>altReject := b\<rparr>) = supp_inv s"
  "supp_inv (s\<lparr>portEnabled := b\<rparr>) = supp_inv s" "supp_inv (s\<lparr>portControl := pc\<rparr>) = supp_inv s"
  "supp_inv (s\<lparr>userLogoff := b\<rparr>) = supp_inv s" "supp_inv (s\<lparr>config := cfg\<rparr>) = supp_inv s"
  "supp_inv (s\<lparr>conf := cf\<rparr>) = supp_inv s" "supp_inv (s\<lparr>force_authorized_update := b\<rparr>) = supp_inv s"
  "supp_inv (s\<lparr>heldPeriod := n\<rparr>) = supp_inv s" "supp_inv (s\<lparr>authPeriod := n\<rparr>) = supp_inv s"
  "supp_inv (s\<lparr>startPeriod := n\<rparr>) = supp_inv s" "supp_inv (s\<lparr>maxStart := n\<rparr>) = supp_inv s"
  "supp_inv (s\<lparr>initialize := b\<rparr>) = supp_inv s"
  by (simp_all add: supp_inv_defs)

lemma supp_inv_rx: "supp_inv (snd st) \<Longrightarrow> supp_inv (snd (snd (eapol_sm_rx_eapol env src buf st)))"
proof -
  assume inv: "supp_inv (snd st)"
  obtain e s where st: "st = (e, s)" by (cases st)
  have eap: "supp_inv (snd (rx_eap_packet env buf plen (e, s)))" if "supp_inv s" for plen s
  proof -
    have "supp_inv (if cached_pmk s then eapol_sm_abort_cached env s else s)"
      using that supp_inv_abort_cached by auto
    then show ?thesis using that
      by (simp add: rx_eap_packet_def Let_def) (auto intro!: supp_inv_step)
  qed
  have key: "supp_inv (snd (snd (rx_eapol_key env buf plen (e, s))))" if "supp_inv s" for plen s
    using that by (simp add: rx_eapol_key_def Let_def supp_inv_step)
  show ?thesis using inv
    by (simp add: eapol_sm_rx_eapol_def st Let_def eap key)
qed

lemma supp_inv_notify:
  assumes "supp_inv s"
  shows "supp_inv (snd (eapol_sm_step_timeout env (e, s)))"
    "supp_inv (snd (eapol_sm_notify_tx_eapol_key (e, s)))"
    "supp_inv (snd (eapol_sm_notify_portEnabled env b (e, s)))"
    "supp_inv (snd (eapol_sm_notify_portValid env b (e, s)))"
    "supp_inv (snd (eapol_sm_notify_eap_success env b (e, s)))"
    "supp_inv (snd (eapol_sm_notify_eap_fail env b (e, s)))"
    "supp_inv (snd (eapol_sm_notify_cached env (e, s)))"
    "supp_inv (snd (eapol_sm_notify_pmkid_attempt b (e, s)))"
    "supp_inv (snd (eapol_sm_notify_portControl env pc (e, s)))"
    "supp_inv (snd (eapol_sm_notify_ctrl_response env (e, s)))"
    "supp_inv (snd (eapol_sm_notify_pending env (e, s)))"
    "supp_inv (snd (eapol_sm_invalidate_cached_session (e, s)))"
    "supp_inv (snd (eapol_sm_set_ext_pw_ctx (e, s)))"
    "supp_inv (snd (eapol_sm_request_reauth (e, s)))"
    "supp_inv (snd (eapol_sm_notify_lower_layer_success env b (e, s)))"
    "supp_inv (snd (eapol_sm_notify_config cfg cnf (e, s)))"
  using assms
  by (simp_all add: supp_inv_step supp_inv_lower_layer Let_def eapol_sm_txStart_def
      eapol_sm_step_timeout_def eapol_sm_notify_tx_eapol_key_def eapol_sm_notify_portEnabled_def
      eapol_sm_notify_portValid_def eapol_sm_notify_eap_success_def eapol_sm_notify_eap_fail_def
      eapol_sm_notify_cached_def eapol_sm_notify_pmkid_attempt_def
      eapol_sm_notify_portControl_def eapol_sm_notify_ctrl_response_def
      eapol_sm_notify_pending_def eapol_sm_invalidate_cached_session_def
      eapol_sm_set_ext_pw_ctx_def eapol_sm_request_reauth_def
      eapol_sm_notify_lower_layer_success_def eapol_sm_notify_config_def
      split: option.split)

lemma supp_inv_logoff:
  assumes "supp_inv s" shows "supp_inv (snd (eapol_sm_notify_logoff env b (e, s)))"
proof -
  have "supp_inv (s\<lparr>userLogoff := b, startWhen := 0\<rparr>)" using assms by (auto simp: supp_inv_defs)
  then show ?thesis using assms
    by (cases b) (simp_all add: eapol_sm_notify_logoff_def Let_def supp_inv_step)
qed

lemma supp_inv_configure:
  assumes "supp_inv s" shows "supp_inv (snd (eapol_sm_configure held auth start maxs (e, s)))"
  unfolding eapol_sm_configure_def Let_def split_conv snd_conv
  by (intro supp_inv_if) (simp_all add: assms)

lemma supp_inv_exec: "supp_inv (snd st) \<Longrightarrow> supp_inv (snd (supp_exec env opr st))"
  by (cases st; cases opr)
    (simp_all add: supp_exec_def supp_inv_step supp_inv_tick supp_inv_rx supp_inv_notify
      supp_inv_logoff supp_inv_configure)


section \<open>A disabled port\<close>

text \<open>All machines at rest with the port disabled.\<close>

definition supp_off :: "'p supp \<Rightarrow> bool" where
  "supp_off st \<longleftrightarrow>
     \<not> portEnabled (snd st) \<and> \<not> rxKey (snd st) \<and> EAP_state (fst st) = EAP_DISABLED \<and>
     SUPP_PAE_state (snd st) = SUPP_PAE_DISCONNECTED \<and> suppPortStatus (snd st) = Unauthorized \<and>
     KEY_RX_state (snd st) = KEY_RX_NO_KEY_RECEIVE \<and> SUPP_BE_state (snd st) = SUPP_BE_INITIALIZE"

text \<open>The timers and the frame buffers that a pass with the port disabled clears or leaves alone.\<close>

lemma eap_step_port_disabled:
  assumes "\<not> portEnabled s"
  shows "eap_peer_sm_step env eapol_cb (e, s) =
    (EAP_state e \<noteq> EAP_DISABLED,
     e\<lparr>eap_changed := False, EAP_state := EAP_DISABLED, num_rounds := 0\<rparr>, s\<lparr>idleWhile := 0\<rparr>)"
proof -
  have body: "eap_step_body env eapol_cb (e, s) =
      (e\<lparr>eap_changed := EAP_state e \<noteq> EAP_DISABLED, EAP_state := EAP_DISABLED, num_rounds := 0\<rparr>,
       s\<lparr>idleWhile := 0\<rparr>)" if "\<not> portEnabled s" for e :: "'a eap_sm" and s
    using that by (simp add: eap_step_body_def SM_STEP_EAP_def sm_EAP_DISABLED_Enter_def EAP_entry_def
        eapol_sm_set_int_def)
  show ?thesis
  proof (cases "EAP_state e = EAP_DISABLED")
    case True
    then show ?thesis using assms
      by (simp add: eap_peer_sm_step_def numeral_eq_Suc body Let_def)
  next
    case False
    then show ?thesis using assms
      by (simp add: eap_peer_sm_step_def numeral_eq_Suc body Let_def)
  qed
qed

lemma pae_step_port_disabled:
  "\<not> portEnabled s \<Longrightarrow> SM_STEP_SUPP_PAE env s = sm_SUPP_PAE_DISCONNECTED_Enter env True s"
  by (simp add: SM_STEP_SUPP_PAE_def)

lemma be_step_abort:
  "suppAbort s \<Longrightarrow> SM_STEP_SUPP_BE (e, s) = sm_SUPP_BE_INITIALIZE_Enter True (e, s)"
  by (simp add: SM_STEP_SUPP_BE_def)

lemma body_port_disabled:
  assumes "\<not> portEnabled s" "\<not> rxKey s"
  shows "supp_off (eapol_step_body env (e, s))"
    "changed (snd (eapol_step_body env (e, s))) \<longleftrightarrow>
       \<not> (EAP_state e = EAP_DISABLED \<and> SUPP_PAE_state s = SUPP_PAE_DISCONNECTED \<and>
          KEY_RX_state s = KEY_RX_NO_KEY_RECEIVE \<and> SUPP_BE_state s = SUPP_BE_INITIALIZE)"
    "timer_tick_enabled (snd (eapol_step_body env (e, s))) = timer_tick_enabled s"
    "tick_timeouts (snd (eapol_step_body env (e, s))) = tick_timeouts s"
  using assms
  by (simp_all add: eapol_step_body_def Let_def pae_step_port_disabled
      sm_SUPP_PAE_DISCONNECTED_Enter_def PAE_entry_def eapol_sm_set_port_unauthorized_def emit_def
      SM_STEP_KEY_RX_def sm_KEY_RX_NO_KEY_RECEIVE_Enter_def KEY_RX_entry_def be_step_abort
      sm_SUPP_BE_INITIALIZE_Enter_def BE_entry_def eapol_sm_abortSupp_def eap_sm_abort_def
      eap_sm_free_key_def eapol_sm_set_bool_def eap_step_port_disabled supp_off_def)


text \<open>A pending key frame is processed once, after which the machine is in the case above.\<close>

definition port_off :: "eapol_sm \<Rightarrow> bool" where
  "port_off s \<longleftrightarrow> \<not> portEnabled s \<and> \<not> rxKey s"

interpretation off_ctx: eap_ctx_invariant eapol_cb port_off
  by unfold_locales
    (auto simp: port_off_def eapol_sm_set_bool_def eapol_sm_set_int_def eapol_sm_put_config_def
       eapol_enable_timer_tick_def Let_def split: eapol_bool_var.splits eapol_int_var.splits)

lemma portEnabled_processKey [simp]:
  "portEnabled (snd (eapol_sm_processKey env (e, s))) = portEnabled s"
proof -
  have i: "portEnabled (processKey_install env ix k s) = portEnabled s" for ix k s
    by (simp add: processKey_install_def Let_def emit_def eapol_done_cb_def)
  have v: "portEnabled (processKey_verified env pkt kd sl el s) = portEnabled s" for pkt kd sl el s
    by (simp add: processKey_verified_def Let_def i split: option.split)
  have l: "portEnabled (snd (eap_notify_lower_layer_success eapol_cb (e, s))) = portEnabled s"
    by (simp add: eap_notify_lower_layer_success_def eapol_sm_set_bool_def)
  show ?thesis
    by (simp add: eapol_sm_processKey_def Let_def split_beta v l split: option.split)
qed

lemma body_port_off:
  assumes "\<not> portEnabled s" shows "port_off (snd (eapol_step_body env (e, s)))"
proof -
  let ?s = "SM_STEP_SUPP_PAE env (s\<lparr>changed := False\<rparr>)"
  have p: "\<not> portEnabled ?s" "suppAbort ?s"
    using assms by (simp_all add: pae_step_port_disabled sm_SUPP_PAE_DISCONNECTED_Enter_def
        PAE_entry_def eapol_sm_set_port_unauthorized_def emit_def Let_def)
  have "port_off (snd (SM_STEP_KEY_RX env (e, ?s)))"
    using p(1)
    by (simp add: SM_STEP_KEY_RX_def sm_KEY_RX_NO_KEY_RECEIVE_Enter_def KEY_RX_entry_def Let_def
        sm_KEY_RX_KEY_RECEIVE_Enter_def split_beta port_off_def)
  then have "port_off (snd (SM_STEP_SUPP_BE (SM_STEP_KEY_RX env (e, ?s))))"
    by (cases "SM_STEP_KEY_RX env (e, ?s)")
      (auto simp: SM_STEP_SUPP_BE_def be_enter_defs eapol_sm_txSuppRsp_def eapol_sm_abortSupp_def
        eap_sm_abort_def eapol_sm_set_bool_def eap_get_eapRespData_def emit_def Let_def
        eapol_enable_timer_tick_def port_off_def split: supp_be_state.split option.split)
  then have "port_off (snd (snd (eap_peer_sm_step (eenv env) eapol_cb
      (SM_STEP_SUPP_BE (SM_STEP_KEY_RX env (e, ?s))))))"
    by (rule off_ctx.J_step)
  then show ?thesis
    by (simp add: eapol_step_body_def Let_def split_beta port_off_def)
qed

interpretation changed_ctx: eap_ctx_invariant eapol_cb changed
  by unfold_locales
    (auto simp: eapol_sm_set_bool_def eapol_sm_set_int_def eapol_sm_put_config_def
       eapol_enable_timer_tick_def Let_def split: eapol_bool_var.splits eapol_int_var.splits)

lemma changed_processKey [simp]: "changed (snd (eapol_sm_processKey env (e, s))) = changed s"
proof -
  have i: "changed (processKey_install env ix k s) = changed s" for ix k s
    by (simp add: processKey_install_def Let_def emit_def eapol_done_cb_def)
  have v: "changed (processKey_verified env pkt kd sl el s) = changed s" for pkt kd sl el s
    by (simp add: processKey_verified_def Let_def i split: option.split)
  have l: "changed (snd (eap_notify_lower_layer_success eapol_cb (e, s))) = changed s"
    by (simp add: eap_notify_lower_layer_success_def eapol_sm_set_bool_def)
  show ?thesis
    by (simp add: eapol_sm_processKey_def Let_def split_beta v l split: option.split)
qed

text \<open>Once set during a pass, the flag \<open>changed\<close> stays set until the next pass.\<close>

lemma changed_be: "changed s \<Longrightarrow> changed (snd (SM_STEP_SUPP_BE (e, s)))"
  by (cases "SUPP_BE_state s")
    (auto simp: SM_STEP_SUPP_BE_def be_enter_defs eapol_sm_txSuppRsp_def eapol_sm_abortSupp_def
      eap_sm_abort_def eapol_sm_set_bool_def eap_get_eapRespData_def emit_def Let_def
      eapol_enable_timer_tick_def split: option.split)

lemma changed_key_rx: "changed s \<Longrightarrow> changed (snd (SM_STEP_KEY_RX env (e, s)))"
  by (auto simp: SM_STEP_KEY_RX_def sm_KEY_RX_NO_KEY_RECEIVE_Enter_def KEY_RX_entry_def Let_def
      sm_KEY_RX_KEY_RECEIVE_Enter_def split_beta split: key_rx_state.split)

lemma changed_body_be:
  "changed (snd (SM_STEP_KEY_RX env (e, SM_STEP_SUPP_PAE env (s\<lparr>changed := False\<rparr>)))) \<Longrightarrow>
     changed (snd (eapol_step_body env (e, s)))"
  by (cases "SM_STEP_KEY_RX env (e, SM_STEP_SUPP_PAE env (s\<lparr>changed := False\<rparr>))")
    (simp add: eapol_step_body_def Let_def split_beta changed_ctx.J_step changed_be)

lemma body_changed_rxKey:
  assumes "\<not> portEnabled s" "rxKey s" shows "changed (snd (eapol_step_body env (e, s)))"
proof (rule changed_body_be)
  have "\<not> portEnabled (SM_STEP_SUPP_PAE env (s\<lparr>changed := False\<rparr>))"
    "rxKey (SM_STEP_SUPP_PAE env (s\<lparr>changed := False\<rparr>))"
    using assms by (simp_all add: pae_step_port_disabled sm_SUPP_PAE_DISCONNECTED_Enter_def
        PAE_entry_def eapol_sm_set_port_unauthorized_def emit_def Let_def)
  then show "changed (snd (SM_STEP_KEY_RX env (e, SM_STEP_SUPP_PAE env (s\<lparr>changed := False\<rparr>))))"
    by (simp add: SM_STEP_KEY_RX_def sm_KEY_RX_NO_KEY_RECEIVE_Enter_def KEY_RX_entry_def Let_def
        sm_KEY_RX_KEY_RECEIVE_Enter_def split_beta)
qed

lemma loop_port_disabled_norx:
  assumes "\<not> portEnabled s" "\<not> rxKey s"
  shows "supp_off (eapol_step_loop env (Suc (Suc n)) (e, s)) \<and>
    \<not> changed (snd (eapol_step_loop env (Suc (Suc n)) (e, s))) \<and>
    timer_tick_enabled (snd (eapol_step_loop env (Suc (Suc n)) (e, s))) = timer_tick_enabled s \<and>
    tick_timeouts (snd (eapol_step_loop env (Suc (Suc n)) (e, s))) = tick_timeouts s"
proof -
  obtain e1 s1 where b1: "eapol_step_body env (e, s) = (e1, s1)" by force
  obtain e2 s2 where b2: "eapol_step_body env (e1, s1) = (e2, s2)" by force
  note r1 = body_port_disabled [OF assms, of env e, unfolded b1 snd_conv]
  have off1: "\<not> portEnabled s1" "\<not> rxKey s1" using r1(1) by (simp_all add: supp_off_def)
  note r2 = body_port_disabled [OF off1, of env e1, unfolded b2 snd_conv]
  show ?thesis using r1 r2 by (simp add: b1 b2 Let_def supp_off_def)
qed

lemma loop_port_disabled:
  assumes "\<not> portEnabled s"
  shows "supp_off (eapol_step_loop env 100 (e, s)) \<and> \<not> changed (snd (eapol_step_loop env 100 (e, s)))"
proof (cases "rxKey s")
  case False
  then show ?thesis using loop_port_disabled_norx [OF assms False, of env 98 e] by simp
next
  case True
  obtain e1 s1 where b1: "eapol_step_body env (e, s) = (e1, s1)" by force
  have off1: "\<not> portEnabled s1" "\<not> rxKey s1"
    using body_port_off [OF assms, of env e] by (simp_all add: b1 port_off_def)
  show ?thesis
  proof (cases "changed s1")
    case True
    then show ?thesis using loop_port_disabled_norx [OF off1, of env 97 e1]
      by (simp add: b1 Let_def eval_nat_numeral)
  next
    case False
    then show ?thesis using body_changed_rxKey [OF assms True, of env e] by (simp add: b1)
  qed
qed


lemma finish_frame:
  "supp_off (eapol_step_finish env st) = supp_off st"
  "timer_tick_enabled (snd (eapol_step_finish env st)) = timer_tick_enabled (snd st)"
  "tick_timeouts (snd (eapol_step_finish env st)) = tick_timeouts (snd st)"
  by (simp_all add: eapol_step_finish_def Let_def split_beta emit_def supp_off_def)

lemma step_port_disabled: "\<not> portEnabled (snd st) \<Longrightarrow> supp_off (eapol_sm_step env st)"
  by (cases st) (simp add: eapol_sm_step_def finish_frame loop_port_disabled)

lemma step_port_disabled_norx:
  assumes "\<not> portEnabled s" "\<not> rxKey s"
  shows "timer_tick_enabled (snd (eapol_sm_step env (e, s))) = timer_tick_enabled s"
    "tick_timeouts (snd (eapol_sm_step env (e, s))) = tick_timeouts s"
  using loop_port_disabled_norx [OF assms, of env 98 e]
  by (simp_all add: eapol_sm_step_def finish_frame)

lemma supp_init_off:
  fixes env :: "'p supp_env"
  assumes "eapol_sm_init env True True True = Some st"
  shows "supp_inv (snd st)" "supp_off st"
proof -
  obtain e :: "'p eap_sm" where e: "eap_peer_sm_init True True = Some e"
    by (simp add: eap_peer_sm_init_def)
  let ?s = "eapol_sm_zero\<lparr>force_authorized_update := True, initialize := True\<rparr>"
  obtain e1 s1 where s1: "eapol_sm_step env (e, ?s) = (e1, s1)" by force
  obtain e2 s2 where s2: "eapol_sm_step env (e1, s1\<lparr>initialize := False\<rparr>) = (e2, s2)" by force
  have st: "st = (e2, s2\<lparr>timer_tick_enabled := True, tick_timeouts := tick_timeouts s2 + 1\<rparr>)"
    using assms by (simp add: eapol_sm_init_def e s1 s2 Let_def)
  have z: "\<not> portEnabled ?s" "\<not> rxKey ?s" "\<not> timer_tick_enabled ?s" "tick_timeouts ?s = 0" "supp_inv ?s"
    by (simp_all add: eapol_sm_zero_def supp_inv_defs)
  have i1: "supp_inv s1" "supp_off (e1, s1)" "\<not> timer_tick_enabled s1" "tick_timeouts s1 = 0"
    using supp_inv_step [of "(e, ?s)" env] step_port_disabled [of "(e, ?s)" env]
      step_port_disabled_norx [OF z(1,2), of env e] z by (simp_all add: s1)
  then have off: "\<not> portEnabled (s1\<lparr>initialize := False\<rparr>)" "\<not> rxKey (s1\<lparr>initialize := False\<rparr>)"
    by (simp_all add: supp_off_def)
  have i2: "supp_inv s2" "supp_off (e2, s2)" "\<not> timer_tick_enabled s2" "tick_timeouts s2 = 0"
    using supp_inv_step [of "(e1, s1\<lparr>initialize := False\<rparr>)" env]
      step_port_disabled [of "(e1, s1\<lparr>initialize := False\<rparr>)" env]
      step_port_disabled_norx [OF off, of env e1] i1 off by (simp_all add: s2)
  show "supp_inv (snd st)" using i2 by (simp add: st supp_inv_defs)
  show "supp_off st" using i2(2) by (simp add: st supp_off_def)
qed

lemma supp_reachable_inv: "supp_reachable env st \<Longrightarrow> supp_inv (snd st)"
  by (induction rule: supp_reachable.induct) (simp_all add: supp_init_off supp_inv_exec)

section \<open>A concrete environment\<close>

text \<open>
  An environment without EAP methods, with a driver that accepts every key and a constant
  signature function, and a freshly allocated EAP state machine. The theorems above are applied
  to them at concrete states.
\<close>

definition sample_env :: "unit supp_env" where
  "sample_env =
     \<lparr>eenv = \<lparr>env_methods = [], env_alloc = (\<lambda>_. True), env_md5 = (\<lambda>_. []),
              env_scard_set_pin = (\<lambda>_. True), env_scard_imsi = None, env_scard_mnc_len = 3\<rparr>,
      env_wps = False, has_port_cb = True, has_done_cb = True, has_result_cb = True,
      has_aborted_cached_cb = True, has_set_wep_key = True,
      env_set_wep_key = (\<lambda>_ _ _. True), env_hmac_md5 = (\<lambda>_ _. replicate 16 0),
      env_stack = replicate 64 0xaa\<rparr>"

definition sample_eap :: "unit eap_sm" where
  "sample_eap = the (eap_peer_sm_init True True)"

section \<open>Properties of the EAP state machine over these callbacks\<close>

text \<open>
  C12: eap_peer_sm_step always returns: whatever the EAP methods answer, its loop comes to rest
  within the given number of passes, with nothing left to do.
\<close>

theorem eap_step_terminates:
  "\<exists>res e' s'. eap_step_loop env eapol_cb EAP_STEP_FUEL False st = Some (res, e', s') \<and>
     eap_peer_sm_step env eapol_cb st = (res, e', s') \<and> \<not> eap_changed e'"
proof -
  obtain r where r: "eap_step_loop env eapol_cb EAP_STEP_FUEL False st = Some r"
    using eapol.step_loop_fuel [of env False st] by blast
  then have "eap_peer_sm_step env eapol_cb st = r" by (simp add: eap_peer_sm_step_def)
  then show ?thesis
    using r eapol.peer_sm_step_invariant [of "\<lambda>_. True" env st] by (cases r) auto
qed

text \<open>
  C11: the EAP state machine sets eapSuccess only by entering SUCCESS with a decision that is not
  FAIL.
\<close>

theorem eap_success_needs_decision:
  assumes "\<not> eapSuccess (snd st)" "eapSuccess (snd (snd (eap_peer_sm_step env eapol_cb st)))"
  shows "EAP_state (fst (snd (eap_peer_sm_step env eapol_cb st))) = EAP_SUCCESS \<and>
    decision (fst (snd (eap_peer_sm_step env eapol_cb st))) \<noteq> DECISION_FAIL"
  by (rule eapol.step_success_safe) (simp_all add: assms)

lemma eap_step_loop_unroll:
  "eap_step_loop env cb (Suc n) res st =
     (if eap_changed (fst (eap_step_body env cb st)) then eap_step_loop env cb n True (eap_step_body env cb st)
      else Some (res, eap_step_body env cb st))"
  by (simp add: Let_def)

text \<open>The parsed fields of a well formed request.\<close>

lemma parse_request:
  assumes "5 \<le> hdr_length b" "hdr_length b \<le> length b" "hdr_code b = EAP_CODE_REQUEST"
  shows "rxReq (eap_sm_parseEapReq env (Some b) e)" "\<not> rxSuccess (eap_sm_parseEapReq env (Some b) e)"
    "\<not> rxFailure (eap_sm_parseEapReq env (Some b) e)"
    "reqId (eap_sm_parseEapReq env (Some b) e) = uint (hdr_identifier b)"
    "workaround e \<Longrightarrow> req_md5 (eap_sm_parseEapReq env (Some b) e) = env_md5 env (take (hdr_length b) b)"
  using assms by (simp_all add: eap_sm_parseEapReq_def Let_def)

lemma body_idle_request:
  assumes "EAP_state e = EAP_IDLE" "eapReq s" "portEnabled s" "\<not> eapRestart s" "\<not> force_disabled e"
    "num_rounds e \<le> EAP_MAX_AUTH_ROUNDS"
  shows "eap_step_body env eapol_cb (e, s) =
    ((eap_sm_parseEapReq env (eapReqData s) (e\<lparr>eap_changed := True, EAP_state := EAP_RECEIVED\<rparr>))
       \<lparr>num_rounds := num_rounds e + 1\<rparr>, s)"
  using assms
  by (simp add: eap_step_body_def SM_STEP_EAP_def eap_peer_sm_step_local_def eap_peer_sm_step_idle_def
      sm_EAP_RECEIVED_Enter_def EAP_entry_def Let_def eapol_sm_get_eapReqData_def)


text \<open>
  C33: the request after the fiftieth round is not processed: authentication fails, and the machine
  then stays as it is until it is restarted or disabled.
\<close>

theorem eap_rounds_limit:
  assumes "EAP_state e = EAP_IDLE" "eapReq s" "portEnabled s" "\<not> eapRestart s" "\<not> force_disabled e"
    and "num_rounds e = EAP_MAX_AUTH_ROUNDS"
  shows "\<exists>e' s'. eap_peer_sm_step env eapol_cb (e, s) = (True, e', s') \<and> EAP_state e' = EAP_FAILURE \<and>
    eapFail s' \<and> eapNoResp s' \<and> \<not> eapReq s' \<and> eapResp s' = eapResp s \<and>
    eap_method_priv e' = eap_method_priv e \<and> decision e' = decision e \<and>
    eap_peer_sm_step env eapol_cb (e', s'\<lparr>eapReq := True\<rparr>) = (False, e', s'\<lparr>eapReq := True\<rparr>)"
proof -
  define p where "p = eap_sm_parseEapReq env (eapReqData s) (e\<lparr>eap_changed := True, EAP_state := EAP_RECEIVED\<rparr>)"
  have p: "EAP_state p = EAP_RECEIVED" "force_disabled p = force_disabled e" "decision p = decision e"
    "eap_method_priv p = eap_method_priv e" "eap_changed p"
    by (simp_all add: p_def)
  define e1 where "e1 = p\<lparr>num_rounds := 51\<rparr>"
  have b1: "eap_step_body env eapol_cb (e, s) = (e1, s)"
    using body_idle_request [of e s env] assms by (simp add: e1_def p_def)
  define e2 where "e2 = p\<lparr>num_rounds := 52, EAP_state := EAP_FAILURE, prev_failure := True\<rparr>"
  define s2 where "s2 = s\<lparr>eapFail := True, eapReq := False, eapNoResp := True\<rparr>"
  have b2: "eap_step_body env eapol_cb (e1, s) = (e2\<lparr>eap_changed := True\<rparr>, s2)"
    using assms p
    by (simp add: eap_step_body_def SM_STEP_EAP_def sm_EAP_FAILURE_Enter_def EAP_entry_def e1_def
        e2_def s2_def eapol_sm_set_bool_def Let_def)
  have b3: "eap_step_body env eapol_cb (e2\<lparr>eap_changed := b\<rparr>, s2\<lparr>eapReq := r\<rparr>) =
      (e2\<lparr>eap_changed := False\<rparr>, s2\<lparr>eapReq := r\<rparr>)" for b r
    using assms p
    by (simp add: eap_step_body_def SM_STEP_EAP_def e2_def s2_def)
  have b3': "eap_step_body env eapol_cb (e2\<lparr>eap_changed := True\<rparr>, s2) = (e2\<lparr>eap_changed := False\<rparr>, s2)"
    using assms p by (simp add: eap_step_body_def SM_STEP_EAP_def e2_def s2_def)
  have c: "eap_changed e1" by (simp add: e1_def p)
  have "eap_peer_sm_step env eapol_cb (e, s) = (True, e2\<lparr>eap_changed := False\<rparr>, s2)"
    by (simp add: eap_peer_sm_step_def numeral_eq_Suc eap_step_loop_unroll b1 b2 b3' c
        del: eap_step_loop.simps(2))
  moreover have "eap_peer_sm_step env eapol_cb (e2\<lparr>eap_changed := False\<rparr>, s2\<lparr>eapReq := True\<rparr>) =
      (False, e2\<lparr>eap_changed := False\<rparr>, s2\<lparr>eapReq := True\<rparr>)"
    by (simp add: eap_peer_sm_step_def numeral_eq_Suc eap_step_loop_unroll b3 del: eap_step_loop.simps(2))
  ultimately show ?thesis using p by (simp add: e2_def s2_def)
qed

section \<open>Properties of the EAPOL state machines\<close>

lemma os_memcmp_less:
  "length a = length b \<Longrightarrow> os_memcmp a b < 0 \<longleftrightarrow> be_value a < be_value b"
proof (induction a b rule: list_induct2)
  case (Cons x xs y ys)
  have less: "be_value xs < 256 ^ length ys" "be_value ys < 256 ^ length ys"
    using be_value_less [of xs] be_value_less [of ys] Cons.hyps by simp_all
  show ?case
  proof (cases "x = y")
    case True
    then show ?thesis using Cons by (simp add: be_value_Cons)
  next
    case False
    then have "unat x \<noteq> unat y" using unsigned_word_eqI by blast
    then consider "unat x + 1 \<le> unat y" | "unat y + 1 \<le> unat x" by linarith
    then show ?thesis
    proof cases
      case 1
      then have "(unat x + 1) * 256 ^ length ys \<le> unat y * 256 ^ length ys"
        by (rule mult_le_mono1)
      moreover have "uint x < uint y" using 1 by (simp flip: word_less_def add: word_less_nat_alt)
      ultimately show ?thesis using False less Cons.hyps by (simp add: be_value_Cons)
    next
      case 2
      then have "(unat y + 1) * 256 ^ length ys \<le> unat x * 256 ^ length ys"
        by (rule mult_le_mono1)
      moreover have "\<not> uint x < uint y" using 2 by (simp flip: word_less_def add: word_less_nat_alt)
      ultimately show ?thesis using False less Cons.hyps by (simp add: be_value_Cons)
    qed
  qed
qed simp

lemma install_frame [simp]:
  "replay_counter_valid (processKey_install env ix k s) = replay_counter_valid s"
  "last_replay_counter (processKey_install env ix k s) = last_replay_counter s"
  by (simp_all add: processKey_install_def Let_def emit_def eapol_done_cb_def)

lemma lower_layer_frame [simp]:
  "events (snd (eap_notify_lower_layer_success eapol_cb (e, s))) = events s"
  "replay_counter_valid (snd (eap_notify_lower_layer_success eapol_cb (e, s))) = replay_counter_valid s"
  "last_replay_counter (snd (eap_notify_lower_layer_success eapol_cb (e, s))) = last_replay_counter s"
  by (simp_all add: eap_notify_lower_layer_success_def eapol_sm_set_bool_def)

lemma processKey_verified_events:
  assumes "events (processKey_verified env pkt kd sl el s) \<noteq> events s"
    and "length (last_replay_counter s) = 16" "48 \<le> length pkt"
  shows "replay_counter_valid (processKey_verified env pkt kd sl el s) \<and>
    take 8 (last_replay_counter (processKey_verified env pkt kd sl el s)) = take 8 (drop 7 pkt) \<and>
    env_hmac_md5 env (take sl (drop 32 kd))
      (take (4 + unat (WPA_GET_BE16 (drop 2 pkt))) (buf_put pkt 32 (replicate 16 0))) = take 16 (drop 32 pkt)"
proof -
  have "buf_put (buf_put pkt 32 (replicate 16 0)) 32 (take 16 (drop 32 pkt)) = pkt"
    using assms(3) by (intro buf_put_restore) simp_all
  then show ?thesis using assms
    by (auto simp: processKey_verified_def Let_def split: if_splits option.splits)
qed


text \<open>
  C8: in every reachable state the controlled port is what the PAE state says.\<close>

theorem supp_port_invariant:
  assumes "supp_reachable env st" shows "port_inv (snd st)"
  using supp_reachable_inv [OF assms] by (simp add: supp_inv_def)


text \<open>
  Whatever the state, disabling the port brings every machine to rest with the port
  unauthorized.
\<close>

theorem port_disabled_unauthorized:
  "supp_off (eapol_sm_notify_portEnabled env False st)"
  by (cases st) (simp add: eapol_sm_notify_portEnabled_def step_port_disabled Let_def)

text \<open>
  Initialization succeeds when memory does, and leaves the machine at rest.\<close>

theorem eapol_init_at_rest:
  fixes env :: "'p supp_env"
  shows "\<exists>st. eapol_sm_init env True True True = Some st \<and> supp_off st \<and> supp_inv (snd st)"
proof -
  obtain st where "eapol_sm_init env True True True = Some st"
    by (simp add: eapol_sm_init_def eap_peer_sm_init_def Let_def split_beta)
  then show ?thesis using supp_init_off by blast
qed

section \<open>The state at rest\<close>

lemma pae_step_authenticated_valid:
  assumes "SUPP_PAE_state (SM_STEP_SUPP_PAE env s) = SUPP_PAE_AUTHENTICATED"
    and "\<not> changed (SM_STEP_SUPP_PAE env s)"
  shows "portValid (SM_STEP_SUPP_PAE env s)"
proof -
  have glob: "SUPP_PAE_state (sm_SUPP_PAE_LOGOFF_Enter env g s) = SUPP_PAE_LOGOFF"
    "SUPP_PAE_state (sm_SUPP_PAE_DISCONNECTED_Enter env g s) = SUPP_PAE_DISCONNECTED"
    "SUPP_PAE_state (sm_SUPP_PAE_S_FORCE_AUTH_Enter env g s) = SUPP_PAE_S_FORCE_AUTH"
    "SUPP_PAE_state (sm_SUPP_PAE_S_FORCE_UNAUTH_Enter env g s) = SUPP_PAE_S_FORCE_UNAUTH"
    "changed (sm_SUPP_PAE_AUTHENTICATED_Enter env False s)"
    "changed (sm_SUPP_PAE_DISCONNECTED_Enter env False s)"
    "SUPP_PAE_state (sm_SUPP_PAE_CONNECTING_Enter env g s) = SUPP_PAE_CONNECTING"
    "SUPP_PAE_state (sm_SUPP_PAE_AUTHENTICATING_Enter g s) = SUPP_PAE_AUTHENTICATING"
    "SUPP_PAE_state (sm_SUPP_PAE_RESTART_Enter g s) = SUPP_PAE_RESTART"
    "SUPP_PAE_state (sm_SUPP_PAE_HELD_Enter env g s) = SUPP_PAE_HELD" for g s
    by (simp_all add: pae_enter_defs port_defs Let_def)
  have local: "portValid (SM_STEP_SUPP_PAE_local env s)"
    if "SUPP_PAE_state (SM_STEP_SUPP_PAE_local env s) = SUPP_PAE_AUTHENTICATED"
      "\<not> changed (SM_STEP_SUPP_PAE_local env s)"
    using that
    by (cases "SUPP_PAE_state s")
      (auto simp: SM_STEP_SUPP_PAE_local_def pae_step_connecting_def pae_step_authenticating_def
        glob Let_def eapol_done_cb_def emit_def split: if_splits)
  show ?thesis using assms local by (auto simp: SM_STEP_SUPP_PAE_def glob split: if_splits)
qed

definition auth_valid :: "eapol_sm \<Rightarrow> bool" where
  "auth_valid s \<longleftrightarrow> (SUPP_PAE_state s = SUPP_PAE_AUTHENTICATED \<longrightarrow> portValid s)"

interpretation auth_ctx: eap_ctx_invariant eapol_cb auth_valid
  by unfold_locales
    (auto simp: auth_valid_def eapol_sm_set_bool_def eapol_sm_set_int_def eapol_sm_put_config_def
       eapol_enable_timer_tick_def Let_def split: eapol_bool_var.splits eapol_int_var.splits)

lemma auth_valid_processKey: "auth_valid s \<Longrightarrow> auth_valid (snd (eapol_sm_processKey env (e, s)))"
proof -
  assume a: "auth_valid s"
  have i: "auth_valid s \<Longrightarrow> auth_valid (processKey_install env ix k s)" for ix k s
    by (simp add: processKey_install_def Let_def emit_def eapol_done_cb_def auth_valid_def)
  have f: "auth_valid (s\<lparr>last_rx_key := x\<rparr>) = auth_valid s"
    "auth_valid (s\<lparr>replay_counter_valid := b, last_replay_counter := c\<rparr>) = auth_valid s" for s x b c
    by (simp_all add: auth_valid_def)
  have v: "auth_valid s \<Longrightarrow> auth_valid (processKey_verified env pkt kd sl el s)" for pkt kd sl el s
    by (simp add: processKey_verified_def Let_def i f split: option.split)
  have l: "auth_valid (snd (eap_notify_lower_layer_success eapol_cb (e, s)))"
    using a by (simp add: eap_notify_lower_layer_success_def eapol_sm_set_bool_def auth_valid_def)
  show ?thesis using a l
    by (simp add: eapol_sm_processKey_def Let_def split_beta v split: option.split)
qed

lemma auth_valid_key_rx: "auth_valid s \<Longrightarrow> auth_valid (snd (SM_STEP_KEY_RX env (e, s)))"
proof -
  assume a: "auth_valid s"
  have f: "auth_valid (s\<lparr>rxKey := b\<rparr>) = auth_valid s" "auth_valid (KEY_RX_entry st g s) = auth_valid s"
    for s b st g
    by (simp_all add: auth_valid_def KEY_RX_entry_def)
  show ?thesis using a
    by (simp add: SM_STEP_KEY_RX_def sm_KEY_RX_NO_KEY_RECEIVE_Enter_def Let_def f
        sm_KEY_RX_KEY_RECEIVE_Enter_def split_beta auth_valid_processKey split: key_rx_state.split)
qed

lemma auth_valid_be: "auth_valid s \<Longrightarrow> auth_valid (snd (SM_STEP_SUPP_BE (e, s)))"
  by (cases "SUPP_BE_state s")
    (auto simp: SM_STEP_SUPP_BE_def be_enter_defs eapol_sm_txSuppRsp_def eapol_sm_abortSupp_def
      eap_sm_abort_def eapol_sm_set_bool_def eap_get_eapRespData_def emit_def Let_def
      eapol_enable_timer_tick_def auth_valid_def split: option.split)

lemma body_auth_valid:
  assumes "\<not> changed (snd (eapol_step_body env (e, s)))"
  shows "auth_valid (snd (eapol_step_body env (e, s)))"
proof -
  let ?s = "SM_STEP_SUPP_PAE env (s\<lparr>changed := False\<rparr>)"
  let ?st = "SM_STEP_SUPP_BE (SM_STEP_KEY_RX env (e, ?s))"
  have "\<not> changed (snd (SM_STEP_KEY_RX env (e, ?s)))" using assms changed_body_be by blast
  then have "\<not> changed ?s" using changed_key_rx by blast
  then have "auth_valid ?s"
    using pae_step_authenticated_valid [of env "s\<lparr>changed := False\<rparr>"] by (simp add: auth_valid_def)
  then have "auth_valid (snd (SM_STEP_KEY_RX env (e, ?s)))" by (rule auth_valid_key_rx)
  then have "auth_valid (snd ?st)"
    using auth_valid_be [of "snd (SM_STEP_KEY_RX env (e, ?s))" "fst (SM_STEP_KEY_RX env (e, ?s))"] by simp
  then have "auth_valid (snd (snd (eap_peer_sm_step (eenv env) eapol_cb ?st)))"
    by (rule auth_ctx.J_step)
  then show ?thesis
    by (simp add: eapol_step_body_def Let_def split_beta auth_valid_def)
qed

lemma loop_auth_valid:
  "\<not> changed (snd (eapol_step_loop env (Suc n) st)) \<Longrightarrow> auth_valid (snd (eapol_step_loop env (Suc n) st))"
proof (induction n arbitrary: st)
  case 0
  then show ?case using body_auth_valid [of env "fst st" "snd st"] by (simp add: Let_def split: if_splits)
next
  case (Suc n)
  show ?case
  proof (cases "changed (snd (eapol_step_body env st))")
    case True
    then have "eapol_step_loop env (Suc (Suc n)) st = eapol_step_loop env (Suc n) (eapol_step_body env st)"
      by (subst eapol_step_loop.simps(2)) (simp add: Let_def)
    then show ?thesis using Suc by simp
  next
    case False
    then show ?thesis using body_auth_valid [of env "fst st" "snd st"] by (simp add: Let_def)
  qed
qed

lemma Suc_99: "Suc 99 = 100"
  by simp

text \<open>
  C13: after eapol_sm_step an authenticated supplicant has a valid port, unless the machines did not
  come to rest within the 100 iterations; then the step timeout that continues them is registered.
\<close>

theorem eapol_step_authenticated_valid:
  assumes "SUPP_PAE_state (snd (eapol_sm_step env st)) = SUPP_PAE_AUTHENTICATED"
  shows "portValid (snd (eapol_sm_step env st)) \<or>
    changed (snd (eapol_sm_step env st)) \<and> step_timeouts (snd (eapol_sm_step env st)) = 1"
proof -
  have "changed (snd (eapol_step_loop env 100 st)) \<or> auth_valid (snd (eapol_step_loop env 100 st))"
    using loop_auth_valid [of env 99 st] unfolding Suc_99 by blast
  then show ?thesis using assms
    by (auto simp: eapol_sm_step_def eapol_step_finish_def split_beta Let_def emit_def auth_valid_def)
qed

section \<open>Applications\<close>

theorem eap_success_needs_decision_witness:
  "decision (fst (snd (eap_peer_sm_step (eenv sample_env) eapol_cb
     (sample_eap\<lparr>EAP_state := EAP_IDLE, decision := DECISION_COND_SUCC\<rparr>,
      eapol_sm_zero\<lparr>portEnabled := True, altAccept := True\<rparr>)))) \<noteq> DECISION_FAIL"
proof -
  let ?st = "(sample_eap\<lparr>EAP_state := EAP_IDLE, decision := DECISION_COND_SUCC\<rparr>,
      eapol_sm_zero\<lparr>portEnabled := True, altAccept := True\<rparr>)"
  have "eapSuccess (snd (snd (eap_peer_sm_step (eenv sample_env) eapol_cb ?st)))"
    by (simp add: eap_peer_sm_step_def eval_nat_numeral eap_step_body_def SM_STEP_EAP_def Let_def
        eap_peer_sm_step_local_def eap_peer_sm_step_idle_def sm_EAP_SUCCESS_Enter_def EAP_entry_def
        eapol_sm_set_bool_def eapol_sm_zero_def sample_eap_def eap_peer_sm_init_def)
  then show ?thesis
    using eap_success_needs_decision [of ?st "eenv sample_env"] by (simp add: eapol_sm_zero_def)
qed


theorem eap_rounds_limit_witness:
  "\<exists>e' s'. eap_peer_sm_step (eenv sample_env) eapol_cb
     (sample_eap\<lparr>EAP_state := EAP_IDLE, num_rounds := 50\<rparr>,
      eapol_sm_zero\<lparr>eapReq := True, portEnabled := True\<rparr>) = (True, e', s') \<and> EAP_state e' = EAP_FAILURE"
  using eap_rounds_limit [of "sample_eap\<lparr>EAP_state := EAP_IDLE, num_rounds := 50\<rparr>"
      "eapol_sm_zero\<lparr>eapReq := True, portEnabled := True\<rparr>" "eenv sample_env"]
  by (auto simp: sample_eap_def eap_peer_sm_init_def eapol_sm_zero_def)


theorem supp_port_invariant_witness:
  "suppPortStatus (snd (supp_exec sample_env (OpPortEnabled False)
     (the (eapol_sm_init sample_env True True True)))) = Unauthorized"
proof -
  obtain st where st: "eapol_sm_init sample_env True True True = Some st"
    by (simp add: eapol_sm_init_def eap_peer_sm_init_def Let_def split_beta)
  then have "supp_reachable sample_env (supp_exec sample_env (OpPortEnabled False) st)"
    by (intro supp_reachable.intros)
  then have "port_inv (snd (supp_exec sample_env (OpPortEnabled False) st))"
    by (rule supp_port_invariant)
  moreover have "SUPP_PAE_state (snd (supp_exec sample_env (OpPortEnabled False) st)) = SUPP_PAE_DISCONNECTED"
    using step_port_disabled [of "(fst st, (snd st)\<lparr>force_authorized_update := b, portEnabled := False\<rparr>)" sample_env for b]
    by (cases st) (simp add: supp_exec_def eapol_sm_notify_portEnabled_def Let_def supp_off_def step_port_disabled [unfolded supp_off_def])
  ultimately show ?thesis by (simp add: st port_inv_def)
qed


lemma step_loop_rest:
  "\<lbrakk>eapol_step_body env st = st; \<not> changed (snd st); 0 < n\<rbrakk> \<Longrightarrow> eapol_step_loop env n st = st"
  by (cases n) (simp_all add: Let_def)

theorem eapol_step_authenticated_valid_witness:
  "portValid (snd (eapol_sm_step sample_env
     (sample_eap\<lparr>EAP_state := EAP_SUCCESS\<rparr>,
      eapol_sm_zero\<lparr>portEnabled := True, portValid := True, SUPP_PAE_state := SUPP_PAE_AUTHENTICATED,
        SUPP_BE_state := SUPP_BE_IDLE, KEY_RX_state := KEY_RX_NO_KEY_RECEIVE, suppPortStatus := Authorized\<rparr>)))"
proof -
  let ?st = "(sample_eap\<lparr>EAP_state := EAP_SUCCESS\<rparr>,
      eapol_sm_zero\<lparr>portEnabled := True, portValid := True, SUPP_PAE_state := SUPP_PAE_AUTHENTICATED,
        SUPP_BE_state := SUPP_BE_IDLE, KEY_RX_state := KEY_RX_NO_KEY_RECEIVE, suppPortStatus := Authorized\<rparr>)"
  have b: "eapol_step_body sample_env ?st = ?st"
    by (simp add: eapol_step_body_def SM_STEP_SUPP_PAE_def SM_STEP_SUPP_PAE_local_def SM_STEP_KEY_RX_def
        SM_STEP_SUPP_BE_def eapol_sm_zero_def sample_eap_def eap_peer_sm_init_def eap_peer_sm_step_def
        eval_nat_numeral eap_step_body_def SM_STEP_EAP_def eap_peer_sm_step_local_def Let_def)
  have l: "eapol_step_loop sample_env 100 ?st = ?st"
    by (rule step_loop_rest [OF b]) (simp_all add: eapol_sm_zero_def)
  have "SUPP_PAE_state (snd (eapol_sm_step sample_env ?st)) = SUPP_PAE_AUTHENTICATED"
    "\<not> changed (snd (eapol_sm_step sample_env ?st))"
    by (simp_all only: eapol_sm_step_def l) (simp_all add: eapol_step_finish_def eapol_sm_zero_def Let_def)
  then show ?thesis
    using eapol_step_authenticated_valid [of sample_env ?st] by blast
qed

end
