(* ===== verification/Eloop.thy ===== *)
theory Eloop
  imports Prelude
begin

text \<open>
  The event loop, \<open>src/utils/eloop.c\<close>, in its \<open>select()\<close> configuration (the default of
  \<open>wpa_supplicant/Makefile\<close>).

  State: \<open>struct eloop_data\<close>, with the sock tables and the list of timeouts as lists. A handler and
  its two context pointers are addresses. What a handler does to the loop is a list of calls of the
  functions of \<open>eloop.h\<close> (\<open>eloop_op\<close>), computed from the state it sees; the rest of the program is a
  value \<open>'w\<close> that the handlers pass on. The clock, memory allocation and \<open>select()\<close> are parameters.

  \<open>os_time_t\<close> is the 64 bit \<open>long\<close>; the overflow check of \<open>eloop_register_timeout\<close> relies on its
  wrap-around, which \<open>os_time_wrap\<close> writes out.
\<close>

section \<open>Relative time\<close>

record os_reltime =
  rt_sec :: int
  rt_usec :: int

definition os_reltime_before :: "os_reltime \<Rightarrow> os_reltime \<Rightarrow> bool" where
  "os_reltime_before a b \<longleftrightarrow>
     rt_sec a < rt_sec b \<or> (rt_sec a = rt_sec b \<and> rt_usec a < rt_usec b)"

definition os_reltime_sub :: "os_reltime \<Rightarrow> os_reltime \<Rightarrow> os_reltime" where
  "os_reltime_sub a b =
     (let s = rt_sec a - rt_sec b; u = rt_usec a - rt_usec b in
      if u < 0 then \<lparr>rt_sec = s - 1, rt_usec = u + 1000000\<rparr> else \<lparr>rt_sec = s, rt_usec = u\<rparr>)"

definition os_time_wrap :: "int \<Rightarrow> int" where
  "os_time_wrap x = (x + 2 ^ 63) mod 2 ^ 64 - 2 ^ 63"

section \<open>State\<close>

datatype eloop_event_type = EVENT_TYPE_READ | EVENT_TYPE_WRITE | EVENT_TYPE_EXCEPTION

record eloop_sock =
  sk_sock :: int
  sk_eloop_data :: nat
  sk_user_data :: nat
  sk_handler :: nat

record eloop_timeout =
  to_time :: os_reltime
  to_eloop_data :: nat
  to_user_data :: nat
  to_handler :: nat

record eloop_signal =
  sg_sig :: int
  sg_user_data :: nat
  sg_handler :: nat
  sg_signaled :: nat

record eloop_sock_table =
  tb_table :: "eloop_sock list"
  tb_changed :: bool

record eloop_data =
  max_sock :: int
  el_count :: nat
  readers :: eloop_sock_table
  writers :: eloop_sock_table
  exceptions :: eloop_sock_table
  el_timeout :: "eloop_timeout list"
  el_signals :: "eloop_signal list"
  signaled :: nat
  pending_terminate :: bool
  el_terminate :: bool

abbreviation (input) ELOOP_ALL_CTX :: nat where "ELOOP_ALL_CTX \<equiv> 0xffffffffffffffff"

definition eloop_init :: eloop_data where
  "eloop_init =
     \<lparr>max_sock = 0, el_count = 0,
      readers = \<lparr>tb_table = [], tb_changed = False\<rparr>,
      writers = \<lparr>tb_table = [], tb_changed = False\<rparr>,
      exceptions = \<lparr>tb_table = [], tb_changed = False\<rparr>,
      el_timeout = [], el_signals = [], signaled = 0, pending_terminate = False, el_terminate = False\<rparr>"

section \<open>Sockets\<close>

definition eloop_get_sock_table :: "eloop_event_type \<Rightarrow> eloop_data \<Rightarrow> eloop_sock_table" where
  "eloop_get_sock_table ty el =
     (case ty of EVENT_TYPE_READ \<Rightarrow> readers el | EVENT_TYPE_WRITE \<Rightarrow> writers el
      | EVENT_TYPE_EXCEPTION \<Rightarrow> exceptions el)"

definition eloop_put_sock_table :: "eloop_event_type \<Rightarrow> eloop_sock_table \<Rightarrow> eloop_data \<Rightarrow> eloop_data" where
  "eloop_put_sock_table ty t el =
     (case ty of EVENT_TYPE_READ \<Rightarrow> el\<lparr>readers := t\<rparr> | EVENT_TYPE_WRITE \<Rightarrow> el\<lparr>writers := t\<rparr>
      | EVENT_TYPE_EXCEPTION \<Rightarrow> el\<lparr>exceptions := t\<rparr>)"

definition eloop_sock_table_add_sock ::
    "bool \<Rightarrow> eloop_event_type \<Rightarrow> int \<Rightarrow> nat \<Rightarrow> nat \<Rightarrow> nat \<Rightarrow> eloop_data \<Rightarrow> int \<times> eloop_data" where
  "eloop_sock_table_add_sock realloc_ok ty sock handler eloop_data user_data el =
     (let new_max_sock = (if sock > max_sock el then sock else max_sock el);
          table = eloop_get_sock_table ty el in
      if \<not> realloc_ok then (-1, el)
      else
        (0, (eloop_put_sock_table ty
              \<lparr>tb_table = tb_table table @
                 [\<lparr>sk_sock = sock, sk_eloop_data = eloop_data, sk_user_data = user_data,
                   sk_handler = handler\<rparr>],
               tb_changed = True\<rparr> el)
            \<lparr>max_sock := new_max_sock, el_count := el_count el + 1\<rparr>))"

fun sock_index :: "eloop_sock list \<Rightarrow> int \<Rightarrow> nat" where
  "sock_index [] sock = 0"
| "sock_index (s # ss) sock = (if sk_sock s = sock then 0 else 1 + sock_index ss sock)"

definition eloop_sock_table_remove_sock :: "eloop_event_type \<Rightarrow> int \<Rightarrow> eloop_data \<Rightarrow> eloop_data" where
  "eloop_sock_table_remove_sock ty sock el =
     (let table = eloop_get_sock_table ty el; ss = tb_table table; i = sock_index ss sock in
      if ss = [] \<or> i = length ss then el
      else
        (eloop_put_sock_table ty \<lparr>tb_table = take i ss @ drop (i + 1) ss, tb_changed = True\<rparr> el)
          \<lparr>el_count := el_count el - 1\<rparr>)"

definition eloop_register_sock ::
    "bool \<Rightarrow> int \<Rightarrow> eloop_event_type \<Rightarrow> nat \<Rightarrow> nat \<Rightarrow> nat \<Rightarrow> eloop_data \<Rightarrow> int \<times> eloop_data" where
  "eloop_register_sock realloc_ok sock ty handler ed ud el =
     eloop_sock_table_add_sock realloc_ok ty sock handler ed ud el"

definition eloop_unregister_sock :: "int \<Rightarrow> eloop_event_type \<Rightarrow> eloop_data \<Rightarrow> eloop_data" where
  "eloop_unregister_sock sock ty el = eloop_sock_table_remove_sock ty sock el"

definition eloop_register_read_sock ::
    "bool \<Rightarrow> int \<Rightarrow> nat \<Rightarrow> nat \<Rightarrow> nat \<Rightarrow> eloop_data \<Rightarrow> int \<times> eloop_data" where
  "eloop_register_read_sock realloc_ok sock handler ed ud el =
     eloop_register_sock realloc_ok sock EVENT_TYPE_READ handler ed ud el"

definition eloop_unregister_read_sock :: "int \<Rightarrow> eloop_data \<Rightarrow> eloop_data" where
  "eloop_unregister_read_sock sock el = eloop_unregister_sock sock EVENT_TYPE_READ el"

section \<open>Timeouts\<close>

text \<open>The carry loop from microseconds to seconds, and the ordered insertion.\<close>

function carry_usec :: "int \<Rightarrow> int \<Rightarrow> os_reltime" where
  "carry_usec s u =
     (if u \<ge> 1000000 then carry_usec (os_time_wrap (s + 1)) (u - 1000000)
      else \<lparr>rt_sec = s, rt_usec = u\<rparr>)"
  by pat_completeness auto
termination by (relation "measure (\<lambda>(s, u). nat u)") auto

declare carry_usec.simps [simp del]

fun timeout_insert :: "eloop_timeout \<Rightarrow> eloop_timeout list \<Rightarrow> eloop_timeout list" where
  "timeout_insert t [] = [t]"
| "timeout_insert t (u # us) =
     (if os_reltime_before (to_time t) (to_time u) then t # u # us else u # timeout_insert t us)"

definition eloop_register_timeout ::
    "bool \<Rightarrow> os_reltime option \<Rightarrow> u32 \<Rightarrow> u32 \<Rightarrow> nat \<Rightarrow> nat \<Rightarrow> nat \<Rightarrow> eloop_data \<Rightarrow> int \<times> eloop_data" where
  "eloop_register_timeout alloc_ok clock secs usecs handler eloop_data user_data el =
     (if \<not> alloc_ok then (-1, el)
      else
        (case clock of
           None \<Rightarrow> (-1, el)
         | Some now \<Rightarrow>
             (let s = os_time_wrap (rt_sec now + uint secs) in
              if s < rt_sec now then (0, el)
              else
                (0, el\<lparr>el_timeout :=
                   timeout_insert
                     \<lparr>to_time = carry_usec s (rt_usec now + uint usecs),
                      to_eloop_data = eloop_data, to_user_data = user_data, to_handler = handler\<rparr>
                     (el_timeout el)\<rparr>))))"

definition cancel_match :: "nat \<Rightarrow> nat \<Rightarrow> nat \<Rightarrow> eloop_timeout \<Rightarrow> bool" where
  "cancel_match handler eloop_data user_data t \<longleftrightarrow>
     to_handler t = handler \<and>
     (to_eloop_data t = eloop_data \<or> eloop_data = ELOOP_ALL_CTX) \<and>
     (to_user_data t = user_data \<or> user_data = ELOOP_ALL_CTX)"

fun cancel_loop :: "nat \<Rightarrow> nat \<Rightarrow> nat \<Rightarrow> eloop_timeout list \<Rightarrow> nat \<times> eloop_timeout list" where
  "cancel_loop h ed ud [] = (0, [])"
| "cancel_loop h ed ud (t # ts) =
     (let (removed, ts) = cancel_loop h ed ud ts in
      if cancel_match h ed ud t then (removed + 1, ts) else (removed, t # ts))"

definition eloop_cancel_timeout :: "nat \<Rightarrow> nat \<Rightarrow> nat \<Rightarrow> eloop_data \<Rightarrow> nat \<times> eloop_data" where
  "eloop_cancel_timeout handler eloop_data user_data el =
     (let (removed, ts) = cancel_loop handler eloop_data user_data (el_timeout el)
      in (removed, el\<lparr>el_timeout := ts\<rparr>))"

definition timeout_match :: "nat \<Rightarrow> nat \<Rightarrow> nat \<Rightarrow> eloop_timeout \<Rightarrow> bool" where
  "timeout_match handler eloop_data user_data t \<longleftrightarrow>
     to_handler t = handler \<and> to_eloop_data t = eloop_data \<and> to_user_data t = user_data"

fun find_timeout :: "nat \<Rightarrow> nat \<Rightarrow> nat \<Rightarrow> eloop_timeout list \<Rightarrow> eloop_timeout option" where
  "find_timeout h ed ud [] = None"
| "find_timeout h ed ud (t # ts) = (if timeout_match h ed ud t then Some t else find_timeout h ed ud ts)"

fun remove_timeout :: "nat \<Rightarrow> nat \<Rightarrow> nat \<Rightarrow> eloop_timeout list \<Rightarrow> eloop_timeout list" where
  "remove_timeout h ed ud [] = []"
| "remove_timeout h ed ud (t # ts) = (if timeout_match h ed ud t then ts else t # remove_timeout h ed ud ts)"

text \<open>The result is the number of removed timeouts and the time that was left.\<close>

definition eloop_cancel_timeout_one ::
    "os_reltime \<Rightarrow> nat \<Rightarrow> nat \<Rightarrow> nat \<Rightarrow> eloop_data \<Rightarrow> nat \<times> os_reltime \<times> eloop_data" where
  "eloop_cancel_timeout_one now handler eloop_data user_data el =
     (case find_timeout handler eloop_data user_data (el_timeout el) of
        None \<Rightarrow> (0, \<lparr>rt_sec = 0, rt_usec = 0\<rparr>, el)
      | Some t \<Rightarrow>
          (1, if os_reltime_before now (to_time t) then os_reltime_sub (to_time t) now
              else \<lparr>rt_sec = 0, rt_usec = 0\<rparr>,
           el\<lparr>el_timeout := remove_timeout handler eloop_data user_data (el_timeout el)\<rparr>))"

definition eloop_is_timeout_registered :: "nat \<Rightarrow> nat \<Rightarrow> nat \<Rightarrow> eloop_data \<Rightarrow> bool" where
  "eloop_is_timeout_registered handler eloop_data user_data el \<longleftrightarrow>
     find_timeout handler eloop_data user_data (el_timeout el) \<noteq> None"

definition eloop_deplete_timeout ::
    "bool \<Rightarrow> os_reltime \<Rightarrow> u32 \<Rightarrow> u32 \<Rightarrow> nat \<Rightarrow> nat \<Rightarrow> nat \<Rightarrow> eloop_data \<Rightarrow> int \<times> eloop_data" where
  "eloop_deplete_timeout alloc_ok now req_secs req_usecs handler ed ud el =
     (case find_timeout handler ed ud (el_timeout el) of
        None \<Rightarrow> (-1, el)
      | Some t \<Rightarrow>
          (let requested = \<lparr>rt_sec = uint req_secs, rt_usec = uint req_usecs\<rparr>;
               remaining = os_reltime_sub (to_time t) now in
           if os_reltime_before requested remaining
           then (1, snd (eloop_register_timeout alloc_ok (Some now) req_secs req_usecs handler ed ud
                     (snd (eloop_cancel_timeout handler ed ud el))))
           else (0, el)))"

definition eloop_replenish_timeout ::
    "bool \<Rightarrow> os_reltime \<Rightarrow> u32 \<Rightarrow> u32 \<Rightarrow> nat \<Rightarrow> nat \<Rightarrow> nat \<Rightarrow> eloop_data \<Rightarrow> int \<times> eloop_data" where
  "eloop_replenish_timeout alloc_ok now req_secs req_usecs handler ed ud el =
     (case find_timeout handler ed ud (el_timeout el) of
        None \<Rightarrow> (-1, el)
      | Some t \<Rightarrow>
          (let requested = \<lparr>rt_sec = uint req_secs, rt_usec = uint req_usecs\<rparr>;
               remaining = os_reltime_sub (to_time t) now in
           if os_reltime_before remaining requested
           then (1, snd (eloop_register_timeout alloc_ok (Some now) req_secs req_usecs handler ed ud
                     (snd (eloop_cancel_timeout handler ed ud el))))
           else (0, el)))"

section \<open>Signals\<close>

definition eloop_register_signal :: "bool \<Rightarrow> int \<Rightarrow> nat \<Rightarrow> nat \<Rightarrow> eloop_data \<Rightarrow> int \<times> eloop_data" where
  "eloop_register_signal realloc_ok sig handler user_data el =
     (if \<not> realloc_ok then (-1, el)
      else (0, el\<lparr>el_signals := el_signals el @
              [\<lparr>sg_sig = sig, sg_user_data = user_data, sg_handler = handler, sg_signaled = 0\<rparr>]\<rparr>))"

abbreviation (input) SIGHUP :: int where "SIGHUP \<equiv> 1"
abbreviation (input) SIGINT :: int where "SIGINT \<equiv> 2"
abbreviation (input) SIGTERM :: int where "SIGTERM \<equiv> 15"

definition eloop_register_signal_terminate ::
    "bool \<Rightarrow> bool \<Rightarrow> nat \<Rightarrow> nat \<Rightarrow> eloop_data \<Rightarrow> int \<times> eloop_data" where
  "eloop_register_signal_terminate ok1 ok2 handler user_data el =
     (let (ret, el) = eloop_register_signal ok1 SIGINT handler user_data el in
      if ret = 0 then eloop_register_signal ok2 SIGTERM handler user_data el else (ret, el))"

definition eloop_register_signal_reconfig ::
    "bool \<Rightarrow> nat \<Rightarrow> nat \<Rightarrow> eloop_data \<Rightarrow> int \<times> eloop_data" where
  "eloop_register_signal_reconfig ok handler user_data el =
     eloop_register_signal ok SIGHUP handler user_data el"

text \<open>The signal handler, which runs while the program waits in \<open>select()\<close>.\<close>

fun mark_signal :: "int \<Rightarrow> eloop_signal list \<Rightarrow> eloop_signal list" where
  "mark_signal sig [] = []"
| "mark_signal sig (s # ss) =
     (if sg_sig s = sig then s\<lparr>sg_signaled := sg_signaled s + 1\<rparr> # ss else s # mark_signal sig ss)"

definition eloop_handle_signal :: "int \<Rightarrow> eloop_data \<Rightarrow> eloop_data" where
  "eloop_handle_signal sig el =
     (let el = (if (sig = SIGINT \<or> sig = SIGTERM) \<and> \<not> pending_terminate el
                then el\<lparr>pending_terminate := True\<rparr> else el)
      in el\<lparr>signaled := signaled el + 1, el_signals := mark_signal sig (el_signals el)\<rparr>)"

definition eloop_set_terminate :: "eloop_data \<Rightarrow> eloop_data" where
  "eloop_set_terminate el = el\<lparr>el_terminate := True\<rparr>"

section \<open>The calls a handler can make\<close>

datatype eloop_op =
    OpRegisterSock bool int eloop_event_type nat nat nat
  | OpUnregisterSock int eloop_event_type
  | OpRegisterTimeout bool "os_reltime option" u32 u32 nat nat nat
  | OpCancelTimeout nat nat nat
  | OpCancelTimeoutOne os_reltime nat nat nat
  | OpDepleteTimeout bool os_reltime u32 u32 nat nat nat
  | OpReplenishTimeout bool os_reltime u32 u32 nat nat nat
  | OpRegisterSignal bool int nat nat
  | OpTerminate

fun eloop_exec :: "eloop_op \<Rightarrow> eloop_data \<Rightarrow> eloop_data" where
  "eloop_exec (OpRegisterSock ok sock ty h ed ud) el = snd (eloop_register_sock ok sock ty h ed ud el)"
| "eloop_exec (OpUnregisterSock sock ty) el = eloop_unregister_sock sock ty el"
| "eloop_exec (OpRegisterTimeout ok clock s u h ed ud) el =
     snd (eloop_register_timeout ok clock s u h ed ud el)"
| "eloop_exec (OpCancelTimeout h ed ud) el = snd (eloop_cancel_timeout h ed ud el)"
| "eloop_exec (OpCancelTimeoutOne now h ed ud) el = snd (snd (eloop_cancel_timeout_one now h ed ud el))"
| "eloop_exec (OpDepleteTimeout ok now s u h ed ud) el = snd (eloop_deplete_timeout ok now s u h ed ud el)"
| "eloop_exec (OpReplenishTimeout ok now s u h ed ud) el =
     snd (eloop_replenish_timeout ok now s u h ed ud el)"
| "eloop_exec (OpRegisterSignal ok sig h ud) el = snd (eloop_register_signal ok sig h ud el)"
| "eloop_exec OpTerminate el = eloop_set_terminate el"

definition eloop_exec_all :: "eloop_op list \<Rightarrow> eloop_data \<Rightarrow> eloop_data" where
  "eloop_exec_all ops el = foldl (\<lambda>el op. eloop_exec op el) el ops"

section \<open>The loop\<close>

record eloop_select =
  sel_res :: int
  sel_fatal :: bool
  sel_rfds :: "int \<Rightarrow> bool"
  sel_wfds :: "int \<Rightarrow> bool"
  sel_efds :: "int \<Rightarrow> bool"
  sel_signals :: "int list"

text \<open>
  The environment: what the handlers do, the clock, and \<open>select()\<close>, which gets the time to wait and
  returns its result, the file descriptor sets and the signals that arrived while it waited.
  \<open>sel_fatal\<close> is an error other than \<open>EINTR\<close>.
\<close>

record 'w eloop_env =
  call_timeout :: "nat \<Rightarrow> nat \<Rightarrow> nat \<Rightarrow> 'w \<Rightarrow> eloop_data \<Rightarrow> eloop_op list \<times> 'w"
  call_sock :: "nat \<Rightarrow> int \<Rightarrow> nat \<Rightarrow> nat \<Rightarrow> 'w \<Rightarrow> eloop_data \<Rightarrow> eloop_op list \<times> 'w"
  call_signal :: "nat \<Rightarrow> int \<Rightarrow> nat \<Rightarrow> 'w \<Rightarrow> eloop_data \<Rightarrow> eloop_op list \<times> 'w"
  wait_select :: "os_reltime option \<Rightarrow> 'w \<Rightarrow> eloop_data \<Rightarrow> eloop_select \<times> 'w"
  clock_now :: "'w \<Rightarrow> os_reltime"

lemma eloop_exec_table:
  "tb_table (eloop_get_sock_table ty (eloop_exec op el)) = tb_table (eloop_get_sock_table ty el) \<or>
   tb_changed (eloop_get_sock_table ty (eloop_exec op el))"
  by (cases op)
    (simp_all add: eloop_register_sock_def eloop_sock_table_add_sock_def eloop_unregister_sock_def
      eloop_sock_table_remove_sock_def eloop_get_sock_table_def eloop_put_sock_table_def Let_def
      eloop_register_timeout_def eloop_cancel_timeout_def eloop_cancel_timeout_one_def
      eloop_deplete_timeout_def eloop_replenish_timeout_def eloop_register_signal_def
      eloop_set_terminate_def split_beta split: eloop_event_type.split option.split)

lemma eloop_exec_changed:
  "tb_changed (eloop_get_sock_table ty el) \<Longrightarrow> tb_changed (eloop_get_sock_table ty (eloop_exec op el))"
  by (cases op; cases ty)
    (simp_all add: eloop_register_sock_def eloop_sock_table_add_sock_def eloop_unregister_sock_def
      eloop_sock_table_remove_sock_def eloop_get_sock_table_def eloop_put_sock_table_def Let_def
      eloop_register_timeout_def eloop_cancel_timeout_def eloop_cancel_timeout_one_def
      eloop_deplete_timeout_def eloop_replenish_timeout_def eloop_register_signal_def
      eloop_set_terminate_def split_beta split: eloop_event_type.split option.split)

text \<open>A handler that leaves \<open>changed\<close> clear has left the table alone.\<close>

lemma eloop_exec_all_table:
  "\<not> tb_changed (eloop_get_sock_table ty (eloop_exec_all ops el)) \<Longrightarrow>
   tb_table (eloop_get_sock_table ty (eloop_exec_all ops el)) = tb_table (eloop_get_sock_table ty el)"
proof (induction ops arbitrary: el)
  case (Cons op ops)
  have c: "tb_changed (eloop_get_sock_table ty el) \<Longrightarrow>
      tb_changed (eloop_get_sock_table ty (eloop_exec_all os el))" for os el
    by (induction os arbitrary: el) (simp_all add: eloop_exec_all_def eloop_exec_changed)
  have "\<not> tb_changed (eloop_get_sock_table ty (eloop_exec op el))"
    using Cons.prems c [of "eloop_exec op el" ops] by (auto simp: eloop_exec_all_def)
  then show ?case
    using Cons.IH [of "eloop_exec op el"] Cons.prems eloop_exec_table [of ty op el]
    by (simp add: eloop_exec_all_def)
qed (simp add: eloop_exec_all_def)

definition eloop_sock_table_set_fds :: "eloop_sock_table \<Rightarrow> int \<Rightarrow> bool" where
  "eloop_sock_table_set_fds table = (\<lambda>fd. list_ex (\<lambda>s. sk_sock s = fd) (tb_table table))"

function dispatch_loop ::
    "'w eloop_env \<Rightarrow> eloop_event_type \<Rightarrow> (int \<Rightarrow> bool) \<Rightarrow> nat \<Rightarrow> 'w \<times> eloop_data \<Rightarrow> 'w \<times> eloop_data" where
  "dispatch_loop env ty fds i (w, el) =
     (let table = tb_table (eloop_get_sock_table ty el) in
      if i < length table then
        (let s = table ! i in
         if fds (sk_sock s) then
           (let (ops, w') = call_sock env (sk_handler s) (sk_sock s) (sk_eloop_data s) (sk_user_data s) w el;
                el' = eloop_exec_all ops el in
            if tb_changed (eloop_get_sock_table ty el') then (w', el')
            else dispatch_loop env ty fds (i + 1) (w', el'))
         else dispatch_loop env ty fds (i + 1) (w, el))
      else (w, el))"
  by pat_completeness auto
termination
  by (relation "measure (\<lambda>(env, ty, fds, i, w, el). length (tb_table (eloop_get_sock_table ty el)) - i)")
    (auto dest: eloop_exec_all_table)

declare dispatch_loop.simps [simp del]

definition eloop_sock_table_dispatch ::
    "'w eloop_env \<Rightarrow> eloop_event_type \<Rightarrow> (int \<Rightarrow> bool) \<Rightarrow> 'w \<times> eloop_data \<Rightarrow> 'w \<times> eloop_data" where
  "eloop_sock_table_dispatch env ty fds = (\<lambda>(w, el).
     dispatch_loop env ty fds 0
       (w, eloop_put_sock_table ty ((eloop_get_sock_table ty el)\<lparr>tb_changed := False\<rparr>) el))"

text \<open>
  The loop over the registered signals. A handler may register more of them at the end of the table,
  with nothing pending.
\<close>

definition signals_pending_from :: "nat \<Rightarrow> eloop_data \<Rightarrow> nat" where
  "signals_pending_from i el = length (filter (\<lambda>s. sg_signaled s \<noteq> 0) (drop i (el_signals el)))"

lemma eloop_exec_signals:
  "\<exists>ss. el_signals (eloop_exec op el) = el_signals el @ ss \<and> (\<forall>s\<in>set ss. sg_signaled s = 0)"
  by (cases op)
    (simp_all add: eloop_register_sock_def eloop_sock_table_add_sock_def eloop_unregister_sock_def
      eloop_sock_table_remove_sock_def eloop_get_sock_table_def eloop_put_sock_table_def Let_def
      eloop_register_timeout_def eloop_cancel_timeout_def eloop_cancel_timeout_one_def
      eloop_deplete_timeout_def eloop_replenish_timeout_def eloop_register_signal_def
      eloop_set_terminate_def split_beta split: eloop_event_type.split option.split)

lemma eloop_exec_all_signals:
  "\<exists>ss. el_signals (eloop_exec_all ops el) = el_signals el @ ss \<and> (\<forall>s\<in>set ss. sg_signaled s = 0)"
proof (induction ops arbitrary: el)
  case (Cons op ops)
  obtain ss where ss: "el_signals (eloop_exec op el) = el_signals el @ ss" "\<forall>s\<in>set ss. sg_signaled s = 0"
    using eloop_exec_signals [of op el] by blast
  obtain ss' where "el_signals (eloop_exec_all ops (eloop_exec op el)) = el_signals (eloop_exec op el) @ ss'"
    "\<forall>s\<in>set ss'. sg_signaled s = 0"
    using Cons.IH [of "eloop_exec op el"] by blast
  then show ?case using ss by (intro exI [of _ "ss @ ss'"]) (auto simp: eloop_exec_all_def)
qed (simp add: eloop_exec_all_def)

lemma signals_pending_exec_all:
  assumes "i \<le> length (el_signals el)"
  shows "signals_pending_from i (eloop_exec_all ops el) = signals_pending_from i el"
proof -
  obtain ss where "el_signals (eloop_exec_all ops el) = el_signals el @ ss" "\<forall>s\<in>set ss. sg_signaled s = 0"
    using eloop_exec_all_signals [of ops el] by blast
  then show ?thesis using assms by (simp add: signals_pending_from_def)
qed

lemma signals_pending_clear:
  assumes "i < length (el_signals el)" "sg_signaled (el_signals el ! i) \<noteq> 0"
  shows "signals_pending_from (Suc i) el < signals_pending_from i el"
  using assms by (simp add: signals_pending_from_def Cons_nth_drop_Suc [symmetric])

function pending_signals_loop :: "'w eloop_env \<Rightarrow> nat \<Rightarrow> 'w \<times> eloop_data \<Rightarrow> 'w \<times> eloop_data" where
  "pending_signals_loop env i (w, el) =
     (if i < length (el_signals el) then
        (let s = el_signals el ! i in
         if sg_signaled s \<noteq> 0 then
           (let el = el\<lparr>el_signals := (el_signals el)[i := s\<lparr>sg_signaled := 0\<rparr>]\<rparr>;
                (ops, w) = call_signal env (sg_handler s) (sg_sig s) (sg_user_data s) w el
            in pending_signals_loop env (i + 1) (w, eloop_exec_all ops el))
         else pending_signals_loop env (i + 1) (w, el))
      else (w, el))"
  by pat_completeness auto
termination
proof (relation "measures [\<lambda>(env, i, w, el). signals_pending_from i el,
    \<lambda>(env, i, w, el). length (el_signals el) - i]", goal_cases)
  case (2 env i w el s el' r ops w')
  then have "signals_pending_from (Suc i) el' = signals_pending_from (Suc i) el"
    by (simp add: signals_pending_from_def)
  then show ?case
    using 2 signals_pending_clear [of i el] signals_pending_exec_all [of "Suc i" el' ops] by simp
next
  case (3 env i w el s)
  then show ?case by (auto simp: signals_pending_from_def Cons_nth_drop_Suc [symmetric])
qed simp

declare pending_signals_loop.simps [simp del]

definition eloop_process_pending_signals :: "'w eloop_env \<Rightarrow> 'w \<times> eloop_data \<Rightarrow> 'w \<times> eloop_data" where
  "eloop_process_pending_signals env = (\<lambda>(w, el).
     if signaled el = 0 then (w, el)
     else pending_signals_loop env 0 (w, el\<lparr>signaled := 0, pending_terminate := False\<rparr>))"

text \<open>The timeout that is due at a time, and its call.\<close>

definition due_timeout :: "os_reltime \<Rightarrow> eloop_data \<Rightarrow> eloop_timeout option" where
  "due_timeout now el =
     (case el_timeout el of
        [] \<Rightarrow> None
      | t # ts \<Rightarrow> if os_reltime_before now (to_time t) then None else Some t)"

definition eloop_fire_timeout :: "'w eloop_env \<Rightarrow> 'w \<times> eloop_data \<Rightarrow> 'w \<times> eloop_data" where
  "eloop_fire_timeout env = (\<lambda>(w, el).
     case due_timeout (clock_now env w) el of
       None \<Rightarrow> (w, el)
     | Some t \<Rightarrow>
         (let el = el\<lparr>el_timeout := tl (el_timeout el)\<rparr>;
              (ops, w) = call_timeout env (to_handler t) (to_eloop_data t) (to_user_data t) w el
          in (w, eloop_exec_all ops el)))"

definition eloop_wait_time :: "os_reltime \<Rightarrow> eloop_data \<Rightarrow> os_reltime option" where
  "eloop_wait_time now el =
     (case el_timeout el of
        [] \<Rightarrow> None
      | t # ts \<Rightarrow>
          Some (if os_reltime_before now (to_time t) then os_reltime_sub (to_time t) now
                else \<lparr>rt_sec = 0, rt_usec = 0\<rparr>))"

definition eloop_running :: "eloop_data \<Rightarrow> bool" where
  "eloop_running el \<longleftrightarrow>
     \<not> el_terminate el \<and>
     (el_timeout el \<noteq> [] \<or> length (tb_table (readers el)) > 0 \<or> length (tb_table (writers el)) > 0 \<or>
      length (tb_table (exceptions el)) > 0)"

text \<open>
  One pass of the loop. \<open>select()\<close> reports a subset of the descriptors it was given. The result is
  false when the loop is left because of an error.
\<close>

definition eloop_run_iter :: "'w eloop_env \<Rightarrow> 'w \<times> eloop_data \<Rightarrow> bool \<times> 'w \<times> eloop_data" where
  "eloop_run_iter env = (\<lambda>(w, el).
     let rfds = eloop_sock_table_set_fds (readers el);
         wfds = eloop_sock_table_set_fds (writers el);
         efds = eloop_sock_table_set_fds (exceptions el);
         (r, w) = wait_select env (eloop_wait_time (clock_now env w) el) w el;
         el = foldl (\<lambda>el sig. eloop_handle_signal sig el) el (sel_signals r) in
     if sel_res r < 0 \<and> sel_fatal r then (False, w, el)
     else
       (let st = eloop_process_pending_signals env (w, el);
            st = eloop_fire_timeout env st in
        if sel_res r \<le> 0 then (True, st)
        else
          (let st = eloop_sock_table_dispatch env EVENT_TYPE_READ (\<lambda>fd. rfds fd \<and> sel_rfds r fd) st;
               st = eloop_sock_table_dispatch env EVENT_TYPE_WRITE (\<lambda>fd. wfds fd \<and> sel_wfds r fd) st;
               st = eloop_sock_table_dispatch env EVENT_TYPE_EXCEPTION (\<lambda>fd. efds fd \<and> sel_efds r fd) st
           in (True, st))))"

text \<open>The loop with a bound on its passes; \<open>None\<close> while it is still running.\<close>

fun eloop_run_loop :: "'w eloop_env \<Rightarrow> nat \<Rightarrow> 'w \<times> eloop_data \<Rightarrow> ('w \<times> eloop_data) option" where
  "eloop_run_loop env 0 st = None"
| "eloop_run_loop env (Suc n) st =
     (if \<not> eloop_running (snd st) then Some (fst st, (snd st)\<lparr>el_terminate := False\<rparr>)
      else
        (case eloop_run_iter env st of
           (False, st) \<Rightarrow> Some st
         | (True, st) \<Rightarrow> eloop_run_loop env n st))"

definition eloop_run :: "'w eloop_env \<Rightarrow> bool \<Rightarrow> nat \<Rightarrow> 'w \<times> eloop_data \<Rightarrow> ('w \<times> eloop_data) option" where
  "eloop_run env fds_alloc_ok n st = (if fds_alloc_ok then eloop_run_loop env n st else Some st)"

section \<open>The timeouts stay in order\<close>

lemma reltime_before_trans:
  "\<lbrakk>\<not> os_reltime_before b a; \<not> os_reltime_before c b\<rbrakk> \<Longrightarrow> \<not> os_reltime_before c a"
  by (auto simp: os_reltime_before_def)

lemma reltime_before_asym: "os_reltime_before a b \<Longrightarrow> \<not> os_reltime_before b a"
  by (auto simp: os_reltime_before_def)

lemma reltime_before_irrefl [simp]: "\<not> os_reltime_before a a"
  by (simp add: os_reltime_before_def)

definition timeouts_sorted :: "eloop_timeout list \<Rightarrow> bool" where
  "timeouts_sorted = sorted_wrt (\<lambda>a b. \<not> os_reltime_before (to_time b) (to_time a))"

lemma timeouts_sorted_Nil [simp]: "timeouts_sorted []"
  by (simp add: timeouts_sorted_def)

lemma timeouts_sorted_Cons [simp]:
  "timeouts_sorted (t # ts) \<longleftrightarrow>
     (\<forall>u\<in>set ts. \<not> os_reltime_before (to_time u) (to_time t)) \<and> timeouts_sorted ts"
  by (simp add: timeouts_sorted_def)

lemma timeouts_sorted_filter: "timeouts_sorted ts \<Longrightarrow> timeouts_sorted (filter P ts)"
  by (induction ts) auto

text \<open>The new timeout goes behind all that are not later, and before the later ones.\<close>

lemma timeout_insert_split:
  "\<exists>xs ys. ts = xs @ ys \<and> timeout_insert t ts = xs @ t # ys \<and>
     (\<forall>x\<in>set xs. \<not> os_reltime_before (to_time t) (to_time x)) \<and>
     (case ys of [] \<Rightarrow> True | y # _ \<Rightarrow> os_reltime_before (to_time t) (to_time y))"
proof (induction ts)
  case (Cons u us)
  show ?case
  proof (cases "os_reltime_before (to_time t) (to_time u)")
    case True
    then show ?thesis by (intro exI [of _ "[]"] exI [of _ "u # us"]) simp
  next
    case False
    obtain xs ys where "us = xs @ ys" "timeout_insert t us = xs @ t # ys"
      "\<forall>x\<in>set xs. \<not> os_reltime_before (to_time t) (to_time x)"
      "case ys of [] \<Rightarrow> True | y # _ \<Rightarrow> os_reltime_before (to_time t) (to_time y)"
      using Cons.IH by blast
    then show ?thesis using False by (intro exI [of _ "u # xs"] exI [of _ ys]) simp
  qed
qed simp

lemma set_timeout_insert [simp]: "set (timeout_insert t ts) = insert t (set ts)"
  by (induction ts) auto

lemma timeouts_sorted_insert: "timeouts_sorted ts \<Longrightarrow> timeouts_sorted (timeout_insert t ts)"
proof (induction ts)
  case (Cons u us)
  show ?case
  proof (cases "os_reltime_before (to_time t) (to_time u)")
    case True
    then have "\<not> os_reltime_before (to_time u) (to_time t)" by (rule reltime_before_asym)
    then have "\<forall>x\<in>set us. \<not> os_reltime_before (to_time x) (to_time t)"
      using Cons.prems reltime_before_trans by auto
    then show ?thesis using True Cons.prems reltime_before_asym by simp
  next
    case False
    then show ?thesis using Cons by simp
  qed
qed simp

lemma cancel_loop_filter:
  "cancel_loop h ed ud ts =
     (length (filter (cancel_match h ed ud) ts), filter (\<lambda>t. \<not> cancel_match h ed ud t) ts)"
  by (induction ts) simp_all

lemma cancel_timeout_eq:
  "eloop_cancel_timeout h ed ud el =
     (length (filter (cancel_match h ed ud) (el_timeout el)),
      el\<lparr>el_timeout := filter (\<lambda>t. \<not> cancel_match h ed ud t) (el_timeout el)\<rparr>)"
  by (simp add: eloop_cancel_timeout_def cancel_loop_filter)

lemma set_remove_timeout: "set (remove_timeout h ed ud ts) \<subseteq> set ts"
  by (induction ts) auto

lemma timeouts_sorted_remove: "timeouts_sorted ts \<Longrightarrow> timeouts_sorted (remove_timeout h ed ud ts)"
  using set_remove_timeout by (induction ts) fastforce+

lemma register_timeout_sorted:
  "timeouts_sorted (el_timeout el) \<Longrightarrow>
   timeouts_sorted (el_timeout (snd (eloop_register_timeout ok clock s u h ed ud el)))"
  by (simp add: eloop_register_timeout_def Let_def timeouts_sorted_insert split: option.split)

lemma cancel_timeout_sorted:
  "timeouts_sorted (el_timeout el) \<Longrightarrow> timeouts_sorted (el_timeout (snd (eloop_cancel_timeout h ed ud el)))"
  by (simp add: cancel_timeout_eq timeouts_sorted_filter)

section \<open>The invariant of the loop\<close>

text \<open>
  The timeouts are in order, \<open>eloop.count\<close> is the sum of the table sizes, and \<open>eloop.max_sock\<close>, which
  bounds the descriptors given to \<open>select()\<close>, is at least every registered socket.
\<close>

definition tables_inv :: "eloop_data \<Rightarrow> bool" where
  "tables_inv el \<longleftrightarrow>
     el_count el =
       length (tb_table (readers el)) + length (tb_table (writers el)) + length (tb_table (exceptions el)) \<and>
     (\<forall>s \<in> set (tb_table (readers el)) \<union> set (tb_table (writers el)) \<union> set (tb_table (exceptions el)).
        sk_sock s \<le> max_sock el)"

definition eloop_inv :: "eloop_data \<Rightarrow> bool" where
  "eloop_inv el \<longleftrightarrow> timeouts_sorted (el_timeout el) \<and> tables_inv el"

lemma tables_inv_timeout [simp]: "tables_inv (el\<lparr>el_timeout := ts\<rparr>) = tables_inv el"
  and tables_inv_signals [simp]: "tables_inv (el\<lparr>el_signals := ss\<rparr>) = tables_inv el"
  and tables_inv_signaled [simp]: "tables_inv (el\<lparr>signaled := n\<rparr>) = tables_inv el"
  and tables_inv_pending [simp]: "tables_inv (el\<lparr>pending_terminate := b\<rparr>) = tables_inv el"
  and tables_inv_terminate [simp]: "tables_inv (el\<lparr>el_terminate := b\<rparr>) = tables_inv el"
  by (simp_all add: tables_inv_def)

lemma tables_inv_register_timeout [simp]:
  "tables_inv (snd (eloop_register_timeout ok clock s u h ed ud el)) = tables_inv el"
  by (simp add: eloop_register_timeout_def Let_def split: option.split)

lemma tables_inv_cancel_timeout [simp]:
  "tables_inv (snd (eloop_cancel_timeout h ed ud el)) = tables_inv el"
  by (simp add: cancel_timeout_eq)

lemma tables_inv_max:
  "\<lbrakk>tables_inv el; max_sock el < n\<rbrakk> \<Longrightarrow>
   (\<forall>s\<in>set (tb_table (readers el)). sk_sock s \<le> n) \<and> (\<forall>s\<in>set (tb_table (writers el)). sk_sock s \<le> n) \<and>
   (\<forall>s\<in>set (tb_table (exceptions el)). sk_sock s \<le> n)"
  unfolding tables_inv_def ball_Un by (meson less_imp_le order_trans)

lemma tables_inv_add: "tables_inv el \<Longrightarrow> tables_inv (snd (eloop_sock_table_add_sock ok ty sock h ed ud el))"
  using tables_inv_max [of el sock]
  by (cases ty)
    (auto simp: eloop_sock_table_add_sock_def Let_def tables_inv_def eloop_get_sock_table_def
      eloop_put_sock_table_def ball_Un)

lemma sock_index_le: "sock_index ss sock \<le> length ss"
  by (induction ss) auto

lemma set_take_drop: "set (take i ss @ drop (Suc i) ss) \<subseteq> set ss"
  by (auto dest: in_set_takeD in_set_dropD)

lemma tables_inv_remove: 
  assumes "tables_inv el" shows "tables_inv (eloop_sock_table_remove_sock ty sock el)"
proof (cases "sock_index (tb_table (eloop_get_sock_table ty el)) sock = length (tb_table (eloop_get_sock_table ty el))")
  case False
  then have "sock_index (tb_table (eloop_get_sock_table ty el)) sock < length (tb_table (eloop_get_sock_table ty el))"
    using sock_index_le le_neq_implies_less by blast
  then show ?thesis using assms
    by (cases ty)
      (auto simp: eloop_sock_table_remove_sock_def Let_def tables_inv_def eloop_get_sock_table_def
        eloop_put_sock_table_def dest: in_set_takeD in_set_dropD)
qed (simp add: eloop_sock_table_remove_sock_def Let_def assms)

lemma add_sock_timeouts [simp]: "el_timeout (snd (eloop_sock_table_add_sock ok ty sock h ed ud el)) = el_timeout el"
  by (cases ty) (simp_all add: eloop_sock_table_add_sock_def Let_def eloop_put_sock_table_def)

lemma remove_sock_timeouts [simp]: "el_timeout (eloop_sock_table_remove_sock ty sock el) = el_timeout el"
  by (cases ty) (simp_all add: eloop_sock_table_remove_sock_def Let_def eloop_put_sock_table_def)

lemma eloop_inv_exec: "eloop_inv el \<Longrightarrow> eloop_inv (eloop_exec op el)"
  by (cases op)
    (simp_all add: eloop_inv_def eloop_register_sock_def tables_inv_add eloop_unregister_sock_def
      tables_inv_remove register_timeout_sorted cancel_timeout_sorted eloop_cancel_timeout_one_def
      timeouts_sorted_remove eloop_deplete_timeout_def eloop_replenish_timeout_def Let_def
      eloop_register_signal_def eloop_set_terminate_def split: option.split)

lemma eloop_inv_exec_all: "eloop_inv el \<Longrightarrow> eloop_inv (eloop_exec_all ops el)"
  unfolding eloop_exec_all_def by (induction ops arbitrary: el) (simp_all add: eloop_inv_exec)

lemma eloop_inv_handle_signal: "eloop_inv el \<Longrightarrow> eloop_inv (eloop_handle_signal sig el)"
  by (simp add: eloop_inv_def eloop_handle_signal_def Let_def)

lemma eloop_inv_signals [simp]: "eloop_inv (el\<lparr>el_signals := ss\<rparr>) = eloop_inv el"
  and eloop_inv_signaled [simp]: "eloop_inv (el\<lparr>signaled := n\<rparr>) = eloop_inv el"
  and eloop_inv_pending [simp]: "eloop_inv (el\<lparr>pending_terminate := b\<rparr>) = eloop_inv el"
  and eloop_inv_terminate [simp]: "eloop_inv (el\<lparr>el_terminate := b\<rparr>) = eloop_inv el"
  by (simp_all add: eloop_inv_def)

lemma eloop_inv_pending_loop: "eloop_inv (snd st) \<Longrightarrow> eloop_inv (snd (pending_signals_loop env i st))"
proof (induction env i st rule: pending_signals_loop.induct)
  case (1 env i w el)
  show ?case
    by (subst pending_signals_loop.simps)
      (use 1 in \<open>auto simp: Let_def split_beta eloop_inv_exec_all\<close>)
qed

lemma eloop_inv_process_signals: "eloop_inv (snd st) \<Longrightarrow> eloop_inv (snd (eloop_process_pending_signals env st))"
  by (simp add: eloop_process_pending_signals_def split_beta eloop_inv_pending_loop)

lemma eloop_inv_fire: "eloop_inv (snd st) \<Longrightarrow> eloop_inv (snd (eloop_fire_timeout env st))"
  by (auto simp: eloop_fire_timeout_def split_beta Let_def due_timeout_def eloop_inv_def
      intro!: eloop_inv_exec_all [unfolded eloop_inv_def] split: option.split list.split)

lemma eloop_inv_dispatch_loop: "eloop_inv (snd st) \<Longrightarrow> eloop_inv (snd (dispatch_loop env ty fds i st))"
proof (induction env ty fds i st rule: dispatch_loop.induct)
  case (1 env ty fds i w el)
  show ?case
    by (subst dispatch_loop.simps) (use 1 in \<open>auto simp: Let_def split_beta eloop_inv_exec_all\<close>)
qed

lemma eloop_inv_dispatch: "eloop_inv (snd st) \<Longrightarrow> eloop_inv (snd (eloop_sock_table_dispatch env ty fds st))"
  by (cases ty)
    (auto simp: eloop_sock_table_dispatch_def split_beta eloop_inv_def tables_inv_def
      eloop_put_sock_table_def eloop_get_sock_table_def
      intro!: eloop_inv_dispatch_loop [unfolded eloop_inv_def tables_inv_def])

lemma eloop_inv_iter: "eloop_inv (snd st) \<Longrightarrow> eloop_inv (snd (snd (eloop_run_iter env st)))"
proof -
  assume a: "eloop_inv (snd st)"
  have s: "eloop_inv el \<Longrightarrow> eloop_inv (foldl (\<lambda>el sig. eloop_handle_signal sig el) el sigs)" for el sigs
    by (induction sigs arbitrary: el) (simp_all add: eloop_inv_handle_signal)
  show ?thesis
    by (cases st)
      (use a in \<open>simp add: eloop_run_iter_def split_beta Let_def s eloop_inv_dispatch eloop_inv_fire
        eloop_inv_process_signals\<close>)
qed

text \<open>The states of the program around the loop: handlers and main program use the calls above.\<close>

inductive eloop_reachable :: "'w eloop_env \<Rightarrow> 'w \<times> eloop_data \<Rightarrow> bool" for env where
  init: "eloop_reachable env (w, eloop_init)"
| exec: "eloop_reachable env (w, el) \<Longrightarrow> eloop_reachable env (w', eloop_exec op el)"
| sig: "eloop_reachable env (w, el) \<Longrightarrow> eloop_reachable env (w, eloop_handle_signal sig el)"
| iter: "eloop_reachable env st \<Longrightarrow> eloop_reachable env (snd (eloop_run_iter env st))"

lemma eloop_init_inv: "eloop_inv eloop_init"
  by (simp add: eloop_inv_def eloop_init_def tables_inv_def)

lemma eloop_reachable_inv: "eloop_reachable env st \<Longrightarrow> eloop_inv (snd st)"
  by (induction rule: eloop_reachable.induct)
    (simp_all add: eloop_init_inv eloop_inv_exec eloop_inv_handle_signal eloop_inv_iter)

section \<open>Times in microseconds\<close>

definition reltime_us :: "os_reltime \<Rightarrow> int" where
  "reltime_us t = rt_sec t * 1000000 + rt_usec t"

definition reltime_normal :: "os_reltime \<Rightarrow> bool" where
  "reltime_normal t \<longleftrightarrow> 0 \<le> rt_usec t \<and> rt_usec t < 1000000"

lemma before_us:
  "\<lbrakk>reltime_normal a; reltime_normal b\<rbrakk> \<Longrightarrow> os_reltime_before a b \<longleftrightarrow> reltime_us a < reltime_us b"
  by (auto simp: os_reltime_before_def reltime_normal_def reltime_us_def)

lemma sub_us:
  assumes "reltime_normal a" "reltime_normal b"
  shows "reltime_us (os_reltime_sub a b) = reltime_us a - reltime_us b" "reltime_normal (os_reltime_sub a b)"
  using assms by (auto simp: os_reltime_sub_def reltime_us_def reltime_normal_def Let_def)

lemma os_time_wrap_id: "\<lbrakk>- (2 ^ 63) \<le> x; x < 2 ^ 63\<rbrakk> \<Longrightarrow> os_time_wrap x = x"
  by (simp add: os_time_wrap_def)

text \<open>Without overflow the carry loop keeps the time and normalizes it.\<close>

lemma carry_usec_us:
  assumes "0 \<le> u" "- (2 ^ 63) \<le> s" "s * 1000000 + u < 2 ^ 63"
  shows "reltime_us (carry_usec s u) = s * 1000000 + u \<and> reltime_normal (carry_usec s u)"
  using assms
proof (induction s u rule: carry_usec.induct)
  case (1 s u)
  show ?case
  proof (cases "u \<ge> 1000000")
    case True
    then have w: "os_time_wrap (s + 1) = s + 1"
      using 1 by (intro os_time_wrap_id) simp_all
    have "reltime_us (carry_usec (s + 1) (u - 1000000)) = (s + 1) * 1000000 + (u - 1000000) \<and>
        reltime_normal (carry_usec (s + 1) (u - 1000000))"
      using 1(1) True 1(2-4) w by simp
    then show ?thesis using True by (subst (1 2) carry_usec.simps) (simp add: w)
  next
    case False
    then show ?thesis using 1(2) by (subst (1 2) carry_usec.simps) (simp add: reltime_us_def reltime_normal_def)
  qed
qed

lemma uint_u32_less: "uint (w :: u32) < 2 ^ 32"
  using uint_lt2p [of w] by simp

text \<open>The time of a new timeout, when the clock is far enough from the end of time.\<close>

lemma register_time_us:
  assumes "reltime_normal now" "- (2 ^ 42) \<le> rt_sec now" "rt_sec now < 2 ^ 42"
  shows "\<not> os_time_wrap (rt_sec now + uint (secs :: u32)) < rt_sec now"
    and "reltime_us (carry_usec (os_time_wrap (rt_sec now + uint secs)) (rt_usec now + uint (usecs :: u32))) =
      reltime_us now + uint secs * 1000000 + uint usecs"
    and "reltime_normal (carry_usec (os_time_wrap (rt_sec now + uint secs)) (rt_usec now + uint usecs))"
proof -
  define S U where "S = uint secs" and "U = uint usecs"
  have b: "0 \<le> S" "S < 2 ^ 32" "0 \<le> U" "U < 2 ^ 32"
    using uint_u32_less [of secs] uint_u32_less [of usecs] by (simp_all add: S_def U_def)
  then have w: "os_time_wrap (rt_sec now + S) = rt_sec now + S"
    using assms by (intro os_time_wrap_id) simp_all
  show "\<not> os_time_wrap (rt_sec now + uint secs) < rt_sec now" using b w by (simp flip: S_def)
  have "reltime_us (carry_usec (rt_sec now + S) (rt_usec now + U)) =
      (rt_sec now + S) * 1000000 + (rt_usec now + U) \<and>
      reltime_normal (carry_usec (rt_sec now + S) (rt_usec now + U))"
    using assms b by (intro carry_usec_us) (simp_all add: reltime_normal_def)
  then show "reltime_us (carry_usec (os_time_wrap (rt_sec now + uint secs)) (rt_usec now + uint usecs)) =
      reltime_us now + uint secs * 1000000 + uint usecs"
    "reltime_normal (carry_usec (os_time_wrap (rt_sec now + uint secs)) (rt_usec now + uint usecs))"
    by (simp_all add: w reltime_us_def flip: S_def U_def)
qed

section \<open>Timers as a service\<close>

text \<open>
  What a client of the loop relies on: cancelling removes every timeout of a key, registering adds at
  most one, and neither touches the timeouts of another key. A key is a handler with its two contexts;
  \<open>proper\<close> excludes the wildcard contexts.
\<close>

locale timer_service =
  fixes register :: "'a \<Rightarrow> 'k \<Rightarrow> 's \<Rightarrow> 's"
    and cancel :: "'k \<Rightarrow> 's \<Rightarrow> 's"
    and pending :: "'k \<Rightarrow> 's \<Rightarrow> nat"
    and proper :: "'k \<Rightarrow> bool"
  assumes pending_cancel: "proper k \<Longrightarrow> pending k (cancel k s) = 0"
    and pending_cancel_other: "\<lbrakk>proper k; k' \<noteq> k\<rbrakk> \<Longrightarrow> pending k' (cancel k s) = pending k' s"
    and pending_register: "pending k (register a k s) \<le> pending k s + 1"
    and pending_register_other: "k' \<noteq> k \<Longrightarrow> pending k' (register a k s) = pending k' s"
begin

text \<open>Cancelling before registering keeps at most one timeout of the key.\<close>

lemma restart_once: "proper k \<Longrightarrow> pending k (register a k (cancel k s)) \<le> 1"
  using pending_register [of k a "cancel k s"] pending_cancel [of k s] by simp

lemma restart_other: "\<lbrakk>proper k; k' \<noteq> k\<rbrakk> \<Longrightarrow> pending k' (register a k (cancel k s)) = pending k' s"
  by (simp add: pending_register_other pending_cancel_other)

lemma cancel_both:
  assumes "proper k" "proper k'" shows "pending k (cancel k' (cancel k s)) = 0"
  using assms by (cases "k = k'") (simp_all add: pending_cancel pending_cancel_other)

end

type_synonym timer_key = "nat \<times> nat \<times> nat"

definition timer_register :: "bool \<times> os_reltime option \<times> u32 \<times> u32 \<Rightarrow> timer_key \<Rightarrow> eloop_data \<Rightarrow> eloop_data" where
  "timer_register a k el =
     (case a of (ok, clock, secs, usecs) \<Rightarrow>
        case k of (h, ed, ud) \<Rightarrow> snd (eloop_register_timeout ok clock secs usecs h ed ud el))"

definition timer_cancel :: "timer_key \<Rightarrow> eloop_data \<Rightarrow> eloop_data" where
  "timer_cancel k el = (case k of (h, ed, ud) \<Rightarrow> snd (eloop_cancel_timeout h ed ud el))"

definition timer_pending :: "timer_key \<Rightarrow> eloop_data \<Rightarrow> nat" where
  "timer_pending k el =
     (case k of (h, ed, ud) \<Rightarrow> length (filter (timeout_match h ed ud) (el_timeout el)))"

definition timer_proper :: "timer_key \<Rightarrow> bool" where
  "timer_proper k \<longleftrightarrow> (case k of (h, ed, ud) \<Rightarrow> ed \<noteq> ELOOP_ALL_CTX \<and> ud \<noteq> ELOOP_ALL_CTX)"

lemma cancel_match_proper:
  "\<lbrakk>ed \<noteq> ELOOP_ALL_CTX; ud \<noteq> ELOOP_ALL_CTX\<rbrakk> \<Longrightarrow> cancel_match h ed ud = timeout_match h ed ud"
  by (auto simp: cancel_match_def timeout_match_def fun_eq_iff)

lemma length_filter_insert:
  "length (filter P (timeout_insert t ts)) = (if P t then 1 else 0) + length (filter P ts)"
  by (induction ts) auto

interpretation tmr: timer_service timer_register timer_cancel timer_pending timer_proper
proof (unfold_locales, goal_cases)
  case (1 k s)
  then show ?case
    by (cases k)
      (simp add: timer_pending_def timer_cancel_def timer_proper_def cancel_timeout_eq cancel_match_proper)
next
  case (2 k k' s)
  obtain h ed ud h' ed' ud' where k: "k = (h, ed, ud)" "k' = (h', ed', ud')"
    by (metis prod_cases3)
  have "(timeout_match h' ed' ud' t \<and> \<not> timeout_match h ed ud t) = timeout_match h' ed' ud' t" for t
    using 2(2) k by (auto simp: timeout_match_def)
  then show ?case using 2(1) k
    by (simp add: timer_pending_def timer_cancel_def timer_proper_def cancel_timeout_eq
        cancel_match_proper conj_commute)
next
  case (3 k a s)
  then show ?case
    by (cases k; cases a)
      (simp add: timer_pending_def timer_register_def eloop_register_timeout_def Let_def
        length_filter_insert split: option.split)
next
  case (4 k' k a s)
  then show ?case
    by (cases k; cases k'; cases a)
      (auto simp: timer_pending_def timer_register_def eloop_register_timeout_def Let_def
        length_filter_insert timeout_match_def split: option.split)
qed

section \<open>Properties\<close>

text \<open>
  C25: in every reachable state the timeouts are in order of their times, eloop.count is the number
  of registered sockets, and eloop.max_sock is at least every registered socket.
\<close>

theorem eloop_reachable_invariant:
  assumes "eloop_reachable env st"
  shows "sorted_wrt (\<lambda>a b. \<not> os_reltime_before (to_time b) (to_time a)) (el_timeout (snd st)) \<and>
    el_count (snd st) = length (tb_table (readers (snd st))) + length (tb_table (writers (snd st))) +
      length (tb_table (exceptions (snd st))) \<and>
    (\<forall>s \<in> set (tb_table (readers (snd st))) \<union> set (tb_table (writers (snd st))) \<union>
        set (tb_table (exceptions (snd st))). sk_sock s \<le> max_sock (snd st))"
  using eloop_reachable_inv [OF assms] unfolding eloop_inv_def timeouts_sorted_def tables_inv_def by blast

text \<open>
  C29: in every reachable state the timeout that the loop fires is due and none is earlier; when it
  fires none, none is due.
\<close>

theorem eloop_fires_earliest_due:
  assumes "eloop_reachable env (w, el)"
  shows "case due_timeout now el of
      None \<Rightarrow> (\<forall>t\<in>set (el_timeout el). os_reltime_before now (to_time t))
    | Some t \<Rightarrow> t \<in> set (el_timeout el) \<and> \<not> os_reltime_before now (to_time t) \<and>
        (\<forall>u\<in>set (el_timeout el). \<not> os_reltime_before (to_time u) (to_time t))"
proof (cases "el_timeout el")
  case Nil
  then show ?thesis by (simp add: due_timeout_def)
next
  case (Cons t ts)
  have s: "\<forall>u\<in>set ts. \<not> os_reltime_before (to_time u) (to_time t)"
    using eloop_reachable_inv [OF assms] by (simp add: eloop_inv_def Cons)
  moreover have "os_reltime_before now (to_time u)"
    if "os_reltime_before now (to_time t)" "\<not> os_reltime_before (to_time u) (to_time t)" for u
    using that by (auto simp: os_reltime_before_def)
  ultimately show ?thesis by (auto simp: due_timeout_def Cons)
qed


text \<open>
  A registered timeout expires at the current time plus the delay, and its place in the list is
  behind every timeout that is not later and before the first later one.
\<close>

theorem eloop_register_in_order:
  assumes "reltime_normal now" "- (2 ^ 42) \<le> rt_sec now" "rt_sec now < 2 ^ 42"
  shows "\<exists>t xs ys. eloop_register_timeout True (Some now) secs usecs h ed ud el =
      (0, el\<lparr>el_timeout := xs @ t # ys\<rparr>) \<and> el_timeout el = xs @ ys \<and> timeout_match h ed ud t \<and>
    reltime_us (to_time t) = reltime_us now + uint secs * 1000000 + uint usecs \<and>
    reltime_normal (to_time t) \<and>
    (\<forall>x\<in>set xs. \<not> os_reltime_before (to_time t) (to_time x)) \<and>
    (case ys of [] \<Rightarrow> True | y # _ \<Rightarrow> os_reltime_before (to_time t) (to_time y))"
proof -
  note r = register_time_us [OF assms, of secs] register_time_us(2,3) [OF assms, of secs usecs]
  let ?t = "\<lparr>to_time = carry_usec (os_time_wrap (rt_sec now + uint secs)) (rt_usec now + uint usecs),
      to_eloop_data = ed, to_user_data = ud, to_handler = h\<rparr>"
  obtain xs ys where "el_timeout el = xs @ ys" "timeout_insert ?t (el_timeout el) = xs @ ?t # ys"
    "\<forall>x\<in>set xs. \<not> os_reltime_before (to_time ?t) (to_time x)"
    "case ys of [] \<Rightarrow> True | y # _ \<Rightarrow> os_reltime_before (to_time ?t) (to_time y)"
    using timeout_insert_split [of "el_timeout el" ?t] by blast
  then show ?thesis
    by (intro exI [of _ ?t] exI [of _ xs] exI [of _ ys])
      (use r in \<open>simp add: eloop_register_timeout_def Let_def timeout_match_def\<close>)
qed

lemma find_timeout_first:
  "\<lbrakk>timeouts_sorted ts; find_timeout h ed ud ts = Some t\<rbrakk> \<Longrightarrow>
   t \<in> set ts \<and> timeout_match h ed ud t \<and>
   (\<forall>u\<in>set ts. timeout_match h ed ud u \<longrightarrow> \<not> os_reltime_before (to_time u) (to_time t))"
  by (induction ts) (auto split: if_splits)


section \<open>Applications\<close>

text \<open>A program whose handlers re-register a timeout and whose \<open>select()\<close> reports socket 5.\<close>

definition sample_loop_env :: "nat eloop_env" where
  "sample_loop_env =
     \<lparr>call_timeout = (\<lambda>h ed ud w el. ([OpRegisterTimeout True (Some \<lparr>rt_sec = int w, rt_usec = 0\<rparr>) 1 0 h ed ud], w)),
      call_sock = (\<lambda>h sock ed ud w el. ([OpUnregisterSock sock EVENT_TYPE_READ], w)),
      call_signal = (\<lambda>h sig ud w el. ([OpTerminate], w)),
      wait_select = (\<lambda>tv w el. (\<lparr>sel_res = 1, sel_fatal = False, sel_rfds = (\<lambda>s. s = 5),
         sel_wfds = (\<lambda>_. False), sel_efds = (\<lambda>_. False), sel_signals = []\<rparr>, w + 2)),
      clock_now = (\<lambda>w. \<lparr>rt_sec = int w, rt_usec = 0\<rparr>)\<rparr>"

theorem eloop_reachable_invariant_witness:
  "el_count (snd (snd (eloop_run_iter sample_loop_env
     (1, eloop_exec (OpRegisterSock True 5 EVENT_TYPE_READ 1 2 3) eloop_init)))) = 
   length (tb_table (readers (snd (snd (eloop_run_iter sample_loop_env
     (1, eloop_exec (OpRegisterSock True 5 EVENT_TYPE_READ 1 2 3) eloop_init)))))) +
   length (tb_table (writers (snd (snd (eloop_run_iter sample_loop_env
     (1, eloop_exec (OpRegisterSock True 5 EVENT_TYPE_READ 1 2 3) eloop_init)))))) +
   length (tb_table (exceptions (snd (snd (eloop_run_iter sample_loop_env
     (1, eloop_exec (OpRegisterSock True 5 EVENT_TYPE_READ 1 2 3) eloop_init))))))"
proof -
  have "eloop_reachable sample_loop_env (snd (eloop_run_iter sample_loop_env
      (1, eloop_exec (OpRegisterSock True 5 EVENT_TYPE_READ 1 2 3) eloop_init)))"
    by (intro eloop_reachable.iter eloop_reachable.exec eloop_reachable.init)
  from eloop_reachable_invariant [OF this] show ?thesis by blast
qed

theorem eloop_fires_earliest_due_witness:
  "list_all (\<lambda>t. os_reltime_before \<lparr>rt_sec = 6, rt_usec = 0\<rparr> (to_time t))
     (el_timeout (eloop_exec (OpRegisterTimeout True (Some \<lparr>rt_sec = 1, rt_usec = 0\<rparr>) 4 1500000 1 2 3) eloop_init))"
proof -
  have "eloop_reachable sample_loop_env
      (0, eloop_exec (OpRegisterTimeout True (Some \<lparr>rt_sec = 1, rt_usec = 0\<rparr>) 4 1500000 1 2 3) eloop_init)"
    by (intro eloop_reachable.exec eloop_reachable.init)
  from eloop_fires_earliest_due [OF this, of "\<lparr>rt_sec = 6, rt_usec = 0\<rparr>"]
  show ?thesis
    by (simp add: due_timeout_def eloop_register_timeout_def eloop_init_def os_time_wrap_def Let_def
        carry_usec.simps os_reltime_before_def)
qed

theorem eloop_register_in_order_witness:
  "\<exists>t. el_timeout (snd (eloop_register_timeout True (Some \<lparr>rt_sec = 1, rt_usec = 700000\<rparr>) 4 1500000 1 2 3 eloop_init))
     = [t] \<and> reltime_us (to_time t) = 7200000"
  using eloop_register_in_order [of "\<lparr>rt_sec = 1, rt_usec = 700000\<rparr>" 4 1500000 1 2 3 eloop_init]
  by (auto simp: reltime_normal_def reltime_us_def eloop_init_def)


end
