(* ===== verification/PmksaCache.thy ===== *)
theory PmksaCache
  imports Eloop
begin

text \<open>
  The PMKSA cache, \<open>src/rsn_supp/pmksa_cache.c\<close>, with \<open>rsn_pmkid\<close> of \<open>src/common/wpa_common.c\<close> and
  the callback \<open>wpa_sm_pmksa_free_cb\<close> of \<open>src/rsn_supp/wpa.c\<close>.

  The linked list is a list of entries; an entry carries the address of its object, because
  \<open>cur_pmksa\<close> of the WPA state machine points into the list. The timeouts are those of the event loop
  model, of which the state holds a copy. The driver calls are recorded as events. HMAC, memory
  allocation and the clock are parameters; the clock does not advance during one call.
  The WPA state machine is reduced to the fields that the cache uses.

  A read of a freed entry is the result \<open>None\<close>.
\<close>

abbreviation (input) PMK_LEN :: nat where "PMK_LEN \<equiv> 32"
abbreviation (input) PMKID_LEN :: nat where "PMKID_LEN \<equiv> 16"
abbreviation (input) pmksa_cache_max_entries :: nat where "pmksa_cache_max_entries \<equiv> 32"
abbreviation (input) WPA_KEY_MGMT_IEEE8021X_SHA256 :: u32 where "WPA_KEY_MGMT_IEEE8021X_SHA256 \<equiv> 0x80"
abbreviation (input) WPA_KEY_MGMT_PSK_SHA256 :: u32 where "WPA_KEY_MGMT_PSK_SHA256 \<equiv> 0x100"
abbreviation (input) WPA_KEY_MGMT_OSEN :: u32 where "WPA_KEY_MGMT_OSEN \<equiv> 0x8000"

section \<open>State\<close>

datatype pmksa_free_reason = PMKSA_FREE | PMKSA_REPLACE | PMKSA_EXPIRE

datatype pmksa_event =
  AddPmkid bytes bytes | RemovePmkid bytes bytes | Deauthenticate | RequestReauth

record rsn_pmksa_cache_entry =
  pe_addr :: nat
  pmkid :: bytes
  pmk :: bytes
  pmk_len :: nat
  expiration :: int
  akmp :: u32
  aa :: bytes
  reauth_time :: int
  network_ctx :: nat
  opportunistic :: bool

text \<open>The cache, the fields of \<open>struct wpa_sm\<close>, the event loop and the events.\<close>

record rsn_pmksa_cache =
  pmksa :: "rsn_pmksa_cache_entry list"
  pmksa_count :: int
  cur_pmksa :: nat
  sm_pmk :: bytes
  sm_pmk_len :: nat
  sm_bssid :: bytes
  own_addr :: bytes
  dot11RSNAConfigPMKLifetime :: u32
  dot11RSNAConfigPMKReauthThreshold :: u32
  loop :: eloop_data
  pm_events :: "pmksa_event list"

record pmksa_env =
  hmac_sha1 :: "bytes \<Rightarrow> bytes \<Rightarrow> bytes"
  hmac_sha256 :: "bytes \<Rightarrow> bytes \<Rightarrow> bytes"
  timer_alloc :: bool

text \<open>The keys of the two timeouts: handler, cache pointer and NULL.\<close>

definition pmksa_expire_key :: timer_key where "pmksa_expire_key = (1, 1, 0)"
definition pmksa_reauth_key :: timer_key where "pmksa_reauth_key = (2, 1, 0)"

definition pm_emit :: "pmksa_event \<Rightarrow> rsn_pmksa_cache \<Rightarrow> rsn_pmksa_cache" where
  "pm_emit ev p = p\<lparr>pm_events := pm_events p @ [ev]\<rparr>"

section \<open>PMKID\<close>

definition wpa_key_mgmt_sha256 :: "u32 \<Rightarrow> bool" where
  "wpa_key_mgmt_sha256 akm \<longleftrightarrow>
     akm AND (WPA_KEY_MGMT_PSK_SHA256 OR WPA_KEY_MGMT_IEEE8021X_SHA256 OR WPA_KEY_MGMT_OSEN) \<noteq> 0"

text \<open>The label is the string \<open>PMK Name\<close>.\<close>

definition rsn_pmkid :: "pmksa_env \<Rightarrow> bytes \<Rightarrow> bytes \<Rightarrow> bytes \<Rightarrow> bool \<Rightarrow> bytes" where
  "rsn_pmkid env k a spa use_sha256 =
     (let msg = [0x50, 0x4d, 0x4b, 0x20, 0x4e, 0x61, 0x6d, 0x65] @ take 6 a @ take 6 spa
      in take PMKID_LEN (if use_sha256 then hmac_sha256 env k msg else hmac_sha1 env k msg))"

section \<open>Lookup\<close>

definition pmksa_match ::
    "bytes option \<Rightarrow> bytes option \<Rightarrow> nat \<Rightarrow> rsn_pmksa_cache_entry \<Rightarrow> bool" where
  "pmksa_match a pid ctx e \<longleftrightarrow>
     (a = None \<or> a = Some (aa e)) \<and> (pid = None \<or> pid = Some (pmkid e)) \<and>
     (ctx = 0 \<or> ctx = network_ctx e)"

fun pmksa_cache_get ::
    "rsn_pmksa_cache_entry list \<Rightarrow> bytes option \<Rightarrow> bytes option \<Rightarrow> nat \<Rightarrow> rsn_pmksa_cache_entry option" where
  "pmksa_cache_get [] a pid ctx = None"
| "pmksa_cache_get (e # es) a pid ctx =
     (if pmksa_match a pid ctx e then Some e else pmksa_cache_get es a pid ctx)"

section \<open>Timeouts of the cache\<close>

text \<open>The conversion of a \<open>long\<close> to an \<open>int\<close>.\<close>

definition int_of_long :: "int \<Rightarrow> int" where
  "int_of_long x = sint (word_of_int x :: u32)"

definition register_secs :: "pmksa_env \<Rightarrow> os_reltime \<Rightarrow> int \<Rightarrow> timer_key \<Rightarrow> eloop_data \<Rightarrow> eloop_data" where
  "register_secs env now s k el = timer_register (timer_alloc env, Some now, word_of_int s, 0) k el"

definition pmksa_cache_set_expiration :: "pmksa_env \<Rightarrow> os_reltime \<Rightarrow> rsn_pmksa_cache \<Rightarrow> rsn_pmksa_cache" where
  "pmksa_cache_set_expiration env now p =
     (let el = timer_cancel pmksa_expire_key (loop p);
          el = timer_cancel pmksa_reauth_key el in
      case pmksa p of
        [] \<Rightarrow> p\<lparr>loop := el\<rparr>
      | first # _ \<Rightarrow>
          (let s = int_of_long (expiration first - rt_sec now);
               s = (if s < 0 then 0 else s);
               el = register_secs env now (s + 1) pmksa_expire_key el in
           if cur_pmksa p \<noteq> 0 \<or> pmksa_cache_get (pmksa p) (Some (sm_bssid p)) None 0 \<noteq> None
           then
             (let s = int_of_long (reauth_time first - rt_sec now);
                  s = (if s < 0 then 0 else s)
              in p\<lparr>loop := register_secs env now s pmksa_reauth_key el\<rparr>)
           else p\<lparr>loop := el\<rparr>))"

section \<open>Freeing entries\<close>

definition pmksa_cache_clear_current :: "rsn_pmksa_cache \<Rightarrow> rsn_pmksa_cache" where
  "pmksa_cache_clear_current p = p\<lparr>cur_pmksa := 0\<rparr>"

definition wpa_sm_pmksa_free_cb ::
    "rsn_pmksa_cache_entry \<Rightarrow> pmksa_free_reason \<Rightarrow> rsn_pmksa_cache \<Rightarrow> rsn_pmksa_cache" where
  "wpa_sm_pmksa_free_cb e reason p =
     (let current = cur_pmksa p = pe_addr e;
          p = (if current then pmksa_cache_clear_current p else p);
          expired_pmk =
            (reason = PMKSA_EXPIRE \<and> sm_pmk_len p = pmk_len e \<and>
             take (sm_pmk_len p) (sm_pmk p) = take (sm_pmk_len p) (pmk e));
          p = (if expired_pmk then pmksa_cache_clear_current p else p)
      in if (current \<and> reason \<noteq> PMKSA_REPLACE) \<or> expired_pmk
         then pm_emit Deauthenticate (p\<lparr>sm_pmk := replicate PMK_LEN 0\<rparr>)
         else p)"

definition pmksa_cache_free_entry ::
    "rsn_pmksa_cache_entry \<Rightarrow> pmksa_free_reason \<Rightarrow> rsn_pmksa_cache \<Rightarrow> rsn_pmksa_cache" where
  "pmksa_cache_free_entry e reason p =
     (let p = pm_emit (RemovePmkid (aa e) (pmkid e)) p;
          p = p\<lparr>pmksa_count := pmksa_count p - 1\<rparr>
      in wpa_sm_pmksa_free_cb e reason p)"

text \<open>The loop of \<open>pmksa_cache_expire\<close>, over the entries that are still in the cache.\<close>

fun expire_loop :: "os_reltime \<Rightarrow> rsn_pmksa_cache_entry list \<Rightarrow> rsn_pmksa_cache \<Rightarrow> rsn_pmksa_cache" where
  "expire_loop now [] p = p"
| "expire_loop now (e # es) p =
     (if expiration e \<le> rt_sec now
      then expire_loop now es (pmksa_cache_free_entry e PMKSA_EXPIRE (p\<lparr>pmksa := es\<rparr>))
      else p)"

definition pmksa_cache_expire :: "pmksa_env \<Rightarrow> os_reltime \<Rightarrow> rsn_pmksa_cache \<Rightarrow> rsn_pmksa_cache" where
  "pmksa_cache_expire env now p = pmksa_cache_set_expiration env now (expire_loop now (pmksa p) p)"

definition pmksa_cache_reauth :: "rsn_pmksa_cache \<Rightarrow> rsn_pmksa_cache" where
  "pmksa_cache_reauth p = pm_emit RequestReauth (p\<lparr>cur_pmksa := 0\<rparr>)"

text \<open>
  The loop of \<open>pmksa_cache_flush\<close>: \<open>kept\<close> are the entries before the current one. The number of
  removed entries comes with the cache.
\<close>

definition flush_match :: "nat \<Rightarrow> (bytes \<times> nat) option \<Rightarrow> rsn_pmksa_cache_entry \<Rightarrow> bool" where
  "flush_match ctx k e \<longleftrightarrow>
     (network_ctx e = ctx \<or> ctx = 0) \<and>
     (case k of None \<Rightarrow> True | Some (key, len) \<Rightarrow> len = pmk_len e \<and> take len key = take len (pmk e))"

fun flush_loop ::
    "nat \<Rightarrow> (bytes \<times> nat) option \<Rightarrow> rsn_pmksa_cache_entry list \<Rightarrow> rsn_pmksa_cache_entry list \<Rightarrow>
       rsn_pmksa_cache \<Rightarrow> nat \<times> rsn_pmksa_cache" where
  "flush_loop ctx k kept [] p = (0, p)"
| "flush_loop ctx k kept (e # es) p =
     (if flush_match ctx k e then
        (let (removed, p) = flush_loop ctx k kept es
               (pmksa_cache_free_entry e PMKSA_FREE (p\<lparr>pmksa := kept @ es\<rparr>))
         in (removed + 1, p))
      else flush_loop ctx k (kept @ [e]) es p)"

definition pmksa_cache_flush ::
    "pmksa_env \<Rightarrow> os_reltime \<Rightarrow> nat \<Rightarrow> (bytes \<times> nat) option \<Rightarrow> rsn_pmksa_cache \<Rightarrow> rsn_pmksa_cache" where
  "pmksa_cache_flush env now ctx k p =
     (let (removed, p) = flush_loop ctx k [] (pmksa p) p
      in if removed > 0 then pmksa_cache_set_expiration env now p else p)"

section \<open>Adding entries\<close>

text \<open>
  The search for an old entry of the same authenticator: the result is either the entry that is used
  again, or the cache without the old entry. \<open>before\<close> are the entries already passed.
\<close>

fun add_replace ::
    "pmksa_env \<Rightarrow> os_reltime \<Rightarrow> rsn_pmksa_cache_entry \<Rightarrow> rsn_pmksa_cache_entry list \<Rightarrow>
       rsn_pmksa_cache_entry list \<Rightarrow> rsn_pmksa_cache \<Rightarrow> nat + rsn_pmksa_cache" where
  "add_replace env now entry before [] p = Inr p"
| "add_replace env now entry before (pos # es) p =
     (if aa entry = aa pos then
        (if pmk_len pos = pmk_len entry \<and> take (pmk_len entry) (pmk pos) = take (pmk_len entry) (pmk entry) \<and>
            pmkid pos = pmkid entry
         then Inl (pe_addr pos)
         else
           (let p = p\<lparr>pmksa := before @ es\<rparr>;
                p = (if \<not> opportunistic pos
                     then pmksa_cache_flush env now (network_ctx entry) (Some (pmk pos, pmk_len pos)) p else p)
            in Inr (pmksa_cache_free_entry pos PMKSA_REPLACE p)))
      else add_replace env now entry (before @ [pos]) es p)"

text \<open>Making room: the oldest entry goes, or the second oldest when the oldest is in use.\<close>

definition add_make_room :: "rsn_pmksa_cache \<Rightarrow> rsn_pmksa_cache" where
  "add_make_room p =
     (case pmksa p of
        [] \<Rightarrow> p
      | pos # es \<Rightarrow>
          if pmksa_count p < int pmksa_cache_max_entries then p
          else if pe_addr pos = cur_pmksa p then
            (case es of
               [] \<Rightarrow> p
             | pos2 # es2 \<Rightarrow> pmksa_cache_free_entry pos2 PMKSA_FREE (p\<lparr>pmksa := pos # es2\<rparr>))
          else pmksa_cache_free_entry pos PMKSA_FREE (p\<lparr>pmksa := es\<rparr>))"

text \<open>The ordered insertion.\<close>

fun add_insert :: "rsn_pmksa_cache_entry \<Rightarrow> rsn_pmksa_cache_entry list \<Rightarrow> rsn_pmksa_cache_entry list" where
  "add_insert e [] = [e]"
| "add_insert e (pos # es) =
     (if expiration pos > expiration e then e # pos # es else pos # add_insert e es)"

definition add_link :: "pmksa_env \<Rightarrow> os_reltime \<Rightarrow> rsn_pmksa_cache_entry \<Rightarrow> rsn_pmksa_cache \<Rightarrow> rsn_pmksa_cache" where
  "add_link env now e p =
     (let at_head = (case pmksa p of [] \<Rightarrow> True | pos # _ \<Rightarrow> expiration pos > expiration e);
          p = p\<lparr>pmksa := add_insert e (pmksa p)\<rparr>;
          p = (if at_head then pmksa_cache_set_expiration env now p else p);
          p = p\<lparr>pmksa_count := pmksa_count p + 1\<rparr>
      in pm_emit (AddPmkid (aa e) (pmkid e)) p)"

definition pmksa_new_entry ::
    "pmksa_env \<Rightarrow> os_reltime \<Rightarrow> nat \<Rightarrow> bytes \<Rightarrow> nat \<Rightarrow> bytes \<Rightarrow> bytes \<Rightarrow> nat \<Rightarrow> u32 \<Rightarrow> rsn_pmksa_cache \<Rightarrow>
       rsn_pmksa_cache_entry" where
  "pmksa_new_entry env now addr key len a spa ctx akm p =
     \<lparr>pe_addr = addr, pmkid = rsn_pmkid env (take len key) a spa (wpa_key_mgmt_sha256 akm),
      pmk = take len key @ replicate (PMK_LEN - len) 0, pmk_len = len,
      expiration = rt_sec now + uint (dot11RSNAConfigPMKLifetime p), akmp = akm, aa = a,
      reauth_time = rt_sec now +
        uint (dot11RSNAConfigPMKLifetime p * dot11RSNAConfigPMKReauthThreshold p div 100),
      network_ctx = ctx, opportunistic = False\<rparr>"

text \<open>The address of the entry (0 is NULL) and the cache. \<open>alloc\<close> is the result of \<open>os_zalloc\<close>.\<close>

definition pmksa_cache_add ::
    "pmksa_env \<Rightarrow> os_reltime \<Rightarrow> nat \<Rightarrow> bytes \<Rightarrow> nat \<Rightarrow> bytes \<Rightarrow> bytes \<Rightarrow> nat \<Rightarrow> u32 \<Rightarrow> rsn_pmksa_cache \<Rightarrow>
       nat \<times> rsn_pmksa_cache" where
  "pmksa_cache_add env now alloc key len a spa ctx akm p =
     (if len > PMK_LEN \<or> alloc = 0 then (0, p)
      else
        (let entry = pmksa_new_entry env now alloc key len a spa ctx akm p in
         case add_replace env now entry [] (pmksa p) p of
           Inl old \<Rightarrow> (old, p)
         | Inr p \<Rightarrow> (alloc, add_link env now entry (add_make_room p))))"

definition pmksa_cache_find :: "nat \<Rightarrow> rsn_pmksa_cache \<Rightarrow> rsn_pmksa_cache_entry option" where
  "pmksa_cache_find addr p = find (\<lambda>e. pe_addr e = addr) (pmksa p)"

text \<open>
  The clone reads the old entry after the addition, which may have removed it: then the result
  is \<open>None\<close>.
\<close>

definition pmksa_cache_clone_entry ::
    "pmksa_env \<Rightarrow> os_reltime \<Rightarrow> nat \<Rightarrow> rsn_pmksa_cache_entry \<Rightarrow> bytes \<Rightarrow> rsn_pmksa_cache \<Rightarrow>
       (nat \<times> rsn_pmksa_cache) option" where
  "pmksa_cache_clone_entry env now alloc old_entry a p =
     (let (new_entry, p) = pmksa_cache_add env now alloc (pmk old_entry) (pmk_len old_entry) a (own_addr p)
            (network_ctx old_entry) (akmp old_entry) p in
      if new_entry = 0 then Some (0, p)
      else
        (case pmksa_cache_find (pe_addr old_entry) p of
           None \<Rightarrow> None
         | Some old \<Rightarrow>
             Some (new_entry,
               p\<lparr>pmksa := List.map (\<lambda>e. if pe_addr e = new_entry
                    then e\<lparr>expiration := expiration old, opportunistic := True\<rparr> else e) (pmksa p)\<rparr>)))"

definition pmksa_cache_get_opportunistic ::
    "pmksa_env \<Rightarrow> os_reltime \<Rightarrow> nat \<Rightarrow> nat \<Rightarrow> bytes \<Rightarrow> rsn_pmksa_cache \<Rightarrow> (nat \<times> rsn_pmksa_cache) option" where
  "pmksa_cache_get_opportunistic env now alloc ctx a p =
     (if ctx = 0 then Some (0, p)
      else
        (case find (\<lambda>e. network_ctx e = ctx) (pmksa p) of
           None \<Rightarrow> Some (0, p)
         | Some e \<Rightarrow> pmksa_cache_clone_entry env now alloc e a p))"

section \<open>The current entry\<close>

definition entry_addr :: "rsn_pmksa_cache_entry option \<Rightarrow> nat" where
  "entry_addr r = (case r of None \<Rightarrow> 0 | Some e \<Rightarrow> pe_addr e)"

definition pmksa_cache_set_current ::
    "pmksa_env \<Rightarrow> os_reltime \<Rightarrow> nat \<Rightarrow> bytes option \<Rightarrow> bytes option \<Rightarrow> nat \<Rightarrow> bool \<Rightarrow> rsn_pmksa_cache \<Rightarrow>
       (int \<times> rsn_pmksa_cache) option" where
  "pmksa_cache_set_current env now alloc pid bssid ctx try_opportunistic p =
     (let cur = (case pid of None \<Rightarrow> 0 | Some i \<Rightarrow> entry_addr (pmksa_cache_get (pmksa p) None (Some i) ctx));
          cur = (if cur = 0 then
                   (case bssid of None \<Rightarrow> 0 | Some b \<Rightarrow> entry_addr (pmksa_cache_get (pmksa p) (Some b) None ctx))
                 else cur);
          p = p\<lparr>cur_pmksa := cur\<rparr> in
      case (if cur = 0 \<and> try_opportunistic then bssid else None) of
        None \<Rightarrow> Some (if cur \<noteq> 0 then 0 else -1, p)
      | Some b \<Rightarrow>
          (case pmksa_cache_get_opportunistic env now alloc ctx b p of
             None \<Rightarrow> None
           | Some (cur, p) \<Rightarrow> Some (if cur \<noteq> 0 then 0 else -1, p\<lparr>cur_pmksa := cur\<rparr>)))"

definition pmksa_cache_init :: "bytes \<Rightarrow> u32 \<Rightarrow> u32 \<Rightarrow> eloop_data \<Rightarrow> rsn_pmksa_cache" where
  "pmksa_cache_init addr lifetime threshold el =
     \<lparr>pmksa = [], pmksa_count = 0, cur_pmksa = 0, sm_pmk = replicate PMK_LEN 0, sm_pmk_len = 0,
      sm_bssid = replicate 6 0, own_addr = addr, dot11RSNAConfigPMKLifetime = lifetime,
      dot11RSNAConfigPMKReauthThreshold = threshold, loop = el, pm_events = []\<rparr>"

definition pmksa_cache_deinit :: "pmksa_env \<Rightarrow> os_reltime \<Rightarrow> rsn_pmksa_cache \<Rightarrow> rsn_pmksa_cache" where
  "pmksa_cache_deinit env now p = pmksa_cache_set_expiration env now (p\<lparr>pmksa := []\<rparr>)"

section \<open>The invariant of the cache\<close>

text \<open>
  The counter counts the entries, of which there are at most 32; addresses and authenticators are
  distinct; the current entry is in the cache; each of the two timeouts is registered at most once.
\<close>

definition entries_inv :: "rsn_pmksa_cache \<Rightarrow> bool" where
  "entries_inv p \<longleftrightarrow>
     pmksa_count p = int (length (pmksa p)) \<and>
     distinct (List.map pe_addr (pmksa p)) \<and> distinct (List.map aa (pmksa p)) \<and>
     0 \<notin> set (List.map pe_addr (pmksa p))"

definition current_inv :: "rsn_pmksa_cache \<Rightarrow> bool" where
  "current_inv p \<longleftrightarrow> cur_pmksa p = 0 \<or> cur_pmksa p \<in> set (List.map pe_addr (pmksa p))"

definition timers_inv :: "rsn_pmksa_cache \<Rightarrow> bool" where
  "timers_inv p \<longleftrightarrow>
     timer_pending pmksa_expire_key (loop p) \<le> 1 \<and> timer_pending pmksa_reauth_key (loop p) \<le> 1"

lemma keys_proper [simp]: "timer_proper pmksa_expire_key" "timer_proper pmksa_reauth_key"
  by (simp_all add: timer_proper_def pmksa_expire_key_def pmksa_reauth_key_def)

lemma keys_differ [simp]: "pmksa_expire_key \<noteq> pmksa_reauth_key" "pmksa_reauth_key \<noteq> pmksa_expire_key"
  by (simp_all add: pmksa_expire_key_def pmksa_reauth_key_def)

text \<open>Setting the expiration touches the event loop only, and leaves each timeout at most once.\<close>

lemma set_expiration_frame [simp]:
  "pmksa (pmksa_cache_set_expiration env now p) = pmksa p"
  "pmksa_count (pmksa_cache_set_expiration env now p) = pmksa_count p"
  "cur_pmksa (pmksa_cache_set_expiration env now p) = cur_pmksa p"
  "sm_pmk (pmksa_cache_set_expiration env now p) = sm_pmk p"
  "sm_pmk_len (pmksa_cache_set_expiration env now p) = sm_pmk_len p"
  "own_addr (pmksa_cache_set_expiration env now p) = own_addr p"
  "pm_events (pmksa_cache_set_expiration env now p) = pm_events p"
  "dot11RSNAConfigPMKLifetime (pmksa_cache_set_expiration env now p) = dot11RSNAConfigPMKLifetime p"
  by (simp_all add: pmksa_cache_set_expiration_def Let_def split: list.split)

lemma set_expiration_timers: "timers_inv (pmksa_cache_set_expiration env now p)"
proof -
  let ?el = "timer_cancel pmksa_reauth_key (timer_cancel pmksa_expire_key (loop p))"
  have z: "timer_pending pmksa_expire_key ?el = 0" "timer_pending pmksa_reauth_key ?el = 0"
    by (simp_all add: tmr.cancel_both tmr.pending_cancel)
  have o: "timer_pending k (register_secs env now s k el) \<le> timer_pending k el + 1"
    "k' \<noteq> k \<Longrightarrow> timer_pending k' (register_secs env now s k el) = timer_pending k' el" for k k' s el
    unfolding register_secs_def by (rule tmr.pending_register, simp add: tmr.pending_register_other)
  have e: "timer_pending pmksa_expire_key (register_secs env now s pmksa_expire_key ?el) \<le> 1"
    "timer_pending pmksa_reauth_key (register_secs env now s pmksa_expire_key ?el) = 0" for s
    using o(1) [of pmksa_expire_key s ?el] z by (simp_all add: o(2))
  have r: "timer_pending pmksa_reauth_key (register_secs env now s' pmksa_reauth_key
      (register_secs env now s pmksa_expire_key ?el)) \<le> 1" for s s'
    using o(1) [of pmksa_reauth_key s' "register_secs env now s pmksa_expire_key ?el"] e by simp
  show ?thesis
    by (cases "pmksa p") (simp_all add: timers_inv_def pmksa_cache_set_expiration_def Let_def z e r o(2)
      del: One_nat_def)
qed

text \<open>Freeing an entry that has been unlinked.\<close>

lemma free_entry_frame [simp]:
  "pmksa (pmksa_cache_free_entry e r p) = pmksa p"
  "pmksa_count (pmksa_cache_free_entry e r p) = pmksa_count p - 1"
  "loop (pmksa_cache_free_entry e r p) = loop p"
  "own_addr (pmksa_cache_free_entry e r p) = own_addr p"
  "sm_pmk_len (pmksa_cache_free_entry e r p) = sm_pmk_len p"
  "dot11RSNAConfigPMKLifetime (pmksa_cache_free_entry e r p) = dot11RSNAConfigPMKLifetime p"
  by (simp_all add: pmksa_cache_free_entry_def wpa_sm_pmksa_free_cb_def pmksa_cache_clear_current_def
      pm_emit_def Let_def)

lemma free_entry_current:
  "cur_pmksa (pmksa_cache_free_entry e r p) = 0 \<or>
   (cur_pmksa (pmksa_cache_free_entry e r p) = cur_pmksa p \<and> cur_pmksa p \<noteq> pe_addr e)"
  by (simp add: pmksa_cache_free_entry_def wpa_sm_pmksa_free_cb_def pmksa_cache_clear_current_def
      pm_emit_def Let_def)

lemma timers_inv_free [simp]: "timers_inv (pmksa_cache_free_entry e r p) = timers_inv p"
  by (simp add: timers_inv_def)

lemma timers_inv_entries [simp]: "timers_inv (p\<lparr>pmksa := es\<rparr>) = timers_inv p"
  and timers_inv_count [simp]: "timers_inv (p\<lparr>pmksa_count := n\<rparr>) = timers_inv p"
  and timers_inv_current [simp]: "timers_inv (p\<lparr>cur_pmksa := c\<rparr>) = timers_inv p"
  and timers_inv_emit [simp]: "timers_inv (pm_emit ev p) = timers_inv p"
  by (simp_all add: timers_inv_def pm_emit_def)

lemma pm_emit_frame [simp]:
  "pmksa (pm_emit ev p) = pmksa p" "pmksa_count (pm_emit ev p) = pmksa_count p"
  "cur_pmksa (pm_emit ev p) = cur_pmksa p" "loop (pm_emit ev p) = loop p"
  "own_addr (pm_emit ev p) = own_addr p"
  by (simp_all add: pm_emit_def)

text \<open>
  One removal: the entry is one of the list, the counter goes with it, and the current entry is
  cleared when it was the one.
\<close>

definition pmksa_inv :: "rsn_pmksa_cache \<Rightarrow> bool" where
  "pmksa_inv p \<longleftrightarrow> entries_inv p \<and> current_inv p"

lemma pmksa_inv_remove:
  assumes "pmksa_inv p" "pmksa p = xs @ e # ys"
  shows "pmksa_inv (pmksa_cache_free_entry e r (p\<lparr>pmksa := xs @ ys\<rparr>))"
  using assms free_entry_current [of e r "p\<lparr>pmksa := xs @ ys\<rparr>"]
  by (auto simp: pmksa_inv_def entries_inv_def current_inv_def)

lemma pmksa_inv_set_expiration [simp]:
  "pmksa_inv (pmksa_cache_set_expiration env now p) = pmksa_inv p"
  by (simp add: pmksa_inv_def entries_inv_def current_inv_def)

lemma pmksa_inv_emit [simp]: "pmksa_inv (pm_emit ev p) = pmksa_inv p"
  by (simp add: pmksa_inv_def entries_inv_def current_inv_def)

lemma expire_loop_inv: "\<lbrakk>pmksa_inv p; pmksa p = es\<rbrakk> \<Longrightarrow> pmksa_inv (expire_loop now es p)"
proof (induction es arbitrary: p)
  case (Cons e es)
  have "pmksa_inv (pmksa_cache_free_entry e PMKSA_EXPIRE (p\<lparr>pmksa := es\<rparr>))"
    using pmksa_inv_remove [of p "[]" e es] Cons.prems by simp
  then show ?case using Cons by simp
qed simp

lemma flush_loop_inv:
  "\<lbrakk>pmksa_inv p; pmksa p = kept @ es\<rbrakk> \<Longrightarrow> pmksa_inv (snd (flush_loop ctx k kept es p))"
proof (induction es arbitrary: p kept)
  case (Cons e es)
  have "pmksa_inv (pmksa_cache_free_entry e PMKSA_FREE (p\<lparr>pmksa := kept @ es\<rparr>))"
    using pmksa_inv_remove [of p kept e es] Cons.prems by simp
  then show ?case using Cons by (simp add: split_beta)
qed simp

text \<open>What flushing removes.\<close>

lemma flush_loop_entries:
  "pmksa p = kept @ es \<Longrightarrow>
   pmksa (snd (flush_loop ctx k kept es p)) = kept @ filter (\<lambda>e. \<not> flush_match ctx k e) es \<and>
   fst (flush_loop ctx k kept es p) = length (filter (flush_match ctx k) es)"
  by (induction es arbitrary: p kept) (simp_all add: split_beta)

lemma flush_entries:
  "pmksa (pmksa_cache_flush env now ctx k p) = filter (\<lambda>e. \<not> flush_match ctx k e) (pmksa p)"
  using flush_loop_entries [of p "[]" "pmksa p" ctx k] by (simp add: pmksa_cache_flush_def split_beta)

lemma flush_inv: "pmksa_inv p \<Longrightarrow> pmksa_inv (pmksa_cache_flush env now ctx k p)"
  using flush_loop_inv [of p "[]"] by (simp add: pmksa_cache_flush_def split_beta)

lemma loop_flush_loop [simp]: "loop (snd (flush_loop ctx k kept es p)) = loop p"
  by (induction es arbitrary: p kept) (simp_all add: split_beta)

lemma flush_timers: "timers_inv p \<Longrightarrow> timers_inv (pmksa_cache_flush env now ctx k p)"
  by (simp add: pmksa_cache_flush_def split_beta set_expiration_timers) (simp add: timers_inv_def)

lemma flush_loop_count:
  "pmksa_count (snd (flush_loop ctx k kept es p)) = pmksa_count p - int (length (filter (flush_match ctx k) es))"
  by (induction es arbitrary: p kept) (simp_all add: split_beta)

text \<open>The current entry stays inside the cache and a set of unlinked entries.\<close>

lemma flush_loop_current:
  "\<lbrakk>pmksa p = kept @ es; cur_pmksa p \<in> insert 0 (X \<union> pe_addr ` set (kept @ es))\<rbrakk> \<Longrightarrow>
   cur_pmksa (snd (flush_loop ctx k kept es p)) \<in>
     insert 0 (X \<union> pe_addr ` set (kept @ filter (\<lambda>e. \<not> flush_match ctx k e) es))"
proof (induction es arbitrary: p kept)
  case (Cons e es)
  let ?p = "pmksa_cache_free_entry e PMKSA_FREE (p\<lparr>pmksa := kept @ es\<rparr>)"
  have "cur_pmksa ?p \<in> insert 0 (X \<union> pe_addr ` set (kept @ es))"
    using Cons.prems(2) free_entry_current [of e PMKSA_FREE "p\<lparr>pmksa := kept @ es\<rparr>"] by auto
  then show ?case
    using Cons.IH [of ?p kept] Cons.IH [of p "kept @ [e]"] Cons.prems by (auto simp: split_beta)
qed simp

lemma flush_count:
  "pmksa_count (pmksa_cache_flush env now ctx k p) =
     pmksa_count p - int (length (filter (flush_match ctx k) (pmksa p)))"
  by (simp add: pmksa_cache_flush_def split_beta flush_loop_count)

lemma flush_current:
  assumes "cur_pmksa p \<in> insert 0 (X \<union> pe_addr ` set (pmksa p))"
  shows "cur_pmksa (pmksa_cache_flush env now ctx k p) \<in>
    insert 0 (X \<union> pe_addr ` set (filter (\<lambda>e. \<not> flush_match ctx k e) (pmksa p)))"
  using flush_loop_current [of p "[]" "pmksa p" X ctx k] assms
  by (simp add: pmksa_cache_flush_def split_beta)

lemma flush_frame [simp]: "own_addr (pmksa_cache_flush env now ctx k p) = own_addr p"
proof -
  have "own_addr (snd (flush_loop ctx k kept es p)) = own_addr p" for kept es p
    by (induction es arbitrary: p kept) (simp_all add: split_beta)
  then show ?thesis by (simp add: pmksa_cache_flush_def split_beta)
qed

section \<open>Adding keeps the invariant\<close>

lemma length_filter_split: "length (filter P xs) + length (filter (\<lambda>x. \<not> P x) xs) = length xs"
  by (induction xs) auto

text \<open>An old entry of the same authenticator is removed, and what is based on its key with it.\<close>

lemma replaced_inv:
  assumes "pmksa_inv p" "pmksa p = before @ pos # es"
  shows "pmksa_inv (pmksa_cache_free_entry pos PMKSA_REPLACE
      (if b then pmksa_cache_flush env now ctx k (p\<lparr>pmksa := before @ es\<rparr>) else p\<lparr>pmksa := before @ es\<rparr>))"
proof (cases b)
  case False
  then show ?thesis using pmksa_inv_remove [OF assms, of PMKSA_REPLACE] by simp
next
  case True
  let ?q = "pmksa_cache_flush env now ctx k (p\<lparr>pmksa := before @ es\<rparr>)"
  let ?rest = "filter (\<lambda>e. \<not> flush_match ctx k e) (before @ es)"
  have l: "int (length (before @ es)) - int (length (filter (flush_match ctx k) (before @ es))) = int (length ?rest)"
    using length_filter_split [of "flush_match ctx k" "before @ es"] by linarith
  have d: "distinct (List.map pe_addr (before @ es))" "distinct (List.map aa (before @ es))"
    "pmksa_count p = int (length (before @ es)) + 1" "0 \<notin> pe_addr ` set (before @ es)"
    "cur_pmksa p \<in> insert 0 (insert (pe_addr pos) (pe_addr ` set (before @ es)))"
    using assms by (auto simp: pmksa_inv_def entries_inv_def current_inv_def)
  have c: "cur_pmksa ?q \<in> insert 0 ({pe_addr pos} \<union> pe_addr ` set ?rest)"
    using flush_current [of "p\<lparr>pmksa := before @ es\<rparr>" "{pe_addr pos}" env now ctx k] d(5) by simp
  have f: "distinct (List.map pe_addr ?rest)" "distinct (List.map aa ?rest)" "0 \<notin> pe_addr ` set ?rest"
    using d(1,2,4) distinct_map_filter by (blast, blast, auto)
  have n: "pmksa_count (pmksa_cache_free_entry pos PMKSA_REPLACE ?q) = int (length ?rest)"
    using l d(3) by (simp add: flush_count)
  have cur: "cur_pmksa (pmksa_cache_free_entry pos PMKSA_REPLACE ?q) \<in> insert 0 (pe_addr ` set ?rest)"
    using free_entry_current [of pos PMKSA_REPLACE ?q] c by auto
  have "pmksa (pmksa_cache_free_entry pos PMKSA_REPLACE ?q) = ?rest" by (simp add: flush_entries)
  then show ?thesis
    using True f n cur by (simp only: pmksa_inv_def entries_inv_def current_inv_def set_map if_True simp_thms) blast
qed

lemma add_replace_props:
  assumes "add_replace env now entry before es p = r" "pmksa p = before @ es" "pmksa_inv p"
    and "aa entry \<notin> aa ` set before"
  shows "case r of
      Inl a \<Rightarrow> \<exists>e\<in>set (pmksa p). pe_addr e = a \<and> aa e = aa entry \<and> pmkid e = pmkid entry \<and>
        pmk_len e = pmk_len entry \<and> take (pmk_len entry) (pmk e) = take (pmk_len entry) (pmk entry)
    | Inr q \<Rightarrow> pmksa_inv q \<and> aa entry \<notin> aa ` set (pmksa q) \<and> (\<exists>Q. pmksa q = filter Q (pmksa p)) \<and>
        (timers_inv p \<longrightarrow> timers_inv q) \<and> own_addr q = own_addr p"
  using assms
proof (induction es arbitrary: before)
  case Nil
  then show ?case by (auto intro!: exI [of _ "\<lambda>_. True"])
next
  case (Cons pos es)
  show ?case
  proof (cases "aa entry = aa pos")
    case False
    then show ?thesis using Cons.IH [of "before @ [pos]"] Cons.prems by auto
  next
    case same: True
    show ?thesis
    proof (cases "pmk_len pos = pmk_len entry \<and> take (pmk_len entry) (pmk pos) = take (pmk_len entry) (pmk entry) \<and>
        pmkid pos = pmkid entry")
      case True
      then show ?thesis using same Cons.prems by (auto intro!: bexI [of _ pos])
    next
      case False
      let ?p = "p\<lparr>pmksa := before @ es\<rparr>"
      let ?q = "pmksa_cache_free_entry pos PMKSA_REPLACE
          (if \<not> opportunistic pos then pmksa_cache_flush env now (network_ctx entry) (Some (pmk pos, pmk_len pos)) ?p else ?p)"
      have r: "r = Inr ?q" using Cons.prems(1) same False by (auto simp: Let_def)
      have "distinct (List.map pe_addr (before @ pos # es))" "distinct (List.map aa (before @ pos # es))"
        using Cons.prems(2,3) by (simp_all add: pmksa_inv_def entries_inv_def)
      then have "\<forall>x\<in>set (before @ es). pe_addr x \<noteq> pe_addr pos" "\<forall>x\<in>set (before @ es). aa x \<noteq> aa pos"
        by (auto dest: image_eqI [OF sym])
      then have u: "filter (\<lambda>e. pe_addr e \<noteq> pe_addr pos) (before @ pos # es) = before @ es"
        "aa entry \<notin> aa ` set (before @ es)"
        using same by (simp_all add: image_iff) metis
      have e: "\<exists>Q. pmksa ?q = filter Q (before @ es)"
        by (auto simp: flush_entries intro: exI [of _ "\<lambda>_. True"])
      then have "\<exists>Q. pmksa ?q = filter Q (pmksa p)"
        using u(1) Cons.prems(2) by (metis (no_types) filter_filter)
      moreover have "aa entry \<notin> aa ` set (pmksa ?q)" using e u(2) by auto
      moreover have "pmksa_inv ?q" using replaced_inv [OF Cons.prems(3,2)] by blast
      moreover have "timers_inv p \<longrightarrow> timers_inv ?q" by (simp add: flush_timers)
      ultimately show ?thesis by (simp add: r)
    qed
  qed
qed

text \<open>Making room removes at most one entry, never the current one.\<close>

lemma make_room_props:
  assumes "pmksa_inv p" "length (pmksa p) \<le> 32"
  shows "pmksa_inv (add_make_room p) \<and> length (pmksa (add_make_room p)) \<le> 31 \<and>
    (\<exists>Q. pmksa (add_make_room p) = filter Q (pmksa p)) \<and>
    (timers_inv p \<longrightarrow> timers_inv (add_make_room p)) \<and> own_addr (add_make_room p) = own_addr p"
proof (cases "pmksa p")
  case Nil
  then show ?thesis using assms by (simp add: add_make_room_def)
next
  case (Cons pos es)
  have n: "pmksa_count p = int (length (pos # es))" and d: "distinct (List.map pe_addr (pos # es))"
    using assms(1) Cons by (simp_all add: pmksa_inv_def entries_inv_def)
  have f: "filter (\<lambda>e. pe_addr e \<noteq> pe_addr x) ys = ys" if "pe_addr x \<notin> pe_addr ` set ys" for x ys
    using that by (metis (mono_tags, lifting) filter_True image_eqI)
  show ?thesis
  proof (cases "pmksa_count p < 32")
    case True
    then have "add_make_room p = p" "length (pmksa p) \<le> 31"
      using n Cons by (simp_all add: add_make_room_def)
    moreover have "\<exists>Q. pmksa p = filter Q (pmksa p)" by (rule exI [of _ "\<lambda>_. True"]) simp
    ultimately show ?thesis using assms(1) by simp
  next
    case full: False
    show ?thesis
    proof (cases "pe_addr pos = cur_pmksa p")
      case False
      have "pmksa_inv (pmksa_cache_free_entry pos PMKSA_FREE (p\<lparr>pmksa := es\<rparr>))"
        using pmksa_inv_remove [of p "[]" pos es] assms(1) Cons by simp
      moreover have "filter (\<lambda>e. pe_addr e \<noteq> pe_addr pos) (pmksa p) = es" using d f [of pos es] Cons by simp
      then have "\<exists>Q. es = filter Q (pmksa p)" by metis
      ultimately show ?thesis using full False Cons assms(2) by (simp add: add_make_room_def)
    next
      case True
      obtain pos2 es2 where es: "es = pos2 # es2" using n full by (cases es) auto
      have "pmksa_inv (pmksa_cache_free_entry pos2 PMKSA_FREE (p\<lparr>pmksa := pos # es2\<rparr>))"
        using pmksa_inv_remove [of p "[pos]" pos2 es2] assms(1) Cons es by simp
      moreover have "filter (\<lambda>e. pe_addr e \<noteq> pe_addr pos2) (pmksa p) = pos # es2"
        using d f [of pos2 es2] es Cons by auto
      then have "\<exists>Q. pos # es2 = filter Q (pmksa p)" by metis
      ultimately show ?thesis using full True Cons es assms(2) by (simp add: add_make_room_def)
    qed
  qed
qed

lemma set_add_insert [simp]: "set (add_insert e es) = insert e (set es)"
  by (induction es) auto

lemma length_add_insert [simp]: "length (add_insert e es) = Suc (length es)"
  by (induction es) auto

lemma distinct_add_insert [simp]:
  "distinct (List.map f (add_insert e es)) \<longleftrightarrow> f e \<notin> f ` set es \<and> distinct (List.map f es)"
  by (induction es) auto

lemma sorted_add_insert:
  "sorted (List.map expiration es) \<Longrightarrow> sorted (List.map expiration (add_insert e es))"
  by (induction es) auto

lemma add_link_entries: "pmksa (add_link env now e p) = add_insert e (pmksa p)"
  by (simp add: add_link_def Let_def)

lemma add_link_inv:
  assumes "pmksa_inv p" "pe_addr e \<noteq> 0" "pe_addr e \<notin> pe_addr ` set (pmksa p)" "aa e \<notin> aa ` set (pmksa p)"
  shows "pmksa_inv (add_link env now e p)"
  using assms by (auto simp: pmksa_inv_def entries_inv_def current_inv_def add_link_def Let_def)

lemma add_link_timers: "timers_inv p \<Longrightarrow> timers_inv (add_link env now e p)"
  by (simp add: add_link_def Let_def set_expiration_timers)

lemma own_addr_link [simp]: "own_addr (add_link env now e p) = own_addr p"
  by (simp add: add_link_def Let_def)

lemma new_entry_fields [simp]:
  "pe_addr (pmksa_new_entry env now addr key len a spa ctx akm p) = addr"
  "aa (pmksa_new_entry env now addr key len a spa ctx akm p) = a"
  "network_ctx (pmksa_new_entry env now addr key len a spa ctx akm p) = ctx"
  "pmk_len (pmksa_new_entry env now addr key len a spa ctx akm p) = len"
  "expiration (pmksa_new_entry env now addr key len a spa ctx akm p) =
     rt_sec now + uint (dot11RSNAConfigPMKLifetime p)"
  by (simp_all add: pmksa_new_entry_def)

lemma new_entry_pmk [simp]:
  "len \<le> length key \<Longrightarrow> take len (pmk (pmksa_new_entry env now addr key len a spa ctx akm p)) = take len key"
  by (simp add: pmksa_new_entry_def)

definition cache_ok :: "rsn_pmksa_cache \<Rightarrow> bool" where
  "cache_ok p \<longleftrightarrow> pmksa_inv p \<and> timers_inv p \<and> length (pmksa p) \<le> 32"

text \<open>What an addition does: it fails, reuses an entry, or adds one to a part of the old entries.\<close>

lemma pmksa_cache_add_cases:
  assumes "cache_ok p" "alloc \<notin> pe_addr ` set (pmksa p)"
  obtains (fail) "pmksa_cache_add env now alloc key len a spa ctx akm p = (0, p)" "len > PMK_LEN \<or> alloc = 0"
  | (reuse) e where "e \<in> set (pmksa p)" "aa e = a" "pmk_len e = len"
      "take len (pmk e) = take len (pmk (pmksa_new_entry env now alloc key len a spa ctx akm p))"
      "pmksa_cache_add env now alloc key len a spa ctx akm p = (pe_addr e, p)"
  | (added) q Q where "pmksa_cache_add env now alloc key len a spa ctx akm p =
        (alloc, add_link env now (pmksa_new_entry env now alloc key len a spa ctx akm p) q)"
      "pmksa q = filter Q (pmksa p)" "alloc \<noteq> 0" "len \<le> PMK_LEN"
      "cache_ok (add_link env now (pmksa_new_entry env now alloc key len a spa ctx akm p) q)"
      "own_addr q = own_addr p" "a \<notin> aa ` set (pmksa q)"
proof (cases "len > PMK_LEN \<or> alloc = 0")
  case True
  then show ?thesis using fail by (auto simp: pmksa_cache_add_def)
next
  case False
  let ?e = "pmksa_new_entry env now alloc key len a spa ctx akm p"
  show ?thesis
  proof (cases "add_replace env now ?e [] (pmksa p) p")
    case (Inl old)
    then show ?thesis
      using add_replace_props [OF Inl] assms False reuse
      by (auto simp: cache_ok_def pmksa_cache_add_def Let_def)
  next
    case (Inr q)
    obtain Q where q: "pmksa_inv q" "a \<notin> aa ` set (pmksa q)" "pmksa q = filter Q (pmksa p)" "timers_inv q"
      "own_addr q = own_addr p"
      using add_replace_props [OF Inr] assms(1) by (auto simp: cache_ok_def)
    then have len: "length (pmksa q) \<le> 32"
      using assms(1) length_filter_le [of Q "pmksa p"] unfolding cache_ok_def q(3) by linarith
    obtain R where r: "pmksa_inv (add_make_room q)" "length (pmksa (add_make_room q)) \<le> 31"
      "pmksa (add_make_room q) = filter R (pmksa q)" "timers_inv (add_make_room q)"
      "own_addr (add_make_room q) = own_addr q"
      using make_room_props [OF q(1) len] q(4) by blast
    have "pmksa_inv (add_link env now ?e (add_make_room q))"
      using r(1,3) q(2,3) False assms(2) by (intro add_link_inv) auto
    then have "cache_ok (add_link env now ?e (add_make_room q))"
      using r by (simp add: cache_ok_def add_link_timers add_link_entries)
    moreover have "pmksa (add_make_room q) = filter (\<lambda>x. R x \<and> Q x) (pmksa p)"
      using q(3) r(3) by (simp add: conj_commute)
    ultimately show ?thesis
      using added [of "add_make_room q" "\<lambda>x. R x \<and> Q x"] Inr False q r
      by (auto simp: pmksa_cache_add_def Let_def)
  qed
qed

lemma add_ok:
  assumes "cache_ok p" "alloc \<notin> pe_addr ` set (pmksa p)"
  shows "cache_ok (snd (pmksa_cache_add env now alloc key len a spa ctx akm p))"
  using assms by (cases rule: pmksa_cache_add_cases [OF assms, of env now key len a spa ctx akm]) simp_all

section \<open>Lookup, expiry and selection\<close>

lemma cache_get_SomeD:
  "pmksa_cache_get es a pid ctx = Some e \<Longrightarrow> e \<in> set es \<and> pmksa_match a pid ctx e"
  by (induction es) (auto split: if_splits)

lemma cache_get_aa:
  "\<lbrakk>distinct (List.map aa es); e \<in> set es\<rbrakk> \<Longrightarrow> pmksa_cache_get es (Some (aa e)) None 0 = Some e"
proof (induction es)
  case (Cons x es)
  show ?case
  proof (cases "aa e = aa x")
    case True
    then have "e \<notin> set es" using Cons.prems(1) by (metis distinct.simps(2) image_eqI list.set_map list.simps(9))
    then show ?thesis using Cons.prems(2) by (simp add: pmksa_match_def)
  next
    case False
    then show ?thesis using Cons by (auto simp: pmksa_match_def)
  qed
qed simp

lemma entry_addr_get:
  "entry_addr (pmksa_cache_get es a pid ctx) \<in> insert 0 (pe_addr ` set es)"
  by (auto simp: entry_addr_def dest: cache_get_SomeD split: option.split)

lemma expire_loop_entries:
  "pmksa p = es \<Longrightarrow> pmksa (expire_loop now es p) = dropWhile (\<lambda>e. expiration e \<le> rt_sec now) es"
  by (induction es arbitrary: p) simp_all

lemma dropWhile_sorted:
  "sorted (List.map f xs) \<Longrightarrow> dropWhile (\<lambda>x. f x \<le> (t :: int)) xs = filter (\<lambda>x. t < f x) xs"
proof (induction xs)
  case (Cons x xs)
  then have "t < f x \<Longrightarrow> \<forall>y\<in>set xs. t < f y" by fastforce
  then show ?case using Cons by (auto simp: filter_id_conv)
qed simp

lemma sorted_filter_map: "sorted (List.map f xs) \<Longrightarrow> sorted (List.map f (filter P xs))"
  by (induction xs) auto

lemma sorted_dropWhile_map: "sorted (List.map f xs) \<Longrightarrow> sorted (List.map f (dropWhile P xs))"
  by (induction xs) auto

lemma expire_ok: "cache_ok p \<Longrightarrow> cache_ok (pmksa_cache_expire env now p)"
proof -
  assume a: "cache_ok p"
  have "length (dropWhile P xs) \<le> length xs" for P and xs :: "rsn_pmksa_cache_entry list"
    by (rule length_dropWhile_le)
  then have "length (pmksa (expire_loop now (pmksa p) p)) \<le> 32"
    using a expire_loop_entries [of p "pmksa p" now] unfolding cache_ok_def by (metis order_trans)
  then show ?thesis
    using a by (simp add: cache_ok_def pmksa_cache_expire_def set_expiration_timers expire_loop_inv)
qed

lemma flush_ok: "cache_ok p \<Longrightarrow> cache_ok (pmksa_cache_flush env now ctx k p)"
  unfolding cache_ok_def flush_entries
  using length_filter_le [of "\<lambda>e. \<not> flush_match ctx k e" "pmksa p"] flush_inv flush_timers
  by (metis order_trans)

lemma cache_ok_current:
  "\<lbrakk>cache_ok p; c \<in> insert 0 (pe_addr ` set (pmksa p))\<rbrakk> \<Longrightarrow> cache_ok (p\<lparr>cur_pmksa := c\<rparr>)"
  by (auto simp: cache_ok_def pmksa_inv_def entries_inv_def current_inv_def)

text \<open>Marking the clone changes neither addresses nor authenticators.\<close>

lemma mark_entries:
  "List.map pe_addr (List.map (\<lambda>e. if pe_addr e = n then e\<lparr>expiration := x, opportunistic := b\<rparr> else e) es) = List.map pe_addr es"
  "List.map aa (List.map (\<lambda>e. if pe_addr e = n then e\<lparr>expiration := x, opportunistic := b\<rparr> else e) es) = List.map aa es"
  by (induction es) simp_all

lemma mark_addrs:
  "pe_addr ` set (List.map (\<lambda>e. if pe_addr e = n then e\<lparr>expiration := x, opportunistic := b\<rparr> else e) es) = pe_addr ` set es"
  using arg_cong [OF mark_entries(1), of set] by (simp only: set_map)

lemma cache_ok_mark:
  "cache_ok p \<Longrightarrow>
   cache_ok (p\<lparr>pmksa := List.map (\<lambda>e. if pe_addr e = n then e\<lparr>expiration := x, opportunistic := b\<rparr> else e) (pmksa p)\<rparr>)"
  unfolding cache_ok_def pmksa_inv_def entries_inv_def current_inv_def
  by (simp add: mark_entries del: List.list.map_comp List.map_map)

lemma clone_ok:
  assumes "cache_ok p" "alloc \<notin> pe_addr ` set (pmksa p)"
    and "pmksa_cache_clone_entry env now alloc e a p = Some (c, q)"
  shows "cache_ok q \<and> c \<in> insert 0 (pe_addr ` set (pmksa q))"
proof -
  obtain n r where r: "pmksa_cache_add env now alloc (pmk e) (pmk_len e) a (own_addr p) (network_ctx e) (akmp e) p = (n, r)"
    by force
  have ok: "cache_ok r" using add_ok [OF assms(1,2)] r by (metis snd_conv)
  have n: "n \<in> insert 0 (pe_addr ` set (pmksa r))"
    using pmksa_cache_add_cases [OF assms(1,2), of env now "pmk e" "pmk_len e" a "own_addr p" "network_ctx e" "akmp e"]
    by cases (use r in \<open>auto simp: add_link_entries\<close>)
  show ?thesis
  proof (cases "n = 0")
    case True
    then show ?thesis using assms(3) ok r by (auto simp: pmksa_cache_clone_entry_def)
  next
    case False
    obtain old where f: "pmksa_cache_find (pe_addr e) r = Some old"
      using assms(3) r False by (cases "pmksa_cache_find (pe_addr e) r") (simp_all add: pmksa_cache_clone_entry_def)
    let ?es = "List.map (\<lambda>x. if pe_addr x = n
        then x\<lparr>expiration := expiration old, opportunistic := True\<rparr> else x) (pmksa r)"
    have q: "c = n" "q = r\<lparr>pmksa := ?es\<rparr>"
      using assms(3) r False by (auto simp: pmksa_cache_clone_entry_def f)
    have upd: "pmksa (r\<lparr>pmksa := es\<rparr>) = es" for es by simp
    have "pmksa q = ?es" unfolding q(2) by (rule upd)
    then have "n \<in> insert 0 (pe_addr ` set (pmksa q))" using n by (simp only: mark_addrs)
    then show ?thesis using cache_ok_mark [OF ok] q by blast
  qed
qed

lemma opportunistic_ok:
  assumes "cache_ok p" "alloc \<notin> pe_addr ` set (pmksa p)"
    and "pmksa_cache_get_opportunistic env now alloc ctx a p = Some (c, q)"
  shows "cache_ok q \<and> c \<in> insert 0 (pe_addr ` set (pmksa q))"
  using assms clone_ok [OF assms(1,2)]
  by (fastforce simp: pmksa_cache_get_opportunistic_def split: if_splits option.splits)

lemma set_current_ok:
  assumes "cache_ok p" "alloc \<notin> pe_addr ` set (pmksa p)"
    and "pmksa_cache_set_current env now alloc pid bssid ctx opp p = Some (r, q)"
  shows "cache_ok q"
proof -
  define c0 where "c0 = (case pid of None \<Rightarrow> 0 | Some i \<Rightarrow> entry_addr (pmksa_cache_get (pmksa p) None (Some i) ctx))"
  define c where "c = (if c0 = 0 then
      (case bssid of None \<Rightarrow> 0 | Some b \<Rightarrow> entry_addr (pmksa_cache_get (pmksa p) (Some b) None ctx)) else c0)"
  have "c \<in> insert 0 (pe_addr ` set (pmksa p))"
    using entry_addr_get [of "pmksa p" None pid ctx] entry_addr_get [of "pmksa p" bssid None ctx]
    by (cases pid; cases bssid) (auto simp: c_def c0_def)
  then have ok: "cache_ok (p\<lparr>cur_pmksa := c\<rparr>)" by (rule cache_ok_current [OF assms(1)])
  have "pmksa_cache_set_current env now alloc pid bssid ctx opp p =
      (case (if c = 0 \<and> opp then bssid else None) of
        None \<Rightarrow> Some (if c \<noteq> 0 then 0 else -1, p\<lparr>cur_pmksa := c\<rparr>)
      | Some b \<Rightarrow>
          (case pmksa_cache_get_opportunistic env now alloc ctx b (p\<lparr>cur_pmksa := c\<rparr>) of
             None \<Rightarrow> None
           | Some (cur, p) \<Rightarrow> Some (if cur \<noteq> 0 then 0 else -1, p\<lparr>cur_pmksa := cur\<rparr>)))"
    by (simp only: pmksa_cache_set_current_def Let_def c_def c0_def)
  then show ?thesis
    using assms(2,3) ok opportunistic_ok [of "p\<lparr>cur_pmksa := c\<rparr>" alloc env now ctx]
    by (fastforce split: option.splits if_splits intro: cache_ok_current)
qed

section \<open>Reachable caches\<close>

text \<open>
  The operations, with the addresses that the allocator returns not in use. The rest of the program
  changes the other fields of the WPA state machine, and uses the event loop without registering the
  two timeouts of the cache; a timeout that fires is gone. With \<open>okc\<close> false, opportunistic key
  caching is off.
\<close>

inductive pmksa_reachable :: "pmksa_env \<Rightarrow> bool \<Rightarrow> rsn_pmksa_cache \<Rightarrow> bool" for env okc where
  init: "\<lbrakk>timer_pending pmksa_expire_key el = 0; timer_pending pmksa_reauth_key el = 0\<rbrakk> \<Longrightarrow>
    pmksa_reachable env okc (pmksa_cache_init addr lifetime threshold el)"
| other: "\<lbrakk>pmksa_reachable env okc p;
    timer_pending pmksa_expire_key el \<le> timer_pending pmksa_expire_key (loop p);
    timer_pending pmksa_reauth_key el \<le> timer_pending pmksa_reauth_key (loop p)\<rbrakk> \<Longrightarrow>
    pmksa_reachable env okc (p\<lparr>sm_pmk := k, sm_pmk_len := n, sm_bssid := b, own_addr := own,
      dot11RSNAConfigPMKLifetime := lifetime, dot11RSNAConfigPMKReauthThreshold := threshold, loop := el\<rparr>)"
| add: "\<lbrakk>pmksa_reachable env okc p; alloc \<notin> pe_addr ` set (pmksa p)\<rbrakk> \<Longrightarrow>
    pmksa_reachable env okc (snd (pmksa_cache_add env now alloc key len a spa ctx akm p))"
| flush: "pmksa_reachable env okc p \<Longrightarrow> pmksa_reachable env okc (pmksa_cache_flush env now ctx kk p)"
| expire: "pmksa_reachable env okc p \<Longrightarrow> pmksa_reachable env okc (pmksa_cache_expire env now p)"
| reauth: "pmksa_reachable env okc p \<Longrightarrow> pmksa_reachable env okc (pmksa_cache_reauth p)"
| clear: "pmksa_reachable env okc p \<Longrightarrow> pmksa_reachable env okc (pmksa_cache_clear_current p)"
| current: "\<lbrakk>pmksa_reachable env okc p; alloc \<notin> pe_addr ` set (pmksa p); try_opp \<Longrightarrow> okc;
    pmksa_cache_set_current env now alloc pid bssid ctx try_opp p = Some (r, q)\<rbrakk> \<Longrightarrow> pmksa_reachable env okc q"
| opportunistic: "\<lbrakk>pmksa_reachable env okc p; alloc \<notin> pe_addr ` set (pmksa p); okc;
    pmksa_cache_get_opportunistic env now alloc ctx a p = Some (r, q)\<rbrakk> \<Longrightarrow> pmksa_reachable env okc q"

lemma pmksa_reachable_ok: "pmksa_reachable env okc p \<Longrightarrow> cache_ok p"
proof (induction rule: pmksa_reachable.induct)
  case (init el addr lifetime threshold)
  then show ?case
    by (simp add: cache_ok_def pmksa_inv_def entries_inv_def current_inv_def timers_inv_def pmksa_cache_init_def)
next
  case (other p el k n b own lifetime threshold)
  then show ?case
    by (auto simp: cache_ok_def pmksa_inv_def entries_inv_def current_inv_def timers_inv_def)
next
  case (add p alloc now key len a spa ctx akm)
  then show ?case by (simp add: add_ok)
next
  case (current p alloc try_opp now pid bssid ctx r q)
  then show ?case by (blast intro: set_current_ok)
next
  case (opportunistic p alloc now ctx a r q)
  then show ?case by (blast dest: opportunistic_ok)
next
  case (reauth p)
  then show ?case using cache_ok_current [of p 0]
    by (simp add: pmksa_cache_reauth_def cache_ok_def)
next
  case (clear p)
  then show ?case using cache_ok_current [of p 0] by (simp add: pmksa_cache_clear_current_def)
qed (simp_all add: flush_ok expire_ok)

text \<open>Without clones the entries are in the order of their expiration times.\<close>

lemma pmksa_reachable_sorted:
  "\<lbrakk>pmksa_reachable env okc p; \<not> okc\<rbrakk> \<Longrightarrow> sorted (List.map expiration (pmksa p))"
proof (induction rule: pmksa_reachable.induct)
  case (add p alloc now key len a spa ctx akm)
  have "sorted (List.map expiration (pmksa p))" using add by simp
  then show ?case
    by (cases rule: pmksa_cache_add_cases [OF pmksa_reachable_ok [OF add(1)] add(2), of env now key len a spa ctx akm])
      (simp_all add: add_link_entries sorted_add_insert sorted_filter_map)
next
  case (current p alloc try_opp now pid bssid ctx r q)
  then have "pmksa q = pmksa p"
    by (auto simp: pmksa_cache_set_current_def Let_def split: option.splits if_splits)
  then show ?case using current by simp
qed (simp_all add: pmksa_cache_init_def flush_entries sorted_filter_map pmksa_cache_expire_def
    expire_loop_entries sorted_dropWhile_map pmksa_cache_reauth_def pmksa_cache_clear_current_def)

section \<open>The cache as a map from authenticators to entries\<close>

definition pmksa_abs :: "rsn_pmksa_cache \<Rightarrow> bytes \<Rightarrow> rsn_pmksa_cache_entry option" where
  "pmksa_abs p = map_of (List.map (\<lambda>e. (aa e, e)) (pmksa p))"

lemma abs_Some:
  assumes "distinct (List.map aa (pmksa p))"
  shows "pmksa_abs p a = Some e \<longleftrightarrow> e \<in> set (pmksa p) \<and> aa e = a"
proof -
  have "distinct (List.map fst (List.map (\<lambda>e. (aa e, e)) (pmksa p)))"
    using assms by (simp add: comp_def)
  from map_of_eq_Some_iff [OF this, of a e] show ?thesis by (auto simp: pmksa_abs_def)
qed

lemma reachable_distinct: "pmksa_reachable env okc p \<Longrightarrow> distinct (List.map aa (pmksa p))"
  using pmksa_reachable_ok by (auto simp: cache_ok_def pmksa_inv_def entries_inv_def)

lemma map_eqI: "(\<And>e. m a = Some e \<longleftrightarrow> m' a = Some e) \<Longrightarrow> m a = m' a"
  by (metis not_Some_eq)

lemma abs_filter:
  assumes "distinct (List.map aa (pmksa p))" "pmksa q = filter P (pmksa p)"
  shows "pmksa_abs q a = (case pmksa_abs p a of Some e \<Rightarrow> if P e then Some e else None | None \<Rightarrow> None)"
proof -
  have "distinct (List.map aa (pmksa q))" using assms distinct_map_filter by metis
  then have q: "pmksa_abs q a = Some e \<longleftrightarrow> e \<in> set (pmksa p) \<and> P e \<and> aa e = a" for e
    using abs_Some [of q a e] assms(2) by auto
  show ?thesis
  proof (cases "pmksa_abs p a")
    case None
    then show ?thesis using q abs_Some [OF assms(1), of a] by (metis not_Some_eq option.case(1))
  next
    case (Some e)
    have "pmksa_abs q a = Some e'" if "P e" "pmksa_abs p a = Some e'" for e'
      using q that Some abs_Some [OF assms(1), of a] by auto
    moreover have "pmksa_abs q a = None" if "\<not> P e"
      using q that Some abs_Some [OF assms(1), of a] by (metis not_Some_eq option.inject)
    ultimately show ?thesis using Some by simp
  qed
qed

section \<open>Properties\<close>

text \<open>
  C15: in every reachable cache the counter is the number of entries, there are at most 32, no two
  for the same authenticator, the current entry is one of them, and each timeout is registered at
  most once.
\<close>

theorem pmksa_cache_invariant:
  assumes "pmksa_reachable env okc p"
  shows "pmksa_count p = int (length (pmksa p)) \<and> length (pmksa p) \<le> pmksa_cache_max_entries \<and>
    distinct (List.map aa (pmksa p)) \<and>
    (cur_pmksa p = 0 \<or> cur_pmksa p \<in> pe_addr ` set (pmksa p)) \<and>
    timer_pending pmksa_expire_key (loop p) \<le> 1 \<and> timer_pending pmksa_reauth_key (loop p) \<le> 1"
  using pmksa_reachable_ok [OF assms]
  by (simp add: cache_ok_def pmksa_inv_def entries_inv_def current_inv_def timers_inv_def)

text \<open>
  C23: after a successful addition the lookup by authenticator finds the returned entry, and it holds
  the key that was added.
\<close>

theorem pmksa_add_lookup:
  assumes "pmksa_reachable env okc p" "alloc \<notin> pe_addr ` set (pmksa p)" "len \<le> length key"
    and "pmksa_cache_add env now alloc key len a spa ctx akm p = (r, q)" "r \<noteq> 0"
  shows "\<exists>e. pmksa_cache_get (pmksa q) (Some a) None 0 = Some e \<and> pe_addr e = r \<and> pmk_len e = len \<and>
    take len (pmk e) = take len key"
  using pmksa_reachable_ok [OF assms(1)] assms(2)
proof (cases rule: pmksa_cache_add_cases [where env = env and now = now and key = key and len = len and
      a = a and spa = spa and ctx = ctx and akm = akm])
  case fail
  then show ?thesis using assms(4,5) by simp
next
  case (reuse e)
  then show ?thesis
    using assms(3,4) cache_get_aa [OF reachable_distinct [OF assms(1)], of e] by auto
next
  case (added q' Q)
  let ?e = "pmksa_new_entry env now alloc key len a spa ctx akm p"
  have "distinct (List.map aa (pmksa q))" "?e \<in> set (pmksa q)"
    using added assms(4) by (auto simp: cache_ok_def pmksa_inv_def entries_inv_def add_link_entries)
  from cache_get_aa [OF this] show ?thesis using added assms(3,4) by auto
qed

text \<open>
  Without opportunistic key caching, the expiry timeout removes every expired entry and no
  other, in any state that the cache can reach.
\<close>

theorem pmksa_expire_exact:
  assumes "pmksa_reachable env False p"
  shows "pmksa (pmksa_cache_expire env now p) = filter (\<lambda>e. rt_sec now < expiration e) (pmksa p)"
  using pmksa_reachable_sorted [OF assms]
  by (simp add: pmksa_cache_expire_def expire_loop_entries dropWhile_sorted)


text \<open>
  C24: when the cache is full and the oldest entry, not in use, is the one chosen for opportunistic
  caching, adding the clone evicts it, and pmksa_cache_clone_entry then reads the expiration time of
  the freed entry.
\<close>

theorem pmksa_clone_use_after_free:
  assumes "cache_ok p" "pmksa p = e # es" "length (pmksa p) = pmksa_cache_max_entries"
    and "cur_pmksa p \<noteq> pe_addr e" "network_ctx e = ctx" "ctx \<noteq> 0" "pmk_len e \<le> PMK_LEN"
    and "a \<notin> aa ` set (pmksa p)" "alloc \<noteq> 0" "alloc \<notin> pe_addr ` set (pmksa p)"
  shows "pmksa_cache_get_opportunistic env now alloc ctx a p = None"
proof -
  let ?e = "pmksa_new_entry env now alloc (pmk e) (pmk_len e) a (own_addr p) (network_ctx e) (akmp e) p"
  have none: "add_replace env now ?e before xs p = Inr p" if "a \<notin> aa ` set xs" for before xs
    using that by (induction xs arbitrary: before) auto
  have room: "pmksa (add_make_room p) = es"
    using assms(1-4) by (auto simp: add_make_room_def cache_ok_def pmksa_inv_def entries_inv_def)
  let ?q = "add_link env now ?e (add_make_room p)"
  have add: "pmksa_cache_add env now alloc (pmk e) (pmk_len e) a (own_addr p) (network_ctx e) (akmp e) p =
      (alloc, ?q)"
    using none [of "pmksa p" "[]"] assms(7-9) by (simp add: pmksa_cache_add_def)
  have "pe_addr e \<notin> pe_addr ` set (pmksa ?q)"
    using assms(1,2,10) by (auto simp: add_link_entries room cache_ok_def pmksa_inv_def entries_inv_def)
  then have "pmksa_cache_find (pe_addr e) ?q = None"
    by (auto simp: pmksa_cache_find_def find_None_iff image_iff)
  then show ?thesis
    using assms(2,5,6,9) add by (simp add: pmksa_cache_get_opportunistic_def pmksa_cache_clone_entry_def)
qed

section \<open>Applications\<close>

definition sample_pmksa_env :: pmksa_env where
  "sample_pmksa_env = \<lparr>hmac_sha1 = (\<lambda>k m. replicate 20 (sum_list k)), hmac_sha256 = (\<lambda>k m. replicate 32 (sum_list k)),
     timer_alloc = True\<rparr>"

definition sample_cache :: rsn_pmksa_cache where
  "sample_cache = pmksa_cache_init (replicate 6 2) 43200 70 eloop_init"

definition sample_added :: rsn_pmksa_cache where
  "sample_added = snd (pmksa_cache_add sample_pmksa_env \<lparr>rt_sec = 100, rt_usec = 0\<rparr> 1 (replicate 32 7) 32
     (replicate 6 1) (replicate 6 2) 5 1 sample_cache)"

lemma sample_cache_reachable: "pmksa_reachable sample_pmksa_env okc sample_cache"
  unfolding sample_cache_def
  by (rule pmksa_reachable.init) (simp_all add: timer_pending_def pmksa_expire_key_def pmksa_reauth_key_def eloop_init_def)

lemma sample_added_reachable: "pmksa_reachable sample_pmksa_env okc sample_added"
  unfolding sample_added_def
  by (rule pmksa_reachable.add [OF sample_cache_reachable]) (simp add: sample_cache_def pmksa_cache_init_def)

lemma sample_added_entries:
  "pmksa sample_added = [pmksa_new_entry sample_pmksa_env \<lparr>rt_sec = 100, rt_usec = 0\<rparr> 1 (replicate 32 7) 32
     (replicate 6 1) (replicate 6 2) 5 1 sample_cache]"
  by (simp add: sample_added_def pmksa_cache_add_def sample_cache_def pmksa_cache_init_def add_link_entries
      add_make_room_def)

theorem pmksa_cache_invariant_witness: "pmksa_count sample_added = int (length (pmksa sample_added))"
  using pmksa_cache_invariant [OF sample_added_reachable] by simp

theorem pmksa_add_lookup_witness:
  "\<exists>e. pmksa_cache_get (pmksa sample_added) (Some (replicate 6 1)) None 0 = Some e \<and> pe_addr e = 1"
  using pmksa_add_lookup [OF sample_cache_reachable, of 1 32 "replicate 32 7" "\<lparr>rt_sec = 100, rt_usec = 0\<rparr>"
      "replicate 6 1" "replicate 6 2" 5 1 1 sample_added]
  by (auto simp: sample_cache_def pmksa_cache_init_def sample_added_def pmksa_cache_add_def)

theorem pmksa_expire_exact_witness:
  "pmksa (pmksa_cache_expire sample_pmksa_env \<lparr>rt_sec = 43300, rt_usec = 0\<rparr> sample_added) = []"
  using pmksa_expire_exact [OF sample_added_reachable, of "\<lparr>rt_sec = 43300, rt_usec = 0\<rparr>"]
  by (simp add: sample_added_entries sample_cache_def pmksa_cache_init_def)


definition sample_full :: rsn_pmksa_cache where
  "sample_full = sample_cache\<lparr>pmksa_count := 32, pmksa := List.map (\<lambda>i.
     \<lparr>pe_addr = i + 1, pmkid = replicate 16 0, pmk = replicate 32 7, pmk_len = 32, expiration = int i, akmp = 1,
      aa = [of_nat i, 0, 0, 0, 0, 0], reauth_time = 0, network_ctx = 5, opportunistic = False\<rparr>) [0..<32]\<rparr>"

theorem pmksa_clone_use_after_free_witness:
  "pmksa_cache_get_opportunistic sample_pmksa_env \<lparr>rt_sec = 0, rt_usec = 0\<rparr> 99 5 [0, 1, 0, 0, 0, 0] sample_full = None"
proof (rule pmksa_clone_use_after_free)
  show "pmksa sample_full = hd (pmksa sample_full) # tl (pmksa sample_full)" "length (pmksa sample_full) = 32"
    by (simp_all add: sample_full_def)
  have h: "hd (pmksa sample_full) = 
     \<lparr>pe_addr = 1, pmkid = replicate 16 0, pmk = replicate 32 7, pmk_len = 32, expiration = 0, akmp = 1,
      aa = [0, 0, 0, 0, 0, 0], reauth_time = 0, network_ctx = 5, opportunistic = False\<rparr>"
    by (simp add: sample_full_def hd_map)
  then show "cur_pmksa sample_full \<noteq> pe_addr (hd (pmksa sample_full))" "network_ctx (hd (pmksa sample_full)) = 5"
    "pmk_len (hd (pmksa sample_full)) \<le> 32"
    by (simp_all add: sample_full_def sample_cache_def pmksa_cache_init_def)
  show "[0, 1, 0, 0, 0, 0] \<notin> aa ` set (pmksa sample_full)" by (auto simp: sample_full_def)
  show "99 \<notin> pe_addr ` set (pmksa sample_full)" by (auto simp: sample_full_def)
  have "inj_on (\<lambda>i. of_nat i :: u8) {0..<32}"
    by (rule inj_onI) (simp add: word_of_nat_eq_iff take_bit_eq_mod)
  then have "distinct (List.map aa (pmksa sample_full))" "distinct (List.map pe_addr (pmksa sample_full))"
    by (auto simp: sample_full_def comp_def distinct_map inj_on_def)
  then show "cache_ok sample_full"
    by (auto simp: cache_ok_def pmksa_inv_def entries_inv_def current_inv_def timers_inv_def sample_full_def
        sample_cache_def pmksa_cache_init_def timer_pending_def pmksa_expire_key_def pmksa_reauth_key_def eloop_init_def)
qed simp_all

end
