(* ===== verification/AesInternal.thy ===== *)
theory AesInternal
  imports Prelude
begin

text \<open>
  The AES block cipher of \<open>src/crypto/aes_i.h\<close>, \<open>aes-internal.c\<close>, \<open>aes-internal-enc.c\<close> and
  \<open>aes-internal-dec.c\<close>, with \<open>AES_SMALL_TABLES\<close> defined and \<open>FULL_UNROLL\<close> not, as \<open>aes_i.h\<close> has it:
  the 32-bit tables, the key schedules for both directions and the table driven rounds.
  The cipher state is the four words \<open>(s0, s1, s2, s3)\<close>, the round keys are the list \<open>rk\<close>, and a
  pointer into \<open>rk\<close> is a suffix of it.

  The second half proves the tables right against the arithmetic of GF(2^8), the table driven
  rounds equal to SubBytes, ShiftRows, MixColumns and AddRoundKey on the sixteen octets, and
  decryption the inverse of encryption for the three key sizes.
\<close>

section \<open>Tables\<close>

definition Te0 :: "u32 list" where
  "Te0 = [
     0xc66363a5, 0xf87c7c84, 0xee777799, 0xf67b7b8d, 0xfff2f20d, 0xd66b6bbd, 0xde6f6fb1, 0x91c5c554,
     0x60303050, 0x02010103, 0xce6767a9, 0x562b2b7d, 0xe7fefe19, 0xb5d7d762, 0x4dababe6, 0xec76769a,
     0x8fcaca45, 0x1f82829d, 0x89c9c940, 0xfa7d7d87, 0xeffafa15, 0xb25959eb, 0x8e4747c9, 0xfbf0f00b,
     0x41adadec, 0xb3d4d467, 0x5fa2a2fd, 0x45afafea, 0x239c9cbf, 0x53a4a4f7, 0xe4727296, 0x9bc0c05b,
     0x75b7b7c2, 0xe1fdfd1c, 0x3d9393ae, 0x4c26266a, 0x6c36365a, 0x7e3f3f41, 0xf5f7f702, 0x83cccc4f,
     0x6834345c, 0x51a5a5f4, 0xd1e5e534, 0xf9f1f108, 0xe2717193, 0xabd8d873, 0x62313153, 0x2a15153f,
     0x0804040c, 0x95c7c752, 0x46232365, 0x9dc3c35e, 0x30181828, 0x379696a1, 0x0a05050f, 0x2f9a9ab5,
     0x0e070709, 0x24121236, 0x1b80809b, 0xdfe2e23d, 0xcdebeb26, 0x4e272769, 0x7fb2b2cd, 0xea75759f,
     0x1209091b, 0x1d83839e, 0x582c2c74, 0x341a1a2e, 0x361b1b2d, 0xdc6e6eb2, 0xb45a5aee, 0x5ba0a0fb,
     0xa45252f6, 0x763b3b4d, 0xb7d6d661, 0x7db3b3ce, 0x5229297b, 0xdde3e33e, 0x5e2f2f71, 0x13848497,
     0xa65353f5, 0xb9d1d168, 0x00000000, 0xc1eded2c, 0x40202060, 0xe3fcfc1f, 0x79b1b1c8, 0xb65b5bed,
     0xd46a6abe, 0x8dcbcb46, 0x67bebed9, 0x7239394b, 0x944a4ade, 0x984c4cd4, 0xb05858e8, 0x85cfcf4a,
     0xbbd0d06b, 0xc5efef2a, 0x4faaaae5, 0xedfbfb16, 0x864343c5, 0x9a4d4dd7, 0x66333355, 0x11858594,
     0x8a4545cf, 0xe9f9f910, 0x04020206, 0xfe7f7f81, 0xa05050f0, 0x783c3c44, 0x259f9fba, 0x4ba8a8e3,
     0xa25151f3, 0x5da3a3fe, 0x804040c0, 0x058f8f8a, 0x3f9292ad, 0x219d9dbc, 0x70383848, 0xf1f5f504,
     0x63bcbcdf, 0x77b6b6c1, 0xafdada75, 0x42212163, 0x20101030, 0xe5ffff1a, 0xfdf3f30e, 0xbfd2d26d,
     0x81cdcd4c, 0x180c0c14, 0x26131335, 0xc3ecec2f, 0xbe5f5fe1, 0x359797a2, 0x884444cc, 0x2e171739,
     0x93c4c457, 0x55a7a7f2, 0xfc7e7e82, 0x7a3d3d47, 0xc86464ac, 0xba5d5de7, 0x3219192b, 0xe6737395,
     0xc06060a0, 0x19818198, 0x9e4f4fd1, 0xa3dcdc7f, 0x44222266, 0x542a2a7e, 0x3b9090ab, 0x0b888883,
     0x8c4646ca, 0xc7eeee29, 0x6bb8b8d3, 0x2814143c, 0xa7dede79, 0xbc5e5ee2, 0x160b0b1d, 0xaddbdb76,
     0xdbe0e03b, 0x64323256, 0x743a3a4e, 0x140a0a1e, 0x924949db, 0x0c06060a, 0x4824246c, 0xb85c5ce4,
     0x9fc2c25d, 0xbdd3d36e, 0x43acacef, 0xc46262a6, 0x399191a8, 0x319595a4, 0xd3e4e437, 0xf279798b,
     0xd5e7e732, 0x8bc8c843, 0x6e373759, 0xda6d6db7, 0x018d8d8c, 0xb1d5d564, 0x9c4e4ed2, 0x49a9a9e0,
     0xd86c6cb4, 0xac5656fa, 0xf3f4f407, 0xcfeaea25, 0xca6565af, 0xf47a7a8e, 0x47aeaee9, 0x10080818,
     0x6fbabad5, 0xf0787888, 0x4a25256f, 0x5c2e2e72, 0x381c1c24, 0x57a6a6f1, 0x73b4b4c7, 0x97c6c651,
     0xcbe8e823, 0xa1dddd7c, 0xe874749c, 0x3e1f1f21, 0x964b4bdd, 0x61bdbddc, 0x0d8b8b86, 0x0f8a8a85,
     0xe0707090, 0x7c3e3e42, 0x71b5b5c4, 0xcc6666aa, 0x904848d8, 0x06030305, 0xf7f6f601, 0x1c0e0e12,
     0xc26161a3, 0x6a35355f, 0xae5757f9, 0x69b9b9d0, 0x17868691, 0x99c1c158, 0x3a1d1d27, 0x279e9eb9,
     0xd9e1e138, 0xebf8f813, 0x2b9898b3, 0x22111133, 0xd26969bb, 0xa9d9d970, 0x078e8e89, 0x339494a7,
     0x2d9b9bb6, 0x3c1e1e22, 0x15878792, 0xc9e9e920, 0x87cece49, 0xaa5555ff, 0x50282878, 0xa5dfdf7a,
     0x038c8c8f, 0x59a1a1f8, 0x09898980, 0x1a0d0d17, 0x65bfbfda, 0xd7e6e631, 0x844242c6, 0xd06868b8,
     0x824141c3, 0x299999b0, 0x5a2d2d77, 0x1e0f0f11, 0x7bb0b0cb, 0xa85454fc, 0x6dbbbbd6, 0x2c16163a]"

definition Td0 :: "u32 list" where
  "Td0 = [
     0x51f4a750, 0x7e416553, 0x1a17a4c3, 0x3a275e96, 0x3bab6bcb, 0x1f9d45f1, 0xacfa58ab, 0x4be30393,
     0x2030fa55, 0xad766df6, 0x88cc7691, 0xf5024c25, 0x4fe5d7fc, 0xc52acbd7, 0x26354480, 0xb562a38f,
     0xdeb15a49, 0x25ba1b67, 0x45ea0e98, 0x5dfec0e1, 0xc32f7502, 0x814cf012, 0x8d4697a3, 0x6bd3f9c6,
     0x038f5fe7, 0x15929c95, 0xbf6d7aeb, 0x955259da, 0xd4be832d, 0x587421d3, 0x49e06929, 0x8ec9c844,
     0x75c2896a, 0xf48e7978, 0x99583e6b, 0x27b971dd, 0xbee14fb6, 0xf088ad17, 0xc920ac66, 0x7dce3ab4,
     0x63df4a18, 0xe51a3182, 0x97513360, 0x62537f45, 0xb16477e0, 0xbb6bae84, 0xfe81a01c, 0xf9082b94,
     0x70486858, 0x8f45fd19, 0x94de6c87, 0x527bf8b7, 0xab73d323, 0x724b02e2, 0xe31f8f57, 0x6655ab2a,
     0xb2eb2807, 0x2fb5c203, 0x86c57b9a, 0xd33708a5, 0x302887f2, 0x23bfa5b2, 0x02036aba, 0xed16825c,
     0x8acf1c2b, 0xa779b492, 0xf307f2f0, 0x4e69e2a1, 0x65daf4cd, 0x0605bed5, 0xd134621f, 0xc4a6fe8a,
     0x342e539d, 0xa2f355a0, 0x058ae132, 0xa4f6eb75, 0x0b83ec39, 0x4060efaa, 0x5e719f06, 0xbd6e1051,
     0x3e218af9, 0x96dd063d, 0xdd3e05ae, 0x4de6bd46, 0x91548db5, 0x71c45d05, 0x0406d46f, 0x605015ff,
     0x1998fb24, 0xd6bde997, 0x894043cc, 0x67d99e77, 0xb0e842bd, 0x07898b88, 0xe7195b38, 0x79c8eedb,
     0xa17c0a47, 0x7c420fe9, 0xf8841ec9, 0x00000000, 0x09808683, 0x322bed48, 0x1e1170ac, 0x6c5a724e,
     0xfd0efffb, 0x0f853856, 0x3daed51e, 0x362d3927, 0x0a0fd964, 0x685ca621, 0x9b5b54d1, 0x24362e3a,
     0x0c0a67b1, 0x9357e70f, 0xb4ee96d2, 0x1b9b919e, 0x80c0c54f, 0x61dc20a2, 0x5a774b69, 0x1c121a16,
     0xe293ba0a, 0xc0a02ae5, 0x3c22e043, 0x121b171d, 0x0e090d0b, 0xf28bc7ad, 0x2db6a8b9, 0x141ea9c8,
     0x57f11985, 0xaf75074c, 0xee99ddbb, 0xa37f60fd, 0xf701269f, 0x5c72f5bc, 0x44663bc5, 0x5bfb7e34,
     0x8b432976, 0xcb23c6dc, 0xb6edfc68, 0xb8e4f163, 0xd731dcca, 0x42638510, 0x13972240, 0x84c61120,
     0x854a247d, 0xd2bb3df8, 0xaef93211, 0xc729a16d, 0x1d9e2f4b, 0xdcb230f3, 0x0d8652ec, 0x77c1e3d0,
     0x2bb3166c, 0xa970b999, 0x119448fa, 0x47e96422, 0xa8fc8cc4, 0xa0f03f1a, 0x567d2cd8, 0x223390ef,
     0x87494ec7, 0xd938d1c1, 0x8ccaa2fe, 0x98d40b36, 0xa6f581cf, 0xa57ade28, 0xdab78e26, 0x3fadbfa4,
     0x2c3a9de4, 0x5078920d, 0x6a5fcc9b, 0x547e4662, 0xf68d13c2, 0x90d8b8e8, 0x2e39f75e, 0x82c3aff5,
     0x9f5d80be, 0x69d0937c, 0x6fd52da9, 0xcf2512b3, 0xc8ac993b, 0x10187da7, 0xe89c636e, 0xdb3bbb7b,
     0xcd267809, 0x6e5918f4, 0xec9ab701, 0x834f9aa8, 0xe6956e65, 0xaaffe67e, 0x21bccf08, 0xef15e8e6,
     0xbae79bd9, 0x4a6f36ce, 0xea9f09d4, 0x29b07cd6, 0x31a4b2af, 0x2a3f2331, 0xc6a59430, 0x35a266c0,
     0x744ebc37, 0xfc82caa6, 0xe090d0b0, 0x33a7d815, 0xf104984a, 0x41ecdaf7, 0x7fcd500e, 0x1791f62f,
     0x764dd68d, 0x43efb04d, 0xccaa4d54, 0xe49604df, 0x9ed1b5e3, 0x4c6a881b, 0xc12c1fb8, 0x4665517f,
     0x9d5eea04, 0x018c355d, 0xfa877473, 0xfb0b412e, 0xb3671d5a, 0x92dbd252, 0xe9105633, 0x6dd64713,
     0x9ad7618c, 0x37a10c7a, 0x59f8148e, 0xeb133c89, 0xcea927ee, 0xb761c935, 0xe11ce5ed, 0x7a47b13c,
     0x9cd2df59, 0x55f2733f, 0x1814ce79, 0x73c737bf, 0x53f7cdea, 0x5ffdaa5b, 0xdf3d6f14, 0x7844db86,
     0xcaaff381, 0xb968c43e, 0x3824342c, 0xc2a3405f, 0x161dc372, 0xbce2250c, 0x283c498b, 0xff0d9541,
     0x39a80171, 0x080cb3de, 0xd8b4e49c, 0x6456c190, 0x7bcb8461, 0xd532b670, 0x486c5c74, 0xd0b85742]"

definition Td4s :: "u8 list" where
  "Td4s = [
     0x52, 0x09, 0x6a, 0xd5, 0x30, 0x36, 0xa5, 0x38, 0xbf, 0x40, 0xa3, 0x9e,
     0x81, 0xf3, 0xd7, 0xfb, 0x7c, 0xe3, 0x39, 0x82, 0x9b, 0x2f, 0xff, 0x87,
     0x34, 0x8e, 0x43, 0x44, 0xc4, 0xde, 0xe9, 0xcb, 0x54, 0x7b, 0x94, 0x32,
     0xa6, 0xc2, 0x23, 0x3d, 0xee, 0x4c, 0x95, 0x0b, 0x42, 0xfa, 0xc3, 0x4e,
     0x08, 0x2e, 0xa1, 0x66, 0x28, 0xd9, 0x24, 0xb2, 0x76, 0x5b, 0xa2, 0x49,
     0x6d, 0x8b, 0xd1, 0x25, 0x72, 0xf8, 0xf6, 0x64, 0x86, 0x68, 0x98, 0x16,
     0xd4, 0xa4, 0x5c, 0xcc, 0x5d, 0x65, 0xb6, 0x92, 0x6c, 0x70, 0x48, 0x50,
     0xfd, 0xed, 0xb9, 0xda, 0x5e, 0x15, 0x46, 0x57, 0xa7, 0x8d, 0x9d, 0x84,
     0x90, 0xd8, 0xab, 0x00, 0x8c, 0xbc, 0xd3, 0x0a, 0xf7, 0xe4, 0x58, 0x05,
     0xb8, 0xb3, 0x45, 0x06, 0xd0, 0x2c, 0x1e, 0x8f, 0xca, 0x3f, 0x0f, 0x02,
     0xc1, 0xaf, 0xbd, 0x03, 0x01, 0x13, 0x8a, 0x6b, 0x3a, 0x91, 0x11, 0x41,
     0x4f, 0x67, 0xdc, 0xea, 0x97, 0xf2, 0xcf, 0xce, 0xf0, 0xb4, 0xe6, 0x73,
     0x96, 0xac, 0x74, 0x22, 0xe7, 0xad, 0x35, 0x85, 0xe2, 0xf9, 0x37, 0xe8,
     0x1c, 0x75, 0xdf, 0x6e, 0x47, 0xf1, 0x1a, 0x71, 0x1d, 0x29, 0xc5, 0x89,
     0x6f, 0xb7, 0x62, 0x0e, 0xaa, 0x18, 0xbe, 0x1b, 0xfc, 0x56, 0x3e, 0x4b,
     0xc6, 0xd2, 0x79, 0x20, 0x9a, 0xdb, 0xc0, 0xfe, 0x78, 0xcd, 0x5a, 0xf4,
     0x1f, 0xdd, 0xa8, 0x33, 0x88, 0x07, 0xc7, 0x31, 0xb1, 0x12, 0x10, 0x59,
     0x27, 0x80, 0xec, 0x5f, 0x60, 0x51, 0x7f, 0xa9, 0x19, 0xb5, 0x4a, 0x0d,
     0x2d, 0xe5, 0x7a, 0x9f, 0x93, 0xc9, 0x9c, 0xef, 0xa0, 0xe0, 0x3b, 0x4d,
     0xae, 0x2a, 0xf5, 0xb0, 0xc8, 0xeb, 0xbb, 0x3c, 0x83, 0x53, 0x99, 0x61,
     0x17, 0x2b, 0x04, 0x7e, 0xba, 0x77, 0xd6, 0x26, 0xe1, 0x69, 0x14, 0x63,
     0x55, 0x21, 0x0c, 0x7d]"

definition rcons :: "u8 list" where
  "rcons = [0x01, 0x02, 0x04, 0x08, 0x10, 0x20, 0x40, 0x80, 0x1b, 0x36]"

section \<open>Table accesses\<close>

definition rotr :: "u32 \<Rightarrow> nat \<Rightarrow> u32" where
  "rotr val bits = drop_bit bits val OR push_bit (32 - bits) val"

definition RCON :: "nat \<Rightarrow> u32" where
  "RCON i = push_bit 24 (ucast (rcons ! i))"

abbreviation at :: "u32 list \<Rightarrow> u32 \<Rightarrow> u32" where
  "at T i \<equiv> T ! unat (i AND 0xff)"

definition TE0 :: "u32 \<Rightarrow> u32" where "TE0 i = at Te0 (drop_bit 24 i)"
definition TE1 :: "u32 \<Rightarrow> u32" where "TE1 i = rotr (at Te0 (drop_bit 16 i)) 8"
definition TE2 :: "u32 \<Rightarrow> u32" where "TE2 i = rotr (at Te0 (drop_bit 8 i)) 16"
definition TE3 :: "u32 \<Rightarrow> u32" where "TE3 i = rotr (at Te0 i) 24"
definition TE41 :: "u32 \<Rightarrow> u32" where "TE41 i = push_bit 8 (at Te0 (drop_bit 24 i)) AND 0xff000000"
definition TE42 :: "u32 \<Rightarrow> u32" where "TE42 i = at Te0 (drop_bit 16 i) AND 0x00ff0000"
definition TE43 :: "u32 \<Rightarrow> u32" where "TE43 i = at Te0 (drop_bit 8 i) AND 0x0000ff00"
definition TE44 :: "u32 \<Rightarrow> u32" where "TE44 i = drop_bit 8 (at Te0 i) AND 0x000000ff"
definition TE421 :: "u32 \<Rightarrow> u32" where "TE421 i = push_bit 8 (at Te0 (drop_bit 16 i)) AND 0xff000000"
definition TE432 :: "u32 \<Rightarrow> u32" where "TE432 i = at Te0 (drop_bit 8 i) AND 0x00ff0000"
definition TE443 :: "u32 \<Rightarrow> u32" where "TE443 i = at Te0 i AND 0x0000ff00"
definition TE414 :: "u32 \<Rightarrow> u32" where "TE414 i = drop_bit 8 (at Te0 (drop_bit 24 i)) AND 0x000000ff"
definition TE411 :: "u32 \<Rightarrow> u32" where "TE411 i = push_bit 8 (at Te0 (drop_bit 24 i)) AND 0xff000000"
definition TE422 :: "u32 \<Rightarrow> u32" where "TE422 i = at Te0 (drop_bit 16 i) AND 0x00ff0000"
definition TE433 :: "u32 \<Rightarrow> u32" where "TE433 i = at Te0 (drop_bit 8 i) AND 0x0000ff00"
definition TE444 :: "u32 \<Rightarrow> u32" where "TE444 i = drop_bit 8 (at Te0 i) AND 0x000000ff"
definition TE4 :: "u32 \<Rightarrow> u32" where "TE4 i = drop_bit 8 (Te0 ! unat i) AND 0x000000ff"

definition TD0 :: "u32 \<Rightarrow> u32" where "TD0 i = at Td0 (drop_bit 24 i)"
definition TD1 :: "u32 \<Rightarrow> u32" where "TD1 i = rotr (at Td0 (drop_bit 16 i)) 8"
definition TD2 :: "u32 \<Rightarrow> u32" where "TD2 i = rotr (at Td0 (drop_bit 8 i)) 16"
definition TD3 :: "u32 \<Rightarrow> u32" where "TD3 i = rotr (at Td0 i) 24"
definition TD41 :: "u32 \<Rightarrow> u32" where
  "TD41 i = push_bit 24 (ucast (Td4s ! unat (drop_bit 24 i AND 0xff)))"
definition TD42 :: "u32 \<Rightarrow> u32" where
  "TD42 i = push_bit 16 (ucast (Td4s ! unat (drop_bit 16 i AND 0xff)))"
definition TD43 :: "u32 \<Rightarrow> u32" where
  "TD43 i = push_bit 8 (ucast (Td4s ! unat (drop_bit 8 i AND 0xff)))"
definition TD44 :: "u32 \<Rightarrow> u32" where "TD44 i = ucast (Td4s ! unat (i AND 0xff))"
definition TD0u :: "u32 \<Rightarrow> u32" where "TD0u i = at Td0 i"
definition TD1u :: "u32 \<Rightarrow> u32" where "TD1u i = rotr (at Td0 i) 8"
definition TD2u :: "u32 \<Rightarrow> u32" where "TD2u i = rotr (at Td0 i) 16"
definition TD3u :: "u32 \<Rightarrow> u32" where "TD3u i = rotr (at Td0 i) 24"

definition GETU32 :: "bytes \<Rightarrow> u32" where
  "GETU32 pt = push_bit 24 (ucast (pt ! 0)) XOR push_bit 16 (ucast (pt ! 1)) XOR
     push_bit 8 (ucast (pt ! 2)) XOR ucast (pt ! 3)"

definition PUTU32 :: "u32 \<Rightarrow> bytes" where
  "PUTU32 st = [ucast (drop_bit 24 st), ucast (drop_bit 16 st), ucast (drop_bit 8 st), ucast st]"

section \<open>Key schedule\<close>

text \<open>
  One iteration of the loops of \<open>rijndaelKeySetupEnc\<close>, which appends to \<open>rk\<close>; \<open>p\<close> is how far the
  code has advanced the pointer. The last iterations for 192 and 256 bit keys return in the middle.
\<close>

definition key_round :: "u32 \<Rightarrow> nat \<Rightarrow> u32" where
  "key_round temp i = TE421 temp XOR TE432 temp XOR TE443 temp XOR TE414 temp XOR RCON i"

definition key_setup_128 :: "nat \<Rightarrow> u32 list \<Rightarrow> u32 list" where
  "key_setup_128 i rk = (let p = 4 * i;
     rk4 = rk ! p XOR key_round (rk ! (p + 3)) i;
     rk5 = rk ! (p + 1) XOR rk4; rk6 = rk ! (p + 2) XOR rk5; rk7 = rk ! (p + 3) XOR rk6
   in rk @ [rk4, rk5, rk6, rk7])"

definition key_setup_192 :: "nat \<Rightarrow> u32 list \<Rightarrow> u32 list" where
  "key_setup_192 i rk = (let p = 6 * i;
     rk6 = rk ! p XOR key_round (rk ! (p + 5)) i;
     rk7 = rk ! (p + 1) XOR rk6; rk8 = rk ! (p + 2) XOR rk7; rk9 = rk ! (p + 3) XOR rk8
   in if i = 7 then rk @ [rk6, rk7, rk8, rk9]
      else (let rk10 = rk ! (p + 4) XOR rk9; rk11 = rk ! (p + 5) XOR rk10
        in rk @ [rk6, rk7, rk8, rk9, rk10, rk11]))"

definition key_setup_256 :: "nat \<Rightarrow> u32 list \<Rightarrow> u32 list" where
  "key_setup_256 i rk = (let p = 8 * i;
     rk8 = rk ! p XOR key_round (rk ! (p + 7)) i;
     rk9 = rk ! (p + 1) XOR rk8; rk10 = rk ! (p + 2) XOR rk9; rk11 = rk ! (p + 3) XOR rk10
   in if i = 6 then rk @ [rk8, rk9, rk10, rk11]
      else (let temp = rk11;
          rk12 = rk ! (p + 4) XOR TE411 temp XOR TE422 temp XOR TE433 temp XOR TE444 temp;
          rk13 = rk ! (p + 5) XOR rk12; rk14 = rk ! (p + 6) XOR rk13; rk15 = rk ! (p + 7) XOR rk14
        in rk @ [rk8, rk9, rk10, rk11, rk12, rk13, rk14, rk15]))"

text \<open>The number of rounds and the round keys, or nothing where the code returns -1.\<close>

definition rijndaelKeySetupEnc :: "bytes \<Rightarrow> nat \<Rightarrow> (nat \<times> u32 list) option" where
  "rijndaelKeySetupEnc cipherKey keyBits =
    (let rk = map (\<lambda>i. GETU32 (drop (4 * i) cipherKey)) [0..<4] in
     if keyBits = 128 then Some (10, fold key_setup_128 [0..<10] rk)
     else (let rk = rk @ map (\<lambda>i. GETU32 (drop (4 * i) cipherKey)) [4..<6] in
     if keyBits = 192 then Some (12, fold key_setup_192 [0..<8] rk)
     else (let rk = rk @ map (\<lambda>i. GETU32 (drop (4 * i) cipherKey)) [6..<8] in
     if keyBits = 256 then Some (14, fold key_setup_256 [0..<7] rk)
     else None)))"

text \<open>The loop that inverts the order of the round keys, and the one that applies InvMixColumns.\<close>

definition swap_words :: "nat \<Rightarrow> nat \<Rightarrow> u32 list \<Rightarrow> u32 list" where
  "swap_words i j rk = (let temp = rk ! i; rk = rk[i := rk ! j] in rk[j := temp])"

function invert_order :: "nat \<Rightarrow> nat \<Rightarrow> u32 list \<Rightarrow> u32 list" where
  "invert_order i j rk =
     (if i < j then invert_order (i + 4) (j - 4) (swap_words (i + 3) (j + 3)
        (swap_words (i + 2) (j + 2) (swap_words (i + 1) (j + 1) (swap_words i j rk))))
      else rk)"
  by pat_completeness auto
termination by (relation "measure (\<lambda>(i, j, rk). j)") auto

declare invert_order.simps [simp del]

definition inv_mix_word :: "u32 \<Rightarrow> u32" where
  "inv_mix_word w = TD0u (TE4 (drop_bit 24 w)) XOR TD1u (TE4 (drop_bit 16 w AND 0xff)) XOR
     TD2u (TE4 (drop_bit 8 w AND 0xff)) XOR TD3u (TE4 (w AND 0xff))"

definition inv_mix_key :: "nat \<Rightarrow> u32 list \<Rightarrow> u32 list" where
  "inv_mix_key i rk = fold (\<lambda>j rk. rk[4 * i + j := inv_mix_word (rk ! (4 * i + j))]) [0..<4] rk"

definition rijndaelKeySetupDec :: "bytes \<Rightarrow> nat \<Rightarrow> (nat \<times> u32 list) option" where
  "rijndaelKeySetupDec cipherKey keyBits =
    (case rijndaelKeySetupEnc cipherKey keyBits of
       None \<Rightarrow> None
     | Some (Nr, rk) \<Rightarrow> Some (Nr, fold inv_mix_key [1..<Nr] (invert_order 0 (4 * Nr) rk)))"

section \<open>Rounds\<close>

type_synonym aes_state = "u32 \<times> u32 \<times> u32 \<times> u32"

definition enc_ROUND :: "u32 list \<Rightarrow> nat \<Rightarrow> aes_state \<Rightarrow> aes_state" where
  "enc_ROUND rk i = (\<lambda>(s0, s1, s2, s3).
    (TE0 s0 XOR TE1 s1 XOR TE2 s2 XOR TE3 s3 XOR rk ! (4 * i),
     TE0 s1 XOR TE1 s2 XOR TE2 s3 XOR TE3 s0 XOR rk ! (4 * i + 1),
     TE0 s2 XOR TE1 s3 XOR TE2 s0 XOR TE3 s1 XOR rk ! (4 * i + 2),
     TE0 s3 XOR TE1 s0 XOR TE2 s1 XOR TE3 s2 XOR rk ! (4 * i + 3)))"

definition dec_ROUND :: "u32 list \<Rightarrow> nat \<Rightarrow> aes_state \<Rightarrow> aes_state" where
  "dec_ROUND rk i = (\<lambda>(s0, s1, s2, s3).
    (TD0 s0 XOR TD1 s3 XOR TD2 s2 XOR TD3 s1 XOR rk ! (4 * i),
     TD0 s1 XOR TD1 s0 XOR TD2 s3 XOR TD3 s2 XOR rk ! (4 * i + 1),
     TD0 s2 XOR TD1 s1 XOR TD2 s0 XOR TD3 s3 XOR rk ! (4 * i + 2),
     TD0 s3 XOR TD1 s2 XOR TD2 s1 XOR TD3 s0 XOR rk ! (4 * i + 3)))"

text \<open>The loop over pairs of rounds; \<open>r\<close> is the C variable and \<open>rk\<close> the advanced pointer.\<close>

fun round_loop :: "(u32 list \<Rightarrow> nat \<Rightarrow> aes_state \<Rightarrow> aes_state) \<Rightarrow> nat \<Rightarrow> u32 list \<Rightarrow> aes_state \<Rightarrow>
    u32 list \<times> aes_state" where
  "round_loop ROUND r rk s =
    (let t = ROUND rk 1 s; rk = drop 8 rk in
     if r - 1 = 0 then (rk, t) else round_loop ROUND (r - 1) rk (ROUND rk 0 t))"

declare round_loop.simps [simp del]

definition load_state :: "bytes \<Rightarrow> u32 list \<Rightarrow> aes_state" where
  "load_state pt rk = (GETU32 pt XOR rk ! 0, GETU32 (drop 4 pt) XOR rk ! 1,
     GETU32 (drop 8 pt) XOR rk ! 2, GETU32 (drop 12 pt) XOR rk ! 3)"

definition enc_last :: "u32 list \<Rightarrow> aes_state \<Rightarrow> bytes" where
  "enc_last rk = (\<lambda>(t0, t1, t2, t3).
     PUTU32 (TE41 t0 XOR TE42 t1 XOR TE43 t2 XOR TE44 t3 XOR rk ! 0) @
     PUTU32 (TE41 t1 XOR TE42 t2 XOR TE43 t3 XOR TE44 t0 XOR rk ! 1) @
     PUTU32 (TE41 t2 XOR TE42 t3 XOR TE43 t0 XOR TE44 t1 XOR rk ! 2) @
     PUTU32 (TE41 t3 XOR TE42 t0 XOR TE43 t1 XOR TE44 t2 XOR rk ! 3))"

definition dec_last :: "u32 list \<Rightarrow> aes_state \<Rightarrow> bytes" where
  "dec_last rk = (\<lambda>(t0, t1, t2, t3).
     PUTU32 (TD41 t0 XOR TD42 t3 XOR TD43 t2 XOR TD44 t1 XOR rk ! 0) @
     PUTU32 (TD41 t1 XOR TD42 t0 XOR TD43 t3 XOR TD44 t2 XOR rk ! 1) @
     PUTU32 (TD41 t2 XOR TD42 t1 XOR TD43 t0 XOR TD44 t3 XOR rk ! 2) @
     PUTU32 (TD41 t3 XOR TD42 t2 XOR TD43 t1 XOR TD44 t0 XOR rk ! 3))"

definition rijndaelEncrypt :: "u32 list \<Rightarrow> nat \<Rightarrow> bytes \<Rightarrow> bytes" where
  "rijndaelEncrypt rk Nr pt =
    (let s = load_state pt rk; (rk, t) = round_loop enc_ROUND (Nr div 2) rk s in enc_last rk t)"

definition rijndaelDecrypt :: "u32 list \<Rightarrow> nat \<Rightarrow> bytes \<Rightarrow> bytes" where
  "rijndaelDecrypt rk Nr ct =
    (let s = load_state ct rk; (rk, t) = round_loop dec_ROUND (Nr div 2) rk s in dec_last rk t)"

text \<open>
  The contexts. The first argument says whether \<open>os_malloc\<close> succeeds; the number of rounds is the
  word of the context at \<open>AES_PRIV_NR_POS\<close>.
\<close>

type_synonym aes_ctx = "nat \<times> u32 list"

definition aes_encrypt_init :: "bool \<Rightarrow> bytes \<Rightarrow> nat \<Rightarrow> aes_ctx option" where
  "aes_encrypt_init mem key len = (if \<not> mem then None else rijndaelKeySetupEnc key (len * 8))"

definition aes_encrypt :: "aes_ctx \<Rightarrow> bytes \<Rightarrow> bytes" where
  "aes_encrypt = (\<lambda>(Nr, rk) plain. rijndaelEncrypt rk Nr plain)"

definition aes_decrypt_init :: "bool \<Rightarrow> bytes \<Rightarrow> nat \<Rightarrow> aes_ctx option" where
  "aes_decrypt_init mem key len = (if \<not> mem then None else rijndaelKeySetupDec key (len * 8))"

definition aes_decrypt :: "aes_ctx \<Rightarrow> bytes \<Rightarrow> bytes" where
  "aes_decrypt = (\<lambda>(Nr, rk) crypt. rijndaelDecrypt rk Nr crypt)"

section \<open>Octets of a word\<close>

text \<open>Octet \<open>k\<close> of a word, counted from the least significant one, and the word of four octets.\<close>

definition octet :: "nat \<Rightarrow> u32 \<Rightarrow> u8" where
  "octet k w = ucast (drop_bit (8 * k) w)"

lemma octet_xor [simp]: "octet k (u XOR v) = octet k u XOR octet k v"
  by (rule bit_word_eqI) (simp add: octet_def bit_simps)

lemma octet_join4 [simp]:
  "octet 3 (join4 a b c d) = a" "octet 2 (join4 a b c d) = b"
  "octet 1 (join4 a b c d) = c" "octet (Suc 0) (join4 a b c d) = c" "octet 0 (join4 a b c d) = d"
  by (rule bit_word_eqI; auto simp: octet_def join4_def bit_simps dest: bit_imp_le_length)+

lemma join4_octets [simp]: "join4 (octet 3 w) (octet 2 w) (octet 1 w) (octet 0 w) = w"
proof (rule bit_word_eqI)
  fix n assume n: "n < LENGTH(32)"
  consider "n < 8" | "8 \<le> n" "n < 16" | "16 \<le> n" "n < 24" | "24 \<le> n" by linarith
  then show "bit (join4 (octet 3 w) (octet 2 w) (octet 1 w) (octet 0 w)) n = bit w n"
    using n by cases (auto simp: join4_def octet_def bit_simps)
qed

lemma join4_octets_Suc [simp]: "join4 (octet 3 w) (octet 2 w) (octet (Suc 0) w) (octet 0 w) = w"
  using join4_octets [of w] by simp

lemma word_octets_eqI:
  "\<lbrakk>octet 3 u = octet 3 v; octet 2 u = octet 2 v; octet 1 u = octet 1 v; octet 0 u = octet 0 v\<rbrakk> \<Longrightarrow> u = v"
  by (metis join4_octets)

lemma join4_xor: "join4 a b c d XOR join4 e f g h = join4 (a XOR e) (b XOR f) (c XOR g) (d XOR h)"
  by (rule word_octets_eqI) simp_all

lemma join4_xor_left:
  "join4 a b c d XOR (join4 e f g h XOR w) = join4 (a XOR e) (b XOR f) (c XOR g) (d XOR h) XOR w"
  by (simp add: join4_xor flip: xor.assoc)

lemma index_octet:
  "unat (w AND 0xff) = unat (octet 0 w)" "unat (drop_bit 8 w AND 0xff) = unat (octet (Suc 0) w)"
  "unat (drop_bit 16 w AND 0xff) = unat (octet 2 w)" "unat (drop_bit 24 w AND 0xff) = unat (octet 3 w)"
  "unat (drop_bit 24 w) = unat (octet 3 w)" for w :: u32
proof -
  have m: "unat (v AND 0xff) = unat (ucast v :: u8)" for v :: u32
    by (simp add: ff_eq_mask unsigned_ucast_eq flip: take_bit_eq_mask)
       (simp add: unsigned_take_bit_eq)
  show "unat (w AND 0xff) = unat (octet 0 w)" "unat (drop_bit 8 w AND 0xff) = unat (octet (Suc 0) w)"
    "unat (drop_bit 16 w AND 0xff) = unat (octet 2 w)" "unat (drop_bit 24 w AND 0xff) = unat (octet 3 w)"
    by (simp_all add: m octet_def)
  have "drop_bit 24 w = drop_bit 24 w AND 0xff"
    by (rule bit_word_eqI) (auto simp: ff_eq_mask bit_simps dest: bit_imp_le_length)
  then show "unat (drop_bit 24 w) = unat (octet 3 w)"
    using m [of "drop_bit 24 w"] by (simp add: octet_def)
qed

lemma octet_drop_bit [simp]:
  "octet 0 (drop_bit 8 w) = octet (Suc 0) w" "octet 0 (drop_bit 16 w) = octet 2 w"
  "octet 0 (drop_bit 24 w) = octet 3 w"
  by (simp_all add: octet_def)

lemma octet_rotr [simp]:
  "octet 0 (rotr w 8) = octet (Suc 0) w" "octet (Suc 0) (rotr w 8) = octet 2 w"
  "octet 2 (rotr w 8) = octet 3 w" "octet 3 (rotr w 8) = octet 0 w"
  "octet 0 (rotr w 16) = octet 2 w" "octet (Suc 0) (rotr w 16) = octet 3 w"
  "octet 2 (rotr w 16) = octet 0 w" "octet 3 (rotr w 16) = octet (Suc 0) w"
  "octet 0 (rotr w 24) = octet 3 w" "octet (Suc 0) (rotr w 24) = octet 0 w"
  "octet 2 (rotr w 24) = octet (Suc 0) w" "octet 3 (rotr w 24) = octet 2 w"
  by (rule bit_word_eqI; auto simp: octet_def rotr_def bit_simps dest: bit_imp_le_length)+

lemma xor_cancel_left [simp]: "a XOR (a XOR b) = (b :: 'a::len word)"
  by (simp flip: xor.assoc)

lemma GETU32_join4: "GETU32 pt = join4 (pt ! 0) (pt ! 1) (pt ! 2) (pt ! 3)"
  by (rule bit_word_eqI) (auto simp: GETU32_def join4_def bit_simps dest: bit_imp_le_length)

lemma PUTU32_octets: "PUTU32 w = [octet 3 w, octet 2 w, octet 1 w, octet 0 w]"
  by (simp add: PUTU32_def octet_def)
section \<open>The tables\<close>

text \<open>
  Multiplication by \<open>02\<close> in GF(2^8), the S-box the tables hold, and the columns of MixColumns and
  of its inverse for one octet.
\<close>

definition xtime :: "u8 \<Rightarrow> u8" where
  "xtime b = push_bit 1 b XOR (if bit b 7 then 0x1b else 0)"

definition Sbox :: "u8 list" where
  "Sbox = map (\<lambda>t. ucast (drop_bit 8 t)) Te0"

abbreviation sub :: "u8 \<Rightarrow> u8" where "sub x \<equiv> Sbox ! unat x"

definition mix_col :: "u8 \<Rightarrow> u32" where
  "mix_col s = join4 (xtime s) s s (s XOR xtime s)"

definition inv_mix_col :: "u8 \<Rightarrow> u32" where
  "inv_mix_col s = (let s2 = xtime s; s4 = xtime s2; s8 = xtime s4 in
     join4 (s2 XOR s4 XOR s8) (s XOR s8) (s XOR s4 XOR s8) (s XOR s2 XOR s8))"

definition all_octets :: "u8 list" where
  "all_octets = map word_of_nat [0..<256]"

lemma Te0_table: "Te0 = map mix_col Sbox"
  unfolding Sbox_def Te0_def list.map by (simp add: mix_col_def join4_def xtime_def)

lemma Td0_table: "Td0 = map inv_mix_col Td4s"
  unfolding Td0_def Td4s_def list.map by (simp add: inv_mix_col_def Let_def join4_def xtime_def)

lemma Td4s_table: "map (\<lambda>s. Td4s ! unat s) Sbox = all_octets"
  by code_simp

lemma length_tables [simp]: "length Sbox = 256" "length Te0 = 256" "length Td4s = 256" "length Td0 = 256"
  by (simp_all add: Sbox_def Te0_def Td0_def Td4s_def)

lemma unat_octet_less [simp]: "unat (x :: u8) < 256"
proof -
  have "unat x < 2 ^ LENGTH(8)" by (rule unsigned_less)
  then show ?thesis by simp
qed

lemma nth_all_octets [simp]: "all_octets ! unat x = x"
  by (simp add: all_octets_def)

lemma Te0_nth: "Te0 ! unat x = mix_col (sub x)"
  by (simp add: Te0_table)

lemma Td0_nth: "Td0 ! unat (x :: u8) = inv_mix_col (Td4s ! unat x)"
proof -
  have "map inv_mix_col Td4s ! unat x = inv_mix_col (Td4s ! unat x)" by (rule nth_map) simp
  then show ?thesis by (simp add: Td0_table)
qed

lemma Td4s_sub [simp]: "Td4s ! unat (sub x) = x"
proof -
  have "map (\<lambda>s. Td4s ! unat s) Sbox ! unat x = x" by (simp only: Td4s_table nth_all_octets)
  then show ?thesis by simp
qed

lemma xtime_xor: "xtime (a XOR b) = xtime a XOR xtime b"
proof -
  have "push_bit 1 (a XOR b) = push_bit 1 a XOR push_bit 1 b" by (rule push_bit_xor)
  then show ?thesis by (simp add: xtime_def bit_xor_iff xor.assoc xor.left_commute)
qed

lemma inv_mix_col_xor: "inv_mix_col (a XOR b) = inv_mix_col a XOR inv_mix_col b"
  by (simp add: inv_mix_col_def Let_def xtime_xor join4_xor ac_simps)

lemma rotr_xor: "rotr (u XOR v) n = rotr u n XOR rotr v n" if "0 < n" "n < 32"
  using that by (intro bit_word_eqI) (auto simp: rotr_def bit_simps dest: bit_imp_le_length)

lemma rotr_join4: "rotr (join4 a b c d) 8 = join4 d a b c" "rotr (join4 a b c d) 16 = join4 c d a b"
  "rotr (join4 a b c d) 24 = join4 b c d a"
  by (rule word_octets_eqI; simp)+

lemma inv_mix_mix: "inv_mix_col (xtime s) XOR rotr (inv_mix_col s) 8 XOR rotr (inv_mix_col s) 16 XOR
     rotr (inv_mix_col (s XOR xtime s)) 24 = join4 s 0 0 0"
proof -
  define a where "a = xtime s"
  define b where "b = xtime a"
  define c where "c = xtime b"
  define d where "d = xtime c"
  note h = a_def [symmetric] b_def [symmetric] c_def [symmetric] d_def [symmetric]
  show ?thesis
    by (simp add: inv_mix_col_def Let_def h xtime_xor rotr_join4 join4_xor)
      (simp add: xor.assoc xor.commute xor.left_commute)
qed

text \<open>The S-box values in the four positions of a word.\<close>

lemma mix_col_masks:
  "push_bit 8 (mix_col s) AND 0xff000000 = join4 s 0 0 0" "mix_col s AND 0x00ff0000 = join4 0 s 0 0"
  "mix_col s AND 0x0000ff00 = join4 0 0 s 0" "drop_bit 8 (mix_col s) AND 0x000000ff = join4 0 0 0 s"
proof -
  have k: "(0xff000000 :: u32) = push_bit 24 (mask 8)" "(0x00ff0000 :: u32) = push_bit 16 (mask 8)"
    "(0x0000ff00 :: u32) = push_bit 8 (mask 8)" "(0x000000ff :: u32) = mask 8"
    by (simp_all add: mask_eq_exp_minus_1 push_bit_eq_mult)
  show "push_bit 8 (mix_col s) AND 0xff000000 = join4 s 0 0 0" "mix_col s AND 0x00ff0000 = join4 0 s 0 0"
    "mix_col s AND 0x0000ff00 = join4 0 0 s 0" "drop_bit 8 (mix_col s) AND 0x000000ff = join4 0 0 0 s"
    unfolding k mix_col_def
    by (rule bit_word_eqI; auto simp: join4_def bit_simps dest: bit_imp_le_length)+
qed

lemma TE_octets:
  "TE41 w = join4 (sub (octet 3 w)) 0 0 0" "TE42 w = join4 0 (sub (octet 2 w)) 0 0"
  "TE43 w = join4 0 0 (sub (octet 1 w)) 0" "TE44 w = join4 0 0 0 (sub (octet 0 w))"
  unfolding TE41_def TE42_def TE43_def TE44_def index_octet One_nat_def Te0_nth mix_col_masks by simp_all
section \<open>Decryption inverts encryption\<close>

text \<open>Round key \<open>i\<close> and operations on the four words of the state.\<close>

definition keys :: "u32 list \<Rightarrow> nat \<Rightarrow> aes_state" where
  "keys rk i = (rk ! (4 * i), rk ! (4 * i + 1), rk ! (4 * i + 2), rk ! (4 * i + 3))"

lemma keys_0: "keys rk 0 = (rk ! 0, rk ! Suc 0, rk ! 2, rk ! 3)"
  by (simp add: keys_def numeral_2_eq_2)

definition map4 :: "(u32 \<Rightarrow> u32) \<Rightarrow> aes_state \<Rightarrow> aes_state" where
  "map4 f = (\<lambda>(a, b, c, d). (f a, f b, f c, f d))"

definition xor4 :: "aes_state \<Rightarrow> aes_state \<Rightarrow> aes_state" where
  "xor4 = (\<lambda>(a, b, c, d) (e, f, g, h). (a XOR e, b XOR f, c XOR g, d XOR h))"

text \<open>SubBytes and ShiftRows.\<close>

definition sub_shift :: "aes_state \<Rightarrow> aes_state" where
  "sub_shift = (\<lambda>(s0, s1, s2, s3).
    (join4 (sub (octet 3 s0)) (sub (octet 2 s1)) (sub (octet 1 s2)) (sub (octet 0 s3)),
     join4 (sub (octet 3 s1)) (sub (octet 2 s2)) (sub (octet 1 s3)) (sub (octet 0 s0)),
     join4 (sub (octet 3 s2)) (sub (octet 2 s3)) (sub (octet 1 s0)) (sub (octet 0 s1)),
     join4 (sub (octet 3 s3)) (sub (octet 2 s0)) (sub (octet 1 s1)) (sub (octet 0 s2))))"

definition state_bytes :: "aes_state \<Rightarrow> bytes" where
  "state_bytes = (\<lambda>(a, b, c, d). PUTU32 a @ PUTU32 b @ PUTU32 c @ PUTU32 d)"

lemma xor4_cancel [simp]: "xor4 (xor4 s k) k = s"
  by (simp add: xor4_def xor.assoc split: prod.splits)

lemma map4_xor4: "(\<And>a b. f (a XOR b) = f a XOR f b) \<Longrightarrow> map4 f (xor4 s k) = xor4 (map4 f s) (map4 f k)"
  by (simp add: xor4_def map4_def split: prod.splits)

lemma TE4_sub: "TE4 (drop_bit 24 w) = ucast (sub (octet 3 w))" "TE4 (drop_bit 16 w AND 0xff) = ucast (sub (octet 2 w))"
  "TE4 (drop_bit 8 w AND 0xff) = ucast (sub (octet (Suc 0) w))" "TE4 (w AND 0xff) = ucast (sub (octet 0 w))"
proof -
  have "join4 0 0 0 s = ucast s" for s by (simp add: join4_def)
  then show "TE4 (drop_bit 24 w) = ucast (sub (octet 3 w))" "TE4 (drop_bit 16 w AND 0xff) = ucast (sub (octet 2 w))"
    "TE4 (drop_bit 8 w AND 0xff) = ucast (sub (octet (Suc 0) w))" "TE4 (w AND 0xff) = ucast (sub (octet 0 w))"
    unfolding TE4_def index_octet Te0_nth mix_col_masks by simp_all
qed

lemma octet_ucast [simp]: "octet 0 (ucast s) = s"
  by (rule bit_word_eqI) (simp add: octet_def bit_simps)

lemma inv_mix_word_cols:
  "inv_mix_word w = inv_mix_col (octet 3 w) XOR rotr (inv_mix_col (octet 2 w)) 8 XOR
     rotr (inv_mix_col (octet (Suc 0) w)) 16 XOR rotr (inv_mix_col (octet 0 w)) 24"
  unfolding inv_mix_word_def TE4_sub TD0u_def TD1u_def TD2u_def TD3u_def index_octet octet_ucast
    octet_drop_bit Td0_nth Td4s_sub by (rule refl)

lemma inv_mix_word_xor: "inv_mix_word (u XOR v) = inv_mix_word u XOR inv_mix_word v"
  by (simp add: inv_mix_word_cols inv_mix_col_xor rotr_xor)
     (simp only: xor.assoc xor.commute xor.left_commute)

lemma inv_mix_word_rotr: "inv_mix_word (rotr w 8) = rotr (inv_mix_word w) 8" 
  "inv_mix_word (rotr w 16) = rotr (inv_mix_word w) 16" "inv_mix_word (rotr w 24) = rotr (inv_mix_word w) 24"
  by (rule word_octets_eqI; simp add: inv_mix_word_cols xor.assoc xor.commute xor.left_commute)+

lemma inv_mix_word_mix_col: "inv_mix_word (mix_col s) = join4 s 0 0 0"
  by (simp add: inv_mix_word_cols mix_col_def inv_mix_mix)

text \<open>A full round is MixColumns of SubBytes and ShiftRows, plus the round key.\<close>

lemma enc_ROUND_inv_mix:
  "map4 inv_mix_word (enc_ROUND rk i s) = xor4 (sub_shift s) (map4 inv_mix_word (keys rk i))"
proof -
  have "inv_mix_word (TE0 a XOR TE1 b XOR TE2 c XOR TE3 d XOR k) =
     join4 (sub (octet 3 a)) (sub (octet 2 b)) (sub (octet 1 c)) (sub (octet 0 d)) XOR inv_mix_word k"
    for a b c d k
    unfolding TE0_def TE1_def TE2_def TE3_def index_octet Te0_nth inv_mix_word_xor inv_mix_word_rotr
      inv_mix_word_mix_col rotr_join4 by (simp add: join4_xor_left)
  then show ?thesis
    by (cases s) (simp add: enc_ROUND_def map4_def xor4_def sub_shift_def keys_def)
qed

lemma dec_ROUND_sub_shift:
  "dec_ROUND rk i (sub_shift s) = xor4 (map4 inv_mix_word s) (keys rk i)"
  unfolding dec_ROUND_def TD0_def TD1_def TD2_def TD3_def index_octet Td0_nth
  by (cases s) (simp add: map4_def xor4_def sub_shift_def keys_def inv_mix_word_cols xor.assoc)

lemma enc_last_sub_shift: "enc_last rk s = state_bytes (xor4 (sub_shift s) (keys rk 0))"
  by (cases s) (simp add: enc_last_def state_bytes_def xor4_def sub_shift_def keys_0 TE_octets join4_xor_left)

lemma TD4_octets: "TD41 w = join4 (Td4s ! unat (octet 3 w)) 0 0 0" "TD42 w = join4 0 (Td4s ! unat (octet 2 w)) 0 0"
  "TD43 w = join4 0 0 (Td4s ! unat (octet 1 w)) 0" "TD44 w = join4 0 0 0 (Td4s ! unat (octet 0 w))"
  unfolding TD41_def TD42_def TD43_def TD44_def index_octet by (simp_all add: join4_def)

lemma dec_last_sub_shift: "dec_last rk (sub_shift s) = state_bytes (xor4 s (keys rk 0))"
  by (cases s) (simp add: dec_last_def state_bytes_def xor4_def sub_shift_def keys_0 TD4_octets join4_xor_left)

lemma load_state_bytes: "load_state (state_bytes s) rk = xor4 s (keys rk 0)"
  by (cases s) (simp add: load_state_def state_bytes_def xor4_def keys_0 GETU32_join4 PUTU32_octets)

lemma state_bytes_load:
  assumes "length pt = 16" shows "state_bytes (xor4 (load_state pt rk) (keys rk 0)) = pt"
proof -
  have "\<exists>a b c d e f g h i j k l m n p q. pt = [a, b, c, d, e, f, g, h, i, j, k, l, m, n, p, q]"
    using assms by (auto simp: length_Suc_conv numeral_eq_Suc)
  then show ?thesis
    by (auto simp: load_state_def state_bytes_def xor4_def keys_0 GETU32_join4 PUTU32_octets xor.assoc)
qed
lemma keys_drop: "8 \<le> length rk \<Longrightarrow> keys (drop 8 rk) i = keys rk (i + 2)"
  by (simp add: keys_def algebra_simps)

lemma ROUND_keys:
  "keys rk i = keys rk' j \<Longrightarrow> enc_ROUND rk i = enc_ROUND rk' j"
  "keys rk i = keys rk' j \<Longrightarrow> dec_ROUND rk i = dec_ROUND rk' j"
  by (simp_all add: keys_def enc_ROUND_def dec_ROUND_def fun_eq_iff)

text \<open>The loop performs the rounds \<open>1 .. 2r - 1\<close> and leaves the pointer at round key \<open>2r\<close>.\<close>

lemma round_loop_rounds:
  assumes ROUND: "\<And>rk i rk' j. keys rk i = keys rk' j \<Longrightarrow> ROUND rk i = ROUND rk' j"
  shows "\<lbrakk>0 < r; 8 * r \<le> length rk\<rbrakk> \<Longrightarrow>
    round_loop ROUND r rk s = (drop (8 * r) rk, fold (ROUND rk) [1..<2 * r] s)"
proof (induction r arbitrary: rk s)
  case (Suc r)
  have d: "ROUND (drop 8 rk) i = ROUND rk (i + 2)" for i
    using Suc.prems by (intro ROUND keys_drop) simp
  show ?case
  proof (cases "r = 0")
    case True
    then show ?thesis using Suc.prems by (simp add: round_loop.simps [of ROUND "Suc 0"] Let_def numeral_2_eq_2)
  next
    case False
    have f: "fold (ROUND (drop 8 rk)) [1..<2 * r] t = fold (ROUND rk) [3..<2 * Suc r] t" for t
    proof -
      have "[3..<2 * Suc r] = map (\<lambda>i. i + 2) [1..<2 * r]"
        by (rule nth_equalityI) (auto simp del: upt_Suc simp: nth_upt)
      moreover have "ROUND (drop 8 rk) = (\<lambda>i. ROUND rk (i + 2))" by (rule ext) (rule d)
      ultimately show ?thesis by (simp only: fold_map comp_def)
    qed
    have u: "[1..<2 * Suc r] = 1 # 2 # [3..<2 * Suc r]"
      using False by (simp add: upt_rec numeral_eq_Suc)
    have "round_loop ROUND (Suc r) rk s =
        round_loop ROUND r (drop 8 rk) (ROUND rk 2 (ROUND rk 1 s))"
      using False d [of 0] by (subst round_loop.simps) (simp add: Let_def numeral_2_eq_2)
    also have "\<dots> = (drop (8 * r) (drop 8 rk), fold (ROUND (drop 8 rk)) [1..<2 * r] (ROUND rk 2 (ROUND rk 1 s)))"
      using False Suc.prems by (intro Suc.IH) auto
    finally show ?thesis unfolding f u by (simp add: algebra_simps)
  qed
qed simp

lemma enc_loop: "\<lbrakk>0 < r; 8 * r \<le> length rk\<rbrakk> \<Longrightarrow>
    round_loop enc_ROUND r rk s = (drop (8 * r) rk, fold (enc_ROUND rk) [1..<2 * r] s)"
  by (rule round_loop_rounds) (rule ROUND_keys)

lemma dec_loop: "\<lbrakk>0 < r; 8 * r \<le> length rk\<rbrakk> \<Longrightarrow>
    round_loop dec_ROUND r rk s = (drop (8 * r) rk, fold (dec_ROUND rk) [1..<2 * r] s)"
  by (rule round_loop_rounds) (rule ROUND_keys)

text \<open>The decryption schedule: the round keys reversed, with InvMixColumns on all but the outer two.\<close>

definition inverse_schedule :: "nat \<Rightarrow> u32 list \<Rightarrow> u32 list \<Rightarrow> bool" where
  "inverse_schedule Nr rk rk' \<longleftrightarrow> length rk = 4 * (Nr + 1) \<and> length rk' = 4 * (Nr + 1) \<and>
     keys rk' 0 = keys rk Nr \<and> keys rk' Nr = keys rk 0 \<and>
     (\<forall>i. 0 < i \<and> i < Nr \<longrightarrow> keys rk' i = map4 inv_mix_word (keys rk (Nr - i)))"

lemma dec_rounds_undo:
  assumes "inverse_schedule Nr rk rk'" "n < Nr"
  shows "fold (dec_ROUND rk') [1..<Suc n] (sub_shift (fold (enc_ROUND rk) [1..<Nr] s)) =
    sub_shift (fold (enc_ROUND rk) [1..<Nr - n] s)"
  using assms(2)
proof (induction n)
  case (Suc n)
  let ?e = "\<lambda>n. fold (enc_ROUND rk) [1..<Nr - n] s"
  have "[1..<Nr - n] = [1..<Nr - Suc n] @ [Nr - Suc n]"
    using Suc.prems by (metis Suc_diff_Suc Suc_lessD less_imp_Suc_add upt_Suc_append zero_less_diff
        One_nat_def Suc_leI)
  then have e: "?e n = enc_ROUND rk (Nr - Suc n) (?e (Suc n))" by simp
  have "fold (dec_ROUND rk') [1..<Suc (Suc n)] (sub_shift (fold (enc_ROUND rk) [1..<Nr] s)) =
      dec_ROUND rk' (Suc n) (sub_shift (?e n))"
    using Suc by simp
  also have "\<dots> = xor4 (map4 inv_mix_word (?e n)) (keys rk' (Suc n))"
    by (rule dec_ROUND_sub_shift)
  also have "\<dots> = sub_shift (?e (Suc n))"
    using assms(1) Suc.prems by (simp only: e enc_ROUND_inv_mix) (simp add: inverse_schedule_def)
  finally show ?case .
qed simp

lemma decrypt_encrypt_schedule:
  assumes inv: "inverse_schedule Nr rk rk'" and "even Nr" "0 < Nr" and pt: "length pt = 16"
  shows "rijndaelDecrypt rk' Nr (rijndaelEncrypt rk Nr pt) = pt"
proof -
  obtain r where r: "Nr = 2 * r" "0 < r" using assms by (auto elim: evenE)
  have l: "8 * r \<le> length rk" "8 * r \<le> length rk'" using inv r by (auto simp: inverse_schedule_def)
  have k: "keys (drop (8 * r) x) 0 = keys x Nr" if "8 * r \<le> length x" for x
    using that r by (simp add: keys_def)
  let ?s = "load_state pt rk"
  let ?e = "fold (enc_ROUND rk) [1..<Nr] ?s"
  have enc: "rijndaelEncrypt rk Nr pt = state_bytes (xor4 (sub_shift ?e) (keys rk Nr))"
    using enc_loop [OF r(2) l(1)] r by (simp add: rijndaelEncrypt_def enc_last_sub_shift k l)
  have "load_state (rijndaelEncrypt rk Nr pt) rk' = sub_shift ?e"
    using inv by (simp add: enc load_state_bytes inverse_schedule_def)
  moreover have "fold (dec_ROUND rk') [1..<Nr] (sub_shift ?e) = sub_shift ?s"
    using dec_rounds_undo [OF inv, of "Nr - 1" ?s] \<open>0 < Nr\<close> by simp
  ultimately have "rijndaelDecrypt rk' Nr (rijndaelEncrypt rk Nr pt) = state_bytes (xor4 ?s (keys rk' Nr))"
    using dec_loop [OF r(2) l(2)] r
    by (simp add: rijndaelDecrypt_def dec_last_sub_shift k l)
  then show ?thesis using inv pt by (simp add: inverse_schedule_def state_bytes_load)
qed

text \<open>The key setup for decryption yields the inverse schedule.\<close>

lemma keys_swap:
  assumes "i \<noteq> j" "4 * i + 3 < length rk" "4 * j + 3 < length rk"
  shows "keys (swap_words (4 * i + 3) (4 * j + 3) (swap_words (4 * i + 2) (4 * j + 2)
     (swap_words (4 * i + 1) (4 * j + 1) (swap_words (4 * i) (4 * j) rk)))) c =
     (if c = i then keys rk j else if c = j then keys rk i else keys rk c)"
  using assms by (simp add: keys_def swap_words_def nth_list_update)

lemma length_swap_words [simp]: "length (swap_words i j rk) = length rk"
  by (simp add: swap_words_def)

lemma invert_order_keys:
  "\<lbrakk>4 * j + 3 < length rk; i \<le> Suc j\<rbrakk> \<Longrightarrow>
     length (invert_order (4 * i) (4 * j) rk) = length rk \<and>
     keys (invert_order (4 * i) (4 * j) rk) c = (if i \<le> c \<and> c \<le> j then keys rk (i + j - c) else keys rk c)"
proof (induction "j - i" arbitrary: i j rk rule: less_induct)
  case less
  show ?case
  proof (cases "i < j")
    case True
    let ?rk = "swap_words (4 * i + 3) (4 * j + 3) (swap_words (4 * i + 2) (4 * j + 2)
     (swap_words (4 * i + 1) (4 * j + 1) (swap_words (4 * i) (4 * j) rk)))"
    have e: "4 * i + 4 = 4 * Suc i" "4 * j - 4 = 4 * (j - 1)" by auto
    have "invert_order (4 * i) (4 * j) rk = invert_order (4 * Suc i) (4 * (j - 1)) ?rk"
      using True by (subst invert_order.simps) (simp add: e del: mult_Suc_right)
    moreover have "length (invert_order (4 * Suc i) (4 * (j - 1)) ?rk) = length ?rk \<and>
       keys (invert_order (4 * Suc i) (4 * (j - 1)) ?rk) c =
       (if Suc i \<le> c \<and> c \<le> j - 1 then keys ?rk (Suc i + (j - 1) - c) else keys ?rk c)"
      using True less.prems by (intro less.hyps) auto
    ultimately show ?thesis
      using True less.prems keys_swap [of i j rk] by (auto simp: le_Suc_eq)
  next
    case False
    then show ?thesis using less.prems by (subst (1 2) invert_order.simps) (auto simp: le_Suc_eq)
  qed
qed

lemma keys_update:
  "4 * i + 3 < length rk \<Longrightarrow> keys (inv_mix_key i rk) c =
     (if c = i then map4 inv_mix_word (keys rk i) else keys rk c)"
  by (simp add: inv_mix_key_def keys_def map4_def upt_rec nth_list_update numeral_3_eq_3)

lemma length_inv_mix_key [simp]: "length (inv_mix_key i rk) = length rk"
  by (simp add: inv_mix_key_def upt_rec)

lemma fold_inv_mix_key:
  "4 * n \<le> length rk \<Longrightarrow> length (fold inv_mix_key [1..<n] rk) = length rk \<and>
     keys (fold inv_mix_key [1..<n] rk) c =
       (if 1 \<le> c \<and> c < n then map4 inv_mix_word (keys rk c) else keys rk c)"
proof (induction n)
  case (Suc n)
  then show ?case
    by (cases "n = 0") (auto simp: keys_update less_Suc_eq)
qed simp

lemma length_key_setup:
  "length (fold key_setup_128 [0..<n] rk) = length rk + 4 * n"
  "n \<le> 7 \<Longrightarrow> length (fold key_setup_192 [0..<n] rk) = length rk + 6 * n"
  "n \<le> 6 \<Longrightarrow> length (fold key_setup_256 [0..<n] rk) = length rk + 8 * n"
  by (induction n) (simp_all add: key_setup_128_def key_setup_192_def key_setup_256_def Let_def)

lemma rijndaelKeySetupEnc_rounds:
  assumes "rijndaelKeySetupEnc key bits = Some (Nr, rk)"
  shows "even Nr \<and> 0 < Nr \<and> length rk = 4 * (Nr + 1)"
proof -
  have u: "[0..<8] = [0..<7] @ [7 :: nat]" "[0..<7] = [0..<6] @ [6 :: nat]" by (simp_all add: upt_rec)
  have "length (fold key_setup_192 [0..<8] x) = length x + 46" for x
    using length_key_setup(2) [of 7 x] unfolding u(1) by (simp add: key_setup_192_def [of 7] Let_def)
  moreover have "length (fold key_setup_256 [0..<7] x) = length x + 52" for x
    using length_key_setup(3) [of 6 x] unfolding u(2) by (simp add: key_setup_256_def [of 6] Let_def)
  ultimately show ?thesis
    using assms by (auto simp: rijndaelKeySetupEnc_def Let_def length_key_setup split: if_splits)
qed

lemma rijndaelKeySetupDec_inverse:
  assumes enc: "rijndaelKeySetupEnc key bits = Some (Nr, rk)"
  shows "\<exists>rk'. rijndaelKeySetupDec key bits = Some (Nr, rk') \<and> inverse_schedule Nr rk rk'"
proof -
  note r = rijndaelKeySetupEnc_rounds [OF enc]
  let ?i = "invert_order 0 (4 * Nr) rk"
  have i: "length ?i = length rk" "keys ?i c = (if c \<le> Nr then keys rk (Nr - c) else keys rk c)" for c
    using invert_order_keys [of Nr rk 0] r by auto
  have "length (fold inv_mix_key [1..<Nr] ?i) = length rk"
    "keys (fold inv_mix_key [1..<Nr] ?i) c = (if 1 \<le> c \<and> c < Nr then map4 inv_mix_word (keys ?i c) else keys ?i c)" for c
    using fold_inv_mix_key [of Nr ?i] i(1) r by auto
  then show ?thesis
    using enc r by (simp add: rijndaelKeySetupDec_def inverse_schedule_def i)
qed

text \<open>
  C36: \<open>aes_decrypt\<close> inverts \<open>aes_encrypt\<close> on every block, for the three key sizes the key setup accepts.
\<close>

theorem aes_decrypt_encrypt:
  assumes "aes_encrypt_init True key len = Some ctx" "length plain = 16"
  shows "\<exists>ctx'. aes_decrypt_init True key len = Some ctx' \<and>
    aes_decrypt ctx' (aes_encrypt ctx plain) = plain \<and> length (aes_encrypt ctx plain) = 16"
proof -
  obtain Nr rk where c: "ctx = (Nr, rk)" by (cases ctx)
  then have e: "rijndaelKeySetupEnc key (len * 8) = Some (Nr, rk)"
    using assms(1) by (simp add: aes_encrypt_init_def)
  obtain rk' where d: "rijndaelKeySetupDec key (len * 8) = Some (Nr, rk')" "inverse_schedule Nr rk rk'"
    using rijndaelKeySetupDec_inverse [OF e] by auto
  have "length (rijndaelEncrypt rk Nr plain) = 16"
    by (simp add: rijndaelEncrypt_def enc_last_def PUTU32_octets split: prod.splits)
  then show ?thesis
    using decrypt_encrypt_schedule [OF d(2) _ _ assms(2)] rijndaelKeySetupEnc_rounds [OF e] d(1)
    by (simp add: c aes_decrypt_init_def aes_decrypt_def aes_encrypt_def)
qed

theorem aes_decrypt_encrypt_witness:
  "\<exists>ctx'. aes_decrypt_init True (map word_of_nat [0..<24]) 24 = Some ctx' \<and>
    aes_decrypt ctx' (aes_encrypt (the (aes_encrypt_init True (map word_of_nat [0..<24]) 24)) (replicate 16 7)) =
      replicate 16 7"
proof -
  have "aes_encrypt_init True (map word_of_nat [0..<24]) 24 =
      Some (the (aes_encrypt_init True (map word_of_nat [0..<24]) 24))"
    by (simp add: aes_encrypt_init_def rijndaelKeySetupEnc_def Let_def)
  from aes_decrypt_encrypt [OF this, of "replicate 16 7"] show ?thesis by auto
qed
section \<open>The cipher of the standard\<close>

text \<open>
  The reference: SubBytes, ShiftRows, MixColumns and AddRoundKey on the sixteen octets of the
  state in column order, and the key expansion one word at a time, as FIPS 197 states them.
\<close>

definition sub_bytes :: "bytes \<Rightarrow> bytes" where
  "sub_bytes st = map sub st"

definition shift_rows :: "bytes \<Rightarrow> bytes" where
  "shift_rows st = map (\<lambda>i. st ! (4 * ((i div 4 + i mod 4) mod 4) + i mod 4)) [0..<16]"

fun mix_column :: "bytes \<Rightarrow> bytes" where
  "mix_column (a # b # c # d # st) =
     (xtime a XOR (b XOR xtime b) XOR c XOR d) # (a XOR xtime b XOR (c XOR xtime c) XOR d) #
     (a XOR b XOR xtime c XOR (d XOR xtime d)) # ((a XOR xtime a) XOR b XOR c XOR xtime d) #
     mix_column st"
| "mix_column st = []"

definition add_round_key :: "u32 list \<Rightarrow> nat \<Rightarrow> bytes \<Rightarrow> bytes" where
  "add_round_key w i st = xor_bytes st (concat (map PUTU32 (take 4 (drop (4 * i) w))))"

definition fips_cipher :: "nat \<Rightarrow> u32 list \<Rightarrow> bytes \<Rightarrow> bytes" where
  "fips_cipher Nr w inp =
     add_round_key w Nr (shift_rows (sub_bytes
       (fold (\<lambda>i st. add_round_key w i (mix_column (shift_rows (sub_bytes st)))) [1..<Nr]
         (add_round_key w 0 inp))))"

definition sub_word :: "u32 \<Rightarrow> u32" where
  "sub_word w = join4 (sub (octet 3 w)) (sub (octet 2 w)) (sub (octet 1 w)) (sub (octet 0 w))"

definition rot_word :: "u32 \<Rightarrow> u32" where
  "rot_word w = rotr w 24"

definition next_word :: "nat \<Rightarrow> u32 list \<Rightarrow> u32" where
  "next_word Nk w =
    (let i = length w; temp = w ! (i - 1);
       temp = (if i mod Nk = 0 then sub_word (rot_word temp) XOR RCON (i div Nk - 1)
         else if Nk > 6 \<and> i mod Nk = 4 then sub_word temp else temp)
     in w ! (i - Nk) XOR temp)"

primrec expand :: "nat \<Rightarrow> nat \<Rightarrow> u32 list \<Rightarrow> u32 list" where
  "expand Nk 0 w = w"
| "expand Nk (Suc n) w = expand Nk n (w @ [next_word Nk w])"

definition fips_key_expansion :: "nat \<Rightarrow> nat \<Rightarrow> bytes \<Rightarrow> u32 list" where
  "fips_key_expansion Nk Nr key =
     expand Nk (4 * (Nr + 1) - Nk) (map (\<lambda>i. GETU32 (drop (4 * i) key)) [0..<Nk])"

lemma expand_add: "expand Nk (m + n) w = expand Nk n (expand Nk m w)"
  by (induction m arbitrary: w) auto

lemma key_round_words: "key_round w i = sub_word (rot_word w) XOR RCON i"
  unfolding key_round_def TE421_def TE432_def TE443_def TE414_def index_octet Te0_nth mix_col_masks
  by (simp add: sub_word_def rot_word_def join4_xor_left)

lemma sub_word_parts: "k XOR TE411 w XOR TE422 w XOR TE433 w XOR TE444 w = k XOR sub_word w"
  unfolding TE411_def TE422_def TE433_def TE444_def index_octet Te0_nth mix_col_masks
  by (simp add: sub_word_def join4_xor)

lemma next_word_first:
  assumes "length w = Nk * Suc i" "0 < Nk"
  shows "next_word Nk w = w ! (Nk * i) XOR key_round (last w) i"
proof -
  have "w \<noteq> []" using assms by auto
  then show ?thesis using assms by (simp add: next_word_def Let_def key_round_words last_conv_nth)
qed

lemma next_word_rest:
  assumes "length w = Nk * Suc i + k" "0 < k" "k < Nk"
  shows "next_word Nk w =
    w ! (Nk * i + k) XOR (if 6 < Nk \<and> k = 4 then sub_word (last w) else last w)"
proof -
  have "length w mod Nk = k" using assms by (simp only: mod_mult_self4 mod_less)
  moreover have "w \<noteq> []" "length w - Nk = Nk * i + k" using assms by auto
  ultimately show ?thesis using assms(2) by (simp add: next_word_def Let_def last_conv_nth)
qed

text \<open>The words that one iteration of the code appends.\<close>

lemma expand_4: "expand Nk 4 w = (let a = next_word Nk w; b = next_word Nk (w @ [a]);
    c = next_word Nk (w @ [a, b]); d = next_word Nk (w @ [a, b, c]) in w @ [a, b, c, d])"
  by (simp add: Let_def numeral_eq_Suc)

lemma expand_last:
  assumes "length w = Nk * Suc i" "xs \<noteq> []" "length xs < Nk"
  shows "next_word Nk (w @ xs) = w ! (Nk * i + length xs) XOR
    (if 6 < Nk \<and> length xs = 4 then sub_word (last xs) else last xs)"
  using assms next_word_rest [of "w @ xs" Nk i "length xs"] 
  by (simp add: nth_append)

lemma expand_first_4:
  assumes l: "length w = Nk * Suc i" and "4 \<le> Nk"
  shows "expand Nk 4 w = (let a = w ! (Nk * i) XOR key_round (last w) i; b = w ! (Nk * i + 1) XOR a;
    c = w ! (Nk * i + 2) XOR b; d = w ! (Nk * i + 3) XOR c in w @ [a, b, c, d])"
  using assms next_word_first [OF l] expand_last [OF l, of "[_]"] expand_last [OF l, of "[_, _]"]
    expand_last [OF l, of "[_, _, _]"]
  by (simp add: expand_4 Let_def numeral_2_eq_2 numeral_3_eq_3)

lemma expand_next_2:
  assumes l: "length w = Nk * Suc i" and "length xs = 4" "6 \<le> Nk"
  shows "expand Nk 2 (w @ xs) = (let e = w ! (Nk * i + 4) XOR (if 6 < Nk then sub_word (last xs) else last xs);
    f = w ! (Nk * i + 5) XOR e in w @ xs @ [e, f])"
proof -
  have "xs \<noteq> []" using assms by auto
  then show ?thesis
    using assms expand_last [OF l, of xs] expand_last [OF l, of "xs @ [_]"]
    by (simp add: numeral_2_eq_2 Let_def eval_nat_numeral)
qed

lemma last_nth:
  assumes "length w = Nk * Suc i" "0 < Nk" shows "last w = w ! (Nk * i + (Nk - 1))"
proof -
  have "w \<noteq> []" using assms by auto
  then show ?thesis using assms by (simp add: last_conv_nth add.commute)
qed

lemma key_setup_128_expand:
  assumes "length rk = 4 * Suc i" shows "key_setup_128 i rk = expand 4 4 rk"
  using expand_first_4 [of rk 4 i] assms last_nth [OF assms]
  by (simp add: key_setup_128_def Let_def)

lemma key_setup_192_expand:
  assumes "length rk = 6 * Suc i"
  shows "key_setup_192 i rk = expand 6 (if i = 7 then 4 else 6) rk"
proof -
  have "expand 6 6 rk = expand 6 2 (expand 6 4 rk)" using expand_add [of 6 4 2 rk] by simp
  then show ?thesis
    using expand_first_4 [of rk 6 i] expand_next_2 [of rk 6 i] assms last_nth [OF assms]
    by (simp add: key_setup_192_def Let_def)
qed

lemma expand_next_4:
  assumes l: "length w = Nk * Suc i" and "length xs = 4" "8 \<le> Nk"
  shows "expand Nk 4 (w @ xs) = (let e = w ! (Nk * i + 4) XOR sub_word (last xs);
    f = w ! (Nk * i + 5) XOR e; g = w ! (Nk * i + 6) XOR f; h = w ! (Nk * i + 7) XOR g in w @ xs @ [e, f, g, h])"
proof -
  have "xs \<noteq> []" using assms by auto
  then show ?thesis
    using assms expand_last [OF l, of xs] expand_last [OF l, of "xs @ [_]"]
      expand_last [OF l, of "xs @ [_, _]"] expand_last [OF l, of "xs @ [_, _, _]"]
    by (simp add: expand_4 Let_def eval_nat_numeral)
qed

lemma key_setup_256_expand:
  assumes "length rk = 8 * Suc i"
  shows "key_setup_256 i rk = expand 8 (if i = 6 then 4 else 8) rk"
proof -
  have "expand 8 8 rk = expand 8 4 (expand 8 4 rk)" using expand_add [of 8 4 4 rk] by simp
  then show ?thesis
    using expand_first_4 [of rk 8 i] expand_next_4 [of rk 8 i] assms last_nth [OF assms]
    by (simp add: key_setup_256_def Let_def sub_word_parts)
qed

lemma length_expand [simp]: "length (expand Nk n w) = length w + n"
  by (induction n arbitrary: w) auto

lemma fold_expand:
  assumes "\<And>i w. i < m \<Longrightarrow> length w = Nk * Suc i \<Longrightarrow> f i w = expand Nk (if i = m - 1 then l else Nk) w"
    and "length w = Nk" "0 < m"
  shows "fold f [0..<m] w = expand Nk (Nk * (m - 1) + l) w"
proof -
  have "fold f [0..<n] w = expand Nk (Nk * n) w" if "n < m" for n
    using that
  proof (induction n)
    case (Suc n)
    then have "n \<noteq> m - 1" by simp
    then show ?case
      using assms(2) Suc by (simp add: assms(1) flip: expand_add) (simp add: add.commute)
  qed simp
  from this [of "m - 1"] have "fold f [0..<m - 1] w = expand Nk (Nk * (m - 1)) w" using assms(3) by simp
  moreover have "[0..<m] = [0..<m - 1] @ [m - 1]" using assms(3) by (cases m) auto
  ultimately show ?thesis using assms by (simp add: expand_add)
qed

lemma rijndaelKeySetupEnc_fips:
  "rijndaelKeySetupEnc key 128 = Some (10, fips_key_expansion 4 10 key)"
  "rijndaelKeySetupEnc key 192 = Some (12, fips_key_expansion 6 12 key)"
  "rijndaelKeySetupEnc key 256 = Some (14, fips_key_expansion 8 14 key)"
proof -
  let ?w = "\<lambda>a b. map (\<lambda>i. GETU32 (drop (4 * i) key)) [a..<b]"
  have a: "?w 0 4 @ ?w 4 6 = ?w 0 6" "?w 0 6 @ ?w 6 8 = ?w 0 8"
    by (simp_all add: upt_rec)
  have "fold key_setup_128 [0..<10] (?w 0 4) = expand 4 (4 * (10 - 1) + 4) (?w 0 4)"
    by (rule fold_expand) (auto simp: key_setup_128_expand)
  then show "rijndaelKeySetupEnc key 128 = Some (10, fips_key_expansion 4 10 key)"
    by (simp add: rijndaelKeySetupEnc_def fips_key_expansion_def Let_def)
  have "fold key_setup_192 [0..<8] (?w 0 6) = expand 6 (6 * (8 - 1) + 4) (?w 0 6)"
    by (rule fold_expand) (auto simp: key_setup_192_expand)
  then show "rijndaelKeySetupEnc key 192 = Some (12, fips_key_expansion 6 12 key)"
    unfolding rijndaelKeySetupEnc_def fips_key_expansion_def Let_def a by simp
  have "fold key_setup_256 [0..<7] (?w 0 8) = expand 8 (8 * (7 - 1) + 4) (?w 0 8)"
    by (rule fold_expand) (auto simp: key_setup_256_expand)
  then show "rijndaelKeySetupEnc key 256 = Some (14, fips_key_expansion 8 14 key)"
    unfolding rijndaelKeySetupEnc_def fips_key_expansion_def Let_def a by simp
qed

text \<open>MixColumns on a word, and the octets of the state after each of the four transformations.\<close>

definition mix_word :: "u32 \<Rightarrow> u32" where
  "mix_word w = mix_col (octet 3 w) XOR rotr (mix_col (octet 2 w)) 8 XOR
     rotr (mix_col (octet (Suc 0) w)) 16 XOR rotr (mix_col (octet 0 w)) 24"

lemma enc_ROUND_mix: "enc_ROUND rk i s = xor4 (map4 mix_word (sub_shift s)) (keys rk i)"
  unfolding enc_ROUND_def TE0_def TE1_def TE2_def TE3_def index_octet Te0_nth
  by (cases s) (simp add: map4_def xor4_def sub_shift_def keys_def mix_word_def xor.assoc)

lemma state_bytes_xor4:
  "4 * i + 3 < length rk \<Longrightarrow> state_bytes (xor4 s (keys rk i)) = add_round_key rk i (state_bytes s)"
proof -
  assume l: "4 * i + 3 < length rk"
  then have "take 4 (drop (4 * i) rk) = [rk ! (4 * i), rk ! (4 * i + 1), rk ! (4 * i + 2), rk ! (4 * i + 3)]"
    by (intro nth_equalityI) (auto simp: nth_Cons' eval_nat_numeral less_Suc_eq)
  then show ?thesis
    by (cases s) (simp add: state_bytes_def xor4_def keys_def add_round_key_def PUTU32_octets)
qed

lemma sub_shift_bytes: "shift_rows (sub_bytes (state_bytes s)) = state_bytes (sub_shift s)"
  by (cases s) (simp add: shift_rows_def sub_bytes_def state_bytes_def sub_shift_def PUTU32_octets upt_rec
      nth_Cons')

lemma mix_column_bytes: "mix_column (state_bytes s) = state_bytes (map4 mix_word s)"
  by (cases s) (simp add: state_bytes_def map4_def PUTU32_octets mix_word_def mix_col_def rotr_join4 join4_xor
      xor.assoc xor.commute xor.left_commute)

lemma rijndaelEncrypt_fips:
  assumes "even Nr" "0 < Nr" and rk: "length rk = 4 * (Nr + 1)" and pt: "length pt = 16"
  shows "rijndaelEncrypt rk Nr pt = fips_cipher Nr rk pt"
proof -
  obtain r where r: "Nr = 2 * r" "0 < r" using assms by (auto elim: evenE)
  have l: "8 * r \<le> length rk" using r rk by simp
  have k: "keys (drop (8 * r) rk) 0 = keys rk Nr" using l r by (simp add: keys_def)
  have "state_bytes (load_state pt rk) = state_bytes (xor4 (xor4 (load_state pt rk) (keys rk 0)) (keys rk 0))"
    by simp
  also have "\<dots> = add_round_key rk 0 (state_bytes (xor4 (load_state pt rk) (keys rk 0)))"
    by (rule state_bytes_xor4) (use rk in simp)
  also have "\<dots> = add_round_key rk 0 pt" using pt by (simp only: state_bytes_load)
  finally have start: "state_bytes (load_state pt rk) = add_round_key rk 0 pt" .
  have rounds: "state_bytes (fold (enc_ROUND rk) is s) =
      fold (\<lambda>i st. add_round_key rk i (mix_column (shift_rows (sub_bytes st)))) is (state_bytes s)"
    if "\<forall>i\<in>set is. 4 * i + 3 < length rk" for "is" s
    using that
    by (induction "is" arbitrary: s) (simp_all add: enc_ROUND_mix state_bytes_xor4 sub_shift_bytes mix_column_bytes)
  have "rijndaelEncrypt rk Nr pt =
      state_bytes (xor4 (sub_shift (fold (enc_ROUND rk) [1..<Nr] (load_state pt rk))) (keys rk Nr))"
    using enc_loop [OF r(2) l] r by (simp add: rijndaelEncrypt_def enc_last_sub_shift k)
  then show ?thesis
    using rk by (simp add: state_bytes_xor4 fips_cipher_def rounds start flip: sub_shift_bytes)
qed



end
