(* ===== verification/AesModes.thy ===== *)
theory AesModes
  imports AesInternal
begin

text \<open>
  The modes of operation over the AES block cipher: \<open>src/crypto/aes-wrap.c\<close>, \<open>aes-unwrap.c\<close>,
  \<open>aes-cbc.c\<close>, \<open>aes-ctr.c\<close>, \<open>aes-omac1.c\<close>, \<open>aes-eax.c\<close> and \<open>aes-encblock.c\<close>.

  The loops of each function take the block operation of the initialised context as an argument,
  \<open>E\<close> for \<open>aes_encrypt\<close> and \<open>D\<close> for \<open>aes_decrypt\<close>, and the function itself allocates the context;
  its first argument says whether that succeeds. A function that returns an \<open>int\<close> and fills a
  buffer returns \<open>None\<close> for -1 and otherwise the buffer. Lengths are those of the lists.

  What the modes need of the cipher is the locale \<open>block_cipher\<close>, interpreted on the AES model.
\<close>

section \<open>Key wrap\<close>

text \<open>
  One step of RFC 3394 on the register \<open>a\<close> and the blocks \<open>r\<close>; the step number is added into the
  last octet of \<open>a\<close> as the C code does, modulo 256.
\<close>

definition wrap_step :: "(bytes \<Rightarrow> bytes) \<Rightarrow> nat \<Rightarrow> nat \<Rightarrow> nat \<Rightarrow> bytes \<times> bytes \<Rightarrow> bytes \<times> bytes" where
  "wrap_step E n j i = (\<lambda>(a, r).
    (let pos = 8 * (i - 1); b = E (a @ take 8 (drop pos r)); a = take 8 b
     in (a[7 := a ! 7 XOR word_of_nat (n * j + i)], buf_put r pos (drop 8 b))))"

definition unwrap_step :: "(bytes \<Rightarrow> bytes) \<Rightarrow> nat \<Rightarrow> nat \<Rightarrow> nat \<Rightarrow> bytes \<times> bytes \<Rightarrow> bytes \<times> bytes" where
  "unwrap_step D n j i = (\<lambda>(a, r).
    (let pos = 8 * (i - 1); b = D (a[7 := a ! 7 XOR word_of_nat (n * j + i)] @ take 8 (drop pos r))
     in (take 8 b, buf_put r pos (drop 8 b))))"

definition aes_wrap :: "bool \<Rightarrow> bytes \<Rightarrow> nat \<Rightarrow> bytes \<Rightarrow> bytes option" where
  "aes_wrap mem kek n plain =
    (case aes_encrypt_init mem kek 16 of
       None \<Rightarrow> None
     | Some ctx \<Rightarrow>
        (let (a, r) = fold (\<lambda>j. fold (wrap_step (aes_encrypt ctx) n j) [1..<n + 1]) [0..<6]
           (replicate 8 0xa6, take (8 * n) plain)
         in Some (a @ r)))"

definition aes_unwrap :: "bool \<Rightarrow> bytes \<Rightarrow> nat \<Rightarrow> bytes \<Rightarrow> bytes option" where
  "aes_unwrap mem kek n cipher =
    (case aes_decrypt_init mem kek 16 of
       None \<Rightarrow> None
     | Some ctx \<Rightarrow>
        (let (a, r) = fold (\<lambda>j. fold (unwrap_step (aes_decrypt ctx) n j) (rev [1..<n + 1])) (rev [0..<6])
           (take 8 cipher, take (8 * n) (drop 8 cipher))
         in if list_all (\<lambda>x. x = 0xa6) a then Some r else None))"

section \<open>CBC\<close>

fun cbc_encrypt_loop :: "(bytes \<Rightarrow> bytes) \<Rightarrow> nat \<Rightarrow> bytes \<Rightarrow> bytes \<Rightarrow> bytes" where
  "cbc_encrypt_loop E 0 cbc pos = pos"
| "cbc_encrypt_loop E (Suc n) cbc pos =
     (let cbc = E (xor_bytes cbc (take 16 pos)) in cbc @ cbc_encrypt_loop E n cbc (drop 16 pos))"

fun cbc_decrypt_loop :: "(bytes \<Rightarrow> bytes) \<Rightarrow> nat \<Rightarrow> bytes \<Rightarrow> bytes \<Rightarrow> bytes" where
  "cbc_decrypt_loop D 0 cbc pos = pos"
| "cbc_decrypt_loop D (Suc n) cbc pos =
     (let tmp = take 16 pos in xor_bytes (D tmp) cbc @ cbc_decrypt_loop D n tmp (drop 16 pos))"

definition aes_128_cbc_encrypt :: "bool \<Rightarrow> bytes \<Rightarrow> bytes \<Rightarrow> bytes \<Rightarrow> bytes option" where
  "aes_128_cbc_encrypt mem key iv data =
    (case aes_encrypt_init mem key 16 of
       None \<Rightarrow> None
     | Some ctx \<Rightarrow> Some (cbc_encrypt_loop (aes_encrypt ctx) (length data div 16) (take 16 iv) data))"

definition aes_128_cbc_decrypt :: "bool \<Rightarrow> bytes \<Rightarrow> bytes \<Rightarrow> bytes \<Rightarrow> bytes option" where
  "aes_128_cbc_decrypt mem key iv data =
    (case aes_decrypt_init mem key 16 of
       None \<Rightarrow> None
     | Some ctx \<Rightarrow> Some (cbc_decrypt_loop (aes_decrypt ctx) (length data div 16) (take 16 iv) data))"

section \<open>Counter mode\<close>

text \<open>The loop that adds one to the counter, from index \<open>i - 1\<close> down.\<close>

fun ctr_inc :: "nat \<Rightarrow> bytes \<Rightarrow> bytes" where
  "ctr_inc 0 counter = counter"
| "ctr_inc (Suc i) counter =
     (let counter = counter[i := counter ! i + 1]
      in if counter ! i \<noteq> 0 then counter else ctr_inc i counter)"

function ctr_loop :: "(bytes \<Rightarrow> bytes) \<Rightarrow> bytes \<Rightarrow> bytes \<Rightarrow> bytes" where
  "ctr_loop E counter pos =
     (if pos = [] then []
      else (let buf = E counter; len = (if length pos < 16 then length pos else 16)
        in xor_bytes (take len pos) buf @ ctr_loop E (ctr_inc 16 counter) (drop len pos)))"
  by pat_completeness auto
termination by (relation "measure (\<lambda>(E, counter, pos). length pos)") auto

declare ctr_loop.simps [simp del]

definition aes_128_ctr_encrypt :: "bool \<Rightarrow> bytes \<Rightarrow> bytes \<Rightarrow> bytes \<Rightarrow> bytes option" where
  "aes_128_ctr_encrypt mem key nonce data =
    (case aes_encrypt_init mem key 16 of
       None \<Rightarrow> None
     | Some ctx \<Rightarrow> Some (ctr_loop (aes_encrypt ctx) (take 16 nonce) data))"

definition aes_128_encrypt_block :: "bool \<Rightarrow> bytes \<Rightarrow> bytes \<Rightarrow> bytes option" where
  "aes_128_encrypt_block mem key inp = map_option (\<lambda>ctx. aes_encrypt ctx inp) (aes_encrypt_init mem key 16)"

section \<open>OMAC1\<close>

definition gf_mulx :: "bytes \<Rightarrow> bytes" where
  "gf_mulx pad =
    (let carry = bit (pad ! 0) 7;
         pad = map (\<lambda>i. if i < 15 then push_bit 1 (pad ! i) OR drop_bit 7 (pad ! (i + 1))
           else push_bit 1 (pad ! 15)) [0..<16]
     in if carry then pad[15 := pad ! 15 XOR 0x87] else pad)"

text \<open>
  The data vector: \<open>elems\<close> gives the memory behind each pointer and its length; entries from
  \<open>num_elem\<close> on are what lies behind the two arrays. The position is the index of the element and
  the offset in it. \<open>omac_octet\<close> is the body of the inner loop, which moves on to the next entry as
  soon as the last octet of the element has been read, also when there is no next entry.
\<close>

record omac_vector =
  addr :: "nat \<Rightarrow> nat \<Rightarrow> u8"
  len :: "nat \<Rightarrow> nat"

definition omac_octet :: "omac_vector \<Rightarrow> nat \<Rightarrow> bytes \<times> nat \<times> nat \<Rightarrow> bytes \<times> nat \<times> nat" where
  "omac_octet v i = (\<lambda>(cbc, e, pos).
    (let cbc = cbc[i := cbc ! i XOR addr v e pos]; pos = pos + 1
     in if pos \<ge> len v e then (cbc, e + 1, 0) else (cbc, e, pos)))"

function omac_blocks :: "(bytes \<Rightarrow> bytes) \<Rightarrow> omac_vector \<Rightarrow> nat \<Rightarrow> bytes \<times> nat \<times> nat \<Rightarrow> nat \<times> bytes \<times> nat \<times> nat" where
  "omac_blocks E v left st =
    (if left \<ge> 16 then
       (let (cbc, p) = fold (omac_octet v) [0..<16] st
        in omac_blocks E v (left - 16) (if left > 16 then E cbc else cbc, p))
     else (left, st))"
  by pat_completeness auto
termination by (relation "measure (\<lambda>(E, v, left, st). left)") auto

declare omac_blocks.simps [simp del]

definition omac1_run :: "(bytes \<Rightarrow> bytes) \<Rightarrow> nat \<Rightarrow> omac_vector \<Rightarrow> bytes \<times> nat" where
  "omac1_run E num_elem v =
    (let total_len = sum_list (map (len v) [0..<num_elem]);
         (left, st) = omac_blocks E v total_len (replicate 16 0, 0, 0);
         pad = gf_mulx (E (replicate 16 0));
         ((cbc, e, pos), pad) =
           (if left > 0 \<or> total_len = 0
            then (let (cbc, p) = fold (omac_octet v) [0..<left] st
                  in ((cbc[left := cbc ! left XOR 0x80], p), gf_mulx pad))
            else (st, pad))
     in (E (xor_bytes pad cbc), e))"

text \<open>
  The MAC, and the index of the last entry of \<open>addr\<close> and \<open>len\<close> that the code has loaded.
\<close>

definition omac1_aes_128_vector :: "bool \<Rightarrow> bytes \<Rightarrow> nat \<Rightarrow> omac_vector \<Rightarrow> (bytes \<times> nat) option" where
  "omac1_aes_128_vector mem key num_elem v =
    map_option (\<lambda>ctx. omac1_run (aes_encrypt ctx) num_elem v) (aes_encrypt_init mem key 16)"

definition omac1_aes_128 :: "bool \<Rightarrow> omac_vector \<Rightarrow> bytes \<Rightarrow> bytes \<Rightarrow> bytes option" where
  "omac1_aes_128 mem behind key data =
    map_option fst (omac1_aes_128_vector mem key 1
      \<lparr>addr = (\<lambda>e i. if e = 0 \<and> i < length data then data ! i else addr behind e i),
       len = (\<lambda>e. if e = 0 then length data else len behind e)\<rparr>)"

section \<open>EAX\<close>

text \<open>
  \<open>mem\<close> is the outcome of the allocation of \<open>buf\<close> (index 0) and of the AES contexts of the three
  MACs and of the encryption (1 to 4). The result is the return value, the data buffer and the tag.
\<close>

definition aes_128_eax_encrypt ::
  "(nat \<Rightarrow> bool) \<Rightarrow> omac_vector \<Rightarrow> bytes \<Rightarrow> bytes \<Rightarrow> bytes \<Rightarrow> bytes \<Rightarrow> (bytes \<times> bytes) option" where
  "aes_128_eax_encrypt mem behind key nonce hdr data =
    (if \<not> mem 0 then None
     else case omac1_aes_128 (mem 1) behind key (replicate 15 0 @ [0] @ nonce) of
       None \<Rightarrow> None
     | Some nonce_mac \<Rightarrow>
     case omac1_aes_128 (mem 2) behind key (replicate 15 0 @ [1] @ hdr) of
       None \<Rightarrow> None
     | Some hdr_mac \<Rightarrow>
     case aes_128_ctr_encrypt (mem 3) key nonce_mac data of
       None \<Rightarrow> None
     | Some data \<Rightarrow>
     case omac1_aes_128 (mem 4) behind key (replicate 15 0 @ [2] @ data) of
       None \<Rightarrow> None
     | Some data_mac \<Rightarrow> Some (data, xor_bytes (xor_bytes nonce_mac data_mac) hdr_mac))"

definition aes_128_eax_decrypt ::
  "(nat \<Rightarrow> bool) \<Rightarrow> omac_vector \<Rightarrow> bytes \<Rightarrow> bytes \<Rightarrow> bytes \<Rightarrow> bytes \<Rightarrow> bytes \<Rightarrow> int \<times> bytes" where
  "aes_128_eax_decrypt mem behind key nonce hdr data tag =
    (if \<not> mem 0 then (-1, data)
     else case omac1_aes_128 (mem 1) behind key (replicate 15 0 @ [0] @ nonce) of
       None \<Rightarrow> (-1, data)
     | Some nonce_mac \<Rightarrow>
     case omac1_aes_128 (mem 2) behind key (replicate 15 0 @ [1] @ hdr) of
       None \<Rightarrow> (-1, data)
     | Some hdr_mac \<Rightarrow>
     case omac1_aes_128 (mem 3) behind key (replicate 15 0 @ [2] @ data) of
       None \<Rightarrow> (-1, data)
     | Some data_mac \<Rightarrow>
     if list_ex (\<lambda>i. tag ! i \<noteq> (nonce_mac ! i XOR data_mac ! i XOR hdr_mac ! i)) [0..<16] then (-2, data)
     else case aes_128_ctr_encrypt (mem 4) key nonce_mac data of
       None \<Rightarrow> (-1, data)
     | Some data \<Rightarrow> (0, data))"
section \<open>What the modes need of the cipher\<close>

locale block_cipher =
  fixes E D :: "bytes \<Rightarrow> bytes"
  assumes enc_length: "length b = 16 \<Longrightarrow> length (E b) = 16"
    and dec_enc: "length b = 16 \<Longrightarrow> D (E b) = b"

lemma fold_undo:
  assumes "\<And>x s. x \<in> set xs \<Longrightarrow> P s \<Longrightarrow> P (f x s) \<and> g x (f x s) = s"
  shows "P s \<Longrightarrow> P (fold f xs s) \<and> fold g (rev xs) (fold f xs s) = s"
  using assms
proof (induction xs arbitrary: s)
  case (Cons x xs)
  then have "P (f x s)" "g x (f x s) = s" by auto
  moreover have "P (fold f xs (f x s)) \<and> fold g (rev xs) (fold f xs (f x s)) = f x s"
    using Cons.IH [OF \<open>P (f x s)\<close>] Cons.prems(2) by auto
  ultimately show ?case by simp
qed simp

definition wrap_state :: "nat \<Rightarrow> bytes \<times> bytes \<Rightarrow> bool" where
  "wrap_state n = (\<lambda>(a, r). length a = 8 \<and> length r = 8 * n)"

lemma length_ctr_inc [simp]: "length (ctr_inc i c) = length c"
  by (induction i c rule: ctr_inc.induct) (auto simp: Let_def)

context block_cipher begin

lemma unwrap_wrap_step:
  assumes "wrap_state n s" "i \<in> set [1..<n + 1]"
  shows "wrap_state n (wrap_step E n j i s) \<and> unwrap_step D n j i (wrap_step E n j i s) = s"
proof -
  obtain a r where s: "s = (a, r)" by (cases s)
  define pos where "pos = 8 * (i - 1)"
  have l: "length a = 8" "length r = 8 * n" "pos + 8 \<le> length r"
    using assms s by (auto simp: wrap_state_def pos_def)
  define b where "b = E (a @ take 8 (drop pos r))"
  have b: "length b = 16" "D b = a @ take 8 (drop pos r)"
    using l by (simp_all add: b_def enc_length dec_enc)
  define t where "t = (word_of_nat (n * j + i) :: u8)"
  have w: "wrap_step E n j i s = ((take 8 b)[7 := b ! 7 XOR t], buf_put r pos (drop 8 b))"
    by (simp add: wrap_step_def s Let_def pos_def b_def t_def)
  have "take 8 (drop pos (buf_put r pos (drop 8 b))) = drop 8 b"
    using l b by (simp add: buf_put_def)
  moreover have "(take 8 b)[7 := b ! 7 XOR t, 7 := (b ! 7 XOR t) XOR t] = take 8 b"
    using b by (simp add: xor.assoc list_update_same_conv)
  moreover have "buf_put (buf_put r pos (drop 8 b)) pos (take 8 (drop pos r)) = r"
    using l b by (intro buf_put_restore) auto
  moreover have "unwrap_step D n j i (a', r') =
      (let b' = D (a'[7 := a' ! 7 XOR t] @ take 8 (drop pos r')) in (take 8 b', buf_put r' pos (drop 8 b')))"
    for a' r' by (simp add: unwrap_step_def Let_def pos_def t_def)
  ultimately have "unwrap_step D n j i (wrap_step E n j i s) = s"
    unfolding w using l b by (simp add: Let_def s)
  then show ?thesis using l b by (simp add: wrap_state_def w)
qed

lemma unwrap_wrap:
  assumes "wrap_state n s"
  shows "wrap_state n (fold (\<lambda>j. fold (wrap_step E n j) [1..<n + 1]) js s) \<and>
    fold (\<lambda>j. fold (unwrap_step D n j) (rev [1..<n + 1])) (rev js)
      (fold (\<lambda>j. fold (wrap_step E n j) [1..<n + 1]) js s) = s"
  using assms
  by (intro fold_undo [where f = "\<lambda>j. fold (wrap_step E n j) [1..<n + 1]"] fold_undo [where P = "wrap_state n"]
        unwrap_wrap_step)

lemma cbc_decrypt_encrypt_loop:
  "\<lbrakk>length iv = 16; 16 * n \<le> length data\<rbrakk> \<Longrightarrow>
     cbc_decrypt_loop D n iv (cbc_encrypt_loop E n iv data) = data"
proof (induction n arbitrary: iv data)
  case (Suc n)
  have l: "length (take 16 data) = 16" using Suc.prems by simp
  let ?c = "E (xor_bytes iv (take 16 data))"
  have c: "length ?c = 16" "D ?c = xor_bytes iv (take 16 data)"
    using Suc.prems l by (simp_all add: enc_length dec_enc)
  have "xor_bytes (xor_bytes iv (take 16 data)) iv = take 16 data"
    using Suc.prems l by (subst xor_bytes_commute [of iv]) simp
  then show ?case using Suc c by (simp add: Let_def)
qed simp

lemma length_cbc_encrypt_loop:
  "\<lbrakk>length iv = 16; 16 * n \<le> length data\<rbrakk> \<Longrightarrow> length (cbc_encrypt_loop E n iv data) = length data"
  by (induction n arbitrary: iv data) (simp_all add: Let_def enc_length)

lemma ctr_loop_twice:
  "length c = 16 \<Longrightarrow> length (ctr_loop E c data) = length data \<and> ctr_loop E c (ctr_loop E c data) = data"
proof (induction "length data" arbitrary: c data rule: less_induct)
  case less
  show ?case
  proof (cases "data = []")
    case False
    define k where "k = (if length data < 16 then length data else 16)"
    have k: "0 < k" "k \<le> 16" "k \<le> length data" using False by (auto simp: k_def)
    let ?x = "xor_bytes (take k data) (E c)" and ?rest = "ctr_loop E (ctr_inc 16 c) (drop k data)"
    have e: "length (E c) = 16" using less.prems by (rule enc_length)
    have IH: "length ?rest = length data - k" "ctr_loop E (ctr_inc 16 c) ?rest = drop k data"
      using less.hyps [of "drop k data" "ctr_inc 16 c"] less.prems k by simp_all
    have o: "ctr_loop E c data = ?x @ ?rest"
      using False by (subst ctr_loop.simps) (simp add: Let_def k_def)
    have l: "length (ctr_loop E c data) = length data" "length ?x = k"
      using e k IH by (simp_all add: o)
    have ne: "?x @ ?rest \<noteq> []" by (metis l(2) k(1) list.size(3) less_irrefl append_is_Nil_conv)
    have "ctr_loop E c (?x @ ?rest) = xor_bytes (take k (?x @ ?rest)) (E c) @
        ctr_loop E (ctr_inc 16 c) (drop k (?x @ ?rest))"
      using ne l o by (subst ctr_loop.simps) (auto simp: Let_def k_def)
    also have "\<dots> = take k data @ drop k data" using l(2) e k IH by simp
    finally show ?thesis using l o by simp
  qed (simp add: ctr_loop.simps)
qed
end
text \<open>The AES with a key of 16 octets provides the contract.\<close>

definition aes_128_E :: "bytes \<Rightarrow> bytes \<Rightarrow> bytes" where
  "aes_128_E key = aes_encrypt (the (aes_encrypt_init True key 16))"

definition aes_128_D :: "bytes \<Rightarrow> bytes \<Rightarrow> bytes" where
  "aes_128_D key = aes_decrypt (the (aes_decrypt_init True key 16))"

lemma aes_128_init:
  "\<exists>c. aes_encrypt_init True key 16 = Some c" "\<exists>c. aes_decrypt_init True key 16 = Some c"
  by (simp_all add: aes_encrypt_init_def aes_decrypt_init_def rijndaelKeySetupDec_def rijndaelKeySetupEnc_fips)

lemma aes_128_block_cipher:
  assumes "length b = 16"
  shows "length (aes_128_E key b) = 16" "aes_128_D key (aes_128_E key b) = b"
proof -
  obtain Nr rk where e: "rijndaelKeySetupEnc key 128 = Some (Nr, rk)"
    by (simp add: rijndaelKeySetupEnc_fips)
  obtain rk' where d: "rijndaelKeySetupDec key 128 = Some (Nr, rk')" "inverse_schedule Nr rk rk'"
    using rijndaelKeySetupDec_inverse [OF e] by auto
  show "length (aes_128_E key b) = 16"
    by (simp add: aes_128_E_def aes_encrypt_def rijndaelEncrypt_def enc_last_def PUTU32_octets
        split: prod.splits)
  show "aes_128_D key (aes_128_E key b) = b"
    using decrypt_encrypt_schedule [OF d(2) _ _ assms] rijndaelKeySetupEnc_rounds [OF e] e d
    by (simp add: aes_128_E_def aes_128_D_def aes_encrypt_init_def aes_decrypt_init_def aes_encrypt_def
        aes_decrypt_def)
qed

interpretation aes128: block_cipher "aes_128_E key" "aes_128_D key" for key
  by unfold_locales (simp_all add: aes_128_block_cipher)

lemma modes_eq:
  "aes_wrap True key n plain = (let (a, r) = fold (\<lambda>j. fold (wrap_step (aes_128_E key) n j) [1..<n + 1]) [0..<6]
     (replicate 8 0xa6, take (8 * n) plain) in Some (a @ r))" (is ?wrap)
  "aes_unwrap True key n cipher =
     (let (a, r) = fold (\<lambda>j. fold (unwrap_step (aes_128_D key) n j) (rev [1..<n + 1])) (rev [0..<6])
           (take 8 cipher, take (8 * n) (drop 8 cipher))
         in if list_all (\<lambda>x. x = 0xa6) a then Some r else None)" (is ?unwrap)
  "aes_128_cbc_encrypt True key iv data =
     Some (cbc_encrypt_loop (aes_128_E key) (length data div 16) (take 16 iv) data)" (is ?cbc)
  "aes_128_cbc_decrypt True key iv data =
     Some (cbc_decrypt_loop (aes_128_D key) (length data div 16) (take 16 iv) data)" (is ?cbc')
  "aes_128_ctr_encrypt True key nonce data = Some (ctr_loop (aes_128_E key) (take 16 nonce) data)" (is ?ctr)
  "omac1_aes_128_vector True key num v = Some (omac1_run (aes_128_E key) num v)" (is ?omac)
proof -
  obtain c d where "aes_encrypt_init True key 16 = Some c" "aes_decrypt_init True key 16 = Some d"
    using aes_128_init by blast
  then show ?wrap ?unwrap ?cbc ?cbc' ?ctr ?omac
    by (simp_all add: aes_wrap_def aes_unwrap_def aes_128_cbc_encrypt_def aes_128_cbc_decrypt_def
      aes_128_ctr_encrypt_def omac1_aes_128_vector_def aes_128_E_def aes_128_D_def)
qed

text \<open>
  C37: \<open>aes_unwrap\<close> recovers every key that \<open>aes_wrap\<close> has wrapped, for every number of 64-bit
  blocks.
\<close>

theorem aes_unwrap_wrap:
  assumes "length plain = 8 * n"
  shows "\<exists>cipher. aes_wrap True kek n plain = Some cipher \<and> length cipher = 8 * (n + 1) \<and>
    aes_unwrap True kek n cipher = Some plain"
proof -
  let ?s = "(replicate 8 0xa6, plain) :: bytes \<times> bytes"
  have P: "wrap_state n ?s" using assms by (simp add: wrap_state_def)
  obtain a r where w: "fold (\<lambda>j. fold (wrap_step (aes_128_E kek) n j) [1..<n + 1]) [0..<6] ?s = (a, r)"
    by (cases "fold (\<lambda>j. fold (wrap_step (aes_128_E kek) n j) [1..<n + 1]) [0..<6] ?s")
  note u = aes128.unwrap_wrap [OF P, of kek "[0..<6]", unfolded w]
  then have l: "length a = 8" "length r = 8 * n" by (simp_all add: wrap_state_def)
  have c: "aes_wrap True kek n plain = Some (a @ r)"
    using assms w by (simp add: modes_eq del: upt_Suc fold_simps)
  have "aes_unwrap True kek n (a @ r) = Some plain"
    unfolding modes_eq using u l by (simp add: list_all_iff del: upt_Suc fold_simps)
  then show ?thesis using c l by auto
qed
text \<open>
  CBC decryption recovers the data that CBC encryption has encrypted, and a second CTR
  encryption with the same nonce recovers the data of the first; neither changes the length.
\<close>

theorem aes_cbc_ctr_roundtrip:
  assumes "length iv = 16"
  shows "\<exists>c d. aes_128_cbc_encrypt True key iv data = Some c \<and> length c = length data \<and>
      aes_128_cbc_decrypt True key iv c = Some data \<and>
    aes_128_ctr_encrypt True key iv data = Some d \<and> length d = length data \<and>
      aes_128_ctr_encrypt True key iv d = Some data"
  using assms aes128.cbc_decrypt_encrypt_loop [of iv "length data div 16" data key]
    aes128.length_cbc_encrypt_loop [of iv "length data div 16" data key]
    aes128.ctr_loop_twice [of iv key data]
  by (simp add: modes_eq)

section \<open>The standards behind the modes\<close>

text \<open>
  RFC 3394 adds the 64-bit step number to the register; the C code adds it to the last octet.
\<close>

definition be64 :: "nat \<Rightarrow> bytes" where
  "be64 t = map (\<lambda>k. word_of_nat (t div 256 ^ (7 - k))) [0..<8]"

definition rfc3394_step :: "(bytes \<Rightarrow> bytes) \<Rightarrow> nat \<Rightarrow> nat \<Rightarrow> nat \<Rightarrow> bytes \<times> bytes \<Rightarrow> bytes \<times> bytes" where
  "rfc3394_step E n j i = (\<lambda>(a, r).
    (let pos = 8 * (i - 1); b = E (a @ take 8 (drop pos r))
     in (xor_bytes (take 8 b) (be64 (n * j + i)), buf_put r pos (drop 8 b))))"

definition rfc3394_wrap :: "(bytes \<Rightarrow> bytes) \<Rightarrow> nat \<Rightarrow> bytes \<Rightarrow> bytes" where
  "rfc3394_wrap E n plain =
    (let (a, r) = fold (\<lambda>j. fold (rfc3394_step E n j) [1..<n + 1]) [0..<6] (replicate 8 0xa6, plain)
     in a @ r)"

lemma be64_small:
  assumes "t < 256" shows "be64 t = replicate 7 0 @ [word_of_nat t]"
proof (rule nth_equalityI)
  fix k assume "k < length (be64 t)"
  then have k: "k < 8" by (simp add: be64_def)
  have "t div 256 ^ (7 - k) = 0" if "k < 7"
  proof -
    have "(256 :: nat) ^ 1 \<le> 256 ^ (7 - k)" using that by (intro power_increasing) auto
    then show ?thesis using assms by simp
  qed
  moreover have "k = 7" if "\<not> k < 7" using that k by simp
  ultimately show "be64 t ! k = (replicate 7 0 @ [word_of_nat t]) ! k"
    using k by (cases "k < 7") (simp_all add: be64_def nth_append)
qed (simp add: be64_def)

lemma rfc_step_eq:
  assumes "length b8 = 8" "t < 256"
  shows "xor_bytes b8 (be64 t) = b8[7 := b8 ! 7 XOR word_of_nat t]"
proof (rule nth_equalityI)
  fix k assume "k < length (xor_bytes b8 (be64 t))"
  then have "k < 8" using assms by (simp add: be64_def)
  then consider "k < 7" | "k = 7" by linarith
  then show "xor_bytes b8 (be64 t) ! k = b8[7 := b8 ! 7 XOR word_of_nat t] ! k"
    using assms by cases (simp_all add: be64_small nth_append)
qed (simp add: assms be64_def)

lemma fold_cong_state:
  assumes "\<And>x s. x \<in> set xs \<Longrightarrow> P s \<Longrightarrow> f x s = g x s \<and> P (g x s)"
  shows "P s \<Longrightarrow> fold f xs s = fold g xs s \<and> P (fold g xs s)"
  using assms by (induction xs arbitrary: s) auto

lemma rfc3394_step_eq:
  assumes "n \<le> 42" "j \<in> set [0..<6]" "i \<in> set [1..<n + 1]" "wrap_state n s"
  shows "wrap_step (aes_128_E kek) n j i s = rfc3394_step (aes_128_E kek) n j i s"
proof -
  obtain a r where s: "s = (a, r)" by (cases s)
  have "n * j \<le> 42 * 5" using assms by (intro mult_le_mono) auto
  then have t: "n * j + i < 256" using assms by auto
  have "length (a @ take 8 (drop (8 * (i - 1)) r)) = 16" using assms s by (auto simp: wrap_state_def)
  then have "length (take 8 (aes_128_E kek (a @ take 8 (drop (8 * (i - 1)) r)))) = 8"
    by (simp add: aes128.enc_length)
  from rfc_step_eq [OF this t] show ?thesis by (simp add: s wrap_step_def rfc3394_step_def Let_def)
qed

text \<open>
  C40: for keys of at most 42 blocks of eight octets the wrapped key is the one of RFC 3394; only
  then does the step number fit the octet into which the code adds it.
\<close>

theorem aes_wrap_rfc3394:
  assumes "n \<le> 42" "length plain = 8 * n"
  shows "aes_wrap True kek n plain = Some (rfc3394_wrap (aes_128_E kek) n plain)"
proof -
  let ?f = "wrap_step (aes_128_E kek) n" and ?g = "rfc3394_step (aes_128_E kek) n"
  have step: "?f j i s = ?g j i s \<and> wrap_state n (?g j i s)"
    if "j \<in> set [0..<6]" "i \<in> set [1..<n + 1]" "wrap_state n s" for j i s
    using rfc3394_step_eq [OF assms(1) that] aes128.unwrap_wrap_step [OF that(3,2), of kek j] by simp
  have "fold (\<lambda>j. fold (?f j) [1..<n + 1]) [0..<6] (replicate 8 0xa6, plain) =
      fold (\<lambda>j. fold (?g j) [1..<n + 1]) [0..<6] (replicate 8 0xa6, plain) \<and>
    wrap_state n (fold (\<lambda>j. fold (?g j) [1..<n + 1]) [0..<6] (replicate 8 0xa6, plain))"
    by (rule fold_cong_state [where P = "wrap_state n" and f = "\<lambda>j. fold (?f j) [1..<n + 1]"])
      (rule fold_cong_state, rule step, assumption+, simp add: wrap_state_def assms)
  then show ?thesis
    using assms by (simp add: modes_eq rfc3394_wrap_def del: upt_Suc fold_simps split: prod.splits)
qed
text \<open>
  The CMAC of SP 800-38B on one message: the blocks but the last are chained, the last one is
  masked with the first subkey when it is complete and padded and masked with the second otherwise.
\<close>

function cmac_chain :: "(bytes \<Rightarrow> bytes) \<Rightarrow> bytes \<Rightarrow> bytes \<Rightarrow> bytes \<times> bytes" where
  "cmac_chain E cbc msg =
     (if length msg \<le> 16 then (cbc, msg) else cmac_chain E (E (xor_bytes cbc (take 16 msg))) (drop 16 msg))"
  by pat_completeness auto
termination by (relation "measure (\<lambda>(E, cbc, msg). length msg)") auto

declare cmac_chain.simps [simp del]

definition cmac :: "(bytes \<Rightarrow> bytes) \<Rightarrow> bytes \<Rightarrow> bytes" where
  "cmac E msg =
    (let k1 = gf_mulx (E (replicate 16 0)); k2 = gf_mulx k1;
         (cbc, final) = cmac_chain E (replicate 16 0) msg
     in if length final = 16 then E (xor_bytes k1 (xor_bytes cbc final))
        else E (xor_bytes k2 (xor_bytes cbc (final @ [0x80] @ replicate (15 - length final) 0))))"

text \<open>The octets of the vector that the position has not passed.\<close>

definition element :: "omac_vector \<Rightarrow> nat \<Rightarrow> bytes" where
  "element v e = map (addr v e) [0..<len v e]"

definition elements :: "omac_vector \<Rightarrow> nat \<Rightarrow> nat \<Rightarrow> bytes" where
  "elements v e n = concat (map (element v) [e..<n])"

definition remaining :: "omac_vector \<Rightarrow> nat \<Rightarrow> nat \<times> nat \<Rightarrow> bytes" where
  "remaining v n = (\<lambda>(e, pos). if e < n then drop pos (element v e) @ elements v (Suc e) n else [])"

definition position_ok :: "omac_vector \<Rightarrow> nat \<Rightarrow> nat \<times> nat \<Rightarrow> bool" where
  "position_ok v n = (\<lambda>(e, pos). e \<le> n \<and> (e < n \<longrightarrow> pos < len v e))"

lemma length_element [simp]: "length (element v e) = len v e"
  by (simp add: element_def)

lemma elements_Cons: "e < n \<Longrightarrow> elements v e n = element v e @ elements v (Suc e) n"
  by (simp add: elements_def upt_conv_Cons)

lemma remaining_start:
  "\<lbrakk>\<And>e. e < n \<Longrightarrow> 0 < len v e; 0 < n\<rbrakk> \<Longrightarrow> remaining v n (0, 0) = elements v 0 n \<and> position_ok v n (0, 0)"
  by (simp add: remaining_def position_ok_def elements_Cons [of 0])

lemma position_end: "position_ok v n (e, pos) \<Longrightarrow> remaining v n (e, pos) = [] \<longleftrightarrow> e = n"
  by (auto simp: position_ok_def remaining_def)

lemma omac_octet_step:
  assumes nz: "\<And>e. e < n \<Longrightarrow> 0 < len v e" and ok: "position_ok v n p" and r: "remaining v n p \<noteq> []"
  shows "\<exists>p'. omac_octet v i (cbc, p) = (cbc[i := cbc ! i XOR hd (remaining v n p)], p') \<and>
    remaining v n p' = tl (remaining v n p) \<and> position_ok v n p'"
proof -
  obtain e pos where p: "p = (e, pos)" by (cases p)
  have e: "e < n" "pos < len v e" using ok r p by (auto simp: position_ok_def remaining_def split: if_splits)
  then have d: "drop pos (element v e) = addr v e pos # drop (Suc pos) (element v e)"
    by (simp add: element_def flip: Cons_nth_drop_Suc)
  have cur: "remaining v n p = addr v e pos # drop (Suc pos) (element v e) @ elements v (Suc e) n"
    using e d by (simp add: remaining_def p)
  show ?thesis
  proof (cases "Suc pos \<ge> len v e")
    case True
    have "remaining v n (Suc e, 0) = elements v (Suc e) n"
      by (cases "Suc e < n") (simp_all add: remaining_def elements_Cons, simp add: elements_def)
    moreover have "position_ok v n (Suc e, 0)" using e nz by (auto simp: position_ok_def)
    ultimately show ?thesis using True unfolding cur by (simp add: omac_octet_def p)
  next
    case False
    then have "position_ok v n (e, Suc pos)" using e by (auto simp: position_ok_def)
    then show ?thesis using False e unfolding cur by (simp add: omac_octet_def p remaining_def)
  qed
qed

lemma omac_octets:
  assumes nz: "\<And>e. e < n \<Longrightarrow> 0 < len v e" and "position_ok v n p" "k \<le> length (remaining v n p)"
    "length cbc = 16" "k \<le> 16"
  shows "\<exists>p'. fold (omac_octet v) [0..<k] (cbc, p) =
      (xor_bytes (take k cbc) (take k (remaining v n p)) @ drop k cbc, p') \<and>
    remaining v n p' = drop k (remaining v n p) \<and> position_ok v n p'"
  using assms(3,5)
proof (induction k)
  case (Suc k)
  let ?r = "remaining v n p"
  from Suc obtain p' where p': "fold (omac_octet v) [0..<k] (cbc, p) =
      (xor_bytes (take k cbc) (take k ?r) @ drop k cbc, p')"
    "remaining v n p' = drop k ?r" "position_ok v n p'" by auto
  have "drop k ?r \<noteq> []" using Suc.prems by simp
  then obtain p'' where p'': "omac_octet v k (xor_bytes (take k cbc) (take k ?r) @ drop k cbc, p') =
      ((xor_bytes (take k cbc) (take k ?r) @ drop k cbc)[k :=
         (xor_bytes (take k cbc) (take k ?r) @ drop k cbc) ! k XOR hd (drop k ?r)], p'')"
    "remaining v n p'' = drop (Suc k) ?r" "position_ok v n p''"
    using omac_octet_step [OF nz p'(3), of k] p'(2) by (metis drop_Suc tl_drop)
  have "(xor_bytes (take k cbc) (take k ?r) @ drop k cbc)[k :=
         (xor_bytes (take k cbc) (take k ?r) @ drop k cbc) ! k XOR hd (drop k ?r)] =
      xor_bytes (take (Suc k) cbc) (take (Suc k) ?r) @ drop (Suc k) cbc"
    using Suc.prems assms(4)
    by (intro nth_equalityI) (auto simp: nth_append nth_list_update hd_drop_conv_nth less_Suc_eq)
  then show ?case using p' p'' by auto
qed (simp add: assms)

lemma cmac_chain_final: "cmac_chain E cbc msg = (c, final) \<Longrightarrow> final = [] \<longleftrightarrow> msg = []"
proof (induction E cbc msg rule: cmac_chain.induct)
  case (1 E cbc msg)
  then show ?case
    by (subst (asm) (2) cmac_chain.simps) (auto split: if_splits)
qed

lemma xor_pad:
  assumes "length c = 16" "length f < 16"
  shows "(xor_bytes (take (length f) c) f @ drop (length f) c)[length f := c ! length f XOR 0x80] =
    xor_bytes c (f @ [0x80] @ replicate (15 - length f) 0)"
proof (rule nth_equalityI)
  fix i assume "i < length ((xor_bytes (take (length f) c) f @ drop (length f) c)[length f := c ! length f XOR 0x80])"
  then have "i < 16" using assms by simp
  then show "(xor_bytes (take (length f) c) f @ drop (length f) c)[length f := c ! length f XOR 0x80] ! i =
      xor_bytes c (f @ [0x80] @ replicate (15 - length f) 0) ! i"
    using assms by (cases i "length f" rule: linorder_cases) (simp_all add: nth_append)
qed (use assms in simp)

context block_cipher begin

lemma omac_blocks_chain:
  assumes nz: "\<And>e. e < n \<Longrightarrow> 0 < len v e"
  shows "\<lbrakk>position_ok v n p; left = length (remaining v n p); length cbc = 16;
      cmac_chain E cbc (remaining v n p) = (c, final)\<rbrakk> \<Longrightarrow>
    \<exists>p'. omac_blocks E v left (cbc, p) =
      (if length final = 16 then (0, xor_bytes c final, p') else (length final, c, p')) \<and>
      remaining v n p' = (if length final = 16 then [] else final) \<and> position_ok v n p' \<and>
      length c = 16 \<and> length final \<le> 16"
proof (induction left arbitrary: cbc p rule: less_induct)
  case (less left)
  let ?r = "remaining v n p"
  show ?case
  proof (cases "left \<ge> 16")
    case False
    then show ?thesis
      using less.prems by (subst omac_blocks.simps) (auto simp: cmac_chain.simps)
  next
    case True
    obtain p' where p': "fold (omac_octet v) [0..<16] (cbc, p) = (xor_bytes cbc (take 16 ?r), p')"
      "remaining v n p' = drop 16 ?r" "position_ok v n p'"
      using omac_octets [OF nz less.prems(1), of 16 cbc] True less.prems by auto
    let ?x = "xor_bytes cbc (take 16 ?r)"
    have x: "length ?x = 16" using True less.prems by simp
    have step: "omac_blocks E v left (cbc, p) = omac_blocks E v (left - 16) (if left > 16 then E ?x else ?x, p')"
      using True by (subst omac_blocks.simps) (simp add: p' del: upt_Suc upt_rec_numeral)
    show ?thesis
    proof (cases "left > 16")
      case g: True
      have "cmac_chain E (E ?x) (remaining v n p') = (c, final)"
        using less.prems(2,4) g p'(2) by (subst (asm) cmac_chain.simps) simp
      then show ?thesis
        unfolding step using g less.IH [of "left - 16" p' "E ?x"] p' less.prems(2) x enc_length by auto
    next
      case False
      then have l: "left = 16" "c = cbc" "final = ?r"
        using True less.prems(2,4) by (auto simp: cmac_chain.simps)
      then show ?thesis
        unfolding step using p' less.prems x
        by (subst omac_blocks.simps) (auto simp del: xor_bytes_cancel)
    qed
  qed
qed

lemma omac1_run_cmac:
  assumes nz: "\<And>e. e < n \<Longrightarrow> 0 < len v e" and "0 < n"
  shows "omac1_run E n v = (cmac E (elements v 0 n), n)"
proof -
  note s = remaining_start [OF nz \<open>0 < n\<close>]
  have total: "sum_list (map (len v) [0..<n]) = length (elements v 0 n)"
    by (simp add: elements_def length_concat comp_def)
  have pos: "0 < length (elements v 0 n)"
    using nz [of 0] \<open>0 < n\<close> by (simp add: elements_Cons [of 0])
  obtain c final where ch: "cmac_chain E (replicate 16 0) (elements v 0 n) = (c, final)"
    by (cases "cmac_chain E (replicate 16 0) (elements v 0 n)")
  obtain p' where p': "omac_blocks E v (length (elements v 0 n)) (replicate 16 0, 0, 0) =
      (if length final = 16 then (0, xor_bytes c final, p') else (length final, c, p'))"
    "remaining v n p' = (if length final = 16 then [] else final)" "position_ok v n p'"
    "length c = 16" "length final \<le> 16"
    using omac_blocks_chain [where n = n and v = v and p = "(0, 0)" and cbc = "replicate 16 0" and c = c
        and final = final and left = "length (elements v 0 n)"] nz s ch by auto
  have ne: "final \<noteq> []" using cmac_chain_final [OF ch] pos by auto
  have mac: "cmac E (elements v 0 n) = (if length final = 16 then E (xor_bytes (gf_mulx (E (replicate 16 0))) (xor_bytes c final))
        else E (xor_bytes (gf_mulx (gf_mulx (E (replicate 16 0)))) (xor_bytes c (final @ [0x80] @ replicate (15 - length final) 0))))"
    by (simp add: cmac_def ch Let_def)
  show ?thesis
  proof (cases "length final = 16")
    case True
    obtain e pos' where "p' = (e, pos')" by (cases p')
    moreover have "e = n" using p'(2,3) True position_end calculation by auto
    ultimately show ?thesis using True p'(1) pos by (simp add: omac1_run_def total mac)
  next
    case False
    obtain e pos' where f: "fold (omac_octet v) [0..<length final] (c, p') =
        (xor_bytes (take (length final) c) final @ drop (length final) c, e, pos')"
      "remaining v n (e, pos') = []" "position_ok v n (e, pos')"
      using omac_octets [OF nz p'(3), of "length final" c] p' False by auto
    have "e = n" using f position_end by blast
    moreover have "length final < 16" using False p'(5) by simp
    ultimately show ?thesis
      using False ne p' f(1) xor_pad [of c final]
      by (simp add: omac1_run_def total mac nth_append del: upt_Suc)
  qed
qed

lemma omac1_run_empty: "len v 0 = 0 \<Longrightarrow> omac1_run E (Suc 0) v = (cmac E [], 0)"
  by (simp add: omac1_run_def cmac_def cmac_chain.simps omac_blocks.simps Let_def numeral_eq_Suc)

end

text \<open>An element of length zero is not skipped: an octet from behind it enters the MAC.\<close>

lemma omac1_zero_length_element:
  "len v 0 = 0 \<Longrightarrow> omac_octet v i (cbc, 0, 0) = (cbc[i := cbc ! i XOR addr v 0 0], 1, 0)"
  by (simp add: omac_octet_def)

lemma omac1_aes_128_cmac: "omac1_aes_128 True behind key data = Some (cmac (aes_128_E key) data)"
proof -
  define v where "v = \<lparr>addr = (\<lambda>e i. if e = 0 \<and> i < length data then data ! i else addr behind e i),
       len = (\<lambda>e. if e = 0 then length data else len behind e)\<rparr>"
  have "elements v 0 (Suc 0) = data"
    by (simp add: elements_def element_def v_def) (rule nth_equalityI; simp)
  moreover have "len v 0 = length data" by (simp add: v_def)
  ultimately have "fst (omac1_run (aes_128_E key) (Suc 0) v) = cmac (aes_128_E key) data"
    using aes128.omac1_run_cmac [of "Suc 0" v key] aes128.omac1_run_empty [of v key]
    by (cases "data = []") auto
  then show ?thesis by (simp add: omac1_aes_128_def modes_eq v_def)
qed

lemma omac1_aes_128_fail: "omac1_aes_128 mem behind key data = (if mem then Some (cmac (aes_128_E key) data) else None)"
  by (cases mem) (simp_all add: omac1_aes_128_cmac, simp add: omac1_aes_128_def omac1_aes_128_vector_def aes_encrypt_init_def)

lemma ctr_fail: "aes_128_ctr_encrypt mem key nonce data =
   (if mem then Some (ctr_loop (aes_128_E key) (take 16 nonce) data) else None)"
  by (cases mem) (simp_all add: modes_eq, simp add: aes_128_ctr_encrypt_def aes_encrypt_init_def)

lemma length_cmac [simp]: "length (cmac (aes_128_E key) msg) = 16"
  by (simp add: cmac_def Let_def aes_128_E_def aes_encrypt_def rijndaelEncrypt_def enc_last_def PUTU32_octets
      split: prod.splits)

text \<open>The MAC of a nonce, header or ciphertext with its domain number.\<close>

definition eax_mac :: "bytes \<Rightarrow> u8 \<Rightarrow> bytes \<Rightarrow> bytes" where
  "eax_mac key t msg = cmac (aes_128_E key) (replicate 15 0 @ [t] @ msg)"

definition eax_tag :: "bytes \<Rightarrow> bytes \<Rightarrow> bytes \<Rightarrow> bytes \<Rightarrow> bytes" where
  "eax_tag key nonce hdr cipher =
     xor_bytes (xor_bytes (eax_mac key 0 nonce) (eax_mac key 2 cipher)) (eax_mac key 1 hdr)"

lemma eax_encrypt_eq:
  "aes_128_eax_encrypt mem behind key nonce hdr data =
    (if mem 0 \<and> mem 1 \<and> mem 2 \<and> mem 3 \<and> mem 4
     then (let c = ctr_loop (aes_128_E key) (eax_mac key 0 nonce) data in Some (c, eax_tag key nonce hdr c))
     else None)"
  by (simp add: aes_128_eax_encrypt_def omac1_aes_128_fail ctr_fail eax_tag_def eax_mac_def Let_def)

lemma eax_decrypt_eq:
  assumes "length tag = 16"
  shows "aes_128_eax_decrypt mem behind key nonce hdr data tag =
    (if \<not> (mem 0 \<and> mem 1 \<and> mem 2 \<and> mem 3) then (-1, data)
     else if tag \<noteq> eax_tag key nonce hdr data then (-2, data)
     else if mem 4 then (0, ctr_loop (aes_128_E key) (eax_mac key 0 nonce) data) else (-1, data))"
proof -
  have "list_ex (\<lambda>i. tag ! i \<noteq> (eax_mac key 0 nonce ! i XOR eax_mac key 2 data ! i XOR eax_mac key 1 hdr ! i)) [0..<16]
      \<longleftrightarrow> tag \<noteq> eax_tag key nonce hdr data"
    using assms
    by (auto simp: list_ex_iff list_eq_iff_nth_eq eax_tag_def eax_mac_def xor.assoc)
  then show ?thesis
    by (simp add: aes_128_eax_decrypt_def omac1_aes_128_fail ctr_fail eax_mac_def)
qed

text \<open>
  C38: EAX decryption returns the encrypted data for the tag of the encryption, and for every other
  tag -2 with the buffer left alone.
\<close>

theorem eax_roundtrip:
  assumes "aes_128_eax_encrypt mem behind key nonce hdr data = Some (cipher, tag)"
    and "\<And>i. mem' i" "length tag' = 16"
  shows "aes_128_eax_decrypt mem' behind' key nonce hdr cipher tag' =
    (if tag' = tag then (0, data) else (-2, cipher)) \<and> length cipher = length data \<and> length tag = 16"
proof -
  have c: "cipher = ctr_loop (aes_128_E key) (eax_mac key 0 nonce) data" "tag = eax_tag key nonce hdr cipher"
    using assms(1) by (auto simp: eax_encrypt_eq Let_def split: if_splits)
  moreover have "length (eax_mac key 0 nonce) = 16" by (simp add: eax_mac_def)
  ultimately show ?thesis
    using aes128.ctr_loop_twice [of "eax_mac key 0 nonce" key data] assms(2)
    by (simp add: eax_decrypt_eq [OF assms(3)] eax_tag_def eax_mac_def)
qed

section \<open>Applications\<close>

theorem aes_unwrap_wrap_witness:
  "\<exists>cipher. aes_wrap True (replicate 16 0) 2 (replicate 16 5) = Some cipher \<and> aes_unwrap True (replicate 16 0) 2 cipher = Some (replicate 16 5)"
  using aes_unwrap_wrap [of "replicate 16 5" 2 "replicate 16 0"] by auto

theorem aes_cbc_ctr_roundtrip_witness:
  "\<exists>c. aes_128_cbc_encrypt True (replicate 16 0) (replicate 16 1) [1, 2, 3] = Some c \<and> length c = 3"
  using aes_cbc_ctr_roundtrip [of "replicate 16 1" "replicate 16 0" "[1, 2, 3]"] by auto

theorem aes_wrap_rfc3394_witness:
  "aes_wrap True (replicate 16 0) 1 (replicate 8 9) = Some (rfc3394_wrap (aes_128_E (replicate 16 0)) 1 (replicate 8 9))"
  using aes_wrap_rfc3394 [of 1 "replicate 8 9" "replicate 16 0"] by simp


theorem eax_roundtrip_witness:
  "\<exists>cipher tag. aes_128_eax_encrypt (\<lambda>_. True) \<lparr>addr = (\<lambda>e i. 0), len = (\<lambda>e. 0)\<rparr> (replicate 16 0) [1] [2] [3, 4] = Some (cipher, tag) \<and>
     aes_128_eax_decrypt (\<lambda>_. True) \<lparr>addr = (\<lambda>e i. 0), len = (\<lambda>e. 0)\<rparr> (replicate 16 0) [1] [2] cipher tag = (0, [3, 4])"
proof -
  obtain cipher tag where e: "aes_128_eax_encrypt (\<lambda>_. True) \<lparr>addr = (\<lambda>e i. 0), len = (\<lambda>e. 0)\<rparr> (replicate 16 0) [1] [2] [3, 4] = Some (cipher, tag)"
    by (simp add: eax_encrypt_eq Let_def)
  have "length tag = 16" using e by (auto simp: eax_encrypt_eq Let_def eax_tag_def eax_mac_def)
  then show ?thesis using e eax_roundtrip [OF e, of "\<lambda>_. True" tag "\<lparr>addr = (\<lambda>e i. 0), len = (\<lambda>e. 0)\<rparr>"] by auto
qed

end
