(* ===== verification/WpaCommon.thy ===== *)
theory WpaCommon
  imports PmksaCache "HOL-Library.Sublist"
begin

text \<open>
  Cipher suites, key management types and the WPA and RSN elements: \<open>src/common/wpa_common.c\<close>, the
  predicates of \<open>src/common/defs.h\<close> and \<open>src/rsn_supp/wpa_ie.c\<close>.

  The configuration is the one with \<open>CONFIG_IEEE80211W\<close>, \<open>CONFIG_P2P\<close> and \<open>CONFIG_HS20\<close>, and
  without \<open>CONFIG_IEEE80211R\<close>, \<open>CONFIG_PEERKEY\<close>, \<open>CONFIG_SAE\<close> and \<open>CONFIG_FIPS\<close>.

  An element is the list of its octets. A parser that returns a negative number on failure returns
  it in \<open>Inl\<close>; on success it returns the filled structure in \<open>Inr\<close>. A pointer into the parsed
  buffer is the list of the octets from there to the end of the buffer.
\<close>

section \<open>Constants\<close>

abbreviation (input) WPA_CIPHER_NONE :: u32 where "WPA_CIPHER_NONE \<equiv> 0x1"
abbreviation (input) WPA_CIPHER_WEP40 :: u32 where "WPA_CIPHER_WEP40 \<equiv> 0x2"
abbreviation (input) WPA_CIPHER_WEP104 :: u32 where "WPA_CIPHER_WEP104 \<equiv> 0x4"
abbreviation (input) WPA_CIPHER_TKIP :: u32 where "WPA_CIPHER_TKIP \<equiv> 0x8"
abbreviation (input) WPA_CIPHER_CCMP :: u32 where "WPA_CIPHER_CCMP \<equiv> 0x10"
abbreviation (input) WPA_CIPHER_AES_128_CMAC :: u32 where "WPA_CIPHER_AES_128_CMAC \<equiv> 0x20"
abbreviation (input) WPA_CIPHER_GCMP :: u32 where "WPA_CIPHER_GCMP \<equiv> 0x40"
abbreviation (input) WPA_CIPHER_GCMP_256 :: u32 where "WPA_CIPHER_GCMP_256 \<equiv> 0x100"
abbreviation (input) WPA_CIPHER_CCMP_256 :: u32 where "WPA_CIPHER_CCMP_256 \<equiv> 0x200"
abbreviation (input) WPA_CIPHER_BIP_GMAC_128 :: u32 where "WPA_CIPHER_BIP_GMAC_128 \<equiv> 0x800"
abbreviation (input) WPA_CIPHER_BIP_GMAC_256 :: u32 where "WPA_CIPHER_BIP_GMAC_256 \<equiv> 0x1000"
abbreviation (input) WPA_CIPHER_BIP_CMAC_256 :: u32 where "WPA_CIPHER_BIP_CMAC_256 \<equiv> 0x2000"
abbreviation (input) WPA_CIPHER_GTK_NOT_USED :: u32 where "WPA_CIPHER_GTK_NOT_USED \<equiv> 0x4000"

abbreviation (input) WPA_KEY_MGMT_IEEE8021X :: u32 where "WPA_KEY_MGMT_IEEE8021X \<equiv> 0x1"
abbreviation (input) WPA_KEY_MGMT_PSK :: u32 where "WPA_KEY_MGMT_PSK \<equiv> 0x2"
abbreviation (input) WPA_KEY_MGMT_WPA_NONE :: u32 where "WPA_KEY_MGMT_WPA_NONE \<equiv> 0x10"
abbreviation (input) WPA_KEY_MGMT_FT_IEEE8021X :: u32 where "WPA_KEY_MGMT_FT_IEEE8021X \<equiv> 0x20"
abbreviation (input) WPA_KEY_MGMT_FT_PSK :: u32 where "WPA_KEY_MGMT_FT_PSK \<equiv> 0x40"
abbreviation (input) WPA_KEY_MGMT_SAE :: u32 where "WPA_KEY_MGMT_SAE \<equiv> 0x400"
abbreviation (input) WPA_KEY_MGMT_FT_SAE :: u32 where "WPA_KEY_MGMT_FT_SAE \<equiv> 0x800"
abbreviation (input) WPA_KEY_MGMT_CCKM :: u32 where "WPA_KEY_MGMT_CCKM \<equiv> 0x4000"

abbreviation (input) WPA_PROTO_WPA :: u32 where "WPA_PROTO_WPA \<equiv> 0x1"
abbreviation (input) WPA_PROTO_RSN :: u32 where "WPA_PROTO_RSN \<equiv> 0x2"
abbreviation (input) WPA_PROTO_OSEN :: u32 where "WPA_PROTO_OSEN \<equiv> 0x8"

abbreviation (input) WLAN_EID_RSN :: u8 where "WLAN_EID_RSN \<equiv> 48"
abbreviation (input) WLAN_EID_VENDOR_SPECIFIC :: u8 where "WLAN_EID_VENDOR_SPECIFIC \<equiv> 221"

text \<open>\<open>WPA_SUITE n\<close> is the selector \<open>00-50-f2:n\<close> and \<open>RSN_SUITE n\<close> is \<open>00-0f-ac:n\<close>.\<close>

definition RSN_SELECTOR :: "u32 \<Rightarrow> u32 \<Rightarrow> u32 \<Rightarrow> u32 \<Rightarrow> u32" where
  "RSN_SELECTOR a b c d = push_bit 24 a OR push_bit 16 b OR push_bit 8 c OR d"

abbreviation (input) WPA_SUITE :: "u32 \<Rightarrow> u32" where "WPA_SUITE n \<equiv> RSN_SELECTOR 0x00 0x50 0xf2 n"
abbreviation (input) RSN_SUITE :: "u32 \<Rightarrow> u32" where "RSN_SUITE n \<equiv> RSN_SELECTOR 0x00 0x0f 0xac n"
abbreviation (input) WPA_OUI_TYPE :: u32 where "WPA_OUI_TYPE \<equiv> WPA_SUITE 1"
abbreviation (input) AUTH_KEY_MGMT_CCKM :: u32 where "AUTH_KEY_MGMT_CCKM \<equiv> RSN_SELECTOR 0x00 0x40 0x96 0"
abbreviation (input) RSN_AUTH_KEY_MGMT_OSEN :: u32 where "RSN_AUTH_KEY_MGMT_OSEN \<equiv> RSN_SELECTOR 0x50 0x6f 0x9a 1"

section \<open>Key management types\<close>

definition wpa_key_mgmt_wpa_ieee8021x :: "u32 \<Rightarrow> bool" where
  "wpa_key_mgmt_wpa_ieee8021x akm \<longleftrightarrow> akm AND (WPA_KEY_MGMT_IEEE8021X OR WPA_KEY_MGMT_FT_IEEE8021X OR
     WPA_KEY_MGMT_CCKM OR WPA_KEY_MGMT_OSEN OR WPA_KEY_MGMT_IEEE8021X_SHA256) \<noteq> 0"

definition wpa_key_mgmt_wpa_psk :: "u32 \<Rightarrow> bool" where
  "wpa_key_mgmt_wpa_psk akm \<longleftrightarrow> akm AND (WPA_KEY_MGMT_PSK OR WPA_KEY_MGMT_FT_PSK OR
     WPA_KEY_MGMT_PSK_SHA256 OR WPA_KEY_MGMT_SAE OR WPA_KEY_MGMT_FT_SAE) \<noteq> 0"

definition wpa_key_mgmt_ft :: "u32 \<Rightarrow> bool" where
  "wpa_key_mgmt_ft akm \<longleftrightarrow>
     akm AND (WPA_KEY_MGMT_FT_PSK OR WPA_KEY_MGMT_FT_IEEE8021X OR WPA_KEY_MGMT_FT_SAE) \<noteq> 0"

definition wpa_key_mgmt_sae :: "u32 \<Rightarrow> bool" where
  "wpa_key_mgmt_sae akm \<longleftrightarrow> akm AND (WPA_KEY_MGMT_SAE OR WPA_KEY_MGMT_FT_SAE) \<noteq> 0"

definition wpa_key_mgmt_wpa :: "u32 \<Rightarrow> bool" where
  "wpa_key_mgmt_wpa akm \<longleftrightarrow>
     wpa_key_mgmt_wpa_ieee8021x akm \<or> wpa_key_mgmt_wpa_psk akm \<or> wpa_key_mgmt_sae akm"

definition wpa_key_mgmt_wpa_any :: "u32 \<Rightarrow> bool" where
  "wpa_key_mgmt_wpa_any akm \<longleftrightarrow> wpa_key_mgmt_wpa akm \<or> akm AND WPA_KEY_MGMT_WPA_NONE \<noteq> 0"

definition wpa_key_mgmt_cckm :: "u32 \<Rightarrow> bool" where
  "wpa_key_mgmt_cckm akm \<longleftrightarrow> akm = WPA_KEY_MGMT_CCKM"

section \<open>Ciphers\<close>

datatype wpa_alg = WPA_ALG_NONE | WPA_ALG_WEP | WPA_ALG_TKIP | WPA_ALG_CCMP | WPA_ALG_IGTK | WPA_ALG_PMK
  | WPA_ALG_GCMP | WPA_ALG_SMS4 | WPA_ALG_KRK | WPA_ALG_GCMP_256 | WPA_ALG_CCMP_256
  | WPA_ALG_BIP_GMAC_128 | WPA_ALG_BIP_GMAC_256 | WPA_ALG_BIP_CMAC_256

definition wpa_cipher_key_len :: "u32 \<Rightarrow> nat" where
  "wpa_cipher_key_len cipher =
    (if cipher \<in> {WPA_CIPHER_CCMP_256, WPA_CIPHER_GCMP_256, WPA_CIPHER_BIP_GMAC_256, WPA_CIPHER_BIP_CMAC_256} then 32
     else if cipher \<in> {WPA_CIPHER_CCMP, WPA_CIPHER_GCMP, WPA_CIPHER_AES_128_CMAC, WPA_CIPHER_BIP_GMAC_128} then 16
     else if cipher = WPA_CIPHER_TKIP then 32
     else if cipher = WPA_CIPHER_WEP104 then 13
     else if cipher = WPA_CIPHER_WEP40 then 5
     else 0)"

definition wpa_cipher_rsc_len :: "u32 \<Rightarrow> nat" where
  "wpa_cipher_rsc_len cipher =
    (if cipher \<in> {WPA_CIPHER_CCMP_256, WPA_CIPHER_GCMP_256, WPA_CIPHER_CCMP, WPA_CIPHER_GCMP, WPA_CIPHER_TKIP}
     then 6 else 0)"

definition wpa_cipher_to_alg :: "u32 \<Rightarrow> wpa_alg" where
  "wpa_cipher_to_alg cipher =
    (if cipher = WPA_CIPHER_CCMP_256 then WPA_ALG_CCMP_256
     else if cipher = WPA_CIPHER_GCMP_256 then WPA_ALG_GCMP_256
     else if cipher = WPA_CIPHER_CCMP then WPA_ALG_CCMP
     else if cipher = WPA_CIPHER_GCMP then WPA_ALG_GCMP
     else if cipher = WPA_CIPHER_TKIP then WPA_ALG_TKIP
     else if cipher = WPA_CIPHER_WEP104 \<or> cipher = WPA_CIPHER_WEP40 then WPA_ALG_WEP
     else if cipher = WPA_CIPHER_AES_128_CMAC then WPA_ALG_IGTK
     else if cipher = WPA_CIPHER_BIP_GMAC_128 then WPA_ALG_BIP_GMAC_128
     else if cipher = WPA_CIPHER_BIP_GMAC_256 then WPA_ALG_BIP_GMAC_256
     else if cipher = WPA_CIPHER_BIP_CMAC_256 then WPA_ALG_BIP_CMAC_256
     else WPA_ALG_NONE)"

definition wpa_cipher_valid_pairwise :: "u32 \<Rightarrow> bool" where
  "wpa_cipher_valid_pairwise cipher \<longleftrightarrow> cipher = WPA_CIPHER_CCMP_256 \<or> cipher = WPA_CIPHER_GCMP_256 \<or>
     cipher = WPA_CIPHER_CCMP \<or> cipher = WPA_CIPHER_GCMP \<or> cipher = WPA_CIPHER_TKIP"

definition wpa_cipher_valid_group :: "u32 \<Rightarrow> bool" where
  "wpa_cipher_valid_group cipher \<longleftrightarrow> wpa_cipher_valid_pairwise cipher \<or> cipher = WPA_CIPHER_WEP104 \<or>
     cipher = WPA_CIPHER_WEP40 \<or> cipher = WPA_CIPHER_GTK_NOT_USED"

definition wpa_cipher_valid_mgmt_group :: "u32 \<Rightarrow> bool" where
  "wpa_cipher_valid_mgmt_group cipher \<longleftrightarrow> cipher = WPA_CIPHER_AES_128_CMAC \<or> cipher = WPA_CIPHER_BIP_GMAC_128 \<or>
     cipher = WPA_CIPHER_BIP_GMAC_256 \<or> cipher = WPA_CIPHER_BIP_CMAC_256"

text \<open>The bit test of the C conditions.\<close>

abbreviation has :: "u32 \<Rightarrow> u32 \<Rightarrow> bool" where "has x b \<equiv> x AND b \<noteq> 0"

definition wpa_cipher_to_suite :: "u32 \<Rightarrow> u32 \<Rightarrow> u32" where
  "wpa_cipher_to_suite proto cipher =
    (let suite = (\<lambda>n. if proto = WPA_PROTO_RSN then RSN_SUITE n else WPA_SUITE n) in
     if has cipher WPA_CIPHER_CCMP_256 then RSN_SUITE 10
     else if has cipher WPA_CIPHER_GCMP_256 then RSN_SUITE 9
     else if has cipher WPA_CIPHER_CCMP then suite 4
     else if has cipher WPA_CIPHER_GCMP then RSN_SUITE 8
     else if has cipher WPA_CIPHER_TKIP then suite 2
     else if has cipher WPA_CIPHER_WEP104 then suite 5
     else if has cipher WPA_CIPHER_WEP40 then suite 1
     else if has cipher WPA_CIPHER_NONE then suite 0
     else if has cipher WPA_CIPHER_GTK_NOT_USED then RSN_SUITE 7
     else if has cipher WPA_CIPHER_AES_128_CMAC then RSN_SUITE 6
     else if has cipher WPA_CIPHER_BIP_GMAC_128 then RSN_SUITE 11
     else if has cipher WPA_CIPHER_BIP_GMAC_256 then RSN_SUITE 12
     else if has cipher WPA_CIPHER_BIP_CMAC_256 then RSN_SUITE 13
     else 0)"

text \<open>The selectors that the two functions write; their result is the number of selectors.\<close>

definition put_if :: "u32 \<Rightarrow> u32 \<Rightarrow> u32 \<Rightarrow> bytes" where
  "put_if ciphers b suite = (if has ciphers b then WPA_PUT_BE32 suite else [])"

definition rsn_cipher_put_suites :: "u32 \<Rightarrow> bytes" where
  "rsn_cipher_put_suites ciphers =
     put_if ciphers WPA_CIPHER_CCMP_256 (RSN_SUITE 10) @ put_if ciphers WPA_CIPHER_GCMP_256 (RSN_SUITE 9) @
     put_if ciphers WPA_CIPHER_CCMP (RSN_SUITE 4) @ put_if ciphers WPA_CIPHER_GCMP (RSN_SUITE 8) @
     put_if ciphers WPA_CIPHER_TKIP (RSN_SUITE 2) @ put_if ciphers WPA_CIPHER_NONE (RSN_SUITE 0)"

definition wpa_cipher_put_suites :: "u32 \<Rightarrow> bytes" where
  "wpa_cipher_put_suites ciphers =
     put_if ciphers WPA_CIPHER_CCMP (WPA_SUITE 4) @ put_if ciphers WPA_CIPHER_TKIP (WPA_SUITE 2) @
     put_if ciphers WPA_CIPHER_NONE (WPA_SUITE 0)"

text \<open>\<open>None\<close> is -1.\<close>

definition wpa_pick_pairwise_cipher :: "u32 \<Rightarrow> bool \<Rightarrow> u32 option" where
  "wpa_pick_pairwise_cipher ciphers none_allowed =
    (if has ciphers WPA_CIPHER_CCMP_256 then Some WPA_CIPHER_CCMP_256
     else if has ciphers WPA_CIPHER_GCMP_256 then Some WPA_CIPHER_GCMP_256
     else if has ciphers WPA_CIPHER_CCMP then Some WPA_CIPHER_CCMP
     else if has ciphers WPA_CIPHER_GCMP then Some WPA_CIPHER_GCMP
     else if has ciphers WPA_CIPHER_TKIP then Some WPA_CIPHER_TKIP
     else if none_allowed \<and> has ciphers WPA_CIPHER_NONE then Some WPA_CIPHER_NONE
     else None)"

definition wpa_pick_group_cipher :: "u32 \<Rightarrow> u32 option" where
  "wpa_pick_group_cipher ciphers =
    (if has ciphers WPA_CIPHER_CCMP_256 then Some WPA_CIPHER_CCMP_256
     else if has ciphers WPA_CIPHER_GCMP_256 then Some WPA_CIPHER_GCMP_256
     else if has ciphers WPA_CIPHER_CCMP then Some WPA_CIPHER_CCMP
     else if has ciphers WPA_CIPHER_GCMP then Some WPA_CIPHER_GCMP
     else if has ciphers WPA_CIPHER_GTK_NOT_USED then Some WPA_CIPHER_GTK_NOT_USED
     else if has ciphers WPA_CIPHER_TKIP then Some WPA_CIPHER_TKIP
     else if has ciphers WPA_CIPHER_WEP104 then Some WPA_CIPHER_WEP104
     else if has ciphers WPA_CIPHER_WEP40 then Some WPA_CIPHER_WEP40
     else None)"

definition wpa_select_ap_group_cipher :: "u32 \<Rightarrow> u32 \<Rightarrow> u32 \<Rightarrow> u32" where
  "wpa_select_ap_group_cipher wpa wpa_pairwise rsn_pairwise =
    (let pairwise = (if has wpa 1 then wpa_pairwise else 0) OR (if has wpa 2 then rsn_pairwise else 0) in
     if has pairwise WPA_CIPHER_TKIP then WPA_CIPHER_TKIP
     else if pairwise AND (WPA_CIPHER_CCMP OR WPA_CIPHER_GCMP) = WPA_CIPHER_GCMP then WPA_CIPHER_GCMP
     else if pairwise AND (WPA_CIPHER_GCMP_256 OR WPA_CIPHER_CCMP OR WPA_CIPHER_GCMP) = WPA_CIPHER_GCMP_256
       then WPA_CIPHER_GCMP_256
     else if pairwise AND (WPA_CIPHER_CCMP_256 OR WPA_CIPHER_CCMP OR WPA_CIPHER_GCMP) = WPA_CIPHER_CCMP_256
       then WPA_CIPHER_CCMP_256
     else WPA_CIPHER_CCMP)"

definition wpa_akm_to_suite :: "u32 \<Rightarrow> u32" where
  "wpa_akm_to_suite akm =
    (if has akm WPA_KEY_MGMT_FT_IEEE8021X then 0x000fac03
     else if has akm WPA_KEY_MGMT_FT_PSK then 0x000fac04
     else if has akm WPA_KEY_MGMT_IEEE8021X then 0x000fac01
     else if has akm WPA_KEY_MGMT_IEEE8021X_SHA256 then 0x000fac05
     else if has akm WPA_KEY_MGMT_IEEE8021X then 0x000fac01
     else if has akm WPA_KEY_MGMT_PSK_SHA256 then 0x000fac06
     else if has akm WPA_KEY_MGMT_PSK then 0x000fac02
     else if has akm WPA_KEY_MGMT_CCKM then 0x00409600
     else if has akm WPA_KEY_MGMT_OSEN then 0x506f9a01
     else 0)"

section \<open>Selectors\<close>

definition rsn_selector_to_bitfield :: "bytes \<Rightarrow> u32" where
  "rsn_selector_to_bitfield s =
    (let x = WPA_GET_BE32 s in
     if x = RSN_SUITE 0 then WPA_CIPHER_NONE
     else if x = RSN_SUITE 1 then WPA_CIPHER_WEP40
     else if x = RSN_SUITE 2 then WPA_CIPHER_TKIP
     else if x = RSN_SUITE 4 then WPA_CIPHER_CCMP
     else if x = RSN_SUITE 5 then WPA_CIPHER_WEP104
     else if x = RSN_SUITE 6 then WPA_CIPHER_AES_128_CMAC
     else if x = RSN_SUITE 8 then WPA_CIPHER_GCMP
     else if x = RSN_SUITE 10 then WPA_CIPHER_CCMP_256
     else if x = RSN_SUITE 9 then WPA_CIPHER_GCMP_256
     else if x = RSN_SUITE 11 then WPA_CIPHER_BIP_GMAC_128
     else if x = RSN_SUITE 12 then WPA_CIPHER_BIP_GMAC_256
     else if x = RSN_SUITE 13 then WPA_CIPHER_BIP_CMAC_256
     else if x = RSN_SUITE 7 then WPA_CIPHER_GTK_NOT_USED
     else 0)"

definition rsn_key_mgmt_to_bitfield :: "bytes \<Rightarrow> u32" where
  "rsn_key_mgmt_to_bitfield s =
    (let x = WPA_GET_BE32 s in
     if x = RSN_SUITE 1 then WPA_KEY_MGMT_IEEE8021X
     else if x = RSN_SUITE 2 then WPA_KEY_MGMT_PSK
     else if x = RSN_SUITE 5 then WPA_KEY_MGMT_IEEE8021X_SHA256
     else if x = RSN_SUITE 6 then WPA_KEY_MGMT_PSK_SHA256
     else 0)"

definition wpa_selector_to_bitfield :: "bytes \<Rightarrow> u32" where
  "wpa_selector_to_bitfield s =
    (let x = WPA_GET_BE32 s in
     if x = WPA_SUITE 0 then WPA_CIPHER_NONE
     else if x = WPA_SUITE 1 then WPA_CIPHER_WEP40
     else if x = WPA_SUITE 2 then WPA_CIPHER_TKIP
     else if x = WPA_SUITE 4 then WPA_CIPHER_CCMP
     else if x = WPA_SUITE 5 then WPA_CIPHER_WEP104
     else 0)"

definition wpa_key_mgmt_to_bitfield :: "bytes \<Rightarrow> u32" where
  "wpa_key_mgmt_to_bitfield s =
    (let x = WPA_GET_BE32 s in
     if x = WPA_SUITE 1 then WPA_KEY_MGMT_IEEE8021X
     else if x = WPA_SUITE 2 then WPA_KEY_MGMT_PSK
     else if x = WPA_SUITE 0 then WPA_KEY_MGMT_WPA_NONE
     else 0)"

section \<open>Parsing the elements\<close>

record wpa_ie_data =
  d_proto :: u32
  d_pairwise_cipher :: u32
  d_group_cipher :: u32
  d_key_mgmt :: u32
  d_capabilities :: u16
  d_num_pmkid :: nat
  d_pmkid :: "bytes option"
  d_mgmt_group_cipher :: u32

text \<open>
  The loop over a list of selectors, and the part of the parsers that reads the count and the list.
  \<open>short\<close> and \<open>botch\<close> are the error codes for one octet and for a bad count; the result is the
  bit field, or \<open>None\<close> when the list is absent, and the octets that follow.
\<close>

fun suite_list :: "(bytes \<Rightarrow> u32) \<Rightarrow> nat \<Rightarrow> bytes \<Rightarrow> u32 \<Rightarrow> u32 \<times> bytes" where
  "suite_list conv 0 pos acc = (acc, pos)"
| "suite_list conv (Suc n) pos acc = suite_list conv n (drop 4 pos) (acc OR conv pos)"

definition parse_suites ::
    "(bytes \<Rightarrow> u32) \<Rightarrow> int \<Rightarrow> int \<Rightarrow> bytes \<Rightarrow> int + u32 option \<times> bytes" where
  "parse_suites conv botch short pos =
    (if length pos \<ge> 2 then
       (let count = unat (WPA_GET_LE16 pos); pos = drop 2 pos in
        if count = 0 \<or> length pos < count * 4 then Inl botch
        else (let (v, pos) = suite_list conv count pos 0 in Inr (Some v, pos)))
     else if length pos = 1 then Inl short
     else Inr (None, pos))"

text \<open>The end of \<open>wpa_parse_wpa_ie_rsn\<close>: capabilities, PMKIDs and the management group cipher.\<close>

definition parse_rsn_tail :: "wpa_ie_data \<Rightarrow> bytes \<Rightarrow> int + wpa_ie_data" where
  "parse_rsn_tail data pos =
    (let (data, pos) =
       (if length pos \<ge> 2 then (data\<lparr>d_capabilities := WPA_GET_LE16 pos\<rparr>, drop 2 pos) else (data, pos));
       pmkids =
         (if length pos \<ge> 2 then
            (let n = unat (WPA_GET_LE16 pos); pos = drop 2 pos in
             if length pos < n * PMKID_LEN then Inl (-9)
             else Inr (data\<lparr>d_num_pmkid := n, d_pmkid := Some pos\<rparr>, drop (n * PMKID_LEN) pos))
          else Inr (data, pos)) in
     case pmkids of
       Inl err \<Rightarrow> Inl err
     | Inr (data, pos) \<Rightarrow>
         if length pos \<ge> 4 then
           (let c = rsn_selector_to_bitfield pos in
            if wpa_cipher_valid_mgmt_group c then Inr (data\<lparr>d_mgmt_group_cipher := c\<rparr>) else Inl (-10))
         else Inr data)"

definition wpa_parse_wpa_ie_rsn :: "bytes \<Rightarrow> int + wpa_ie_data" where
  "wpa_parse_wpa_ie_rsn rsn_ie =
    (let data = \<lparr>d_proto = WPA_PROTO_RSN, d_pairwise_cipher = WPA_CIPHER_CCMP, d_group_cipher = WPA_CIPHER_CCMP,
           d_key_mgmt = WPA_KEY_MGMT_IEEE8021X, d_capabilities = 0, d_num_pmkid = 0, d_pmkid = None,
           d_mgmt_group_cipher = WPA_CIPHER_AES_128_CMAC\<rparr> in
     if length rsn_ie < 4 then Inl (-1)
     else if rsn_ie ! 0 \<noteq> WLAN_EID_RSN \<or> unat (rsn_ie ! 1) \<noteq> length rsn_ie - 2 \<or>
         WPA_GET_LE16 (drop 2 rsn_ie) \<noteq> 1 then Inl (-2)
     else
       (let pos = drop 4 rsn_ie; group = rsn_selector_to_bitfield pos in
        if length pos \<ge> 4 \<and> \<not> wpa_cipher_valid_group group then Inl (-1)
        else if 0 < length pos \<and> length pos < 4 then Inl (-3)
        else
          (let (data, pos) =
             (if length pos \<ge> 4 then (data\<lparr>d_group_cipher := group\<rparr>, drop 4 pos) else (data, pos)) in
           case parse_suites rsn_selector_to_bitfield (-4) (-5) pos of
             Inl err \<Rightarrow> Inl err
           | Inr (pc, pos) \<Rightarrow>
             if pc \<noteq> None \<and> has (the pc) WPA_CIPHER_AES_128_CMAC then Inl (-1)
             else
               (let data = (case pc of None \<Rightarrow> data | Some v \<Rightarrow> data\<lparr>d_pairwise_cipher := v\<rparr>) in
                case parse_suites rsn_key_mgmt_to_bitfield (-6) (-7) pos of
                  Inl err \<Rightarrow> Inl err
                | Inr (akm, pos) \<Rightarrow>
                    parse_rsn_tail (case akm of None \<Rightarrow> data | Some k \<Rightarrow> data\<lparr>d_key_mgmt := k\<rparr>) pos))))"

definition wpa_parse_wpa_ie_wpa :: "bytes \<Rightarrow> int + wpa_ie_data" where
  "wpa_parse_wpa_ie_wpa wpa_ie =
    (let data = \<lparr>d_proto = WPA_PROTO_WPA, d_pairwise_cipher = WPA_CIPHER_TKIP, d_group_cipher = WPA_CIPHER_TKIP,
           d_key_mgmt = WPA_KEY_MGMT_IEEE8021X, d_capabilities = 0, d_num_pmkid = 0, d_pmkid = None,
           d_mgmt_group_cipher = 0\<rparr> in
     if length wpa_ie < 8 then Inl (-1)
     else if wpa_ie ! 0 \<noteq> WLAN_EID_VENDOR_SPECIFIC \<or> unat (wpa_ie ! 1) \<noteq> length wpa_ie - 2 \<or>
         WPA_GET_BE32 (drop 2 wpa_ie) \<noteq> WPA_OUI_TYPE \<or> WPA_GET_LE16 (drop 6 wpa_ie) \<noteq> 1 then Inl (-2)
     else
       (let pos = drop 8 wpa_ie in
        if 0 < length pos \<and> length pos < 4 then Inl (-3)
        else
          (let (data, pos) =
             (if length pos \<ge> 4 then (data\<lparr>d_group_cipher := wpa_selector_to_bitfield pos\<rparr>, drop 4 pos)
              else (data, pos)) in
           case parse_suites wpa_selector_to_bitfield (-4) (-5) pos of
             Inl err \<Rightarrow> Inl err
           | Inr (pc, pos) \<Rightarrow>
             (let data = (case pc of None \<Rightarrow> data | Some v \<Rightarrow> data\<lparr>d_pairwise_cipher := v\<rparr>) in
              case parse_suites wpa_key_mgmt_to_bitfield (-6) (-7) pos of
                Inl err \<Rightarrow> Inl err
              | Inr (akm, pos) \<Rightarrow>
                (let data = (case akm of None \<Rightarrow> data | Some k \<Rightarrow> data\<lparr>d_key_mgmt := k\<rparr>) in
                 Inr (if length pos \<ge> 2 then data\<lparr>d_capabilities := WPA_GET_LE16 pos\<rparr> else data))))))"

definition wpa_parse_wpa_ie :: "bytes \<Rightarrow> int + wpa_ie_data" where
  "wpa_parse_wpa_ie wpa_ie =
    (if length wpa_ie \<ge> 1 \<and> wpa_ie ! 0 = WLAN_EID_RSN then wpa_parse_wpa_ie_rsn wpa_ie
     else wpa_parse_wpa_ie_wpa wpa_ie)"

definition wpa_compare_rsn_ie :: "bool \<Rightarrow> bytes option \<Rightarrow> bytes option \<Rightarrow> bool" where
  "wpa_compare_rsn_ie ft_initial_assoc ie1 ie2 =
    (case (ie1, ie2) of (Some a, Some b) \<Rightarrow> a = b | _ \<Rightarrow> False)"

section \<open>Generating the elements\<close>

text \<open>
  The octets that the code writes; the length field of the header is filled in at the end.
  \<open>None\<close> is -1.
\<close>

definition ie_finish :: "bytes \<Rightarrow> bytes" where
  "ie_finish ie = ie[1 := word_of_nat (length ie - 2)]"

definition pairwise_suite :: "u32 \<Rightarrow> u32 \<Rightarrow> u32 option" where
  "pairwise_suite proto cipher =
    (let suite = wpa_cipher_to_suite proto cipher in
     if suite = 0 \<or> (\<not> wpa_cipher_valid_pairwise cipher \<and> cipher \<noteq> WPA_CIPHER_NONE) then None else Some suite)"

definition wpa_gen_wpa_ie_wpa :: "nat \<Rightarrow> u32 \<Rightarrow> u32 \<Rightarrow> u32 \<Rightarrow> bytes option" where
  "wpa_gen_wpa_ie_wpa wpa_ie_len pairwise_cipher group_cipher key_mgmt =
    (if wpa_ie_len < 8 + 4 + 2 + 4 + 2 + 4 then None
     else
       (let group = wpa_cipher_to_suite WPA_PROTO_WPA group_cipher in
        if group = 0 then None
        else case pairwise_suite WPA_PROTO_WPA pairwise_cipher of
          None \<Rightarrow> None
        | Some suite \<Rightarrow>
            (let akm =
               (if key_mgmt = WPA_KEY_MGMT_IEEE8021X then WPA_SUITE 1
                else if key_mgmt = WPA_KEY_MGMT_PSK then WPA_SUITE 2
                else if key_mgmt = WPA_KEY_MGMT_WPA_NONE then WPA_SUITE 0
                else AUTH_KEY_MGMT_CCKM) in
             if key_mgmt \<notin> {WPA_KEY_MGMT_IEEE8021X, WPA_KEY_MGMT_PSK, WPA_KEY_MGMT_WPA_NONE, WPA_KEY_MGMT_CCKM}
             then None
             else Some (ie_finish ([WLAN_EID_VENDOR_SPECIFIC, 0] @ WPA_PUT_BE32 WPA_OUI_TYPE @ WPA_PUT_LE16 1 @
                WPA_PUT_BE32 group @ [1, 0] @ WPA_PUT_BE32 suite @ [1, 0] @ WPA_PUT_BE32 akm)))))"

text \<open>\<open>cur\<close> is the PMKID of the current PMKSA cache entry, when there is one.\<close>

definition wpa_gen_wpa_ie_rsn ::
    "nat \<Rightarrow> u32 \<Rightarrow> u32 \<Rightarrow> u32 \<Rightarrow> u32 \<Rightarrow> nat \<Rightarrow> bytes option \<Rightarrow> bytes option" where
  "wpa_gen_wpa_ie_rsn rsn_ie_len pairwise_cipher group_cipher key_mgmt mgmt_group_cipher mfp cur =
    (if rsn_ie_len < 4 + 4 + 2 + 4 + 2 + 4 + 2 + (if cur \<noteq> None then 2 + PMKID_LEN else 0) then None
     else
       (let group = wpa_cipher_to_suite WPA_PROTO_RSN group_cipher in
        if group = 0 then None
        else case pairwise_suite WPA_PROTO_RSN pairwise_cipher of
          None \<Rightarrow> None
        | Some suite \<Rightarrow>
            (let akm =
               (if key_mgmt = WPA_KEY_MGMT_IEEE8021X then RSN_SUITE 1
                else if key_mgmt = WPA_KEY_MGMT_PSK then RSN_SUITE 2
                else if key_mgmt = WPA_KEY_MGMT_CCKM then AUTH_KEY_MGMT_CCKM
                else if key_mgmt = WPA_KEY_MGMT_IEEE8021X_SHA256 then RSN_SUITE 5
                else RSN_SUITE 6);
              capab = (if mfp \<noteq> 0 then 0x80 else 0) OR (if mfp = 2 then 0x40 else 0) in
             if key_mgmt \<notin> {WPA_KEY_MGMT_IEEE8021X, WPA_KEY_MGMT_PSK, WPA_KEY_MGMT_CCKM,
                 WPA_KEY_MGMT_IEEE8021X_SHA256, WPA_KEY_MGMT_PSK_SHA256} then None
             else Some (ie_finish ([WLAN_EID_RSN, 0] @ WPA_PUT_LE16 1 @ WPA_PUT_BE32 group @
                [1, 0] @ WPA_PUT_BE32 suite @ [1, 0] @ WPA_PUT_BE32 akm @ WPA_PUT_LE16 capab @
                (case cur of None \<Rightarrow> [] | Some pid \<Rightarrow> [1, 0] @ take PMKID_LEN pid) @
                (if wpa_cipher_valid_mgmt_group mgmt_group_cipher
                 then (if cur = None then WPA_PUT_LE16 0 else []) @
                   WPA_PUT_BE32 (wpa_cipher_to_suite WPA_PROTO_RSN mgmt_group_cipher)
                 else []))))))"

definition wpa_gen_wpa_ie_osen :: "nat \<Rightarrow> u32 \<Rightarrow> u32 \<Rightarrow> bytes option" where
  "wpa_gen_wpa_ie_osen wpa_ie_len pairwise_cipher group_cipher =
    (if wpa_ie_len < 2 + 4 + 4 + 2 + 4 + 2 + 4 then None
     else
       (let group = wpa_cipher_to_suite WPA_PROTO_RSN group_cipher in
        if group = 0 then None
        else case pairwise_suite WPA_PROTO_RSN pairwise_cipher of
          None \<Rightarrow> None
        | Some suite \<Rightarrow>
            Some (ie_finish ([WLAN_EID_VENDOR_SPECIFIC, 0] @ WPA_PUT_BE24 0x506f9a @ [18] @ WPA_PUT_BE32 group @
              WPA_PUT_LE16 1 @ WPA_PUT_BE32 suite @ WPA_PUT_LE16 1 @ WPA_PUT_BE32 RSN_AUTH_KEY_MGMT_OSEN))))"

section \<open>Key data\<close>

text \<open>
  A field with a length is the list of its octets; a pointer without one is the list of the octets
  from there to the end of the element it points into.
\<close>

record wpa_eapol_ie_parse =
  ie_wpa_ie :: "bytes option"
  ie_rsn_ie :: "bytes option"
  ie_pmkid :: "bytes option"
  ie_gtk :: "bytes option"
  ie_mac_addr :: "bytes option"
  ie_igtk :: "bytes option"
  ie_mdie :: "bytes option"
  ie_ftie :: "bytes option"
  ie_reassoc_deadline :: "bytes option"
  ie_key_lifetime :: "bytes option"
  ie_lnkid :: "bytes option"
  ie_ext_capab :: "bytes option"
  ie_supp_rates :: "bytes option"
  ie_ext_supp_rates :: "bytes option"
  ie_ht_capabilities :: "bytes option"
  ie_vht_capabilities :: "bytes option"
  ie_supp_channels :: "bytes option"
  ie_supp_oper_classes :: "bytes option"
  ie_qosinfo :: u8
  ie_aid :: u16
  ie_wmm :: "bytes option"
  ie_ip_addr_req :: "bytes option"
  ie_ip_addr_alloc :: "bytes option"

definition ie_parse_empty :: wpa_eapol_ie_parse where
  "ie_parse_empty = \<lparr>ie_wpa_ie = None, ie_rsn_ie = None, ie_pmkid = None, ie_gtk = None, ie_mac_addr = None,
     ie_igtk = None, ie_mdie = None, ie_ftie = None, ie_reassoc_deadline = None, ie_key_lifetime = None,
     ie_lnkid = None, ie_ext_capab = None, ie_supp_rates = None, ie_ext_supp_rates = None,
     ie_ht_capabilities = None, ie_vht_capabilities = None, ie_supp_channels = None,
     ie_supp_oper_classes = None, ie_qosinfo = 0, ie_aid = 0, ie_wmm = None, ie_ip_addr_req = None,
     ie_ip_addr_alloc = None\<rparr>"

text \<open>
  \<open>p\<close> is the memory from \<open>pos\<close> on and \<open>room\<close> is \<open>end - pos\<close>; the element at \<open>pos\<close> has \<open>p ! 1\<close> octets
  after its header. The result is the return value (1 ends the parsing) and the structure.
\<close>

definition wpa_parse_vendor_specific :: "bytes \<Rightarrow> wpa_eapol_ie_parse \<Rightarrow> int \<times> wpa_eapol_ie_parse" where
  "wpa_parse_vendor_specific p ie =
    (let n = unat (p ! 1) in
     if n < 4 then (1, ie)
     else if WPA_GET_BE24 (drop 2 p) = 0x0050f2 \<and> p ! 5 = 2 \<and> n > 4 then
       (if p ! 6 = 0 \<or> p ! 6 = 1 then (0, ie\<lparr>ie_wmm := Some (take n (drop 2 p))\<rparr>) else (0, ie))
     else (0, ie))"

definition wpa_parse_generic :: "bytes \<Rightarrow> nat \<Rightarrow> wpa_eapol_ie_parse \<Rightarrow> int \<times> wpa_eapol_ie_parse" where
  "wpa_parse_generic p room ie =
    (let n = unat (p ! 1); sel = WPA_GET_BE32 (drop 2 p); body = take (n - 4) (drop 6 p) in
     if n = 0 then (1, ie)
     else if n \<ge> 6 \<and> sel = WPA_OUI_TYPE \<and> p ! 6 = 1 \<and> p ! 7 = 0
       then (0, ie\<lparr>ie_wpa_ie := Some (take (2 + n) p)\<rparr>)
     else if 5 < room \<and> n \<ge> 4 + PMKID_LEN \<and> sel = RSN_SUITE 4 then (0, ie\<lparr>ie_pmkid := Some body\<rparr>)
     else if n > 6 \<and> sel = RSN_SUITE 1 then (0, ie\<lparr>ie_gtk := Some body\<rparr>)
     else if n > 6 \<and> sel = RSN_SUITE 3 then (0, ie\<lparr>ie_mac_addr := Some body\<rparr>)
     else if n > 6 \<and> sel = RSN_SUITE 9 then (0, ie\<lparr>ie_igtk := Some body\<rparr>)
     else if n \<ge> 5 \<and> sel = RSN_SELECTOR 0x50 0x6f 0x9a 4 then (0, ie\<lparr>ie_ip_addr_req := Some body\<rparr>)
     else if n \<ge> 16 \<and> sel = RSN_SELECTOR 0x50 0x6f 0x9a 5 then (0, ie\<lparr>ie_ip_addr_alloc := Some body\<rparr>)
     else (0, ie))"

text \<open>One element of the loop of \<open>wpa_supplicant_parse_ies\<close>; the flag says that the loop ends.\<close>

definition parse_ies_element :: "bytes \<Rightarrow> nat \<Rightarrow> wpa_eapol_ie_parse \<Rightarrow> bool \<times> wpa_eapol_ie_parse" where
  "parse_ies_element p room ie =
    (let eid = p ! 0; n = unat (p ! 1); el = take (2 + n) p; body = take n (drop 2 p) in
     if eid = WLAN_EID_RSN then (False, ie\<lparr>ie_rsn_ie := Some el\<rparr>)
     else if eid = 54 then (False, ie\<lparr>ie_mdie := Some el\<rparr>)
     else if eid = 55 then (False, ie\<lparr>ie_ftie := Some el\<rparr>)
     else if eid = 56 \<and> n \<ge> 5 then
       (if p ! 2 = 1 then (False, ie\<lparr>ie_reassoc_deadline := Some el\<rparr>)
        else if p ! 2 = 2 then (False, ie\<lparr>ie_key_lifetime := Some el\<rparr>)
        else (False, ie))
     else if eid = 101 then (False, if n \<ge> 18 then ie\<lparr>ie_lnkid := Some el\<rparr> else ie)
     else if eid = 127 then (False, ie\<lparr>ie_ext_capab := Some el\<rparr>)
     else if eid = 1 then (False, ie\<lparr>ie_supp_rates := Some el\<rparr>)
     else if eid = 50 then (False, ie\<lparr>ie_ext_supp_rates := Some el\<rparr>)
     else if eid = 45 then (False, ie\<lparr>ie_ht_capabilities := Some body\<rparr>)
     else if eid = 197 then (False, if n \<ge> 2 then ie\<lparr>ie_aid := WPA_GET_LE16 (drop 2 p) AND 0x3fff\<rparr> else ie)
     else if eid = 191 then (False, ie\<lparr>ie_vht_capabilities := Some body\<rparr>)
     else if eid = 46 \<and> n \<ge> 1 then (False, ie\<lparr>ie_qosinfo := p ! 2\<rparr>)
     else if eid = 36 then (False, ie\<lparr>ie_supp_channels := Some body\<rparr>)
     else if eid = 59 then
       (False, if n \<ge> 2 \<and> n \<le> 253 then ie\<lparr>ie_supp_oper_classes := Some body\<rparr> else ie)
     else if eid = WLAN_EID_VENDOR_SPECIFIC then
       (let (ret, ie) = wpa_parse_generic p room ie in
        if ret \<noteq> 0 then (True, ie)
        else (let (ret, ie) = wpa_parse_vendor_specific p ie in (ret \<noteq> 0, ie)))
     else (False, ie))"

text \<open>
  The loop over the memory \<open>mem\<close>, of which the first \<open>len\<close> octets are the key data. The flag of the
  result is false for -1.
\<close>

function parse_ies_loop ::
    "bytes \<Rightarrow> nat \<Rightarrow> nat \<Rightarrow> wpa_eapol_ie_parse \<Rightarrow> bool \<times> wpa_eapol_ie_parse" where
  "parse_ies_loop mem len pos ie =
    (if pos + 1 < len then
       (let n = unat (mem ! (pos + 1)) in
        if mem ! pos = 0xdd \<and> (pos = len - 1 \<or> n = 0) then (True, ie)
        else if pos + 2 + n > len then (False, ie)
        else
          (let (stop, ie) = parse_ies_element (drop pos mem) (len - pos) ie in
           if stop then (True, ie) else parse_ies_loop mem len (pos + 2 + n) ie))
     else (True, ie))"
  by pat_completeness auto
termination by (relation "measure (\<lambda>(mem, len, pos, ie). len - pos)") auto

declare parse_ies_loop.simps [simp del]

definition wpa_supplicant_parse_ies :: "bytes \<Rightarrow> nat \<Rightarrow> wpa_eapol_ie_parse option" where
  "wpa_supplicant_parse_ies mem len =
    (case parse_ies_loop mem len 0 ie_parse_empty of (True, ie) \<Rightarrow> Some ie | (False, ie) \<Rightarrow> None)"

section \<open>Lists of ciphers in the configuration\<close>

text \<open>The words of the text, separated by blanks and tabs, and the name of each cipher.\<close>

definition cipher_names :: "(bytes \<times> u32) list" where
  "cipher_names = [
     (map (of_char :: char \<Rightarrow> u8) ''CCMP-256'', WPA_CIPHER_CCMP_256), (map of_char ''GCMP-256'', WPA_CIPHER_GCMP_256),
     (map of_char ''CCMP'', WPA_CIPHER_CCMP), (map of_char ''GCMP'', WPA_CIPHER_GCMP),
     (map of_char ''TKIP'', WPA_CIPHER_TKIP), (map of_char ''WEP104'', WPA_CIPHER_WEP104),
     (map of_char ''WEP40'', WPA_CIPHER_WEP40), (map of_char ''NONE'', WPA_CIPHER_NONE),
     (map of_char ''GTK_NOT_USED'', WPA_CIPHER_GTK_NOT_USED)]"

definition is_blank :: "u8 \<Rightarrow> bool" where
  "is_blank c \<longleftrightarrow> c = 0x20 \<or> c = 0x09"

text \<open>The loop of \<open>wpa_parse_cipher\<close> from \<open>start\<close>; \<open>None\<close> is -1.\<close>

function parse_cipher_loop :: "bytes \<Rightarrow> u32 \<Rightarrow> u32 option" where
  "parse_cipher_loop start val =
    (let start = dropWhile is_blank start in
     if start = [] then Some val
     else
       (let word = takeWhile (\<lambda>c. \<not> is_blank c) start; rest = dropWhile (\<lambda>c. \<not> is_blank c) start in
        case map_of cipher_names word of
          None \<Rightarrow> None
        | Some c \<Rightarrow> if rest = [] then Some (val OR c) else parse_cipher_loop (tl rest) (val OR c)))"
  by pat_completeness auto
termination
proof (relation "measure (\<lambda>(start, val). length start)", goal_cases)
  case (2 start val s word rest c)
  have "length rest \<le> length s" "length s \<le> length start"
    using 2 by (simp_all add: length_dropWhile_le)
  moreover have "rest \<noteq> []" using 2 by simp
  ultimately show ?case by (cases rest) auto
qed simp

declare parse_cipher_loop.simps [simp del]

definition wpa_parse_cipher :: "bool \<Rightarrow> bytes \<Rightarrow> u32 option" where
  "wpa_parse_cipher mem value = (if mem then parse_cipher_loop value 0 else None)"

text \<open>
  One step of \<open>wpa_write_ciphers\<close>: \<open>out\<close> has been written into a buffer of \<open>size\<close> octets. \<open>None\<close>
  is -1, when the text and its NUL do not fit.
\<close>

definition write_cipher :: "nat \<Rightarrow> bytes \<Rightarrow> u32 \<Rightarrow> bytes \<times> u32 \<Rightarrow> bytes option \<Rightarrow> bytes option" where
  "write_cipher room delim ciphers = (\<lambda>(name, b) out.
    (case out of
       None \<Rightarrow> None
     | Some out \<Rightarrow>
         if has ciphers b then
           (let s = (if out = [] then [] else delim) @ name in
            if length s \<ge> room - length out then None else Some (out @ s))
         else Some out))"

definition wpa_write_ciphers :: "nat \<Rightarrow> u32 \<Rightarrow> bytes \<Rightarrow> bytes option" where
  "wpa_write_ciphers room ciphers delim = fold (write_cipher room delim ciphers) (butlast cipher_names) (Some [])"

section \<open>Selectors and suites\<close>

lemma suite_values [simp]:
  "RSN_SELECTOR 0 0x50 0xf2 0 = 0x50f200"
  "RSN_SELECTOR 0 0x50 0xf2 1 = 0x50f201"
  "RSN_SELECTOR 0 0x50 0xf2 2 = 0x50f202"
  "RSN_SELECTOR 0 0x50 0xf2 4 = 0x50f204"
  "RSN_SELECTOR 0 0x50 0xf2 5 = 0x50f205"
  "RSN_SELECTOR 0 0xf 0xac 0 = 0xfac00"
  "RSN_SELECTOR 0 0xf 0xac 1 = 0xfac01"
  "RSN_SELECTOR 0 0xf 0xac 2 = 0xfac02"
  "RSN_SELECTOR 0 0xf 0xac 3 = 0xfac03"
  "RSN_SELECTOR 0 0xf 0xac 4 = 0xfac04"
  "RSN_SELECTOR 0 0xf 0xac 5 = 0xfac05"
  "RSN_SELECTOR 0 0xf 0xac 6 = 0xfac06"
  "RSN_SELECTOR 0 0xf 0xac 7 = 0xfac07"
  "RSN_SELECTOR 0 0xf 0xac 8 = 0xfac08"
  "RSN_SELECTOR 0 0xf 0xac 9 = 0xfac09"
  "RSN_SELECTOR 0 0xf 0xac 10 = 0xfac0a"
  "RSN_SELECTOR 0 0xf 0xac 11 = 0xfac0b"
  "RSN_SELECTOR 0 0xf 0xac 12 = 0xfac0c"
  "RSN_SELECTOR 0 0xf 0xac 13 = 0xfac0d"
  "RSN_SELECTOR 0 0x40 0x96 0 = 0x409600"
  "RSN_SELECTOR 0x50 0x6f 0x9a 1 = 0x506f9a01"
  "RSN_SELECTOR 0x50 0x6f 0x9a 4 = 0x506f9a04"
  "RSN_SELECTOR 0x50 0x6f 0x9a 5 = 0x506f9a05"
  by (simp_all add: RSN_SELECTOR_def)

lemma rsn_suite_cipher:
  "wpa_cipher_valid_group c \<or> c = WPA_CIPHER_NONE \<or> wpa_cipher_valid_mgmt_group c \<Longrightarrow>
     rsn_selector_to_bitfield (WPA_PUT_BE32 (wpa_cipher_to_suite WPA_PROTO_RSN c) @ rest) = c"
  unfolding wpa_cipher_valid_pairwise_def wpa_cipher_valid_group_def wpa_cipher_valid_mgmt_group_def
  by (elim disjE) (simp_all add: rsn_selector_to_bitfield_def wpa_cipher_to_suite_def Let_def)

lemma wpa_suite_cipher:
  "c = WPA_CIPHER_CCMP \<or> c = WPA_CIPHER_TKIP \<or> c = WPA_CIPHER_WEP104 \<or> c = WPA_CIPHER_WEP40 \<or> c = WPA_CIPHER_NONE \<Longrightarrow>
     wpa_selector_to_bitfield (WPA_PUT_BE32 (wpa_cipher_to_suite WPA_PROTO_WPA c) @ rest) = c"
  by (elim disjE) (simp_all add: wpa_selector_to_bitfield_def wpa_cipher_to_suite_def Let_def)

definition rsn_akm_suite :: "u32 \<Rightarrow> u32" where
  "rsn_akm_suite k = (if k = WPA_KEY_MGMT_IEEE8021X then RSN_SUITE 1
                else if k = WPA_KEY_MGMT_PSK then RSN_SUITE 2
                else if k = WPA_KEY_MGMT_CCKM then AUTH_KEY_MGMT_CCKM
                else if k = WPA_KEY_MGMT_IEEE8021X_SHA256 then RSN_SUITE 5
                else RSN_SUITE 6)"

lemma rsn_akm_bitfield:
  "k \<in> {WPA_KEY_MGMT_IEEE8021X, WPA_KEY_MGMT_PSK, WPA_KEY_MGMT_IEEE8021X_SHA256, WPA_KEY_MGMT_PSK_SHA256} \<Longrightarrow>
     rsn_key_mgmt_to_bitfield (WPA_PUT_BE32 (rsn_akm_suite k) @ rest) = k"
  by (auto simp: rsn_key_mgmt_to_bitfield_def rsn_akm_suite_def Let_def)

lemma LE16_one: "WPA_GET_LE16 (1 # 0 # rest) = 1"
  by (simp add: endian_defs)

lemma PUT_LE16_one: "WPA_PUT_LE16 1 = [1, 0]" "WPA_PUT_LE16 0 = [0, 0]"
  by (simp_all add: endian_defs)

lemma LE16_zero: "WPA_GET_LE16 (0 # 0 # rest) = 0"
  by (simp add: endian_defs)

lemma parse_one_suite:
  "parse_suites conv botch short (1 # 0 # WPA_PUT_BE32 s @ rest) = Inr (Some (conv (WPA_PUT_BE32 s @ rest)), rest)"
  by (simp add: parse_suites_def LE16_one Let_def numeral_2_eq_2)

lemma parse_one_suite_end:
  "parse_suites conv botch short (1 # 0 # WPA_PUT_BE32 s) = Inr (Some (conv (WPA_PUT_BE32 s)), [])"
  using parse_one_suite [of conv botch short s "[]"] by simp

lemma pairwise_not_cmac:
  "wpa_cipher_valid_pairwise c \<or> c = WPA_CIPHER_NONE \<Longrightarrow> \<not> has c WPA_CIPHER_AES_128_CMAC"
  by (auto simp: wpa_cipher_valid_pairwise_def)

text \<open>What the parser reads from the end of an element that the generator wrote.\<close>

definition rsn_end :: "u16 \<Rightarrow> bytes option \<Rightarrow> u32 \<Rightarrow> bytes" where
  "rsn_end capab cur mgmt = WPA_PUT_LE16 capab @ (case cur of None \<Rightarrow> [] | Some pid \<Rightarrow> [1, 0] @ take PMKID_LEN pid) @
     (if wpa_cipher_valid_mgmt_group mgmt
      then (if cur = None then WPA_PUT_LE16 0 else []) @ WPA_PUT_BE32 (wpa_cipher_to_suite WPA_PROTO_RSN mgmt)
      else [])"

lemma length_rsn_end:
  "length (rsn_end capab cur mgmt) \<le> 2 + (if cur = None then 2 else 18) + 4"
  by (cases cur) (auto simp: rsn_end_def)

lemma parse_rsn_end:
  assumes "d_num_pmkid data = 0" and "case cur of None \<Rightarrow> True | Some pid \<Rightarrow> length pid = PMKID_LEN"
  shows "\<exists>d. parse_rsn_tail data (rsn_end capab cur mgmt) = Inr d \<and> d_proto d = d_proto data \<and>
      d_pairwise_cipher d = d_pairwise_cipher data \<and> d_group_cipher d = d_group_cipher data \<and>
      d_key_mgmt d = d_key_mgmt data \<and> d_capabilities d = capab \<and>
      d_mgmt_group_cipher d = (if wpa_cipher_valid_mgmt_group mgmt then mgmt else d_mgmt_group_cipher data) \<and>
      (case cur of None \<Rightarrow> d_num_pmkid d = 0
       | Some pid \<Rightarrow> d_num_pmkid d = 1 \<and> (\<exists>rest. d_pmkid d = Some (pid @ rest)))"
proof (cases cur)
  case None
  then show ?thesis
    using assms rsn_suite_cipher [of mgmt "[]"]
    by (auto simp: parse_rsn_tail_def rsn_end_def Let_def PUT_LE16_one LE16_zero)
next
  case (Some pid)
  then show ?thesis
    using assms rsn_suite_cipher [of mgmt "[]"]
    by (auto simp: parse_rsn_tail_def rsn_end_def Let_def LE16_one)
qed

text \<open>The element, as the generator lays it out.\<close>

definition rsn_body :: "u32 \<Rightarrow> u32 \<Rightarrow> u32 \<Rightarrow> bytes \<Rightarrow> bytes" where
  "rsn_body gc suite akm rest = 1 # 0 # WPA_PUT_BE32 gc @ 1 # 0 # WPA_PUT_BE32 suite @ 1 # 0 # WPA_PUT_BE32 akm @ rest"

lemma length_rsn_body [simp]: "length (rsn_body gc suite akm rest) = 18 + length rest"
  by (simp add: rsn_body_def)

lemma parse_rsn_body:
  assumes "n = 18 + length tail" "n < 256" "wpa_cipher_valid_group g" "wpa_cipher_valid_pairwise p \<or> p = WPA_CIPHER_NONE"
    and "k \<in> {WPA_KEY_MGMT_IEEE8021X, WPA_KEY_MGMT_PSK, WPA_KEY_MGMT_IEEE8021X_SHA256, WPA_KEY_MGMT_PSK_SHA256}"
  shows "wpa_parse_wpa_ie (WLAN_EID_RSN # word_of_nat n #
      rsn_body (wpa_cipher_to_suite WPA_PROTO_RSN g) (wpa_cipher_to_suite WPA_PROTO_RSN p) (rsn_akm_suite k) tail) =
    parse_rsn_tail \<lparr>d_proto = WPA_PROTO_RSN, d_pairwise_cipher = p, d_group_cipher = g, d_key_mgmt = k,
      d_capabilities = 0, d_num_pmkid = 0, d_pmkid = None, d_mgmt_group_cipher = WPA_CIPHER_AES_128_CMAC\<rparr> tail"
proof -
  have "unat (word_of_nat n :: u8) = n"
    using assms(2) by (simp add: unat_of_nat take_bit_nat_eq_self)
  moreover have "rsn_selector_to_bitfield (WPA_PUT_BE32 (wpa_cipher_to_suite WPA_PROTO_RSN g) @ rest) = g" for rest
    using assms(3) by (intro rsn_suite_cipher) simp
  moreover have "rsn_selector_to_bitfield (WPA_PUT_BE32 (wpa_cipher_to_suite WPA_PROTO_RSN p) @ rest) = p" for rest
    using assms(4) by (intro rsn_suite_cipher) (auto simp: wpa_cipher_valid_group_def)
  moreover note pairwise_not_cmac [OF assms(4)] rsn_akm_bitfield [OF assms(5)]
  ultimately show ?thesis
    using assms(1,3)
    by (simp add: wpa_parse_wpa_ie_def wpa_parse_wpa_ie_rsn_def rsn_body_def parse_one_suite LE16_one Let_def)
qed

lemma wpa_gen_rsn_layout:
  assumes "wpa_gen_wpa_ie_rsn rsn_ie_len p g k mgmt mfp cur = Some ie"
  shows "ie = WLAN_EID_RSN # word_of_nat (length ie - 2) # rsn_body (wpa_cipher_to_suite WPA_PROTO_RSN g)
      (wpa_cipher_to_suite WPA_PROTO_RSN p) (rsn_akm_suite k)
      (rsn_end ((if mfp \<noteq> 0 then 0x80 else 0) OR (if mfp = 2 then 0x40 else 0)) cur mgmt)"
    and "wpa_cipher_valid_pairwise p \<or> p = WPA_CIPHER_NONE"
    and "k \<in> {WPA_KEY_MGMT_IEEE8021X, WPA_KEY_MGMT_PSK, WPA_KEY_MGMT_CCKM, WPA_KEY_MGMT_IEEE8021X_SHA256,
           WPA_KEY_MGMT_PSK_SHA256}"
    and "22 + (if cur \<noteq> None then 18 else 0) \<le> rsn_ie_len"
  using assms
  by (auto simp: wpa_gen_wpa_ie_rsn_def Let_def pairwise_suite_def ie_finish_def rsn_body_def rsn_end_def rsn_akm_suite_def PUT_LE16_one
      split: if_splits option.splits)

text \<open>
  C26: An RSN element that \<open>wpa_gen_wpa_ie_rsn\<close> writes for a group cipher that is valid and a key
  management type other than CCKM is parsed back by \<open>wpa_parse_wpa_ie\<close> to the configuration it was
  written for: protocol, pairwise and group cipher, key management, management frame protection
  capabilities, the management group cipher, and the PMKID of the current PMKSA cache entry.
\<close>
theorem rsn_ie_roundtrip:
  assumes gen: "wpa_gen_wpa_ie_rsn rsn_ie_len pw gc key_mgmt mgmt mfp cur = Some ie"
    and "wpa_cipher_valid_group gc" and "key_mgmt \<noteq> WPA_KEY_MGMT_CCKM"
    and pid: "case cur of None \<Rightarrow> True | Some pid \<Rightarrow> length pid = PMKID_LEN"
  shows "\<exists>d. wpa_parse_wpa_ie ie = Inr d \<and> d_proto d = WPA_PROTO_RSN \<and> d_pairwise_cipher d = pw \<and>
      d_group_cipher d = gc \<and> d_key_mgmt d = key_mgmt \<and>
      d_capabilities d = (if mfp \<noteq> 0 then 0x80 else 0) OR (if mfp = 2 then 0x40 else 0) \<and>
      d_mgmt_group_cipher d = (if wpa_cipher_valid_mgmt_group mgmt then mgmt else WPA_CIPHER_AES_128_CMAC) \<and>
      (case cur of None \<Rightarrow> d_num_pmkid d = 0
       | Some pid \<Rightarrow> d_num_pmkid d = 1 \<and> (\<exists>rest. d_pmkid d = Some (pid @ rest)))"
proof -
  let ?c = "(if mfp \<noteq> 0 then 0x80 else 0) OR (if mfp = 2 then 0x40 else 0) :: u16"
  note l = wpa_gen_rsn_layout [OF gen]
  have n: "length ie - 2 = 18 + length (rsn_end ?c cur mgmt)"
    by (subst l(1)) simp
  have "length (rsn_end ?c cur mgmt) \<le> 24"
    using length_rsn_end [of ?c cur mgmt] by (simp split: if_splits)
  then have "length ie - 2 < 256" using n by simp
  then have "wpa_parse_wpa_ie ie = parse_rsn_tail \<lparr>d_proto = WPA_PROTO_RSN, d_pairwise_cipher = pw,
      d_group_cipher = gc, d_key_mgmt = key_mgmt, d_capabilities = 0, d_num_pmkid = 0, d_pmkid = None,
      d_mgmt_group_cipher = WPA_CIPHER_AES_128_CMAC\<rparr> (rsn_end ?c cur mgmt)"
    using l(3) assms(3) by (subst l(1)) (rule parse_rsn_body [OF n _ assms(2) l(2)], auto)
  note parse = this
  show ?thesis
    unfolding parse
    using parse_rsn_end [of "\<lparr>d_proto = WPA_PROTO_RSN, d_pairwise_cipher = pw,
      d_group_cipher = gc, d_key_mgmt = key_mgmt, d_capabilities = 0, d_num_pmkid = 0, d_pmkid = None,
      d_mgmt_group_cipher = WPA_CIPHER_AES_128_CMAC\<rparr>" cur ?c mgmt] pid
    by (simp only: wpa_ie_data.simps simp_thms)
qed

lemma rsn_ie_roundtrip_witness:
  "\<exists>d. wpa_parse_wpa_ie (the (wpa_gen_wpa_ie_rsn 80 WPA_CIPHER_CCMP WPA_CIPHER_TKIP WPA_KEY_MGMT_PSK
        WPA_CIPHER_BIP_GMAC_256 2 (Some (replicate 16 7)))) = Inr d \<and>
     d_pairwise_cipher d = WPA_CIPHER_CCMP \<and> d_group_cipher d = WPA_CIPHER_TKIP \<and>
     d_capabilities d = 0xc0 \<and> d_mgmt_group_cipher d = WPA_CIPHER_BIP_GMAC_256"
proof -
  have "wpa_gen_wpa_ie_rsn 80 WPA_CIPHER_CCMP WPA_CIPHER_TKIP WPA_KEY_MGMT_PSK
      WPA_CIPHER_BIP_GMAC_256 2 (Some (replicate 16 7)) \<noteq> None" by code_simp
  then obtain ie where "wpa_gen_wpa_ie_rsn 80 WPA_CIPHER_CCMP WPA_CIPHER_TKIP WPA_KEY_MGMT_PSK
      WPA_CIPHER_BIP_GMAC_256 2 (Some (replicate 16 7)) = Some ie" by blast
  from rsn_ie_roundtrip [OF this] this show ?thesis
    by (auto simp: wpa_cipher_valid_group_def wpa_cipher_valid_pairwise_def wpa_cipher_valid_mgmt_group_def)
qed

text \<open>
  The size check of \<open>wpa_gen_wpa_ie_rsn\<close> leaves out the PMKID count and the selector of the management
  group cipher: up to 6 octets are written behind a buffer that passes it. The element of a CCKM
  network is parsed to no key management type.
\<close>

lemma rsn_ie_length:
  assumes "wpa_gen_wpa_ie_rsn rsn_ie_len pw gc key_mgmt mgmt mfp cur = Some ie"
  shows "length ie \<le> rsn_ie_len + (if wpa_cipher_valid_mgmt_group mgmt then 6 else 0)"
proof -
  note l = wpa_gen_rsn_layout [OF assms]
  show ?thesis using l(4) by (subst l(1)) (auto simp: rsn_end_def split: option.splits)
qed

lemma rsn_ie_overflow:
  "map_option length (wpa_gen_wpa_ie_rsn 22 WPA_CIPHER_CCMP WPA_CIPHER_CCMP WPA_KEY_MGMT_PSK
     WPA_CIPHER_AES_128_CMAC 1 None) = Some 28"
  by code_simp

lemma rsn_ie_cckm_lost:
  "map_option (\<lambda>ie. case wpa_parse_wpa_ie ie of Inl e \<Rightarrow> 1 | Inr d \<Rightarrow> d_key_mgmt d) (wpa_gen_wpa_ie_rsn 80 WPA_CIPHER_CCMP WPA_CIPHER_CCMP WPA_KEY_MGMT_CCKM
     0 0 None) = Some 0"
  by code_simp

section \<open>Reading key data\<close>

lemma endian_append:
  "length a \<ge> k + 2 \<Longrightarrow> WPA_GET_LE16 (drop k (a @ b)) = WPA_GET_LE16 (drop k a)"
  "length a \<ge> k + 3 \<Longrightarrow> WPA_GET_BE24 (drop k (a @ b)) = WPA_GET_BE24 (drop k a)"
  "length a \<ge> k + 4 \<Longrightarrow> WPA_GET_BE32 (drop k (a @ b)) = WPA_GET_BE32 (drop k a)"
  by (simp_all add: endian_defs nth_append less_diff_conv)

lemma nth_append_lt: "k < length p \<Longrightarrow> (p @ b) ! k = p ! k"
  by (simp add: nth_append)

lemma take_drop_append_le: "k + n \<le> length p \<Longrightarrow> take n (drop k (p @ b)) = take n (drop k p)"
  by simp

lemma take_append_le: "n \<le> length p \<Longrightarrow> take n (p @ b) = take n p"
  by simp

lemmas reads = take_append_le nth_append_lt endian_append take_drop_append_le

lemma vendor_specific_append:
  assumes "2 + unat (p ! 1) \<le> length p"
  shows "wpa_parse_vendor_specific (p @ b) ie = wpa_parse_vendor_specific p ie"
proof -
  define n where n: "n = unat (p ! 1)"
  have "n < 4 \<or> n = 4 \<or> n > 4" by linarith
  then show ?thesis
    using assms [folded n] unfolding wpa_parse_vendor_specific_def Let_def n [symmetric]
    by (elim disjE) (simp_all add: reads n [symmetric] del: append_take_drop_id drop_append take_append One_nat_def cong: if_cong split del: if_split)
qed

lemma generic_append:
  assumes "2 + unat (p ! 1) \<le> length p"
  shows "wpa_parse_generic (p @ b) room ie = wpa_parse_generic p room ie"
proof -
  define n where n: "n = unat (p ! 1)"
  have "n < 4 \<or> n = 4 \<or> n = 5 \<or> n > 5" by linarith
  then show ?thesis
    using assms [folded n] unfolding wpa_parse_generic_def Let_def n [symmetric]
    by (elim disjE) (simp_all add: reads n [symmetric] del: append_take_drop_id drop_append take_append One_nat_def cong: if_cong split del: if_split)
qed

lemma element_append:
  assumes "2 + unat (p ! 1) \<le> length p"
  shows "parse_ies_element (p @ b) room ie = parse_ies_element p room ie"
proof -
  define n where n: "n = unat (p ! 1)"
  have [simp]: "(p @ b) ! 0 = p ! 0" using assms by (auto simp: nth_append n)
  have "n = 0 \<or> n = 1 \<or> n > 1" by linarith
  then show ?thesis
    using assms [folded n] unfolding parse_ies_element_def Let_def n [symmetric]
    by (elim disjE) (simp_all add: reads n [symmetric] generic_append vendor_specific_append del: append_take_drop_id drop_append take_append One_nat_def cong: if_cong split del: if_split)
qed

lemma parse_ies_loop_append:
  "len \<le> length mem \<Longrightarrow> parse_ies_loop (mem @ b) len pos ie = parse_ies_loop mem len pos ie"
proof (induction mem len pos ie rule: parse_ies_loop.induct)
  case (1 mem len pos ie)
  show ?case
  proof (cases "pos + 1 < len \<and> pos + 2 + unat (mem ! (pos + 1)) \<le> len")
    case True
    then have "2 + unat (drop pos mem ! 1) \<le> length (drop pos mem)"
      using 1(2) by (simp del: One_nat_def; linarith)
    then have el: "parse_ies_element (drop pos (mem @ b)) (len - pos) ie = parse_ies_element (drop pos mem) (len - pos) ie"
      using element_append [of "drop pos mem" b "len - pos" ie] True 1(2) by simp
    then show ?thesis
      using 1 True el by (subst (1 2) parse_ies_loop.simps) (auto simp: Let_def reads simp del: One_nat_def split: prod.splits)
  next
    case False
    then show ?thesis
      using 1(2) by (subst (1 2) parse_ies_loop.simps) (auto simp: Let_def reads simp del: One_nat_def split: prod.splits)
  qed
qed

text \<open>The octet strings that the parsed structure points to.\<close>

definition ie_pieces :: "wpa_eapol_ie_parse \<Rightarrow> bytes option list" where
  "ie_pieces ie = [ie_wpa_ie ie, ie_rsn_ie ie, ie_pmkid ie, ie_gtk ie, ie_mac_addr ie, ie_igtk ie, ie_mdie ie,
     ie_ftie ie, ie_reassoc_deadline ie, ie_key_lifetime ie, ie_lnkid ie, ie_ext_capab ie, ie_supp_rates ie,
     ie_ext_supp_rates ie, ie_ht_capabilities ie, ie_vht_capabilities ie, ie_supp_channels ie,
     ie_supp_oper_classes ie, ie_wmm ie, ie_ip_addr_req ie, ie_ip_addr_alloc ie]"

definition piece_in :: "bytes \<Rightarrow> bytes option \<Rightarrow> bool" where
  "piece_in buf x = (case x of None \<Rightarrow> True | Some b \<Rightarrow> sublist b buf)"

lemma piece_in_simps [simp]: "piece_in buf None" "piece_in buf (Some b) = sublist b buf"
  by (simp_all add: piece_in_def)

definition ie_sized :: "wpa_eapol_ie_parse \<Rightarrow> bool" where
  "ie_sized ie \<longleftrightarrow> (case ie_gtk ie of None \<Rightarrow> True | Some g \<Rightarrow> 2 < length g) \<and>
     (case ie_igtk ie of None \<Rightarrow> True | Some g \<Rightarrow> 2 < length g) \<and>
     (case ie_pmkid ie of None \<Rightarrow> True | Some g \<Rightarrow> PMKID_LEN \<le> length g) \<and>
     (case ie_ip_addr_alloc ie of None \<Rightarrow> True | Some g \<Rightarrow> 12 \<le> length g)"

definition ie_ok :: "bytes \<Rightarrow> wpa_eapol_ie_parse \<Rightarrow> bool" where
  "ie_ok buf ie \<longleftrightarrow> list_all (piece_in buf) (ie_pieces ie) \<and> ie_sized ie"

lemmas ie_ok_defs = ie_ok_def ie_pieces_def ie_sized_def

lemma ie_ok_set:
  "ie_ok buf ie \<Longrightarrow> sublist b buf \<Longrightarrow> ie_ok buf (ie\<lparr>ie_wpa_ie := Some b\<rparr>)"
  "ie_ok buf ie \<Longrightarrow> sublist b buf \<Longrightarrow> ie_ok buf (ie\<lparr>ie_rsn_ie := Some b\<rparr>)"
  "ie_ok buf ie \<Longrightarrow> sublist b buf \<Longrightarrow> PMKID_LEN \<le> length b \<Longrightarrow> ie_ok buf (ie\<lparr>ie_pmkid := Some b\<rparr>)"
  "ie_ok buf ie \<Longrightarrow> sublist b buf \<Longrightarrow> 2 < length b \<Longrightarrow> ie_ok buf (ie\<lparr>ie_gtk := Some b\<rparr>)"
  "ie_ok buf ie \<Longrightarrow> sublist b buf \<Longrightarrow> ie_ok buf (ie\<lparr>ie_mac_addr := Some b\<rparr>)"
  "ie_ok buf ie \<Longrightarrow> sublist b buf \<Longrightarrow> 2 < length b \<Longrightarrow> ie_ok buf (ie\<lparr>ie_igtk := Some b\<rparr>)"
  "ie_ok buf ie \<Longrightarrow> sublist b buf \<Longrightarrow> ie_ok buf (ie\<lparr>ie_mdie := Some b\<rparr>)"
  "ie_ok buf ie \<Longrightarrow> sublist b buf \<Longrightarrow> ie_ok buf (ie\<lparr>ie_ftie := Some b\<rparr>)"
  "ie_ok buf ie \<Longrightarrow> sublist b buf \<Longrightarrow> ie_ok buf (ie\<lparr>ie_reassoc_deadline := Some b\<rparr>)"
  "ie_ok buf ie \<Longrightarrow> sublist b buf \<Longrightarrow> ie_ok buf (ie\<lparr>ie_key_lifetime := Some b\<rparr>)"
  "ie_ok buf ie \<Longrightarrow> sublist b buf \<Longrightarrow> ie_ok buf (ie\<lparr>ie_lnkid := Some b\<rparr>)"
  "ie_ok buf ie \<Longrightarrow> sublist b buf \<Longrightarrow> ie_ok buf (ie\<lparr>ie_ext_capab := Some b\<rparr>)"
  "ie_ok buf ie \<Longrightarrow> sublist b buf \<Longrightarrow> ie_ok buf (ie\<lparr>ie_supp_rates := Some b\<rparr>)"
  "ie_ok buf ie \<Longrightarrow> sublist b buf \<Longrightarrow> ie_ok buf (ie\<lparr>ie_ext_supp_rates := Some b\<rparr>)"
  "ie_ok buf ie \<Longrightarrow> sublist b buf \<Longrightarrow> ie_ok buf (ie\<lparr>ie_ht_capabilities := Some b\<rparr>)"
  "ie_ok buf ie \<Longrightarrow> sublist b buf \<Longrightarrow> ie_ok buf (ie\<lparr>ie_vht_capabilities := Some b\<rparr>)"
  "ie_ok buf ie \<Longrightarrow> sublist b buf \<Longrightarrow> ie_ok buf (ie\<lparr>ie_supp_channels := Some b\<rparr>)"
  "ie_ok buf ie \<Longrightarrow> sublist b buf \<Longrightarrow> ie_ok buf (ie\<lparr>ie_supp_oper_classes := Some b\<rparr>)"
  "ie_ok buf ie \<Longrightarrow> sublist b buf \<Longrightarrow> ie_ok buf (ie\<lparr>ie_wmm := Some b\<rparr>)"
  "ie_ok buf ie \<Longrightarrow> sublist b buf \<Longrightarrow> ie_ok buf (ie\<lparr>ie_ip_addr_req := Some b\<rparr>)"
  "ie_ok buf ie \<Longrightarrow> sublist b buf \<Longrightarrow> 12 \<le> length b \<Longrightarrow> ie_ok buf (ie\<lparr>ie_ip_addr_alloc := Some b\<rparr>)"
  "ie_ok buf ie \<Longrightarrow> ie_ok buf (ie\<lparr>ie_aid := a\<rparr>)" "ie_ok buf ie \<Longrightarrow> ie_ok buf (ie\<lparr>ie_qosinfo := q\<rparr>)"
  by (simp_all add: ie_ok_defs)

lemma sublist_part: "sublist p buf \<Longrightarrow> sublist (take k (drop j p)) buf" "sublist p buf \<Longrightarrow> sublist (take k p) buf"
  by (meson sublist_drop sublist_take sublist_order.order.trans)+

lemma vendor_specific_ok:
  "ie_ok buf ie \<Longrightarrow> sublist p buf \<Longrightarrow> ie_ok buf (snd (wpa_parse_vendor_specific p ie))"
  by (simp add: wpa_parse_vendor_specific_def Let_def ie_ok_set sublist_part)

lemma ok_if:
  "(c \<Longrightarrow> ie_ok buf (snd a)) \<Longrightarrow> (\<not> c \<Longrightarrow> ie_ok buf (snd b)) \<Longrightarrow> ie_ok buf (snd (if c then a else b))"
  "(c \<Longrightarrow> ie_ok buf i) \<Longrightarrow> (\<not> c \<Longrightarrow> ie_ok buf j) \<Longrightarrow> ie_ok buf (if c then i else j)"
  "ie_ok buf i \<Longrightarrow> ie_ok buf (snd (x, i))"
  by simp_all

lemma generic_ok:
  assumes "ie_ok buf ie" "sublist p buf" "2 + unat (p ! 1) \<le> length p"
  shows "ie_ok buf (snd (wpa_parse_generic p room ie))"
proof -
  define n where n: "n = unat (p ! 1)"
  show ?thesis
    unfolding wpa_parse_generic_def Let_def n [symmetric]
    by (intro ok_if ie_ok_set sublist_part assms(1,2)) (use assms(3) [folded n] in \<open>elim conjE; simp\<close>)+
qed

lemma element_ok:
  assumes "ie_ok buf ie" "sublist p buf" "2 + unat (p ! 1) \<le> length p"
  shows "ie_ok buf (snd (parse_ies_element p room ie))"
proof -
  have v: "ie_ok buf (snd (case wpa_parse_generic p room ie of (ret, ie) \<Rightarrow>
      if ret \<noteq> 0 then (True, ie) else (case wpa_parse_vendor_specific p ie of (ret, ie) \<Rightarrow> (ret \<noteq> 0, ie))))"
    using generic_ok [OF assms, of room] vendor_specific_ok [OF _ assms(2)]
    by (auto split: prod.splits) (metis snd_conv)
  show ?thesis
    unfolding parse_ies_element_def Let_def
    by (intro ok_if ie_ok_set sublist_part v assms(1,2))
qed

lemma parse_ies_loop_ok:
  "ie_ok buf ie \<Longrightarrow> ie_ok buf (snd (parse_ies_loop buf (length buf) pos ie))"
proof (induction buf "length buf" pos ie rule: parse_ies_loop.induct)
  case (1 mem pos ie)
  show ?case
  proof (cases "pos + 1 < length mem \<and> pos + 2 + unat (mem ! (pos + 1)) \<le> length mem")
    case True
    then have "ie_ok mem (snd (parse_ies_element (drop pos mem) (length mem - pos) ie))"
      by (intro element_ok 1(2)) (simp_all add: sublist_drop del: One_nat_def, linarith)
    then show ?thesis
      using 1 True by (subst parse_ies_loop.simps) (auto simp: Let_def simp del: One_nat_def split: prod.splits)
  next
    case False
    then show ?thesis
      using 1(2) by (subst parse_ies_loop.simps) (auto simp: Let_def split: prod.splits)
  qed
qed

text \<open>
  C27: Parsing key data reads only the key data: the result does not depend on the octets behind it,
  and every octet string the parsed structure points to lies in it. The GTK and IGTK fields
  have their header octets, the PMKID its 16 and the IP address allocation its 12.
\<close>
theorem parse_ies_bounds:
  "wpa_supplicant_parse_ies (buf @ behind) (length buf) = wpa_supplicant_parse_ies buf (length buf) \<and>
   (case wpa_supplicant_parse_ies (buf @ behind) (length buf) of None \<Rightarrow> True | Some ie \<Rightarrow> ie_ok buf ie)"
proof -
  have "ie_ok buf ie_parse_empty" by (simp add: ie_ok_defs ie_parse_empty_def)
  then show ?thesis
    using parse_ies_loop_ok [of buf ie_parse_empty 0]
    by (auto simp: wpa_supplicant_parse_ies_def parse_ies_loop_append split: prod.splits bool.splits)
qed

section \<open>Lists of ciphers\<close>

lemma parse_cipher_loop_append:
  assumes "map_of cipher_names word = Some b" "word \<noteq> []" "list_all (\<lambda>c. \<not> is_blank c) word"
  shows "parse_cipher_loop s v = Some w \<Longrightarrow> parse_cipher_loop (s @ 0x20 # word) v = Some (w OR b)"
proof (induction s v rule: parse_cipher_loop.induct)
  case (1 s v)
  have blank: "is_blank 0x20" by (simp add: is_blank_def)
  have all: "\<forall>x \<in> set word. \<not> is_blank x" using assms(3) by (simp add: list_all_iff)
  have dw: "dropWhile is_blank (0x20 # word) = word"
    using assms(2,3) blank by (cases word) simp_all
  have tw: "takeWhile (\<lambda>c. \<not> is_blank c) word = word" "dropWhile (\<lambda>c. \<not> is_blank c) word = []"
    using all by (simp_all add: takeWhile_eq_all_conv dropWhile_eq_Nil_conv)
  have last: "parse_cipher_loop (0x20 # word) u = Some (u OR b)" for u
    by (subst parse_cipher_loop.simps) (simp only: Let_def dw tw assms(1,2) if_False simp_thms if_True option.case)
  have dw': "dropWhile is_blank word = word"
    using assms(2,3) by (cases word) simp_all
  have lastw: "parse_cipher_loop word u = Some (u OR b)" for u
    by (subst parse_cipher_loop.simps) (simp only: Let_def dw' tw assms(1,2) if_False simp_thms if_True option.case)
  show ?case
  proof (cases "dropWhile is_blank s")
    case Nil
    then have "dropWhile is_blank (s @ 0x20 # word) = dropWhile is_blank (0x20 # word)"
      by (metis dropWhile_append2 dropWhile_eq_Nil_conv)
    then have "parse_cipher_loop (s @ 0x20 # word) v = parse_cipher_loop (0x20 # word) v"
      by (subst (1 2) parse_cipher_loop.simps) simp
    moreover have "w = v" using 1(2) Nil by (subst (asm) parse_cipher_loop.simps) simp
    ultimately show ?thesis using last by simp
  next
    case (Cons y ys)
    let ?s = "dropWhile is_blank s"
    have d: "dropWhile is_blank (s @ 0x20 # word) = ?s @ 0x20 # word"
    proof (rule dropWhile_append1)
      show "y \<in> set s" using Cons by (metis set_dropWhileD list.set_intros(1))
      show "\<not> is_blank y" using Cons by (rule takeWhile_dropWhile_not)
    qed
    show ?thesis
    proof (cases "dropWhile (\<lambda>c. \<not> is_blank c) ?s")
      case Nil
      have ny: "\<not> is_blank y" using Cons by (rule takeWhile_dropWhile_not)
      from Nil have tys: "\<forall>x \<in> set ys. \<not> is_blank x" "takeWhile (\<lambda>c. \<not> is_blank c) ys = ys"
        using Cons by (simp_all add: dropWhile_eq_Nil_conv takeWhile_eq_all_conv split: if_splits)
      then show ?thesis
        using 1(2) Cons d lastw blank assms(1,2)
        by (subst parse_cipher_loop.simps, subst (asm) parse_cipher_loop.simps) 
          (auto simp: Let_def takeWhile_append dropWhile_append ny tys dropWhile_eq_Nil_conv [THEN iffD2, OF tys(1)] split: option.splits)
    next
      case (Cons z zs)
      let ?nb = "\<lambda>c. \<not> is_blank c"
      have z: "z \<in> set ?s" "\<not> ?nb z"
        using Cons by (metis set_dropWhileD list.set_intros(1)) (metis Cons takeWhile_dropWhile_not)
      have step: "parse_cipher_loop (s @ 0x20 # word) v =
          (case map_of cipher_names (takeWhile ?nb ?s) of None \<Rightarrow> None
           | Some c \<Rightarrow> parse_cipher_loop (zs @ 0x20 # word) (v OR c))"
        using \<open>?s = y # ys\<close> Cons takeWhile_append1 [of z ?s ?nb, OF z] dropWhile_append1 [of z ?s ?nb, OF z]
        by (subst parse_cipher_loop.simps) (auto simp: d Let_def split: option.split)
      have "parse_cipher_loop s v = (case map_of cipher_names (takeWhile ?nb ?s) of None \<Rightarrow> None
           | Some c \<Rightarrow> parse_cipher_loop zs (v OR c))"
        using \<open>?s = y # ys\<close> Cons by (subst parse_cipher_loop.simps) (auto simp: Let_def split: option.split)
      then obtain c where c: "map_of cipher_names (takeWhile ?nb ?s) = Some c" "parse_cipher_loop zs (v OR c) = Some w"
        using 1(2) by (auto split: option.splits)
      have "parse_cipher_loop (zs @ 0x20 # word) (v OR c) = Some (w OR b)"
        using 1(1) [OF refl _ refl refl c(1)] \<open>?s = y # ys\<close> Cons c(2) by simp
      then show ?thesis using step c(1) by simp
    qed
  qed
qed

definition written_bits :: "u32 \<Rightarrow> (bytes \<times> u32) list \<Rightarrow> u32 \<Rightarrow> u32" where
  "written_bits ciphers xs v = fold (\<lambda>(name, b) v. if has ciphers b then v OR b else v) xs v"

lemma write_ciphers_none: "fold (write_cipher room delim ciphers) xs None = None"
  by (induction xs) (auto simp: write_cipher_def)

lemma write_parse_fold:
  assumes "list_all (\<lambda>(name, b). map_of cipher_names name = Some b \<and> name \<noteq> [] \<and> list_all (\<lambda>c. \<not> is_blank c) name) xs"
    and "parse_cipher_loop out 0 = Some v" "out = [] \<Longrightarrow> v = 0"
    and "fold (write_cipher room [0x20] ciphers) xs (Some out) = Some res"
  shows "parse_cipher_loop res 0 = Some (written_bits ciphers xs v)"
  using assms
proof (induction xs arbitrary: out v)
  case Nil
  then show ?case by (simp add: written_bits_def)
next
  case (Cons x xs)
  obtain name b where x: "x = (name, b)" by fastforce
  have nm: "map_of cipher_names name = Some b" "name \<noteq> []" "list_all (\<lambda>c. \<not> is_blank c) name"
    using Cons.prems(1) x by simp_all
  show ?case
  proof (cases "has ciphers b")
    case False
    then show ?thesis
      using Cons x by (simp add: write_cipher_def written_bits_def)
  next
    case True
    let ?out = "out @ (if out = [] then [] else [0x20]) @ name"
    have "fold (write_cipher room [0x20] ciphers) xs (Some ?out) = Some res"
      using Cons.prems(4) x True write_ciphers_none by (auto simp: write_cipher_def Let_def split: if_splits)
    moreover have "parse_cipher_loop ?out 0 = Some (v OR b)"
    proof (cases "out = []")
      case True
      have "parse_cipher_loop [] 0 = Some 0" by (subst parse_cipher_loop.simps) simp
      then have "parse_cipher_loop ([] @ 0x20 # name) 0 = Some (0 OR b)" by (rule parse_cipher_loop_append [OF nm])
      moreover have "parse_cipher_loop (0x20 # name) 0 = parse_cipher_loop name 0"
        by (subst (1 2) parse_cipher_loop.simps) (simp add: is_blank_def)
      ultimately show ?thesis using True Cons.prems(3) by simp
    next
      case False
      then show ?thesis using parse_cipher_loop_append [OF nm Cons.prems(2)] by simp
    qed
    ultimately show ?thesis
      using Cons.IH [of ?out "v OR b"] Cons.prems(1) nm(2) x True by (simp add: written_bits_def)
  qed
qed

lemma and_bit_cases: "(if has c (2 ^ k) then v OR 2 ^ k else v) = v OR (c AND 2 ^ k)"
proof -
  have "c AND 2 ^ k = (if bit c k then 2 ^ k else 0)"
    by (rule bit_word_eqI) (auto simp: bit_simps simp flip: push_bit_of_1)
  then show ?thesis by simp
qed

lemma written_bits_and:
  "map snd xs = map (\<lambda>k. 2 ^ k) ks \<Longrightarrow>
     written_bits ciphers xs (ciphers AND v) = ciphers AND fold (\<lambda>k v. v OR 2 ^ k) ks v"
proof (induction xs arbitrary: ks v)
  case Nil
  then show ?case by (simp add: written_bits_def)
next
  case (Cons x xs)
  then obtain name k ks' where "x = (name, 2 ^ k)" "ks = k # ks'" "map snd xs = map (\<lambda>k. 2 ^ k) ks'"
    by (cases x) (auto simp: Cons_eq_map_conv)
  then show ?case
    using Cons.IH [of ks' "v OR 2 ^ k"] and_bit_cases [of ciphers k "ciphers AND v"]
    by (simp add: written_bits_def bit.conj_disj_distrib push_bit_eq_mult split del: if_split)
qed



end
