(* ===== verification/WpaKeys.thy ===== *)
theory WpaKeys
  imports WpaCommon AesModes Rc4
begin

text \<open>
  The key hierarchy of the 4-way handshake: the pseudo random functions \<open>src/crypto/sha1-prf.c\<close> and
  \<open>src/crypto/sha256-prf.c\<close>, \<open>wpa_pmk_to_ptk\<close> and \<open>wpa_eapol_key_mic\<close> of
  \<open>src/common/wpa_common.c\<close>, and the layout of \<open>struct wpa_ptk\<close> and \<open>struct wpa_eapol_key\<close>
  (\<open>src/common/wpa_common.h\<close>).

  HMAC-MD5, HMAC-SHA-1 and HMAC-SHA-256 are arguments, functions of the key and of the concatenation
  of the elements that the code passes; those of the program's own crypto library cannot fail.
\<close>

section \<open>Structures\<close>

record wpa_eapol_key =
  k_type :: u8
  k_info :: u16
  k_length :: bytes
  k_replay :: bytes
  k_nonce :: bytes
  k_iv :: bytes
  k_rsc :: bytes
  k_id :: bytes
  k_mic :: bytes
  k_data_len :: u16

abbreviation (input) sizeof_eapol_key :: nat where "sizeof_eapol_key \<equiv> 95"

text \<open>Reading the structure at the start of a buffer, and its octets.\<close>

definition get_key :: "bytes \<Rightarrow> wpa_eapol_key" where
  "get_key b = \<lparr>k_type = b ! 0, k_info = WPA_GET_BE16 (drop 1 b), k_length = take 2 (drop 3 b),
     k_replay = take 8 (drop 5 b), k_nonce = take 32 (drop 13 b), k_iv = take 16 (drop 45 b),
     k_rsc = take 8 (drop 61 b), k_id = take 8 (drop 69 b), k_mic = take 16 (drop 77 b),
     k_data_len = WPA_GET_BE16 (drop 93 b)\<rparr>"

definition put_key :: "wpa_eapol_key \<Rightarrow> bytes" where
  "put_key k = [k_type k] @ WPA_PUT_BE16 (k_info k) @ k_length k @ k_replay k @ k_nonce k @ k_iv k @
     k_rsc k @ k_id k @ k_mic k @ WPA_PUT_BE16 (k_data_len k)"

definition zero_key :: wpa_eapol_key where
  "zero_key = \<lparr>k_type = 0, k_info = 0, k_length = [0, 0], k_replay = replicate 8 0, k_nonce = replicate 32 0,
     k_iv = replicate 16 0, k_rsc = replicate 8 0, k_id = replicate 8 0, k_mic = replicate 16 0,
     k_data_len = 0\<rparr>"

definition key_sized :: "wpa_eapol_key \<Rightarrow> bool" where
  "key_sized k \<longleftrightarrow> length (k_length k) = 2 \<and> length (k_replay k) = 8 \<and> length (k_nonce k) = 32 \<and>
     length (k_iv k) = 16 \<and> length (k_rsc k) = 8 \<and> length (k_id k) = 8 \<and> length (k_mic k) = 16"

text \<open>The union of \<open>struct wpa_ptk\<close> is \<open>tk_u\<close>: TK2, or the transmit and the receive Michael key.\<close>

record wpa_ptk =
  kck :: bytes
  kek :: bytes
  tk1 :: bytes
  tk_u :: bytes

definition ptk_zero :: wpa_ptk where
  "ptk_zero = \<lparr>kck = replicate 16 0, kek = replicate 16 0, tk1 = replicate 16 0, tk_u = replicate 16 0\<rparr>"

definition ptk_octets :: "wpa_ptk \<Rightarrow> bytes" where
  "ptk_octets p = kck p @ kek p @ tk1 p @ tk_u p"

definition ptk_of_octets :: "bytes \<Rightarrow> wpa_ptk" where
  "ptk_of_octets b = \<lparr>kck = take 16 b, kek = take 16 (drop 16 b), tk1 = take 16 (drop 32 b), tk_u = take 16 (drop 48 b)\<rparr>"

definition ptk_sized :: "wpa_ptk \<Rightarrow> bool" where
  "ptk_sized p \<longleftrightarrow> length (kck p) = 16 \<and> length (kek p) = 16 \<and> length (tk1 p) = 16 \<and> length (tk_u p) = 16"

section \<open>Pseudo random functions\<close>

text \<open>The loops write into \<open>buf\<close> from \<open>pos\<close> on; a label is the list of its characters without the NUL.\<close>

function sha1_prf_loop :: "(bytes \<Rightarrow> bytes) \<Rightarrow> bytes \<Rightarrow> bytes \<Rightarrow> u8 \<Rightarrow> nat \<Rightarrow> nat \<Rightarrow> bytes \<Rightarrow> bytes" where
  "sha1_prf_loop hmac label dat counter pos buf_len buf =
    (if pos < buf_len then
       (let plen = buf_len - pos; hash = hmac (label @ [0] @ dat @ [counter]) in
        if plen \<ge> 20 then
          sha1_prf_loop hmac label dat (counter + 1) (pos + 20) buf_len (buf_put buf pos (take 20 hash))
        else buf_put buf pos (take plen hash))
     else buf)"
  by pat_completeness auto
termination by (relation "measure (\<lambda>(hmac, label, dat, counter, pos, buf_len, buf). buf_len - pos)") auto

declare sha1_prf_loop.simps [simp del]

definition sha1_prf ::
    "(bytes \<Rightarrow> bytes \<Rightarrow> bytes) \<Rightarrow> bytes \<Rightarrow> bytes \<Rightarrow> bytes \<Rightarrow> bytes \<Rightarrow> nat \<Rightarrow> bytes" where
  "sha1_prf hmac key label dat buf buf_len = sha1_prf_loop (hmac key) label dat 0 0 buf_len buf"

function sha256_prf_loop ::
    "(bytes \<Rightarrow> bytes) \<Rightarrow> bytes \<Rightarrow> bytes \<Rightarrow> bytes \<Rightarrow> u16 \<Rightarrow> nat \<Rightarrow> nat \<Rightarrow> bytes \<Rightarrow> bytes \<times> nat" where
  "sha256_prf_loop hmac label dat length_le counter pos buf_len buf =
    (if pos < buf_len then
       (let plen = buf_len - pos; hash = hmac (WPA_PUT_LE16 counter @ label @ dat @ length_le) in
        if plen \<ge> 32 then
          sha256_prf_loop hmac label dat length_le (counter + 1) (pos + 32) buf_len (buf_put buf pos (take 32 hash))
        else (buf_put buf pos (take plen hash), pos + plen))
     else (buf, pos))"
  by pat_completeness auto
termination by (relation "measure (\<lambda>(hmac, label, dat, l, counter, pos, buf_len, buf). buf_len - pos)") auto

declare sha256_prf_loop.simps [simp del]

definition sha256_prf_bits ::
    "(bytes \<Rightarrow> bytes \<Rightarrow> bytes) \<Rightarrow> bytes \<Rightarrow> bytes \<Rightarrow> bytes \<Rightarrow> bytes \<Rightarrow> nat \<Rightarrow> bytes" where
  "sha256_prf_bits hmac key label dat buf buf_len_bits =
    (let buf_len = (buf_len_bits + 7) div 8;
         (buf, pos) = sha256_prf_loop (hmac key) label dat (WPA_PUT_LE16 (word_of_nat buf_len_bits))
           1 0 buf_len buf in
     if buf_len_bits mod 8 \<noteq> 0
     then buf[pos - 1 := buf ! (pos - 1) AND push_bit (8 - buf_len_bits mod 8) 0xff] else buf)"

definition sha256_prf ::
    "(bytes \<Rightarrow> bytes \<Rightarrow> bytes) \<Rightarrow> bytes \<Rightarrow> bytes \<Rightarrow> bytes \<Rightarrow> bytes \<Rightarrow> nat \<Rightarrow> bytes" where
  "sha256_prf hmac key label dat buf buf_len = sha256_prf_bits hmac key label dat buf (buf_len * 8)"

section \<open>Pairwise transient key\<close>

text \<open>\<open>os_memcmp\<close> as the order of the first octet that differs.\<close>

fun memcmp_less :: "bytes \<Rightarrow> bytes \<Rightarrow> bool" where
  "memcmp_less (a # as) (b # bs) = (if a = b then memcmp_less as bs else a < b)"
| "memcmp_less _ _ = False"

definition ptk_data :: "bytes \<Rightarrow> bytes \<Rightarrow> bytes \<Rightarrow> bytes \<Rightarrow> bytes" where
  "ptk_data addr1 addr2 nonce1 nonce2 =
     (if memcmp_less addr1 addr2 then addr1 @ addr2 else addr2 @ addr1) @
     (if memcmp_less nonce1 nonce2 then nonce1 @ nonce2 else nonce2 @ nonce1)"

text \<open>\<open>buf\<close> is the old content of the buffer for the key.\<close>

definition wpa_pmk_to_ptk ::
    "pmksa_env \<Rightarrow> bytes \<Rightarrow> bytes \<Rightarrow> bytes \<Rightarrow> bytes \<Rightarrow> bytes \<Rightarrow> bytes \<Rightarrow> bytes \<Rightarrow> nat \<Rightarrow> bool \<Rightarrow> bytes" where
  "wpa_pmk_to_ptk env key label addr1 addr2 nonce1 nonce2 buf ptk_len use_sha256 =
    (let dat = ptk_data addr1 addr2 nonce1 nonce2 in
     if use_sha256 then sha256_prf (hmac_sha256 env) key label dat buf ptk_len
     else sha1_prf (hmac_sha1 env) key label dat buf ptk_len)"

text \<open>The label \<open>Pairwise key expansion\<close>.\<close>

definition ptk_label :: bytes where
  "ptk_label = map of_char ''Pairwise key expansion''"

section \<open>Message integrity code\<close>

text \<open>
  \<open>mem\<close> is the outcome of the allocation of the AES context, \<open>behind\<close> the memory that
  \<open>omac1_aes_128\<close> reads behind its arrays. \<open>None\<close> is a result other than 0, with \<open>mic\<close> not written.
\<close>

definition wpa_eapol_key_mic ::
    "(bytes \<Rightarrow> bytes \<Rightarrow> bytes) \<Rightarrow> (bytes \<Rightarrow> bytes \<Rightarrow> bytes) \<Rightarrow> bool \<Rightarrow> omac_vector \<Rightarrow> bytes \<Rightarrow> u16 \<Rightarrow> bytes \<Rightarrow>
       bytes option" where
  "wpa_eapol_key_mic md5 sha1 mem behind key ver buf =
    (if ver = 1 then Some (take 16 (md5 key buf))
     else if ver = 2 then Some (take 16 (sha1 key buf))
     else if ver = 3 then omac1_aes_128 mem behind key buf
     else if ver = 0 then omac1_aes_128 mem behind key buf
     else None)"

text \<open>The MIC field of a frame starts at offset 81.\<close>

definition put_mic :: "bytes \<Rightarrow> bytes \<Rightarrow> bytes" where
  "put_mic frame mic = buf_put frame 81 mic"

end
