(* ===== verification/WpaSm.thy ===== *)
theory WpaSm
  imports WpaKeys HexText EapolSupp
begin

text \<open>
  The WPA state machine of the supplicant, \<open>src/rsn_supp/wpa.c\<close>: the processing of EAPOL-Key frames in
  the 4-way and the group key handshake, PMK selection, key installation, and the functions by which
  the program configures the machine and reports events to it.

  The configuration is the one of \<open>WpaCommon\<close>; \<open>CONFIG_WNM\<close> is set, \<open>CONFIG_TDLS\<close> is not.

  State: \<open>struct wpa_sm\<close>. The fields that the PMKSA cache shares with the machine (PMK, current entry,
  BSSID, own address, lifetimes) are in \<open>cache\<close>, the model of \<open>PmksaCache\<close>, with the event loop; the
  EAPOL state machine, when there is one, is the model of \<open>EapolSupp\<close>. The callbacks of
  \<open>struct wpa_sm_ctx\<close> are recorded in the trace \<open>trace\<close>; their results, random octets and allocations
  come from the environment. A received frame is the list of its octets; the frames that are sent
  have at most 65535 octets of payload.
\<close>

section \<open>State\<close>

datatype wpa_states = WPA_DISCONNECTED | WPA_INTERFACE_DISABLED | WPA_INACTIVE | WPA_SCANNING
  | WPA_AUTHENTICATING | WPA_ASSOCIATING | WPA_ASSOCIATED | WPA_4WAY_HANDSHAKE | WPA_GROUP_HANDSHAKE
  | WPA_COMPLETED

datatype protect_type = PROTECT_NONE | PROTECT_RX | PROTECT_TX | PROTECT_RX_TX

text \<open>\<open>SetKey\<close>: algorithm, address (\<open>None\<close> is NULL), index, transmit flag, sequence counter, key.\<close>

datatype wpa_event =
    SetState wpa_states
  | Deauth
  | SetKey wpa_alg "bytes option" nat bool bytes bytes
  | EtherSend bytes bytes
  | CancelAuthTimeout
  | SetProtection bytes protect_type
  | SetRekeyOffload bytes bytes bytes
  | KeyMgmtSetPmk bytes
  | PreauthDeinit

record 'p wpa_sm =
  cache :: rsn_pmksa_cache
  eapol :: "'p supp option"
  ptk :: wpa_ptk
  tptk :: wpa_ptk
  ptk_set :: bool
  tptk_set :: bool
  snonce :: bytes
  anonce :: bytes
  renew_snonce :: bool
  rx_replay_counter :: bytes
  rx_replay_counter_set :: bool
  request_counter :: bytes
  preauth_bssid :: bytes
  preauth_eapol :: bool
  sm_network_ctx :: nat
  peerkey_enabled :: bool
  allowed_pairwise_cipher :: u32
  proactive_key_caching :: bool
  sm_eap_workaround :: bool
  eap_conf_ctx :: nat
  ssid :: bytes
  wpa_ptk_rekey :: u32
  p2p :: bool
  dot11RSNAConfigSATimeout :: u32
  dot11RSNA4WayHandshakeFailures :: u32
  proto :: u32
  pairwise_cipher :: u32
  group_cipher :: u32
  key_mgmt :: u32
  mgmt_group_cipher :: u32
  rsn_enabled :: bool
  mfp :: u32
  assoc_wpa_ie :: "bytes option"
  ap_wpa_ie :: "bytes option"
  ap_rsn_ie :: "bytes option"
  p2p_ip_addr :: bytes
  wpa_state :: wpa_states
  trace :: "wpa_event list"

text \<open>
  The allocations of one call: the copy of the received frame, the frames to send, the key data of
  message 2, the unwrapped key data, and the AES contexts of the unwrapping and of the three MICs.
\<close>

datatype alloc_site = AllocFrame | AllocEapol | AllocKde | AllocUnwrap | AllocIe
  | AesUnwrap | AesMicTptk | AesMicPtk | AesMicTx

record 'p wpa_env =
  supp_env :: "'p supp_env"
  pm_env :: pmksa_env
  now :: os_reltime
  entry_alloc :: nat
  alloc :: "alloc_site \<Rightarrow> bool"
  behind :: omac_vector
  random_bytes :: "bytes option"
  get_bssid :: "bytes option"
  beacon_ie :: "(bytes option \<times> bytes option) option"
  set_key_ok :: "wpa_event \<Rightarrow> bool"
  current_network :: nat
  has_rekey_offload :: bool
  has_key_mgmt_set_pmk :: bool
  eapol_version :: u8

abbreviation (input) bssid :: "'p wpa_sm \<Rightarrow> bytes" where "bssid w \<equiv> sm_bssid (cache w)"
abbreviation (input) broadcast_ether_addr :: bytes where "broadcast_ether_addr \<equiv> replicate 6 0xff"

definition is_zero_ether_addr :: "bytes \<Rightarrow> bool" where
  "is_zero_ether_addr a \<longleftrightarrow> take 6 a = replicate 6 0"

text \<open>The timeouts of the machine: handler, state machine and NULL.\<close>

definition start_preauth_key :: timer_key where "start_preauth_key = (3, 2, 0)"
definition rekey_ptk_key :: timer_key where "rekey_ptk_key = (4, 2, 0)"

section \<open>Callbacks\<close>

definition w_emit :: "wpa_event \<Rightarrow> 'p wpa_sm \<Rightarrow> 'p wpa_sm" where
  "w_emit ev w = w\<lparr>trace := trace w @ [ev]\<rparr>"

definition wpa_sm_set_state :: "wpa_states \<Rightarrow> 'p wpa_sm \<Rightarrow> 'p wpa_sm" where
  "wpa_sm_set_state st w = w_emit (SetState st) (w\<lparr>wpa_state := st\<rparr>)"

definition wpa_sm_deauthenticate :: "'p wpa_sm \<Rightarrow> 'p wpa_sm" where
  "wpa_sm_deauthenticate w = w_emit Deauth w"

text \<open>The flag is the success of the driver.\<close>

definition wpa_sm_set_key ::
    "'p wpa_env \<Rightarrow> wpa_alg \<Rightarrow> bytes option \<Rightarrow> nat \<Rightarrow> bool \<Rightarrow> bytes \<Rightarrow> bytes \<Rightarrow> 'p wpa_sm \<Rightarrow> bool \<times> 'p wpa_sm" where
  "wpa_sm_set_key env alg a key_idx set_tx sq key w =
    (let ev = SetKey alg a key_idx set_tx sq key in (set_key_ok env ev, w_emit ev w))"

definition wpa_sm_set_rekey_offload :: "'p wpa_env \<Rightarrow> 'p wpa_sm \<Rightarrow> 'p wpa_sm" where
  "wpa_sm_set_rekey_offload env w =
    (if has_rekey_offload env then w_emit (SetRekeyOffload (kek (ptk w)) (kck (ptk w)) (rx_replay_counter w)) w
     else w)"

text \<open>Without \<open>CONFIG_IEEE80211R\<close> nothing is ever stored in \<open>xxkey\<close>, the key of FT, and its length is 0.\<close>

definition wpa_supplicant_key_mgmt_set_pmk :: "'p wpa_env \<Rightarrow> 'p wpa_sm \<Rightarrow> 'p wpa_sm" where
  "wpa_supplicant_key_mgmt_set_pmk env w =
    (if has_key_mgmt_set_pmk env
     then w_emit (KeyMgmtSetPmk
       (if key_mgmt w = 0x20 then [] else take (sm_pmk_len (cache w)) (sm_pmk (cache w)))) w
     else w)"

text \<open>
  \<open>wpa_alloc_eapol\<close> of the program: the header and zeros; the caller fills the payload, which is the
  argument here. \<open>get_beacon_ie\<close> stores the elements that the scan results hold.
\<close>

definition wpa_alloc_eapol :: "'p wpa_env \<Rightarrow> u8 \<Rightarrow> bytes \<Rightarrow> bytes option" where
  "wpa_alloc_eapol env ty payload =
    (if alloc env AllocEapol
     then Some ([eapol_version env, ty] @ WPA_PUT_BE16 (word_of_nat (length payload)) @ payload) else None)"

definition wpa_sm_get_beacon_ie :: "'p wpa_env \<Rightarrow> 'p wpa_sm \<Rightarrow> 'p wpa_sm" where
  "wpa_sm_get_beacon_ie env w =
    (case beacon_ie env of None \<Rightarrow> w | Some (wpa, rsn) \<Rightarrow> w\<lparr>ap_wpa_ie := wpa, ap_rsn_ie := rsn\<rparr>)"

definition wpa_sm_aborted_cached :: "'p wpa_sm \<Rightarrow> 'p wpa_sm" where
  "wpa_sm_aborted_cached w =
    (if cur_pmksa (cache w) \<noteq> 0 then w\<lparr>cache := (cache w)\<lparr>cur_pmksa := 0\<rparr>\<rparr> else w)"

text \<open>
  A call of the EAPOL state machine, which does nothing without one. Its callback \<open>aborted_cached\<close>
  is \<open>wpa_sm_aborted_cached\<close>.
\<close>

definition eapol_call :: "('p supp \<Rightarrow> 'p supp) \<Rightarrow> 'p wpa_sm \<Rightarrow> 'p wpa_sm" where
  "eapol_call f w =
    (case eapol w of
       None \<Rightarrow> w
     | Some e \<Rightarrow>
         (let e' = f e; w = w\<lparr>eapol := Some e'\<rparr> in
          if EvAbortedCached \<in> set (drop (length (events (snd e))) (events (snd e'))) then wpa_sm_aborted_cached w
          else w))"

definition w_timer_register :: "'p wpa_env \<Rightarrow> u32 \<Rightarrow> timer_key \<Rightarrow> 'p wpa_sm \<Rightarrow> 'p wpa_sm" where
  "w_timer_register env secs k w = w\<lparr>cache := (cache w)\<lparr>loop :=
     timer_register (timer_alloc (pm_env env), Some (now env), secs, 0) k (loop (cache w))\<rparr>\<rparr>"

definition w_timer_cancel :: "timer_key \<Rightarrow> 'p wpa_sm \<Rightarrow> 'p wpa_sm" where
  "w_timer_cancel k w = w\<lparr>cache := (cache w)\<lparr>loop := timer_cancel k (loop (cache w))\<rparr>\<rparr>"

section \<open>Sending EAPOL-Key frames\<close>

definition key_mic :: "'p wpa_env \<Rightarrow> alloc_site \<Rightarrow> bytes \<Rightarrow> u16 \<Rightarrow> bytes \<Rightarrow> bytes option" where
  "key_mic env site key ver buf =
     wpa_eapol_key_mic (env_hmac_md5 (supp_env env)) (hmac_sha1 (pm_env env)) (alloc env site) (behind env) key ver buf"

definition wpa_eapol_key_send ::
    "'p wpa_env \<Rightarrow> bytes \<Rightarrow> u16 \<Rightarrow> bytes \<Rightarrow> bytes \<Rightarrow> bool \<Rightarrow> 'p wpa_sm \<Rightarrow> 'p wpa_sm" where
  "wpa_eapol_key_send env key ver dest msg with_mic w =
    (let (dest, w) =
       (if is_zero_ether_addr dest \<and> is_zero_ether_addr (bssid w) then
          (case get_bssid env of
             None \<Rightarrow> (dest, w)
           | Some b \<Rightarrow> (b, w\<lparr>cache := (cache w)\<lparr>sm_bssid := b\<rparr>\<rparr>))
        else (dest, w));
       mic = (if with_mic then map_option (put_mic msg) (key_mic env AesMicTx key ver msg) else Some msg) in
     case mic of
       None \<Rightarrow> w
     | Some msg \<Rightarrow> eapol_call eapol_sm_notify_tx_eapol_key (w_emit (EtherSend dest msg) w))"

definition key_type :: "'p wpa_sm \<Rightarrow> u8" where
  "key_type w = (if proto w = WPA_PROTO_RSN \<or> proto w = WPA_PROTO_OSEN then 2 else 254)"

definition reply_key_length :: "'p wpa_sm \<Rightarrow> wpa_eapol_key \<Rightarrow> bytes" where
  "reply_key_length w key = (if proto w = WPA_PROTO_RSN \<or> proto w = WPA_PROTO_OSEN then [0, 0] else k_length key)"

definition wpa_sm_key_request :: "'p wpa_env \<Rightarrow> bool \<Rightarrow> bool \<Rightarrow> 'p wpa_sm \<Rightarrow> 'p wpa_sm" where
  "wpa_sm_key_request env err pw w =
    (let ver = (if key_mgmt w = WPA_KEY_MGMT_OSEN then 0
                else if wpa_key_mgmt_ft (key_mgmt w) \<or> wpa_key_mgmt_sha256 (key_mgmt w) then 3
                else if pairwise_cipher w \<noteq> WPA_CIPHER_TKIP then 2
                else 1) in
     case get_bssid env of
       None \<Rightarrow> w
     | Some b \<Rightarrow>
         (let info = 0x800 OR ver OR (if ptk_set w then 0x100 else 0) OR (if err then 0x400 else 0) OR
                (if pw then 0x8 else 0);
              reply = zero_key\<lparr>k_type := key_type w, k_info := info, k_replay := request_counter w\<rparr> in
          case wpa_alloc_eapol env 3 (put_key reply) of
            None \<Rightarrow> w
          | Some msg \<Rightarrow>
              (let w = w\<lparr>request_counter := inc_byte_array (request_counter w)\<rparr> in
               wpa_eapol_key_send env (kck (ptk w)) ver b msg (info AND 0x100 \<noteq> 0) w)))"

definition wpa_supplicant_send_2_of_4 ::
    "'p wpa_env \<Rightarrow> bytes \<Rightarrow> wpa_eapol_key \<Rightarrow> u16 \<Rightarrow> bytes \<Rightarrow> bytes option \<Rightarrow> wpa_ptk \<Rightarrow> 'p wpa_sm \<Rightarrow>
       bool \<times> 'p wpa_sm" where
  "wpa_supplicant_send_2_of_4 env dst key ver nonce ie p w =
    (case ie of
       None \<Rightarrow> (False, w)
     | Some ie \<Rightarrow>
         (let reply = zero_key\<lparr>k_type := key_type w, k_info := ver OR 0x8 OR 0x100,
                k_length := reply_key_length w key, k_replay := k_replay key, k_nonce := nonce,
                k_data_len := word_of_nat (length ie)\<rparr> in
          case wpa_alloc_eapol env 3 (put_key reply @ ie) of
            None \<Rightarrow> (False, w)
          | Some msg \<Rightarrow> (True, wpa_eapol_key_send env (kck p) ver dst msg True w)))"

definition wpa_supplicant_send_4_of_4 ::
    "'p wpa_env \<Rightarrow> bytes \<Rightarrow> wpa_eapol_key \<Rightarrow> u16 \<Rightarrow> u16 \<Rightarrow> wpa_ptk \<Rightarrow> 'p wpa_sm \<Rightarrow> bool \<times> 'p wpa_sm" where
  "wpa_supplicant_send_4_of_4 env dst key ver info p w =
    (let reply = zero_key\<lparr>k_type := key_type w, k_info := (info AND 0x200) OR ver OR 0x8 OR 0x100,
           k_length := reply_key_length w key, k_replay := k_replay key\<rparr> in
     case wpa_alloc_eapol env 3 (put_key reply) of
       None \<Rightarrow> (False, w)
     | Some msg \<Rightarrow> (True, wpa_eapol_key_send env (kck p) ver dst msg True w))"

definition wpa_supplicant_send_2_of_2 ::
    "'p wpa_env \<Rightarrow> wpa_eapol_key \<Rightarrow> u16 \<Rightarrow> u16 \<Rightarrow> 'p wpa_sm \<Rightarrow> bool \<times> 'p wpa_sm" where
  "wpa_supplicant_send_2_of_2 env key ver info w =
    (let reply = zero_key\<lparr>k_type := key_type w, k_info := (info AND 0x30) OR ver OR 0x100 OR 0x200,
           k_length := reply_key_length w key, k_replay := k_replay key\<rparr> in
     case wpa_alloc_eapol env 3 (put_key reply) of
       None \<Rightarrow> (False, w)
     | Some msg \<Rightarrow> (True, wpa_eapol_key_send env (kck (ptk w)) ver (bssid w) msg True w))"

section \<open>Selecting the PMK\<close>

text \<open>The current entry; by the invariant of the cache its address is that of an entry of the list.\<close>

definition cur_entry :: "'p wpa_sm \<Rightarrow> rsn_pmksa_cache_entry option" where
  "cur_entry w = (if cur_pmksa (cache w) = 0 then None else pmksa_cache_find (cur_pmksa (cache w)) (cache w))"

definition wpa_sm_set_pmk_from_pmksa :: "'p wpa_sm \<Rightarrow> 'p wpa_sm" where
  "wpa_sm_set_pmk_from_pmksa w =
    (let c = cache w in
     case cur_entry w of
       Some e \<Rightarrow> w\<lparr>cache := c\<lparr>sm_pmk_len := pmk_len e, sm_pmk := buf_put (sm_pmk c) 0 (take (pmk_len e) (pmk e))\<rparr>\<rparr>
     | None \<Rightarrow> w\<lparr>cache := c\<lparr>sm_pmk_len := PMK_LEN, sm_pmk := replicate PMK_LEN 0\<rparr>\<rparr>)"

text \<open>The look-up of an entry for the PMKID of message 1; the flag is \<open>abort_cached\<close>.\<close>

definition get_pmk_lookup :: "bytes \<Rightarrow> bytes option \<Rightarrow> 'p wpa_sm \<Rightarrow> bool \<times> 'p wpa_sm" where
  "get_pmk_lookup src_addr pid w =
    (if pid \<noteq> None \<and> cur_pmksa (cache w) = 0 then
       (let cur = entry_addr (pmksa_cache_get (pmksa (cache w)) (Some src_addr) pid 0) in
        (cur = 0, w\<lparr>cache := (cache w)\<lparr>cur_pmksa := cur\<rparr>\<rparr>))
     else (False, w))"

text \<open>The key of the EAPOL state machine: 32 octets, or 16 (LEAP). The result is the length.\<close>

definition get_eapol_pmk :: "'p supp \<Rightarrow> 'p wpa_sm \<Rightarrow> nat option \<times> 'p wpa_sm" where
  "get_eapol_pmk e w =
    (let (res, key) = eapol_sm_get_key (fst e) (sm_pmk (cache w)) PMK_LEN;
         (res, key, n) = (if res \<noteq> 0
            then (let (res, key) = eapol_sm_get_key (fst e) key 16 in (res, key, 16))
            else (res, key, PMK_LEN));
         w = w\<lparr>cache := (cache w)\<lparr>sm_pmk := key\<rparr>\<rparr> in
     (if res = 0 then Some n else None, w))"

definition get_pmk_store ::
    "'p wpa_env \<Rightarrow> bytes \<Rightarrow> bytes option \<Rightarrow> nat \<Rightarrow> bool \<Rightarrow> 'p wpa_sm \<Rightarrow> bool \<times> 'p wpa_sm" where
  "get_pmk_store env src_addr pid n abort_cached w =
    (let w = w\<lparr>cache := (cache w)\<lparr>sm_pmk_len := n\<rparr>\<rparr>;
         w = wpa_supplicant_key_mgmt_set_pmk env w;
         (sa, w) =
           (if proto w = WPA_PROTO_RSN \<and> \<not> wpa_key_mgmt_ft (key_mgmt w) then
              (let (sa, c) = pmksa_cache_add (pm_env env) (now env) (entry_alloc env) (sm_pmk (cache w)) n src_addr
                     (own_addr (cache w)) (sm_network_ctx w) (key_mgmt w) (cache w) in (sa, w\<lparr>cache := c\<rparr>))
            else (0, w));
         abort_cached =
           (if cur_pmksa (cache w) = 0 \<and> pid \<noteq> None \<and> pmksa_cache_get (pmksa (cache w)) (Some src_addr) pid 0 \<noteq> None
            then False else abort_cached);
         w = (if cur_pmksa (cache w) = 0 then w\<lparr>cache := (cache w)\<lparr>cur_pmksa := sa\<rparr>\<rparr> else w) in
     (abort_cached, w))"

text \<open>The results 0, -1 and -2.\<close>

datatype pmk_result = PmkOk | PmkFail | PmkStarted

definition get_pmk_finish :: "'p wpa_env \<Rightarrow> bool \<Rightarrow> 'p wpa_sm \<Rightarrow> pmk_result \<times> 'p wpa_sm" where
  "get_pmk_finish env abort_cached w =
    (if abort_cached \<and> wpa_key_mgmt_wpa_ieee8021x (key_mgmt w) \<and> \<not> wpa_key_mgmt_ft (key_mgmt w) \<and>
        key_mgmt w \<noteq> WPA_KEY_MGMT_OSEN then
       (case wpa_alloc_eapol env 1 [] of
          Some buf \<Rightarrow> (PmkStarted, w_emit (EtherSend (bssid w) buf) w)
        | None \<Rightarrow> (PmkFail, w))
     else (PmkOk, w))"

definition wpa_supplicant_get_pmk ::
    "'p wpa_env \<Rightarrow> bytes \<Rightarrow> bytes option \<Rightarrow> 'p wpa_sm \<Rightarrow> pmk_result \<times> 'p wpa_sm" where
  "wpa_supplicant_get_pmk env src_addr pid w =
    (let (abort_cached, w) = get_pmk_lookup src_addr pid w in
     if pid \<noteq> None \<and> cur_entry w \<noteq> None \<and> pid = Some (pmkid (the (cur_entry w))) then
       get_pmk_finish env abort_cached (eapol_call (eapol_sm_notify_cached (supp_env env)) (wpa_sm_set_pmk_from_pmksa w))
     else if wpa_key_mgmt_wpa_ieee8021x (key_mgmt w) \<and> eapol w \<noteq> None then
       (let (n, w) = get_eapol_pmk (the (eapol w)) w in
        case n of
          Some n \<Rightarrow>
            (let (abort_cached, w) = get_pmk_store env src_addr pid n abort_cached w in
             get_pmk_finish env abort_cached w)
        | None \<Rightarrow>
            if cur_pmksa (cache w) \<noteq> 0
            then get_pmk_finish env True (w\<lparr>cache := (cache w)\<lparr>cur_pmksa := 0\<rparr>\<rparr>)
            else if \<not> abort_cached then (PmkFail, w)
            else get_pmk_finish env abort_cached w)
     else get_pmk_finish env abort_cached w)"

section \<open>Message 1 of the 4-way handshake\<close>

definition wpa_derive_ptk :: "'p wpa_env \<Rightarrow> wpa_eapol_key \<Rightarrow> wpa_ptk \<Rightarrow> 'p wpa_sm \<Rightarrow> wpa_ptk" where
  "wpa_derive_ptk env key p w =
    (let ptk_len = wpa_cipher_key_len (pairwise_cipher w) + 32 in
     ptk_of_octets (wpa_pmk_to_ptk (pm_env env) (take (sm_pmk_len (cache w)) (sm_pmk (cache w))) ptk_label
       (own_addr (cache w)) (bssid w) (snonce w) (k_nonce key) (ptk_octets p) ptk_len
       (wpa_key_mgmt_sha256 (key_mgmt w))))"

definition swap_mic_keys :: "wpa_ptk \<Rightarrow> wpa_ptk" where
  "swap_mic_keys p = p\<lparr>tk_u := take 8 (drop 8 (tk_u p)) @ take 8 (tk_u p)\<rparr>"

text \<open>The key data of message 2: the element of the association request and, for P2P, the request KDE.\<close>

definition msg2_key_data :: "'p wpa_env \<Rightarrow> 'p wpa_sm \<Rightarrow> bytes option" where
  "msg2_key_data env w =
    (if p2p w \<and> alloc env AllocKde
     then Some ((case assoc_wpa_ie w of None \<Rightarrow> [] | Some ie \<Rightarrow> ie) @
       [WLAN_EID_VENDOR_SPECIFIC, 5] @ WPA_PUT_BE32 (RSN_SELECTOR 0x50 0x6f 0x9a 4) @ [1])
     else assoc_wpa_ie w)"

definition process_1_of_4_reply :: "'p wpa_env \<Rightarrow> wpa_eapol_key \<Rightarrow> u16 \<Rightarrow> 'p wpa_sm \<Rightarrow> 'p wpa_sm" where
  "process_1_of_4_reply env key ver w =
    (let p = wpa_derive_ptk env key (tptk w) w;
         p = (if pairwise_cipher w = WPA_CIPHER_TKIP then swap_mic_keys p else p);
         w = w\<lparr>tptk := p, tptk_set := True\<rparr>;
         (ok, w) = wpa_supplicant_send_2_of_4 env (bssid w) key ver (snonce w) (msg2_key_data env w) p w in
     if ok then w\<lparr>anonce := k_nonce key\<rparr> else wpa_sm_deauthenticate w)"

definition wpa_supplicant_process_1_of_4 ::
    "'p wpa_env \<Rightarrow> bytes \<Rightarrow> wpa_eapol_key \<Rightarrow> u16 \<Rightarrow> bytes \<Rightarrow> nat \<Rightarrow> 'p wpa_sm \<Rightarrow> 'p wpa_sm" where
  "wpa_supplicant_process_1_of_4 env src_addr key ver key_data key_data_len w =
    (if current_network env = 0 then w
     else
       (let w = wpa_sm_set_state WPA_4WAY_HANDSHAKE w;
            ie = (if proto w = WPA_PROTO_RSN \<or> proto w = WPA_PROTO_OSEN
                  then wpa_supplicant_parse_ies key_data key_data_len else Some ie_parse_empty) in
        case ie of
          None \<Rightarrow> wpa_sm_deauthenticate w
        | Some ie \<Rightarrow>
            (let (res, w) = wpa_supplicant_get_pmk env src_addr (map_option (take PMKID_LEN) (ie_pmkid ie)) w in
             case res of
               PmkStarted \<Rightarrow> w
             | PmkFail \<Rightarrow> wpa_sm_deauthenticate w
             | PmkOk \<Rightarrow>
                 if renew_snonce w then
                   (case random_bytes env of
                      None \<Rightarrow> wpa_sm_deauthenticate w
                    | Some r \<Rightarrow> process_1_of_4_reply env key ver (w\<lparr>snonce := r, renew_snonce := False\<rparr>))
                 else process_1_of_4_reply env key ver w)))"

section \<open>Installing keys\<close>

definition wpa_supplicant_key_neg_complete :: "'p wpa_env \<Rightarrow> bytes \<Rightarrow> bool \<Rightarrow> 'p wpa_sm \<Rightarrow> 'p wpa_sm" where
  "wpa_supplicant_key_neg_complete env a secure w =
    (let w = wpa_sm_set_state WPA_COMPLETED (w_emit CancelAuthTimeout w);
         w = (if secure then
                (let w = eapol_call (eapol_sm_notify_portValid (supp_env env) True) (w_emit (SetProtection a PROTECT_RX_TX) w);
                     w = (if wpa_key_mgmt_wpa_psk (key_mgmt w)
                          then eapol_call (eapol_sm_notify_eap_success (supp_env env) True) w else w) in
                 w_timer_register env 1 start_preauth_key w)
              else w) in
     case cur_entry w of
       None \<Rightarrow> w
     | Some e \<Rightarrow>
         if opportunistic e
         then w\<lparr>cache := (cache w)\<lparr>pmksa := List.map (\<lambda>x. if pe_addr x = pe_addr e then x\<lparr>opportunistic := False\<rparr> else x)
            (pmksa (cache w))\<rparr>\<rparr>
         else w)"

definition wpa_sm_rekey_ptk :: "'p wpa_env \<Rightarrow> 'p wpa_sm \<Rightarrow> 'p wpa_sm" where
  "wpa_sm_rekey_ptk env w = wpa_sm_key_request env False True w"

definition wpa_supplicant_install_ptk :: "'p wpa_env \<Rightarrow> wpa_eapol_key \<Rightarrow> 'p wpa_sm \<Rightarrow> bool \<times> 'p wpa_sm" where
  "wpa_supplicant_install_ptk env key w =
    (if pairwise_cipher w = WPA_CIPHER_NONE then (True, w)
     else if \<not> wpa_cipher_valid_pairwise (pairwise_cipher w) then (False, w)
     else
       (let alg = wpa_cipher_to_alg (pairwise_cipher w);
            keylen = wpa_cipher_key_len (pairwise_cipher w);
            rsclen = wpa_cipher_rsc_len (pairwise_cipher w);
            rsc = (if proto w = WPA_PROTO_RSN \<or> proto w = WPA_PROTO_OSEN then replicate 8 0 else k_rsc key);
            (ok, w) = wpa_sm_set_key env alg (Some (bssid w)) 0 True (take rsclen rsc)
              (take keylen (tk1 (ptk w) @ tk_u (ptk w))) w in
        if \<not> ok then (False, w)
        else if wpa_ptk_rekey w \<noteq> 0
        then (True, w_timer_register env (wpa_ptk_rekey w) rekey_ptk_key (w_timer_cancel rekey_ptk_key w))
        else (True, w)))"

text \<open>The length of the receive sequence counter and the algorithm.\<close>

definition wpa_supplicant_check_group_cipher :: "u32 \<Rightarrow> nat \<Rightarrow> nat \<Rightarrow> (nat \<times> wpa_alg) option" where
  "wpa_supplicant_check_group_cipher cipher keylen maxkeylen =
    (let alg = wpa_cipher_to_alg cipher; klen = wpa_cipher_key_len cipher in
     if alg = WPA_ALG_NONE then None
     else if keylen \<noteq> klen \<or> maxkeylen < klen then None
     else Some (wpa_cipher_rsc_len cipher, alg))"

record wpa_gtk_data =
  gd_alg :: wpa_alg
  gd_tx :: bool
  gd_key_rsc_len :: nat
  gd_keyidx :: nat
  gd_gtk :: bytes
  gd_gtk_len :: nat

definition wpa_supplicant_install_gtk :: "'p wpa_env \<Rightarrow> wpa_gtk_data \<Rightarrow> bytes \<Rightarrow> 'p wpa_sm \<Rightarrow> bool \<times> 'p wpa_sm" where
  "wpa_supplicant_install_gtk env gd rsc w =
    (let gtk = (if group_cipher w = WPA_CIPHER_TKIP
                then take 16 (gd_gtk gd) @ take 8 (drop 24 (gd_gtk gd)) @ take 8 (drop 16 (gd_gtk gd)) else gd_gtk gd);
         key = take (gd_gtk_len gd) gtk; sq = take (gd_key_rsc_len gd) rsc in
     if pairwise_cipher w = WPA_CIPHER_NONE then wpa_sm_set_key env (gd_alg gd) None (gd_keyidx gd) True sq key w
     else wpa_sm_set_key env (gd_alg gd) (Some broadcast_ether_addr) (gd_keyidx gd) (gd_tx gd) sq key w)"

definition wpa_supplicant_gtk_tx_bit_workaround :: "'p wpa_sm \<Rightarrow> bool \<Rightarrow> bool" where
  "wpa_supplicant_gtk_tx_bit_workaround w tx =
    (if tx \<and> pairwise_cipher w \<noteq> WPA_CIPHER_NONE then False else tx)"

definition wpa_supplicant_pairwise_gtk ::
    "'p wpa_env \<Rightarrow> wpa_eapol_key \<Rightarrow> bytes \<Rightarrow> u16 \<Rightarrow> 'p wpa_sm \<Rightarrow> bool \<times> 'p wpa_sm" where
  "wpa_supplicant_pairwise_gtk env key gtk info w =
    (if length gtk < 2 \<or> length gtk - 2 > 32 then (False, w)
     else
       (let n = length gtk - 2;
            gd = \<lparr>gd_alg = WPA_ALG_NONE, gd_tx = wpa_supplicant_gtk_tx_bit_workaround w (gtk ! 0 AND 4 \<noteq> 0),
              gd_key_rsc_len = 0, gd_keyidx = unat (gtk ! 0 AND 3), gd_gtk = buf_put (replicate 32 0) 0 (drop 2 gtk),
              gd_gtk_len = n\<rparr>;
            (ok, w) =
              (if group_cipher w \<noteq> WPA_CIPHER_GTK_NOT_USED then
                 (case wpa_supplicant_check_group_cipher (group_cipher w) n n of
                    None \<Rightarrow> (False, w)
                  | Some (rsclen, alg) \<Rightarrow>
                      wpa_supplicant_install_gtk env (gd\<lparr>gd_key_rsc_len := rsclen, gd_alg := alg\<rparr>) (k_rsc key) w)
               else (True, w)) in
        if \<not> ok then (False, w)
        else (True, wpa_supplicant_key_neg_complete env (bssid w) (info AND 0x200 \<noteq> 0) w)))"

definition ieee80211w_set_keys :: "'p wpa_env \<Rightarrow> wpa_eapol_ie_parse \<Rightarrow> 'p wpa_sm \<Rightarrow> bool \<times> 'p wpa_sm" where
  "ieee80211w_set_keys env ie w =
    (if \<not> wpa_cipher_valid_mgmt_group (mgmt_group_cipher w) then (True, w)
     else
       (case ie_igtk ie of
          None \<Rightarrow> (True, w)
        | Some igtk \<Rightarrow>
            (let n = wpa_cipher_key_len (mgmt_group_cipher w); keyidx = unat (WPA_GET_LE16 igtk) in
             if length igtk \<noteq> 8 + n then (False, w)
             else if keyidx > 4095 then (False, w)
             else wpa_sm_set_key env (wpa_cipher_to_alg (mgmt_group_cipher w)) (Some broadcast_ether_addr) keyidx False
               (take 6 (drop 2 igtk)) (take n (drop 8 igtk)) w)))"

section \<open>Message 3 of the 4-way handshake\<close>

definition wpa_supplicant_validate_ie :: "'p wpa_env \<Rightarrow> wpa_eapol_ie_parse \<Rightarrow> 'p wpa_sm \<Rightarrow> bool \<times> 'p wpa_sm" where
  "wpa_supplicant_validate_ie env ie w =
    (let w = (if ap_wpa_ie w = None \<and> ap_rsn_ie w = None then wpa_sm_get_beacon_ie env w else w) in
     if ie_wpa_ie ie = None \<and> ie_rsn_ie ie = None \<and> (ap_wpa_ie w \<noteq> None \<or> ap_rsn_ie w \<noteq> None) then (False, w)
     else if (ie_wpa_ie ie \<noteq> None \<and> ap_wpa_ie w \<noteq> None \<and> ie_wpa_ie ie \<noteq> ap_wpa_ie w) \<or>
         (ie_rsn_ie ie \<noteq> None \<and> ap_rsn_ie w \<noteq> None \<and>
          \<not> wpa_compare_rsn_ie (wpa_key_mgmt_ft (key_mgmt w)) (ap_rsn_ie w) (ie_rsn_ie ie)) then (False, w)
     else if proto w = WPA_PROTO_WPA \<and> ie_rsn_ie ie \<noteq> None \<and> ap_rsn_ie w = None \<and> rsn_enabled w then (False, w)
     else (True, w))"

text \<open>The checks of message 3 that come before the reply.\<close>

definition msg3_checks ::
    "'p wpa_env \<Rightarrow> wpa_eapol_key \<Rightarrow> wpa_eapol_ie_parse \<Rightarrow> 'p wpa_sm \<Rightarrow> bool \<times> 'p wpa_sm" where
  "msg3_checks env key ie w =
    (if ie_gtk ie \<noteq> None \<and> k_info key AND 0x1000 = 0 then (False, w)
     else if ie_igtk ie \<noteq> None \<and> k_info key AND 0x1000 = 0 then (False, w)
     else if ie_igtk ie \<noteq> None \<and> wpa_cipher_valid_mgmt_group (mgmt_group_cipher w) \<and>
         length (the (ie_igtk ie)) \<noteq> 8 + wpa_cipher_key_len (mgmt_group_cipher w) then (False, w)
     else
       (let (ok, w) = wpa_supplicant_validate_ie env ie w in
        if \<not> ok then (False, w)
        else if anonce w \<noteq> k_nonce key then (False, w)
        else if unat (WPA_GET_BE16 (k_length key)) \<noteq> wpa_cipher_key_len (pairwise_cipher w) then (False, w)
        else (True, w)))"

text \<open>The part of message 3 after the reply.\<close>

definition msg3_group_keys ::
    "'p wpa_env \<Rightarrow> wpa_eapol_key \<Rightarrow> wpa_eapol_ie_parse \<Rightarrow> 'p wpa_sm \<Rightarrow> bool \<times> 'p wpa_sm" where
  "msg3_group_keys env key ie w =
    (let info = k_info key;
         w = wpa_sm_set_state WPA_GROUP_HANDSHAKE w;
         (ok, w) =
           (if group_cipher w = WPA_CIPHER_GTK_NOT_USED
            then (True, wpa_supplicant_key_neg_complete env (bssid w) (info AND 0x200 \<noteq> 0) w)
            else
              (case ie_gtk ie of
                 None \<Rightarrow> (True, w)
               | Some gtk \<Rightarrow> wpa_supplicant_pairwise_gtk env key gtk info w)) in
     if \<not> ok then (False, w)
     else
       (let (ok, w) = ieee80211w_set_keys env ie w in
        if \<not> ok then (False, w)
        else (True, if ie_gtk ie \<noteq> None then wpa_sm_set_rekey_offload env w else w)))"

definition msg3_install ::
    "'p wpa_env \<Rightarrow> wpa_eapol_key \<Rightarrow> wpa_eapol_ie_parse \<Rightarrow> 'p wpa_sm \<Rightarrow> bool \<times> 'p wpa_sm" where
  "msg3_install env key ie w =
    (let info = k_info key;
         w = w\<lparr>renew_snonce := True\<rparr>;
         (ok, w) = (if info AND 0x40 \<noteq> 0 then wpa_supplicant_install_ptk env key w else (True, w)) in
     if \<not> ok then (False, w)
     else msg3_group_keys env key ie
       (if info AND 0x200 \<noteq> 0
        then eapol_call (eapol_sm_notify_portValid (supp_env env) True) (w_emit (SetProtection (bssid w) PROTECT_RX) w)
        else w))"

definition wpa_supplicant_process_3_of_4 ::
    "'p wpa_env \<Rightarrow> wpa_eapol_key \<Rightarrow> u16 \<Rightarrow> bytes \<Rightarrow> nat \<Rightarrow> 'p wpa_sm \<Rightarrow> 'p wpa_sm" where
  "wpa_supplicant_process_3_of_4 env key ver key_data key_data_len w =
    (let w = wpa_sm_set_state WPA_4WAY_HANDSHAKE w in
     case wpa_supplicant_parse_ies key_data key_data_len of
       None \<Rightarrow> wpa_sm_deauthenticate w
     | Some ie \<Rightarrow>
         (let (ok, w) = msg3_checks env key ie w in
          if \<not> ok then wpa_sm_deauthenticate w
          else
            (let w = (case ie_ip_addr_alloc ie of None \<Rightarrow> w | Some a \<Rightarrow> w\<lparr>p2p_ip_addr := take 12 a\<rparr>);
                 (ok, w) = wpa_supplicant_send_4_of_4 env (bssid w) key ver (k_info key) (ptk w) w in
             if \<not> ok then wpa_sm_deauthenticate w
             else
               (let (ok, w) = msg3_install env key ie w in
                if \<not> ok then wpa_sm_deauthenticate w else w))))"

section \<open>The group key handshake\<close>

definition wpa_supplicant_process_1_of_2_rsn ::
    "'p wpa_env \<Rightarrow> bytes \<Rightarrow> nat \<Rightarrow> u16 \<Rightarrow> 'p wpa_sm \<Rightarrow> wpa_gtk_data option \<times> 'p wpa_sm" where
  "wpa_supplicant_process_1_of_2_rsn env keydata keydatalen info w =
    (case wpa_supplicant_parse_ies keydata keydatalen of
       None \<Rightarrow> (None, w)
     | Some ie \<Rightarrow>
         (case ie_gtk ie of
            None \<Rightarrow> (None, w)
          | Some gtk \<Rightarrow>
              if info AND 0x1000 = 0 then (None, w)
              else
                (let n = length gtk - 2 in
                 case wpa_supplicant_check_group_cipher (group_cipher w) n n of
                   None \<Rightarrow> (None, w)
                 | Some (rsclen, alg) \<Rightarrow>
                     if n > 32 then (None, w)
                     else
                       (let gd = \<lparr>gd_alg = alg, gd_tx = wpa_supplicant_gtk_tx_bit_workaround w (gtk ! 0 AND 4 \<noteq> 0),
                              gd_key_rsc_len = rsclen, gd_keyidx = unat (gtk ! 0 AND 3),
                              gd_gtk = buf_put (replicate 32 0) 0 (drop 2 gtk), gd_gtk_len = n\<rparr> in
                        (Some gd, snd (ieee80211w_set_keys env ie w))))))"

text \<open>The decrypted key buffer; \<open>rc4_skip\<close> cannot fail.\<close>

definition msg1_of_2_wpa_gtk :: "'p wpa_env \<Rightarrow> wpa_eapol_key \<Rightarrow> bytes \<Rightarrow> nat \<Rightarrow> u16 \<Rightarrow> 'p wpa_sm \<Rightarrow> bytes option" where
  "msg1_of_2_wpa_gtk env key key_data n ver w =
    (if ver = 1 then
       (if n > 32 then None
        else Some (buf_put (replicate 32 0) 0 (rc4_skip (k_iv key @ kek (ptk w)) 256 (take n key_data))))
     else if ver = 2 then
       (let m = n - 8 in
        if m mod 8 \<noteq> 0 then None
        else if m > 32 then None
        else map_option (buf_put (replicate 32 0) 0) (aes_unwrap (alloc env AesUnwrap) (kek (ptk w)) (m div 8) key_data))
     else None)"

definition wpa_supplicant_process_1_of_2_wpa ::
    "'p wpa_env \<Rightarrow> wpa_eapol_key \<Rightarrow> bytes \<Rightarrow> nat \<Rightarrow> u16 \<Rightarrow> u16 \<Rightarrow> 'p wpa_sm \<Rightarrow> wpa_gtk_data option" where
  "wpa_supplicant_process_1_of_2_wpa env key key_data key_data_len info ver w =
    (let gtk_len = unat (WPA_GET_BE16 (k_length key)) in
     if ver = 2 \<and> key_data_len < 8 then None
     else
       (let maxkeylen = (if ver = 2 then key_data_len - 8 else key_data_len) in
        case wpa_supplicant_check_group_cipher (group_cipher w) gtk_len maxkeylen of
          None \<Rightarrow> None
        | Some (rsclen, alg) \<Rightarrow>
            (case msg1_of_2_wpa_gtk env key key_data key_data_len ver w of
               None \<Rightarrow> None
             | Some gtk \<Rightarrow>
                 Some \<lparr>gd_alg = alg, gd_tx = wpa_supplicant_gtk_tx_bit_workaround w (info AND 0x40 \<noteq> 0),
                   gd_key_rsc_len = rsclen, gd_keyidx = unat (drop_bit 4 (info AND 0x30)), gd_gtk = gtk,
                   gd_gtk_len = gtk_len\<rparr>)))"

definition wpa_supplicant_process_1_of_2 ::
    "'p wpa_env \<Rightarrow> wpa_eapol_key \<Rightarrow> bytes \<Rightarrow> nat \<Rightarrow> u16 \<Rightarrow> 'p wpa_sm \<Rightarrow> 'p wpa_sm" where
  "wpa_supplicant_process_1_of_2 env key key_data key_data_len ver w =
    (let rekey = (wpa_state w = WPA_COMPLETED); info = k_info key;
         (gd, w) =
           (if proto w = WPA_PROTO_RSN \<or> proto w = WPA_PROTO_OSEN
            then wpa_supplicant_process_1_of_2_rsn env key_data key_data_len info w
            else (wpa_supplicant_process_1_of_2_wpa env key key_data key_data_len info ver w, w));
         w = wpa_sm_set_state WPA_GROUP_HANDSHAKE w in
     case gd of
       None \<Rightarrow> wpa_sm_deauthenticate w
     | Some gd \<Rightarrow>
         (let (ok, w) = wpa_supplicant_install_gtk env gd (k_rsc key) w in
          if \<not> ok then wpa_sm_deauthenticate w
          else
            (let (ok, w) = wpa_supplicant_send_2_of_2 env key ver info w in
             if \<not> ok then wpa_sm_deauthenticate w
             else wpa_sm_set_rekey_offload env
               (if rekey then wpa_sm_set_state WPA_COMPLETED (w_emit CancelAuthTimeout w)
                else wpa_supplicant_key_neg_complete env (bssid w) (info AND 0x200 \<noteq> 0) w))))"

section \<open>Receiving frames\<close>

text \<open>
  The MIC is computed over the frame with a MIC field of zeros and written into that field; when the
  computation fails, the zeros stay there. The result is the flag, the frame and the machine.
\<close>

definition mic_matches :: "'p wpa_env \<Rightarrow> alloc_site \<Rightarrow> bytes \<Rightarrow> u16 \<Rightarrow> bytes \<Rightarrow> bytes \<Rightarrow> bool \<times> bytes" where
  "mic_matches env site key ver mic frame =
    (let frame = put_mic frame (replicate 16 0);
         frame = (case key_mic env site key ver frame of None \<Rightarrow> frame | Some m \<Rightarrow> put_mic frame m) in
     (mic = k_mic (get_key (drop 4 frame)), frame))"

definition wpa_supplicant_verify_eapol_key_mic ::
    "'p wpa_env \<Rightarrow> u16 \<Rightarrow> bytes \<Rightarrow> 'p wpa_sm \<Rightarrow> bool \<times> bytes \<times> 'p wpa_sm" where
  "wpa_supplicant_verify_eapol_key_mic env ver frame w =
    (let mic = k_mic (get_key (drop 4 frame));
         (ok, frame, w) =
           (if tptk_set w then
              (let (ok, frame) = mic_matches env AesMicTptk (kck (tptk w)) ver mic frame in
               (ok, frame, if ok then w\<lparr>tptk_set := False, ptk_set := True, ptk := tptk w, tptk := ptk_zero\<rparr> else w))
            else (False, frame, w));
         (ok, frame) =
           (if \<not> ok \<and> ptk_set w then mic_matches env AesMicPtk (kck (ptk w)) ver mic frame else (ok, frame)) in
     if \<not> ok then (False, frame, w)
     else (True, frame,
       w\<lparr>rx_replay_counter := k_replay (get_key (drop 4 frame)), rx_replay_counter_set := True\<rparr>))"

text \<open>The key data starts at offset 99. The result is the frame and the new length.\<close>

definition wpa_supplicant_decrypt_key_data ::
    "'p wpa_env \<Rightarrow> u16 \<Rightarrow> bytes \<Rightarrow> nat \<Rightarrow> 'p wpa_sm \<Rightarrow> (bytes \<times> nat) option" where
  "wpa_supplicant_decrypt_key_data env ver frame n w =
    (let key = get_key (drop 4 frame); key_data = drop 99 frame in
     if \<not> ptk_set w then None
     else if ver = 1 then
       Some (buf_put frame 99 (rc4_skip (k_iv key @ kek (ptk w)) 256 (take n key_data)), n)
     else if ver = 2 \<or> ver = 3 \<or> key_mgmt w = WPA_KEY_MGMT_OSEN then
       (if n < 8 \<or> n mod 8 \<noteq> 0 then None
        else if \<not> alloc env AllocUnwrap then None
        else
          (case aes_unwrap (alloc env AesUnwrap) (kek (ptk w)) ((n - 8) div 8) key_data of
             None \<Rightarrow> None
           | Some plain \<Rightarrow>
               Some (buf_put (buf_put frame 99 plain) 97 (WPA_PUT_BE16 (word_of_nat (n - 8))), n - 8)))
     else None)"

text \<open>The checks of the descriptor version.\<close>

definition version_ok :: "u16 \<Rightarrow> u16 \<Rightarrow> 'p wpa_sm \<Rightarrow> bool" where
  "version_ok ver info w =
    (if ver \<noteq> 1 \<and> ver \<noteq> 3 \<and> ver \<noteq> 2 \<and> key_mgmt w \<noteq> WPA_KEY_MGMT_OSEN then False
     else if key_mgmt w = WPA_KEY_MGMT_OSEN \<and> ver \<noteq> 0 then False
     else if wpa_key_mgmt_sha256 (key_mgmt w) then \<not> (ver \<noteq> 3 \<and> key_mgmt w \<noteq> WPA_KEY_MGMT_OSEN)
     else if pairwise_cipher w = WPA_CIPHER_CCMP \<and> ver \<noteq> 2 then
       (group_cipher w \<noteq> WPA_CIPHER_CCMP \<and> info AND 0x8 = 0) \<or> ver = 3
     else \<not> (pairwise_cipher w = WPA_CIPHER_GCMP \<and> ver \<noteq> 2))"

text \<open>What is done with a frame that has passed all checks.\<close>

definition rx_dispatch ::
    "'p wpa_env \<Rightarrow> bytes \<Rightarrow> u16 \<Rightarrow> bytes \<Rightarrow> nat \<Rightarrow> 'p wpa_sm \<Rightarrow> int \<times> 'p wpa_sm" where
  "rx_dispatch env src_addr ver frame n w =
    (let key = get_key (drop 4 frame); info = k_info key; key_data = drop 99 frame in
     if info AND 0x8 \<noteq> 0 then
       (if info AND 0x30 \<noteq> 0 then (-1, w)
        else if info AND 0x100 \<noteq> 0 then (1, wpa_supplicant_process_3_of_4 env key ver key_data n w)
        else (1, wpa_supplicant_process_1_of_4 env src_addr key ver key_data n w))
     else if info AND 0x2000 \<noteq> 0 then (1, w)
     else if info AND 0x100 \<noteq> 0 then (1, wpa_supplicant_process_1_of_2 env key key_data n ver w)
     else (1, w))"

definition rx_verified ::
    "'p wpa_env \<Rightarrow> bytes \<Rightarrow> u16 \<Rightarrow> bytes \<Rightarrow> nat \<Rightarrow> 'p wpa_sm \<Rightarrow> int \<times> 'p wpa_sm" where
  "rx_verified env src_addr ver frame n w =
    (if (proto w = WPA_PROTO_RSN \<or> proto w = WPA_PROTO_OSEN) \<and> k_info (get_key (drop 4 frame)) AND 0x1000 \<noteq> 0 then
       (case wpa_supplicant_decrypt_key_data env ver frame n w of
          None \<Rightarrow> (-1, w)
        | Some (frame, n) \<Rightarrow> rx_dispatch env src_addr ver frame n w)
     else rx_dispatch env src_addr ver frame n w)"

definition rx_key_frame :: "'p wpa_env \<Rightarrow> bytes \<Rightarrow> bytes \<Rightarrow> nat \<Rightarrow> 'p wpa_sm \<Rightarrow> int \<times> 'p wpa_sm" where
  "rx_key_frame env src_addr frame n w =
    (let w = eapol_call (eapol_sm_notify_lower_layer_success (supp_env env) False) w;
         key = get_key (drop 4 frame); info = k_info key; ver = info AND 7 in
     if \<not> version_ok ver info w then (-1, w)
     else if rx_replay_counter_set w \<and> \<not> memcmp_less (rx_replay_counter w) (k_replay key) then (-1, w)
     else if info AND (0x80 OR 0x2000) = 0 then (-1, w)
     else if info AND 0x800 \<noteq> 0 then (-1, w)
     else if info AND 0x100 \<noteq> 0 then
       (let (ok, frame, w) = wpa_supplicant_verify_eapol_key_mic env ver frame w in
        if \<not> ok then (-1, w) else rx_verified env src_addr ver frame n w)
     else rx_verified env src_addr ver frame n w)"

text \<open>\<open>tmp\<close> is the copy of the frame, without the octets behind its EAPOL payload.\<close>

definition wpa_sm_rx_eapol :: "'p wpa_env \<Rightarrow> bytes \<Rightarrow> bytes \<Rightarrow> 'p wpa_sm \<Rightarrow> int \<times> 'p wpa_sm" where
  "wpa_sm_rx_eapol env src_addr buf w =
    (if length buf < 4 + sizeof_eapol_key then (0, w)
     else
       (let plen = unat (WPA_GET_BE16 (drop 2 buf)) in
        if buf ! 1 \<noteq> 3 then (0, w)
        else if plen > length buf - 4 \<or> plen < sizeof_eapol_key then (0, w)
        else if \<not> alloc env AllocFrame then (-1, w)
        else
          (let tmp = take (plen + 4) buf; key = get_key (drop 4 tmp); n = unat (k_data_len key) in
           if k_type key \<noteq> 254 \<and> k_type key \<noteq> 2 then (0, w)
           else if n > plen - sizeof_eapol_key then (-1, w)
           else rx_key_frame env src_addr tmp n w)))"

section \<open>Configuration and notifications\<close>

text \<open>
  \<open>wpa_sm_init\<close>, for a cache that \<open>pmksa_cache_init\<close> has made; \<open>os_zalloc\<close> clears the rest. The own
  address is set later.
\<close>

definition wpa_sm_init :: "eloop_data \<Rightarrow> 'p wpa_sm" where
  "wpa_sm_init el =
     \<lparr>cache = pmksa_cache_init (replicate 6 0) 43200 70 el, eapol = None, ptk = ptk_zero, tptk = ptk_zero,
      ptk_set = False, tptk_set = False, snonce = replicate 32 0, anonce = replicate 32 0, renew_snonce = True,
      rx_replay_counter = replicate 8 0, rx_replay_counter_set = False, request_counter = replicate 8 0,
      preauth_bssid = replicate 6 0, preauth_eapol = False, sm_network_ctx = 0, peerkey_enabled = False,
      allowed_pairwise_cipher = 0, proactive_key_caching = False, sm_eap_workaround = False, eap_conf_ctx = 0,
      ssid = [], wpa_ptk_rekey = 0, p2p = False, dot11RSNAConfigSATimeout = 60,
      dot11RSNA4WayHandshakeFailures = 0, proto = 0, pairwise_cipher = 0, group_cipher = 0, key_mgmt = 0,
      mgmt_group_cipher = 0, rsn_enabled = False, mfp = 0, assoc_wpa_ie = None, ap_wpa_ie = None,
      ap_rsn_ie = None, p2p_ip_addr = replicate 12 0, wpa_state = WPA_DISCONNECTED, trace = []\<rparr>"

text \<open>
  The effect of \<open>rsn_preauth_deinit\<close> (\<open>preauth.c\<close>) on the machine; \<open>preauth_eapol\<close> tells whether there
  is a second EAPOL state machine.
\<close>

definition rsn_preauth_deinit :: "'p wpa_sm \<Rightarrow> 'p wpa_sm" where
  "rsn_preauth_deinit w =
    (if preauth_eapol w
     then w_emit PreauthDeinit (w_timer_cancel (5, 2, 0) w\<lparr>preauth_eapol := False, preauth_bssid := replicate 6 0\<rparr>)
     else w)"

definition wpa_sm_notify_assoc :: "bytes \<Rightarrow> 'p wpa_sm \<Rightarrow> 'p wpa_sm" where
  "wpa_sm_notify_assoc b w =
    (let w = w\<lparr>cache := (cache w)\<lparr>sm_bssid := b\<rparr>, rx_replay_counter := replicate 8 0,
           rx_replay_counter_set := False, renew_snonce := True\<rparr>;
         w = (if preauth_bssid w = b then rsn_preauth_deinit w else w) in
     w\<lparr>ptk_set := False, ptk := ptk_zero, tptk_set := False, tptk := ptk_zero, p2p_ip_addr := replicate 12 0\<rparr>)"

definition wpa_sm_notify_disassoc :: "'p wpa_sm \<Rightarrow> 'p wpa_sm" where
  "wpa_sm_notify_disassoc w =
    (let w = rsn_preauth_deinit w; w = w\<lparr>cache := pmksa_cache_clear_current (cache w)\<rparr> in
     if wpa_state w = WPA_4WAY_HANDSHAKE
     then w\<lparr>dot11RSNA4WayHandshakeFailures := dot11RSNA4WayHandshakeFailures w + 1\<rparr> else w)"

text \<open>The callers pass at most 32 octets.\<close>

definition wpa_sm_set_pmk :: "bytes \<Rightarrow> 'p wpa_sm \<Rightarrow> 'p wpa_sm" where
  "wpa_sm_set_pmk key w =
     w\<lparr>cache := (cache w)\<lparr>sm_pmk_len := length key, sm_pmk := buf_put (sm_pmk (cache w)) 0 key\<rparr>\<rparr>"

record rsn_supp_config =
  rc_network_ctx :: nat
  rc_peerkey_enabled :: bool
  rc_allowed_pairwise_cipher :: u32
  rc_proactive_key_caching :: bool
  rc_eap_workaround :: bool
  rc_eap_conf_ctx :: nat
  rc_ssid :: "bytes option"
  rc_wpa_ptk_rekey :: u32
  rc_p2p :: bool

text \<open>\<open>ssid\<close> is the first \<open>ssid_len\<close> octets of the array.\<close>

definition wpa_sm_set_config :: "rsn_supp_config option \<Rightarrow> 'p wpa_sm \<Rightarrow> 'p wpa_sm" where
  "wpa_sm_set_config cfg w =
    (case cfg of
       Some c \<Rightarrow> w\<lparr>sm_network_ctx := rc_network_ctx c, peerkey_enabled := rc_peerkey_enabled c,
          allowed_pairwise_cipher := rc_allowed_pairwise_cipher c,
          proactive_key_caching := rc_proactive_key_caching c, sm_eap_workaround := rc_eap_workaround c,
          eap_conf_ctx := rc_eap_conf_ctx c, ssid := (case rc_ssid c of None \<Rightarrow> [] | Some s \<Rightarrow> s),
          wpa_ptk_rekey := rc_wpa_ptk_rekey c, p2p := rc_p2p c\<rparr>
     | None \<Rightarrow> w\<lparr>sm_network_ctx := 0, peerkey_enabled := False, allowed_pairwise_cipher := 0,
          proactive_key_caching := False, sm_eap_workaround := False, eap_conf_ctx := 0, ssid := [],
          wpa_ptk_rekey := 0, p2p := False\<rparr>)"

definition wpa_sm_set_own_addr :: "bytes \<Rightarrow> 'p wpa_sm \<Rightarrow> 'p wpa_sm" where
  "wpa_sm_set_own_addr a w = w\<lparr>cache := (cache w)\<lparr>own_addr := take 6 a\<rparr>\<rparr>"

definition wpa_sm_set_eapol :: "'p supp option \<Rightarrow> 'p wpa_sm \<Rightarrow> 'p wpa_sm" where
  "wpa_sm_set_eapol e w = w\<lparr>eapol := e\<rparr>"

datatype wpa_sm_conf_params = RSNA_PMK_LIFETIME | RSNA_PMK_REAUTH_THRESHOLD | RSNA_SA_TIMEOUT | WPA_PARAM_PROTO
  | WPA_PARAM_PAIRWISE | WPA_PARAM_GROUP | WPA_PARAM_KEY_MGMT | WPA_PARAM_MGMT_GROUP | WPA_PARAM_RSN_ENABLED
  | WPA_PARAM_MFP

definition wpa_sm_set_param :: "wpa_sm_conf_params \<Rightarrow> u32 \<Rightarrow> 'p wpa_sm \<Rightarrow> bool \<times> 'p wpa_sm" where
  "wpa_sm_set_param param val w =
    (case param of
       RSNA_PMK_LIFETIME \<Rightarrow>
         if val > 0 then (True, w\<lparr>cache := (cache w)\<lparr>dot11RSNAConfigPMKLifetime := val\<rparr>\<rparr>) else (False, w)
     | RSNA_PMK_REAUTH_THRESHOLD \<Rightarrow>
         if val > 0 \<and> val \<le> 100 then (True, w\<lparr>cache := (cache w)\<lparr>dot11RSNAConfigPMKReauthThreshold := val\<rparr>\<rparr>)
         else (False, w)
     | RSNA_SA_TIMEOUT \<Rightarrow> if val > 0 then (True, w\<lparr>dot11RSNAConfigSATimeout := val\<rparr>) else (False, w)
     | WPA_PARAM_PROTO \<Rightarrow> (True, w\<lparr>proto := val\<rparr>)
     | WPA_PARAM_PAIRWISE \<Rightarrow> (True, w\<lparr>pairwise_cipher := val\<rparr>)
     | WPA_PARAM_GROUP \<Rightarrow> (True, w\<lparr>group_cipher := val\<rparr>)
     | WPA_PARAM_KEY_MGMT \<Rightarrow> (True, w\<lparr>key_mgmt := val\<rparr>)
     | WPA_PARAM_MGMT_GROUP \<Rightarrow> (True, w\<lparr>mgmt_group_cipher := val\<rparr>)
     | WPA_PARAM_RSN_ENABLED \<Rightarrow> (True, w\<lparr>rsn_enabled := (val \<noteq> 0)\<rparr>)
     | WPA_PARAM_MFP \<Rightarrow> (True, w\<lparr>mfp := val\<rparr>))"

definition wpa_sm_pmf_enabled :: "'p wpa_sm \<Rightarrow> bool" where
  "wpa_sm_pmf_enabled w =
    (if mfp w = 0 then False
     else (case ap_rsn_ie w of
             None \<Rightarrow> False
           | Some ie \<Rightarrow>
               (case wpa_parse_wpa_ie_rsn ie of
                  Inl err \<Rightarrow> False
                | Inr d \<Rightarrow> d_capabilities d AND (0x40 OR 0x80) \<noteq> 0)))"

definition wpa_gen_wpa_ie :: "nat \<Rightarrow> 'p wpa_sm \<Rightarrow> bytes option" where
  "wpa_gen_wpa_ie wpa_ie_len w =
    (if proto w = WPA_PROTO_RSN then
       wpa_gen_wpa_ie_rsn wpa_ie_len (pairwise_cipher w) (group_cipher w) (key_mgmt w) (mgmt_group_cipher w)
         (unat (mfp w)) (map_option pmkid (cur_entry w))
     else if proto w = WPA_PROTO_OSEN then wpa_gen_wpa_ie_osen wpa_ie_len (pairwise_cipher w) (group_cipher w)
     else wpa_gen_wpa_ie_wpa wpa_ie_len (pairwise_cipher w) (group_cipher w) (key_mgmt w))"

text \<open>The element written to the buffer of the caller, on success.\<close>

definition wpa_sm_set_assoc_wpa_ie_default ::
    "'p wpa_env \<Rightarrow> nat \<Rightarrow> 'p wpa_sm \<Rightarrow> bytes option \<times> 'p wpa_sm" where
  "wpa_sm_set_assoc_wpa_ie_default env wpa_ie_len w =
    (case wpa_gen_wpa_ie wpa_ie_len w of
       None \<Rightarrow> (None, w)
     | Some ie \<Rightarrow>
         if assoc_wpa_ie w = None
         then (if alloc env AllocIe then (Some ie, w\<lparr>assoc_wpa_ie := Some ie\<rparr>) else (None, w))
         else (Some ie, w))"

text \<open>The new value of the three elements that the program sets; the flag is false for -1.\<close>

definition set_ie :: "'p wpa_env \<Rightarrow> bytes option \<Rightarrow> bool \<times> bytes option" where
  "set_ie env ie =
    (case ie of
       None \<Rightarrow> (True, None)
     | Some b \<Rightarrow> if b = [] then (True, None) else if alloc env AllocIe then (True, Some b) else (False, None))"

definition wpa_sm_set_assoc_wpa_ie :: "'p wpa_env \<Rightarrow> bytes option \<Rightarrow> 'p wpa_sm \<Rightarrow> bool \<times> 'p wpa_sm" where
  "wpa_sm_set_assoc_wpa_ie env ie w = (let (ok, x) = set_ie env ie in (ok, w\<lparr>assoc_wpa_ie := x\<rparr>))"

definition wpa_sm_set_ap_wpa_ie :: "'p wpa_env \<Rightarrow> bytes option \<Rightarrow> 'p wpa_sm \<Rightarrow> bool \<times> 'p wpa_sm" where
  "wpa_sm_set_ap_wpa_ie env ie w = (let (ok, x) = set_ie env ie in (ok, w\<lparr>ap_wpa_ie := x\<rparr>))"

definition wpa_sm_set_ap_rsn_ie :: "'p wpa_env \<Rightarrow> bytes option \<Rightarrow> 'p wpa_sm \<Rightarrow> bool \<times> 'p wpa_sm" where
  "wpa_sm_set_ap_rsn_ie env ie w = (let (ok, x) = set_ie env ie in (ok, w\<lparr>ap_rsn_ie := x\<rparr>))"

definition wpa_sm_parse_own_wpa_ie :: "'p wpa_sm \<Rightarrow> int + wpa_ie_data" where
  "wpa_sm_parse_own_wpa_ie w =
    (case assoc_wpa_ie w of
       None \<Rightarrow> Inl (-1)
     | Some ie \<Rightarrow> (case wpa_parse_wpa_ie ie of Inl err \<Rightarrow> Inl (-2) | Inr d \<Rightarrow> Inr d))"

definition wpa_sm_drop_sa :: "'p wpa_sm \<Rightarrow> 'p wpa_sm" where
  "wpa_sm_drop_sa w = w\<lparr>ptk_set := False, tptk_set := False,
     cache := (cache w)\<lparr>sm_pmk := replicate PMK_LEN 0\<rparr>, ptk := ptk_zero, tptk := ptk_zero\<rparr>"

definition wpa_sm_has_ptk :: "'p wpa_sm \<Rightarrow> bool" where
  "wpa_sm_has_ptk w = ptk_set w"

definition wpa_sm_update_replay_ctr :: "bytes \<Rightarrow> 'p wpa_sm \<Rightarrow> 'p wpa_sm" where
  "wpa_sm_update_replay_ctr ctr w = w\<lparr>rx_replay_counter := take 8 ctr\<rparr>"

definition wpa_sm_pmksa_cache_flush :: "'p wpa_env \<Rightarrow> nat \<Rightarrow> 'p wpa_sm \<Rightarrow> 'p wpa_sm" where
  "wpa_sm_pmksa_cache_flush env ctx w = w\<lparr>cache := pmksa_cache_flush (pm_env env) (now env) ctx None (cache w)\<rparr>"

text \<open>Keys of a WNM-Sleep exit: sub-element 0 is the GTK and 1 the IGTK.\<close>

definition wpa_wnmsleep_install_key :: "'p wpa_env \<Rightarrow> u8 \<Rightarrow> bytes \<Rightarrow> 'p wpa_sm \<Rightarrow> bool \<times> 'p wpa_sm" where
  "wpa_wnmsleep_install_key env subelem_id buf w =
    (if subelem_id = 0 then
       (let keylen = wpa_cipher_key_len (group_cipher w); alg = wpa_cipher_to_alg (group_cipher w);
            info = WPA_GET_LE16 (drop 2 buf) in
        if alg = WPA_ALG_NONE then (False, w)
        else if keylen \<noteq> unat (buf ! 4) then (False, w)
        else wpa_supplicant_install_gtk env
          \<lparr>gd_alg = alg, gd_tx = wpa_supplicant_gtk_tx_bit_workaround w (info AND 0x40 \<noteq> 0),
           gd_key_rsc_len = wpa_cipher_rsc_len (group_cipher w), gd_keyidx = unat (info AND 3),
           gd_gtk = buf_put (replicate 32 0) 0 (take keylen (drop 13 buf)), gd_gtk_len = keylen\<rparr> (take 8 (drop 5 buf)) w)
     else if subelem_id = 1 then
       (let keylen = wpa_cipher_key_len (mgmt_group_cipher w) in
        wpa_sm_set_key env (wpa_cipher_to_alg (mgmt_group_cipher w)) (Some broadcast_ether_addr)
          (unat (WPA_GET_LE16 (drop 2 buf))) False (take 6 (drop 4 buf)) (take keylen (drop 10 buf)) w)
     else (False, w))"

definition wpa_sm_get_p2p_ip_addr :: "'p wpa_sm \<Rightarrow> bytes option" where
  "wpa_sm_get_p2p_ip_addr w = (if WPA_GET_BE32 (p2p_ip_addr w) = 0 then None else Some (p2p_ip_addr w))"

definition wpa_sm_set_rx_replay_ctr :: "bytes option \<Rightarrow> 'p wpa_sm \<Rightarrow> 'p wpa_sm" where
  "wpa_sm_set_rx_replay_ctr ctr w =
    (case ctr of None \<Rightarrow> w | Some c \<Rightarrow> w\<lparr>rx_replay_counter := take 8 c, rx_replay_counter_set := True\<rparr>)"

definition wpa_sm_set_ptk_kck_kek :: "bytes option \<Rightarrow> bytes option \<Rightarrow> 'p wpa_sm \<Rightarrow> 'p wpa_sm" where
  "wpa_sm_set_ptk_kck_kek ptk_kck ptk_kek w =
    (let w = (case ptk_kck of None \<Rightarrow> w | Some k \<Rightarrow> w\<lparr>ptk := (ptk w)\<lparr>kck := take 16 k\<rparr>\<rparr>);
         w = (case ptk_kek of None \<Rightarrow> w | Some k \<Rightarrow> w\<lparr>ptk := (ptk w)\<lparr>kek := take 16 k\<rparr>\<rparr>) in
     w\<lparr>ptk_set := True\<rparr>)"

end
