(* ===== verification/WpaSmKeeps.thy ===== *)
theory WpaSmKeeps
  imports WpaSm
begin

text \<open>
  What the operations of the WPA state machine leave alone: \<open>same_keys\<close> for the PTK and the replay
  counter, which only the verification of a MIC changes while frames are received, and \<open>no_key\<close> for
  an operation that installs no key in the driver.
\<close>

section \<open>No key, same keys\<close>

text \<open>The events that an operation adds to the trace.\<close>

definition is_set_key :: "wpa_event \<Rightarrow> bool" where
  "is_set_key ev = (case ev of SetKey _ _ _ _ _ _ \<Rightarrow> True | _ \<Rightarrow> False)"

lemma is_set_key_simps [simp]:
  "is_set_key (SetKey alg a i t sq k)" "\<not> is_set_key (SetState st)" "\<not> is_set_key Deauth"
  "\<not> is_set_key (EtherSend d m)" "\<not> is_set_key CancelAuthTimeout" "\<not> is_set_key (SetProtection b p)"
  "\<not> is_set_key (SetRekeyOffload x y z)" "\<not> is_set_key (KeyMgmtSetPmk p')" "\<not> is_set_key PreauthDeinit"
  by (simp_all add: is_set_key_def)

text \<open>The operation adds no key to the driver.\<close>

definition no_key :: "'p wpa_sm \<Rightarrow> 'p wpa_sm \<Rightarrow> bool" where
  "no_key w w' \<longleftrightarrow> (\<exists>evs. trace w' = trace w @ evs \<and> list_all (\<lambda>ev. \<not> is_set_key ev) evs)"

lemma no_key_refl [simp]: "no_key w w"
  by (simp add: no_key_def)

lemma no_key_trans: "no_key w w' \<Longrightarrow> no_key w' w'' \<Longrightarrow> no_key w w''"
  by (fastforce simp: no_key_def)

text \<open>The security relevant part of the state that the handlers of a verified frame do not change.\<close>

definition same_keys :: "'p wpa_sm \<Rightarrow> 'p wpa_sm \<Rightarrow> bool" where
  "same_keys w w' \<longleftrightarrow> ptk w' = ptk w \<and> ptk_set w' = ptk_set w \<and> rx_replay_counter w' = rx_replay_counter w \<and>
     rx_replay_counter_set w' = rx_replay_counter_set w"

lemma same_keys_refl [simp]: "same_keys w w"
  by (simp add: same_keys_def)

lemma same_keys_trans [trans]: "same_keys w w' \<Longrightarrow> same_keys w' w'' \<Longrightarrow> same_keys w w''"
  by (simp add: same_keys_def)

lemma w_emit_simps [simp]:
  "trace (w_emit ev w) = trace w @ [ev]" "same_keys w (w_emit ev w)"
  "cache (w_emit ev w) = cache w" "eapol (w_emit ev w) = eapol w" "ptk (w_emit ev w) = ptk w"
  "tptk (w_emit ev w) = tptk w" "ptk_set (w_emit ev w) = ptk_set w" "tptk_set (w_emit ev w) = tptk_set w"
  "snonce (w_emit ev w) = snonce w" "anonce (w_emit ev w) = anonce w" "renew_snonce (w_emit ev w) = renew_snonce w"
  "rx_replay_counter (w_emit ev w) = rx_replay_counter w"
  "rx_replay_counter_set (w_emit ev w) = rx_replay_counter_set w"
  "proto (w_emit ev w) = proto w" "pairwise_cipher (w_emit ev w) = pairwise_cipher w"
  "group_cipher (w_emit ev w) = group_cipher w" "key_mgmt (w_emit ev w) = key_mgmt w"
  "mgmt_group_cipher (w_emit ev w) = mgmt_group_cipher w" "wpa_state (w_emit ev w) = wpa_state w"
  "wpa_ptk_rekey (w_emit ev w) = wpa_ptk_rekey w" "ap_wpa_ie (w_emit ev w) = ap_wpa_ie w"
  "ap_rsn_ie (w_emit ev w) = ap_rsn_ie w" "assoc_wpa_ie (w_emit ev w) = assoc_wpa_ie w"
  "rsn_enabled (w_emit ev w) = rsn_enabled w" "p2p (w_emit ev w) = p2p w"
  by (simp_all add: w_emit_def same_keys_def)

text \<open>A call of the EAPOL state machine changes at most that machine and the current cache entry.\<close>

lemma eapol_call_cases:
  obtains e where "eapol_call f w = w\<lparr>eapol := e\<rparr>"
  | e where "eapol_call f w = w\<lparr>eapol := e, cache := (cache w)\<lparr>cur_pmksa := 0\<rparr>\<rparr>"
proof (cases "eapol w")
  case None
  then have "eapol_call f w = w\<lparr>eapol := None\<rparr>" by (simp add: eapol_call_def)
  then show ?thesis using that(1) by blast
next
  case (Some e)
  have "wpa_sm_aborted_cached v = v \<or> wpa_sm_aborted_cached v = v\<lparr>cache := (cache v)\<lparr>cur_pmksa := 0\<rparr>\<rparr>" for v :: "'a wpa_sm"
    by (simp add: wpa_sm_aborted_cached_def)
  then have "eapol_call f w = w\<lparr>eapol := Some (f e)\<rparr> \<or>
      eapol_call f w = w\<lparr>eapol := Some (f e), cache := (cache w)\<lparr>cur_pmksa := 0\<rparr>\<rparr>"
    using Some by (fastforce simp: eapol_call_def Let_def)
  then show ?thesis using that by blast
qed

lemma eapol_call_simps [simp]:
  "trace (eapol_call f w) = trace w" "same_keys w (eapol_call f w)" "ptk (eapol_call f w) = ptk w"
  "tptk (eapol_call f w) = tptk w" "ptk_set (eapol_call f w) = ptk_set w" "tptk_set (eapol_call f w) = tptk_set w"
  "snonce (eapol_call f w) = snonce w" "anonce (eapol_call f w) = anonce w"
  "renew_snonce (eapol_call f w) = renew_snonce w" "rx_replay_counter (eapol_call f w) = rx_replay_counter w"
  "rx_replay_counter_set (eapol_call f w) = rx_replay_counter_set w"
  "proto (eapol_call f w) = proto w" "pairwise_cipher (eapol_call f w) = pairwise_cipher w"
  "group_cipher (eapol_call f w) = group_cipher w" "key_mgmt (eapol_call f w) = key_mgmt w"
  "mgmt_group_cipher (eapol_call f w) = mgmt_group_cipher w" "wpa_state (eapol_call f w) = wpa_state w"
  "wpa_ptk_rekey (eapol_call f w) = wpa_ptk_rekey w" "ap_wpa_ie (eapol_call f w) = ap_wpa_ie w"
  "ap_rsn_ie (eapol_call f w) = ap_rsn_ie w" "assoc_wpa_ie (eapol_call f w) = assoc_wpa_ie w"
  "rsn_enabled (eapol_call f w) = rsn_enabled w" "p2p (eapol_call f w) = p2p w"
  "sm_bssid (cache (eapol_call f w)) = sm_bssid (cache w)" "sm_pmk (cache (eapol_call f w)) = sm_pmk (cache w)"
  "sm_pmk_len (cache (eapol_call f w)) = sm_pmk_len (cache w)"
  "own_addr (cache (eapol_call f w)) = own_addr (cache w)" "pmksa (cache (eapol_call f w)) = pmksa (cache w)"
  by (cases rule: eapol_call_cases [of f w]; simp add: same_keys_def)+

text \<open>An operation that adds no key to the driver and leaves that part of the state alone.\<close>

definition keeps :: "'p wpa_sm \<Rightarrow> 'p wpa_sm \<Rightarrow> bool" where
  "keeps w w' \<longleftrightarrow> no_key w w' \<and> same_keys w w'"

lemmas keeps_defs = keeps_def no_key_def same_keys_def

lemma keeps_refl [simp]: "keeps w w"
  by (simp add: keeps_def)

lemma keeps_trans [trans]: "keeps w w' \<Longrightarrow> keeps w' w'' \<Longrightarrow> keeps w w''"
  using no_key_trans same_keys_trans by (auto simp: keeps_def)

lemma keeps_same_keys: "keeps w w' \<Longrightarrow> same_keys w w'"
  by (simp add: keeps_def)

lemma keeps_basic [simp]:
  "keeps w (eapol_call f w)" "keeps w (wpa_sm_set_state st w)" "keeps w (wpa_sm_deauthenticate w)"
  "keeps w (w_timer_register env secs k w)" "keeps w (w_timer_cancel k w)"
  "keeps w (wpa_sm_set_rekey_offload env w)" "keeps w (wpa_supplicant_key_mgmt_set_pmk env w)"
  "keeps w (wpa_sm_get_beacon_ie env w)" "\<not> is_set_key ev \<Longrightarrow> keeps w (w_emit ev w)"
  "keeps w (w\<lparr>cache := c\<rparr>)" "keeps w (wpa_sm_set_pmk_from_pmksa w)"
  by (auto simp: keeps_defs wpa_sm_set_state_def wpa_sm_deauthenticate_def w_timer_register_def w_timer_cancel_def
      wpa_sm_set_rekey_offload_def wpa_supplicant_key_mgmt_set_pmk_def wpa_sm_get_beacon_ie_def w_emit_def
      wpa_sm_set_pmk_from_pmksa_def Let_def split: option.splits)

section \<open>Message 1\<close>

lemma keeps_key_send [simp]: "keeps w (wpa_eapol_key_send env key ver dest msg m w)"
  by (auto simp: wpa_eapol_key_send_def Let_def keeps_defs split: option.splits)

lemma keeps_send:
  "keeps w (snd (wpa_supplicant_send_2_of_4 env dst key ver nonce ie p w))"
  "keeps w (snd (wpa_supplicant_send_4_of_4 env dst key ver info p w))"
  "keeps w (snd (wpa_supplicant_send_2_of_2 env key ver info w))"
  by (auto simp: wpa_supplicant_send_2_of_4_def wpa_supplicant_send_4_of_4_def wpa_supplicant_send_2_of_2_def Let_def
      split: option.splits)

lemma keeps_get_pmk_parts:
  "keeps w (snd (get_pmk_lookup src pid w))" "keeps w (snd (get_eapol_pmk e w))"
  "keeps w (snd (get_pmk_finish env ab w))"
  by (auto simp: get_pmk_lookup_def get_eapol_pmk_def get_pmk_finish_def Let_def split: option.splits prod.splits)

lemma keeps_get_pmk_store: "keeps w (snd (get_pmk_store env src pid n ab w))"
proof -
  let ?w = "w\<lparr>cache := (cache w)\<lparr>sm_pmk_len := n\<rparr>\<rparr>"
  have "keeps w (wpa_supplicant_key_mgmt_set_pmk env ?w)"
    by (rule keeps_trans [of w ?w]) simp_all
  then show ?thesis
    by (auto simp: get_pmk_store_def Let_def keeps_defs split: prod.splits)
qed

lemma keeps_get_pmk: "keeps w (snd (wpa_supplicant_get_pmk env src pid w))"
proof -
  obtain ab w1 where l: "get_pmk_lookup src pid w = (ab, w1)" by fastforce
  then have k: "keeps w w1" using keeps_get_pmk_parts(1) [of w src pid] by simp
  have fin: "keeps w v \<Longrightarrow> keeps w (snd (get_pmk_finish env ab v))" for v ab
    using keeps_trans [OF _ keeps_get_pmk_parts(3)] by blast
  show ?thesis
  proof (cases "pid \<noteq> None \<and> cur_entry w1 \<noteq> None \<and> pid = Some (pmkid (the (cur_entry w1)))")
    case True
    have "keeps w (eapol_call (eapol_sm_notify_cached (supp_env env)) (wpa_sm_set_pmk_from_pmksa w1))"
      by (rule keeps_trans [OF keeps_trans [OF k, of "wpa_sm_set_pmk_from_pmksa w1"]]) simp_all
    then show ?thesis
      using True l by (auto simp: wpa_supplicant_get_pmk_def Let_def intro!: fin)
  next
    case False
    show ?thesis
    proof (cases "wpa_key_mgmt_wpa_ieee8021x (key_mgmt w1) \<and> eapol w1 \<noteq> None")
      case eap: True
      obtain n w2 where e: "get_eapol_pmk (the (eapol w1)) w1 = (n, w2)" by fastforce
      then have k2: "keeps w w2" using keeps_get_pmk_parts(2) [of w1 "the (eapol w1)"] keeps_trans [OF k] by simp
      show ?thesis
      proof (cases n)
        case None
        have "keeps w (w2\<lparr>cache := (cache w2)\<lparr>cur_pmksa := 0\<rparr>\<rparr>)" by (rule keeps_trans [OF k2]) simp
        then show ?thesis
          using False eap l e None k2
          by (auto simp: wpa_supplicant_get_pmk_def Let_def intro!: fin)
      next
        case (Some m)
        obtain ab' w3 where s: "get_pmk_store env src pid m ab w2 = (ab', w3)" by fastforce
        have "keeps w w3" using keeps_trans [OF k2 keeps_get_pmk_store] s by (metis snd_conv)
        then show ?thesis
          using False eap l e Some s
          by (auto simp: wpa_supplicant_get_pmk_def Let_def intro!: fin)
      qed
    next
      case False2: False
      then show ?thesis
        using False l k by (auto simp: wpa_supplicant_get_pmk_def Let_def intro!: fin)
    qed
  qed
qed

lemma keeps_1_of_4_reply: "keeps w (process_1_of_4_reply env key ver w)"
proof -
  define p where "p = (if pairwise_cipher w = WPA_CIPHER_TKIP then swap_mic_keys (wpa_derive_ptk env key (tptk w) w)
      else wpa_derive_ptk env key (tptk w) w)"
  let ?w = "w\<lparr>tptk := p, tptk_set := True\<rparr>"
  have "keeps w ?w" by (simp add: keeps_defs)
  then have k: "keeps w (snd (wpa_supplicant_send_2_of_4 env (bssid ?w) key ver (snonce ?w) (msg2_key_data env ?w) p ?w))"
    using keeps_send(1) keeps_trans by blast
  show ?thesis
    using k unfolding process_1_of_4_reply_def Let_def p_def [symmetric]
    by (auto simp: keeps_defs wpa_sm_deauthenticate_def w_emit_def split: prod.splits)
qed

lemma keeps_process_1_of_4: "keeps w (wpa_supplicant_process_1_of_4 env src key ver kd n w)"
proof -
  let ?w = "wpa_sm_set_state WPA_4WAY_HANDSHAKE w"
  have "keeps w (snd (wpa_supplicant_get_pmk env src pid ?w))" for pid
    by (rule keeps_trans [OF _ keeps_get_pmk]) simp
  then have k: "wpa_supplicant_get_pmk env src pid ?w = (res, w1) \<Longrightarrow> keeps w w1" for pid res w1
    by (metis snd_conv)
  have r: "keeps w w1 \<Longrightarrow> keeps w (process_1_of_4_reply env key ver (w1\<lparr>snonce := s, renew_snonce := b\<rparr>))"
    "keeps w w1 \<Longrightarrow> keeps w (process_1_of_4_reply env key ver w1)" for w1 s b
    by (rule keeps_trans [OF _ keeps_1_of_4_reply]; simp add: keeps_defs)+
  have d: "keeps w w1 \<Longrightarrow> keeps w (wpa_sm_deauthenticate w1)" for w1
    by (erule keeps_trans) simp
  show ?thesis
    by (auto simp: wpa_supplicant_process_1_of_4_def Let_def intro: k r d split: option.splits prod.splits pmk_result.splits)
qed

section \<open>Message 3 and the group key handshake\<close>

lemma same_keys_update [simp]:
  "same_keys w (w\<lparr>cache := c\<rparr>)" "same_keys w (w\<lparr>renew_snonce := b\<rparr>)" "same_keys w (w\<lparr>p2p_ip_addr := a\<rparr>)"
  by (simp_all add: same_keys_def)

lemma same_keys_basic [simp]:
  "same_keys w (wpa_sm_set_state st w)" "same_keys w (wpa_sm_deauthenticate w)"
  "same_keys w (w_timer_register env secs k w)" "same_keys w (w_timer_cancel k w)"
  "same_keys w (wpa_sm_set_rekey_offload env w)" "same_keys w (wpa_sm_get_beacon_ie env w)"
  by (rule keeps_same_keys, simp)+

lemma same_keys_set_key [simp]: "same_keys w (snd (wpa_sm_set_key env alg a i t sq k w))"
  by (simp add: wpa_sm_set_key_def Let_def)

lemma state_fields [simp]:
  "ptk (wpa_sm_set_state st w) = ptk w" "ptk (wpa_sm_deauthenticate w) = ptk w"
  "ptk_set (wpa_sm_set_state st w) = ptk_set w" "ptk_set (wpa_sm_deauthenticate w) = ptk_set w"
  "rx_replay_counter (wpa_sm_set_state st w) = rx_replay_counter w"
  "rx_replay_counter (wpa_sm_deauthenticate w) = rx_replay_counter w"
  "rx_replay_counter_set (wpa_sm_set_state st w) = rx_replay_counter_set w"
  "rx_replay_counter_set (wpa_sm_deauthenticate w) = rx_replay_counter_set w"
  by (simp_all add: wpa_sm_set_state_def wpa_sm_deauthenticate_def)

lemma same_keys_neg_complete: "same_keys w (wpa_supplicant_key_neg_complete env a sec w)"
proof -
  define w1 where "w1 = wpa_sm_set_state WPA_COMPLETED (w_emit CancelAuthTimeout w)"
  define w2 where "w2 = eapol_call (eapol_sm_notify_portValid (supp_env env) True) (w_emit (SetProtection a PROTECT_RX_TX) w1)"
  define w3 where "w3 = (if sec then w_timer_register env 1 start_preauth_key
     (if wpa_key_mgmt_wpa_psk (key_mgmt w2) then eapol_call (eapol_sm_notify_eap_success (supp_env env) True) w2 else w2) else w1)"
  have "same_keys w w1" "same_keys w1 w2" "same_keys w1 w3"
    by (auto simp: w1_def w2_def w3_def same_keys_def w_timer_register_def)
  then have "same_keys w w3" using same_keys_trans by blast
  moreover have "wpa_supplicant_key_neg_complete env a sec w =
      (case cur_entry w3 of None \<Rightarrow> w3 | Some e \<Rightarrow> if opportunistic e
         then w3\<lparr>cache := (cache w3)\<lparr>pmksa := List.map (\<lambda>x. if pe_addr x = pe_addr e then x\<lparr>opportunistic := False\<rparr> else x)
            (pmksa (cache w3))\<rparr>\<rparr> else w3)"
    unfolding wpa_supplicant_key_neg_complete_def Let_def w1_def [symmetric] w2_def [symmetric] w3_def ..
  ultimately show ?thesis by (auto simp: same_keys_def split: option.splits)
qed

lemma same_keys_install_ptk: "same_keys w (snd (wpa_supplicant_install_ptk env key w))"
  by (auto simp: wpa_supplicant_install_ptk_def wpa_sm_set_key_def Let_def same_keys_def w_timer_register_def
      w_timer_cancel_def)

lemma same_keys_install_gtk: "same_keys w (snd (wpa_supplicant_install_gtk env gd rsc w))"
  by (simp add: wpa_supplicant_install_gtk_def Let_def)

lemma same_keys_pairwise_gtk: "same_keys w (snd (wpa_supplicant_pairwise_gtk env key gtk info w))"
proof -
  have c: "same_keys w v \<Longrightarrow> same_keys w (wpa_supplicant_key_neg_complete env (bssid v) sec v)" for v sec
    using same_keys_trans [OF _ same_keys_neg_complete] by blast
  have i: "wpa_supplicant_install_gtk env gd rsc w = (ok, v) \<Longrightarrow> same_keys w v" for gd rsc ok v
    using same_keys_install_gtk [of w env gd rsc] by simp
  define gd where "gd = \<lparr>gd_alg = WPA_ALG_NONE, gd_tx = wpa_supplicant_gtk_tx_bit_workaround w (gtk ! 0 AND 4 \<noteq> 0),
     gd_key_rsc_len = 0, gd_keyidx = unat (gtk ! 0 AND 3), gd_gtk = buf_put (replicate 32 0) 0 (drop 2 gtk),
     gd_gtk_len = length gtk - 2\<rparr>"
  define r where "r = (if group_cipher w \<noteq> WPA_CIPHER_GTK_NOT_USED then
       (case wpa_supplicant_check_group_cipher (group_cipher w) (length gtk - 2) (length gtk - 2) of
          None \<Rightarrow> (False, w)
        | Some (rsclen, alg) \<Rightarrow>
            wpa_supplicant_install_gtk env (gd\<lparr>gd_key_rsc_len := rsclen, gd_alg := alg\<rparr>) (k_rsc key) w)
     else (True, w))"
  obtain ok v where v: "r = (ok, v)" by fastforce
  have "same_keys w v" using v i by (auto simp: r_def split: if_splits option.splits prod.splits)
  then show ?thesis
    using v c unfolding wpa_supplicant_pairwise_gtk_def Let_def gd_def [symmetric] r_def [symmetric]
    by auto
qed

lemma same_keys_80211w: "same_keys w (snd (ieee80211w_set_keys env ie w))"
  by (simp add: ieee80211w_set_keys_def Let_def split: option.splits)

lemma validate_ie_state: "snd (wpa_supplicant_validate_ie env ie w) \<in> {w, wpa_sm_get_beacon_ie env w}"
proof -
  define w0 where "w0 = (if ap_wpa_ie w = None \<and> ap_rsn_ie w = None then wpa_sm_get_beacon_ie env w else w)"
  have "snd (wpa_supplicant_validate_ie env ie w) = w0"
    unfolding wpa_supplicant_validate_ie_def Let_def w0_def [symmetric] by (simp only: if_distrib [of snd] snd_conv if_cancel)
  then show ?thesis by (simp add: w0_def)
qed

lemma msg3_checks_state: "snd (msg3_checks env key ie w) \<in> {w, wpa_sm_get_beacon_ie env w}"
proof -
  obtain ok v where v: "wpa_supplicant_validate_ie env ie w = (ok, v)" by fastforce
  then have m: "v \<in> {w, wpa_sm_get_beacon_ie env w}" using validate_ie_state [of env ie w] by simp
  have "snd (msg3_checks env key ie w) \<in> {w, v}"
    unfolding msg3_checks_def Let_def v prod.case if_distrib [of snd] snd_conv if_cancel by simp
  then show ?thesis using m by auto
qed

lemma keeps_msg3_checks: "keeps w (snd (msg3_checks env key ie w))"
  using msg3_checks_state [of env key ie w] by auto

lemma same_keys_msg3_group: "same_keys w (snd (msg3_group_keys env key ie w))"
proof -
  have a: "same_keys (wpa_sm_set_state WPA_GROUP_HANDSHAKE w) v \<Longrightarrow> same_keys w v" for v
    using same_keys_trans [OF same_keys_basic(1)] by blast
  have b: "wpa_supplicant_pairwise_gtk env key gtk info v = (ok, u) \<Longrightarrow> same_keys v u" for gtk info v ok u
    using same_keys_pairwise_gtk [of v env key gtk info] by simp
  have c: "ieee80211w_set_keys env ie v = (ok, u) \<Longrightarrow> same_keys v u" for v ok u
    using same_keys_80211w [of v env ie] by simp
  define st where "st = wpa_sm_set_state WPA_GROUP_HANDSHAKE w"
  define r where "r = (if group_cipher st = WPA_CIPHER_GTK_NOT_USED
            then (True, wpa_supplicant_key_neg_complete env (bssid st) (k_info key AND 0x200 \<noteq> 0) st)
            else (case ie_gtk ie of None \<Rightarrow> (True, st)
               | Some gtk \<Rightarrow> wpa_supplicant_pairwise_gtk env key gtk (k_info key) st))"
  obtain ok v where r': "r = (ok, v)" by fastforce
  have v: "same_keys w v"
    using r' b same_keys_neg_complete by (intro a) (auto simp: r_def st_def split: if_splits option.splits)
  obtain ok2 u where u: "ieee80211w_set_keys env ie v = (ok2, u)" by fastforce
  have "same_keys w u" using c [OF u] v same_keys_trans by blast
  then show ?thesis
    using v r' u same_keys_trans [OF _ same_keys_basic(5)]
    unfolding msg3_group_keys_def Let_def st_def [symmetric] r_def [symmetric] by auto
qed

lemma same_keys_msg3_install: "same_keys w (snd (msg3_install env key ie w))"
proof -
  obtain ok v where v: "(if k_info key AND 0x40 \<noteq> 0 then wpa_supplicant_install_ptk env key (w\<lparr>renew_snonce := True\<rparr>)
      else (True, w\<lparr>renew_snonce := True\<rparr>)) = (ok, v)" by fastforce
  have "same_keys (w\<lparr>renew_snonce := True\<rparr>) v"
    using v same_keys_install_ptk [of "w\<lparr>renew_snonce := True\<rparr>" env key] by (auto split: if_splits)
  then have s: "same_keys w v" using same_keys_trans [OF same_keys_update(2)] by blast
  then have "same_keys w (if k_info key AND 0x200 \<noteq> 0
        then eapol_call (eapol_sm_notify_portValid (supp_env env) True) (w_emit (SetProtection (bssid v) PROTECT_RX) v)
        else v)" by (simp add: same_keys_def)
  then show ?thesis
    using s v same_keys_trans [OF _ same_keys_msg3_group] by (auto simp: msg3_install_def Let_def)
qed

lemma same_keys_process_3_of_4: "same_keys w (wpa_supplicant_process_3_of_4 env key ver kd n w)"
proof (cases "wpa_supplicant_parse_ies kd n")
  case None
  then show ?thesis by (simp add: wpa_supplicant_process_3_of_4_def Let_def same_keys_def)
next
  case (Some ie)
  define w0 where "w0 = wpa_sm_set_state WPA_4WAY_HANDSHAKE w"
  obtain ok1 w1 where 1: "msg3_checks env key ie w0 = (ok1, w1)" by fastforce
  define w2 where "w2 = (case ie_ip_addr_alloc ie of None \<Rightarrow> w1 | Some a \<Rightarrow> w1\<lparr>p2p_ip_addr := take 12 a\<rparr>)"
  obtain ok3 w3 where 3: "wpa_supplicant_send_4_of_4 env (bssid w2) key ver (k_info key) (ptk w2) w2 = (ok3, w3)"
    by fastforce
  obtain ok4 w4 where 4: "msg3_install env key ie w3 = (ok4, w4)" by fastforce
  have "same_keys w w0" by (simp add: w0_def)
  also have "same_keys w0 w1" using 1 keeps_msg3_checks [of w0 env key ie, THEN keeps_same_keys] by simp
  finally have w1: "same_keys w w1" .
  also have "same_keys w1 w2" by (simp add: w2_def split: option.splits)
  also have "same_keys w2 w3" using 3 keeps_send(2) [of w2, THEN keeps_same_keys] by (metis snd_conv)
  finally have w3: "same_keys w w3" .
  also have "same_keys w3 w4" using 4 same_keys_msg3_install [of w3 env key ie] by simp
  finally have w4: "same_keys w w4" .
  have "same_keys w v \<Longrightarrow> same_keys w (wpa_sm_deauthenticate v)" for v
    by (simp add: same_keys_def)
  then show ?thesis
    using w1 w3 w4 unfolding wpa_supplicant_process_3_of_4_def Let_def w0_def [symmetric]
    by (simp add: Some 1 w2_def [symmetric] 3 4)
qed

lemma same_keys_1_of_2_rsn: "same_keys w (snd (wpa_supplicant_process_1_of_2_rsn env kd n info w))"
  using same_keys_80211w
  by (auto simp: wpa_supplicant_process_1_of_2_rsn_def Let_def split: option.splits)

lemma same_keys_process_1_of_2: "same_keys w (wpa_supplicant_process_1_of_2 env key kd n ver w)"
proof -
  have d: "same_keys w v \<Longrightarrow> same_keys w (wpa_sm_deauthenticate v)" for v
    by (simp add: same_keys_def)
  define r where "r = (if proto w = WPA_PROTO_RSN \<or> proto w = WPA_PROTO_OSEN
            then wpa_supplicant_process_1_of_2_rsn env kd n (k_info key) w
            else (wpa_supplicant_process_1_of_2_wpa env key kd n (k_info key) ver w, w))"
  obtain g w1 where 1: "r = (g, w1)" by fastforce
  have k1: "same_keys w w1"
    using 1 same_keys_1_of_2_rsn [of w env kd n "k_info key"] by (auto simp: r_def split: if_splits)
  define w2 where "w2 = wpa_sm_set_state WPA_GROUP_HANDSHAKE w1"
  have k2: "same_keys w w2" using k1 by (simp add: w2_def same_keys_def)
  show ?thesis
  proof (cases g)
    case None
    then show ?thesis
      using d k2 unfolding wpa_supplicant_process_1_of_2_def Let_def r_def [symmetric] 1 w2_def by simp
  next
    case (Some gd)
    obtain ok3 w3 where 3: "wpa_supplicant_install_gtk env gd (k_rsc key) w2 = (ok3, w3)" by fastforce
    have k3: "same_keys w w3" using k2 3 same_keys_install_gtk same_keys_trans by (metis snd_conv)
    obtain ok4 w4 where 4: "wpa_supplicant_send_2_of_2 env key ver (k_info key) w3 = (ok4, w4)" by fastforce
    have k4: "same_keys w w4" using k3 4 keeps_send(3) keeps_same_keys same_keys_trans by (metis snd_conv)
    define w5 where "w5 = (if wpa_state w = WPA_COMPLETED then wpa_sm_set_state WPA_COMPLETED (w_emit CancelAuthTimeout w4)
       else wpa_supplicant_key_neg_complete env (bssid w4) (k_info key AND 0x200 \<noteq> 0) w4)"
    have "same_keys w4 w5" using same_keys_neg_complete [of w4] by (simp add: w5_def same_keys_def)
    then have k5: "same_keys w (wpa_sm_set_rekey_offload env w5)"
      using k4 same_keys_trans same_keys_basic(5) by blast
    show ?thesis
      using d k3 k4 k5
      unfolding wpa_supplicant_process_1_of_2_def Let_def r_def [symmetric] 1 prod.case w2_def [symmetric]
      by (simp add: Some 3 4 w5_def [symmetric])
  qed
qed

section \<open>Reception\<close>

lemma same_keys_dispatch: "same_keys w (snd (rx_dispatch env src ver frame n w))"
  by (simp add: rx_dispatch_def Let_def same_keys_process_3_of_4 same_keys_process_1_of_2
      keeps_process_1_of_4 [THEN keeps_same_keys])

lemma keeps_dispatch:
  "k_info (get_key (drop 4 frame)) AND 0x100 = 0 \<Longrightarrow> keeps w (snd (rx_dispatch env src ver frame n w))"
  by (simp add: rx_dispatch_def Let_def keeps_process_1_of_4)

text \<open>The fields in front of the MIC depend on the first 81 octets of the frame only.\<close>

lemma get_key_head:
  assumes "take 81 f' = take 81 f"
  shows "k_info (get_key (drop 4 f')) = k_info (get_key (drop 4 f))"
    "k_replay (get_key (drop 4 f')) = k_replay (get_key (drop 4 f))"
proof -
  have n: "f' ! i = f ! i" if "i < 81" for i using nth_take [OF that] assms by metis
  have "length (take 81 f') = length (take 81 f)" using assms by simp
  then have l: "i < length f' \<longleftrightarrow> i < length f" if "i < 81" for i using that by auto
  have "drop 4 f' ! i = drop 4 f ! i" if "i < 77" for i
  proof (cases "4 \<le> length f")
    case True
    then have "4 \<le> length f'" using l [of 3] by auto
    then show ?thesis using n [of "4 + i"] that True by simp
  next
    case False
    then have "\<not> 4 \<le> length f'" using l [of 3] by auto
    then show ?thesis using False by simp
  qed
  from this [of 1] this [of 2] have "drop 1 (drop 4 f') ! i = drop 1 (drop 4 f) ! i" if "i < 2" for i
    using that n l [of 4] l [of 5] l [of 6]
    by (cases "5 \<le> length f"; cases "5 \<le> length f'") (auto simp: numeral_2_eq_2 less_Suc_eq)
  from this [of 0] this [of 1]
  show "k_info (get_key (drop 4 f')) = k_info (get_key (drop 4 f))"
    by (simp add: get_key_def WPA_GET_BE16_def)
  have "take 8 (drop 9 (take 81 f')) = take 8 (drop 9 (take 81 f))" using assms by simp
  then show "k_replay (get_key (drop 4 f')) = k_replay (get_key (drop 4 f))"
    by (simp add: get_key_def drop_take min_def)
qed

lemma decrypt_head:
  assumes "wpa_supplicant_decrypt_key_data env ver frame n w = Some (frame', n')" "99 \<le> length frame"
  shows "take 81 frame' = take 81 frame"
proof -
  have "take 81 (buf_put frame 99 xs) = take 81 frame" for xs
    using assms(2) by (simp add: buf_put_def)
  moreover have "take 81 (buf_put (buf_put frame 99 xs) 97 ys) = take 81 frame" for xs ys
    using assms(2) by (simp add: buf_put_def)
  ultimately show ?thesis
    using assms by (auto simp: wpa_supplicant_decrypt_key_data_def Let_def split: if_splits option.splits)
qed

lemma same_keys_rx_verified: "same_keys w (snd (rx_verified env src ver frame n w))"
  by (simp add: rx_verified_def same_keys_dispatch split: option.splits)

lemma keeps_rx_verified:
  assumes "k_info (get_key (drop 4 frame)) AND 0x100 = 0" "99 \<le> length frame"
  shows "keeps w (snd (rx_verified env src ver frame n w))"
proof (cases "wpa_supplicant_decrypt_key_data env ver frame n w")
  case None
  then show ?thesis by (simp add: rx_verified_def keeps_dispatch [OF assms(1)])
next
  case (Some r)
  obtain frame' n' where r: "r = (frame', n')" by fastforce
  have "k_info (get_key (drop 4 frame')) AND 0x100 = 0"
    using assms get_key_head(1) [OF decrypt_head, OF Some [unfolded r]] by simp
  then show ?thesis
    using assms(1) Some r by (simp add: rx_verified_def keeps_dispatch)
qed

end
