(* ===== verification/WpaSmSafety.thy ===== *)
theory WpaSmSafety
  imports WpaSmKeeps
begin

text \<open>
  Safety of the reception of EAPOL-Key frames by \<open>wpa_sm_rx_eapol\<close> of \<open>src/rsn_supp/wpa.c\<close>. A frame
  that makes the machine install a key carries a MIC of one of its PTKs and a new replay counter; no
  frame is accepted twice; and a retransmitted message 3, with a new counter, installs the pairwise
  key again with a sequence counter of zeros.
\<close>

section \<open>The order of the replay counters\<close>

lemma memcmp_less_irrefl [simp]: "\<not> memcmp_less a a"
  by (induction a) auto

lemma memcmp_less_be_value:
  "length a = length b \<Longrightarrow> memcmp_less a b \<longleftrightarrow> be_value a < be_value b"
proof (induction a b rule: memcmp_less.induct)
  case (1 a as b bs)
  have ls: "length bs = length as" using 1 by simp
  have l: "be_value as < 256 ^ length as" "be_value bs < 256 ^ length as"
    using be_value_less [of as] be_value_less [of bs] ls by simp_all
  have eq: "be_value (a # as) = unat a * 256 ^ length as + be_value as"
    "be_value (b # bs) = unat b * 256 ^ length as + be_value bs"
    using ls by (simp_all add: be_value_Cons)
  show ?case
  proof (cases "a = b")
    case True
    then have "memcmp_less as bs \<longleftrightarrow> be_value as < be_value bs" using 1 ls by simp
    then show ?thesis using True unfolding eq by simp
  next
    case False
    have step: "unat x * 256 ^ n + p < unat y * 256 ^ n + q" if "unat x < unat y" "p < 256 ^ n" for x y :: u8 and n p q
    proof -
      have "unat x * 256 ^ n + p < (unat x + 1) * 256 ^ n" using that by simp
      also have "\<dots> \<le> unat y * 256 ^ n" using that by (intro mult_le_mono1) simp
      finally show ?thesis by simp
    qed
    have "unat a < unat b \<or> unat b < unat a" using False by (metis linorder_neqE_nat word_unat_eq_iff)
    then show ?thesis
      using False step [of a b "be_value as" "length as" "be_value bs"] step [of b a "be_value bs" "length as" "be_value as"] l
      by (auto simp: eq word_less_nat_alt)
  qed
qed auto

lemma memcmp_less_trans: "memcmp_less a b \<Longrightarrow> memcmp_less b c \<Longrightarrow> memcmp_less a c"
proof (induction a b arbitrary: c rule: memcmp_less.induct)
  case (1 a as b bs)
  then show ?case by (cases c) (auto split: if_splits)
qed auto

section \<open>Verification of the MIC\<close>

lemma wpa_eapol_key_mic_length: "wpa_eapol_key_mic md5 sha1 mem bh key ver buf = Some m \<Longrightarrow> length m \<le> 16"
  by (auto simp: wpa_eapol_key_mic_def omac1_aes_128_fail split: if_splits)

lemma key_mic_length: "key_mic env site key ver buf = Some m \<Longrightarrow> length m \<le> 16"
  unfolding key_mic_def by (rule wpa_eapol_key_mic_length)

lemma k_mic_frame: "k_mic (get_key (drop 4 f)) = take 16 (drop 81 f)"
  by (simp add: get_key_def)

lemma put_mic_simps:
  assumes "97 \<le> length f" "length m \<le> 16"
  shows "length (put_mic f m) = length f" "take 81 (put_mic f m) = take 81 f"
    "put_mic (put_mic f m) (replicate 16 0) = put_mic f (replicate 16 0)"
    "k_mic (get_key (drop 4 (put_mic f (replicate 16 0)))) = replicate 16 0"
    "length m = 16 \<Longrightarrow> k_mic (get_key (drop 4 (put_mic f m))) = m"
  using assms unfolding k_mic_frame put_mic_def buf_put_def by (simp_all add: min_def)

text \<open>The MIC that the code compares with that of the frame.\<close>

definition expected_mic :: "'p wpa_env \<Rightarrow> alloc_site \<Rightarrow> bytes \<Rightarrow> u16 \<Rightarrow> bytes \<Rightarrow> bytes" where
  "expected_mic env site key ver frame =
    (case key_mic env site key ver (put_mic frame (replicate 16 0)) of
       Some m \<Rightarrow> take 16 (m @ replicate 16 0) | None \<Rightarrow> replicate 16 0)"

lemma mic_matches_frame:
  assumes "mic_matches env site key ver mic f = (ok, f')" "97 \<le> length f"
  shows "length f' = length f" "take 81 f' = take 81 f"
    "put_mic f' (replicate 16 0) = put_mic f (replicate 16 0)"
    "ok \<longleftrightarrow> mic = expected_mic env site key ver f"
proof -
  define z where "z = put_mic f (replicate 16 0)"
  have z: "97 \<le> length z" "length z = length f" "take 81 z = take 81 f"
    "put_mic z (replicate 16 0) = z"
    using assms(2) by (simp_all add: z_def put_mic_simps)
  have m: "k_mic (get_key (drop 4 (put_mic z m))) = take 16 (m @ replicate 16 0)" if "length m \<le> 16" for m
    using that assms(2) unfolding k_mic_frame z_def put_mic_def buf_put_def by (simp add: min_def)
  have k: "key_mic env site key ver z = Some m \<Longrightarrow> length m \<le> 16" for m
    by (rule key_mic_length)
  note simps = put_mic_simps [OF z(1)]
  have f': "f' = (case key_mic env site key ver z of None \<Rightarrow> z | Some m \<Rightarrow> put_mic z m)"
    and ok: "ok \<longleftrightarrow> mic = k_mic (get_key (drop 4 f'))"
    using assms(1) unfolding mic_matches_def Let_def z_def [symmetric] by auto
  show "length f' = length f" "take 81 f' = take 81 f"
    "put_mic f' (replicate 16 0) = put_mic f (replicate 16 0)"
    using k z simps by (auto simp: f' z_def [symmetric] split: option.splits)
  have "k_mic (get_key (drop 4 z)) = replicate 16 0"
    using assms(2) by (simp add: z_def put_mic_simps(4) [where m = "[]"])
  then show "ok \<longleftrightarrow> mic = expected_mic env site key ver f"
    using k m by (auto simp: ok f' expected_mic_def z_def [symmetric] split: option.splits)
qed

lemma expected_mic_cong:
  "put_mic f' (replicate 16 0) = put_mic f (replicate 16 0) \<Longrightarrow>
     expected_mic env site key ver f' = expected_mic env site key ver f"
  by (simp add: expected_mic_def)

text \<open>The frame carries the MIC of the new or of the current PTK.\<close>

definition mic_accepted :: "'p wpa_env \<Rightarrow> u16 \<Rightarrow> bytes \<Rightarrow> 'p wpa_sm \<Rightarrow> bool" where
  "mic_accepted env ver frame w \<longleftrightarrow>
     (tptk_set w \<and> k_mic (get_key (drop 4 frame)) = expected_mic env AesMicTptk (kck (tptk w)) ver frame) \<or>
     (ptk_set w \<and> k_mic (get_key (drop 4 frame)) = expected_mic env AesMicPtk (kck (ptk w)) ver frame)"

text \<open>The two halves: the new PTK is tried first, then the current one.\<close>

definition verify_tptk :: "'p wpa_env \<Rightarrow> u16 \<Rightarrow> bytes \<Rightarrow> bytes \<Rightarrow> 'p wpa_sm \<Rightarrow> bool \<times> bytes \<times> 'p wpa_sm" where
  "verify_tptk env ver mic f w =
     (if tptk_set w then
        (let (ok, frame) = mic_matches env AesMicTptk (kck (tptk w)) ver mic f in
         (ok, frame, if ok then w\<lparr>tptk_set := False, ptk_set := True, ptk := tptk w, tptk := ptk_zero\<rparr> else w))
      else (False, f, w))"

definition verify_ptk :: "'p wpa_env \<Rightarrow> u16 \<Rightarrow> bytes \<Rightarrow> bool \<Rightarrow> bytes \<Rightarrow> 'p wpa_sm \<Rightarrow> bool \<times> bytes" where
  "verify_ptk env ver mic ok f w =
     (if \<not> ok \<and> ptk_set w then mic_matches env AesMicPtk (kck (ptk w)) ver mic f else (ok, f))"

lemma verify_split:
  "wpa_supplicant_verify_eapol_key_mic env ver f w =
    (let mic = k_mic (get_key (drop 4 f)); (ok, f, w) = verify_tptk env ver mic f w;
         (ok, f) = verify_ptk env ver mic ok f w in
     if \<not> ok then (False, f, w)
     else (True, f, w\<lparr>rx_replay_counter := k_replay (get_key (drop 4 f)), rx_replay_counter_set := True\<rparr>))"
  unfolding wpa_supplicant_verify_eapol_key_mic_def verify_tptk_def verify_ptk_def Let_def ..

lemma verify_tptk:
  assumes "verify_tptk env ver mic f w = (ok, f', w')" "97 \<le> length f"
  shows "length f' = length f" "take 81 f' = take 81 f" "put_mic f' (replicate 16 0) = put_mic f (replicate 16 0)"
    "ok \<longleftrightarrow> tptk_set w \<and> mic = expected_mic env AesMicTptk (kck (tptk w)) ver f" "\<not> ok \<Longrightarrow> w' = w"
    "trace w' = trace w" "ok \<Longrightarrow> ptk_set w'"
proof -
  obtain ok1 f1 where m: "mic_matches env AesMicTptk (kck (tptk w)) ver mic f = (ok1, f1)" by fastforce
  note mm = mic_matches_frame [OF m assms(2)]
  have eq: "ok = (tptk_set w \<and> ok1)" "f' = (if tptk_set w then f1 else f)"
    "w' = (if tptk_set w \<and> ok1 then w\<lparr>tptk_set := False, ptk_set := True, ptk := tptk w, tptk := ptk_zero\<rparr> else w)"
    using assms(1) unfolding verify_tptk_def m Let_def by (cases "tptk_set w"; simp)+
  show "length f' = length f" "take 81 f' = take 81 f" "put_mic f' (replicate 16 0) = put_mic f (replicate 16 0)"
    using mm by (simp_all add: eq)
  show "ok \<longleftrightarrow> tptk_set w \<and> mic = expected_mic env AesMicTptk (kck (tptk w)) ver f"
    using mm(4) by (simp add: eq)
  show "\<not> ok \<Longrightarrow> w' = w" using eq(1,3) by presburger
  show "trace w' = trace w" "ok \<Longrightarrow> ptk_set w'" by (simp_all add: eq)
qed

lemma verify_ptk:
  assumes "verify_ptk env ver mic ok1 f w = (ok, f')" "97 \<le> length f"
  shows "length f' = length f" "take 81 f' = take 81 f"
    "ok \<longleftrightarrow> ok1 \<or> (ptk_set w \<and> mic = expected_mic env AesMicPtk (kck (ptk w)) ver f)"
proof -
  obtain ok2 f2 where m: "mic_matches env AesMicPtk (kck (ptk w)) ver mic f = (ok2, f2)" by fastforce
  note mm = mic_matches_frame [OF m assms(2)]
  have eq: "ok = (if \<not> ok1 \<and> ptk_set w then ok2 else ok1)" "f' = (if \<not> ok1 \<and> ptk_set w then f2 else f)"
    using assms(1) unfolding verify_ptk_def m by (metis prod.inject)+
  show "length f' = length f" "take 81 f' = take 81 f" using mm by (simp_all add: eq)
  show "ok \<longleftrightarrow> ok1 \<or> (ptk_set w \<and> mic = expected_mic env AesMicPtk (kck (ptk w)) ver f)"
    using mm(4) by (simp add: eq)
qed

lemma verify_mic:
  assumes "wpa_supplicant_verify_eapol_key_mic env ver f w = (ok, f', w')" "97 \<le> length f"
  shows "length f' = length f" "take 81 f' = take 81 f" "ok \<longleftrightarrow> mic_accepted env ver f w"
    "\<not> ok \<Longrightarrow> w' = w" "trace w' = trace w"
    "ok \<Longrightarrow> rx_replay_counter w' = k_replay (get_key (drop 4 f)) \<and> rx_replay_counter_set w'"
proof -
  define mic where "mic = k_mic (get_key (drop 4 f))"
  obtain ok1 f1 w1 where t: "verify_tptk env ver mic f w = (ok1, f1, w1)" by (cases "verify_tptk env ver mic f w") auto
  note 1 = verify_tptk [OF t assms(2)]
  obtain ok2 f2 where q: "verify_ptk env ver mic ok1 f1 w1 = (ok2, f2)" by fastforce
  have l: "97 \<le> length f1" using 1(1) assms(2) by simp
  note 2 = verify_ptk [OF q l]
  have w': "ok = ok2" "f' = f2" "w' = (if ok2 then w1\<lparr>rx_replay_counter := k_replay (get_key (drop 4 f2)),
      rx_replay_counter_set := True\<rparr> else w1)"
    using assms(1) unfolding verify_split Let_def mic_def [symmetric] t prod.case q by (cases ok2; simp)+
  show "length f' = length f" using 1(1) 2(1) w' by simp
  have h: "take 81 f2 = take 81 f" using 1(2) 2(2) by simp
  then show "take 81 f' = take 81 f" using w' by simp
  have k: "\<not> ok1 \<Longrightarrow> ptk_set w1 = ptk_set w \<and> ptk w1 = ptk w" using 1(5) by blast
  show "ok \<longleftrightarrow> mic_accepted env ver f w"
  proof (cases ok1)
    case True
    then show ?thesis using 1(4) 2(3) w'(1) by (simp add: mic_accepted_def mic_def)
  next
    case False
    have "expected_mic env AesMicPtk (kck (ptk w)) ver f1 = expected_mic env AesMicPtk (kck (ptk w)) ver f"
      by (rule expected_mic_cong) (rule 1(3))
    then show ?thesis using False 1(4) 2(3) k w'(1) by (simp add: mic_accepted_def mic_def)
  qed
  show "\<not> ok \<Longrightarrow> w' = w"
  proof -
    assume "\<not> ok"
    then have "\<not> ok2" "\<not> ok1" using 2(3) w'(1) by blast+
    then show "w' = w" using 1(5) w'(3) by simp
  qed
  show "trace w' = trace w" using 1(6) w' by simp
  show "ok \<Longrightarrow> rx_replay_counter w' = k_replay (get_key (drop 4 f)) \<and> rx_replay_counter_set w'"
    using get_key_head(2) [OF h] w' by simp
qed

section \<open>What a received frame can change\<close>

text \<open>The copy of the frame that the code works on: without the octets behind its EAPOL payload.\<close>

definition rx_copy :: "bytes \<Rightarrow> bytes" where
  "rx_copy buf = take (unat (WPA_GET_BE16 (drop 2 buf)) + 4) buf"

definition rx_key :: "bytes \<Rightarrow> wpa_eapol_key" where
  "rx_key buf = get_key (drop 4 (rx_copy buf))"

text \<open>
  The frame is authenticated and new: it has the MIC flag, its counter is larger than the last
  accepted one, and its MIC is that of one of the two PTKs.
\<close>

definition frame_accepted :: "'p wpa_env \<Rightarrow> bytes \<Rightarrow> 'p wpa_sm \<Rightarrow> bool" where
  "frame_accepted env buf w \<longleftrightarrow>
     k_info (rx_key buf) AND 0x100 \<noteq> 0 \<and>
     \<not> (rx_replay_counter_set w \<and> \<not> memcmp_less (rx_replay_counter w) (k_replay (rx_key buf))) \<and>
     mic_accepted env (k_info (rx_key buf) AND 7) (rx_copy buf) w"

lemma rx_key_frame_cases:
  assumes "99 \<le> length f"
  shows "keeps w (snd (rx_key_frame env src f n w)) \<or>
    (k_info (get_key (drop 4 f)) AND 0x100 \<noteq> 0 \<and>
     \<not> (rx_replay_counter_set w \<and> \<not> memcmp_less (rx_replay_counter w) (k_replay (get_key (drop 4 f)))) \<and>
     mic_accepted env (k_info (get_key (drop 4 f)) AND 7) f w \<and>
     rx_replay_counter (snd (rx_key_frame env src f n w)) = k_replay (get_key (drop 4 f)) \<and>
     rx_replay_counter_set (snd (rx_key_frame env src f n w)))"
proof -
  define w1 where "w1 = eapol_call (eapol_sm_notify_lower_layer_success (supp_env env) False) w"
  define key where "key = get_key (drop 4 f)"
  define ver where "ver = k_info key AND 7"
  have w1: "keeps w w1" "rx_replay_counter_set w1 = rx_replay_counter_set w" "rx_replay_counter w1 = rx_replay_counter w"
    by (simp_all add: w1_def)
  have mic1: "mic_accepted env ver f w1 = mic_accepted env ver f w"
    by (simp add: mic_accepted_def w1_def)
  obtain ok f2 w2 where v: "wpa_supplicant_verify_eapol_key_mic env ver f w1 = (ok, f2, w2)"
    by (cases "wpa_supplicant_verify_eapol_key_mic env ver f w1") auto
  have l: "97 \<le> length f" using assms by simp
  note vm = verify_mic [OF v l]
  define pre where "pre \<longleftrightarrow> version_ok ver (k_info key) w1 \<and>
     \<not> (rx_replay_counter_set w1 \<and> \<not> memcmp_less (rx_replay_counter w1) (k_replay key)) \<and>
     k_info key AND (0x80 OR 0x2000) \<noteq> 0 \<and> k_info key AND 0x800 = 0"
  have rx: "snd (rx_key_frame env src f n w) =
     (if pre then
        if k_info key AND 0x100 \<noteq> 0 then (if ok then snd (rx_verified env src ver f2 n w2) else w2)
        else snd (rx_verified env src ver f n w1)
      else w1)"
    unfolding rx_key_frame_def Let_def w1_def [symmetric] key_def [symmetric] ver_def [symmetric] v prod.case pre_def
    by simp
  consider "\<not> pre" | "pre" "k_info key AND 0x100 = 0" | "pre" "k_info key AND 0x100 \<noteq> 0" "\<not> ok"
    | "pre" "k_info key AND 0x100 \<noteq> 0" "ok" by blast
  then show ?thesis
  proof cases
    case 1
    then show ?thesis using w1(1) by (simp add: rx)
  next
    case 2
    have "keeps w1 (snd (rx_verified env src ver f n w1))"
      using 2(2) assms by (intro keeps_rx_verified) (simp_all add: key_def)
    then show ?thesis using 2 keeps_trans [OF w1(1)] by (simp add: rx)
  next
    case 3
    then show ?thesis using w1(1) vm(4) by (simp add: rx)
  next
    case 4
    have "same_keys w2 (snd (rx_verified env src ver f2 n w2))" by (rule same_keys_rx_verified)
    then have "rx_replay_counter (snd (rx_key_frame env src f n w)) = k_replay key"
      "rx_replay_counter_set (snd (rx_key_frame env src f n w))"
      using 4 vm(6) by (simp_all add: rx same_keys_def key_def)
    then show ?thesis
      using 4 vm(3) mic1 w1(2,3) unfolding pre_def key_def [symmetric] ver_def [symmetric] by simp
  qed
qed

lemma rx_eapol_cases:
  obtains "keeps w (snd (wpa_sm_rx_eapol env src buf w))"
  | "frame_accepted env buf w" "rx_replay_counter (snd (wpa_sm_rx_eapol env src buf w)) = k_replay (rx_key buf)"
    "rx_replay_counter_set (snd (wpa_sm_rx_eapol env src buf w))"
proof -
  define plen where "plen = unat (WPA_GET_BE16 (drop 2 buf))"
  define n where "n = unat (k_data_len (get_key (drop 4 (take (plen + 4) buf))))"
  have rx: "snd (wpa_sm_rx_eapol env src buf w) = w \<or>
      (snd (wpa_sm_rx_eapol env src buf w) = snd (rx_key_frame env src (rx_copy buf) n w) \<and> 99 \<le> length (rx_copy buf))"
    unfolding wpa_sm_rx_eapol_def Let_def plen_def [symmetric] n_def [symmetric]
    by (auto simp: rx_copy_def plen_def [symmetric])
  then show ?thesis
    using rx_key_frame_cases [of "rx_copy buf" w env src n] that
    unfolding frame_accepted_def rx_key_def by (elim disjE) auto
qed

text \<open>A run: frames one after the other, each with its environment and source address.\<close>

definition wpa_rx_frames :: "('p wpa_env \<times> bytes \<times> bytes) list \<Rightarrow> 'p wpa_sm \<Rightarrow> 'p wpa_sm" where
  "wpa_rx_frames frames w = foldl (\<lambda>w (env, src, buf). snd (wpa_sm_rx_eapol env src buf w)) w frames"

text \<open>The counter is at least \<open>c\<close>.\<close>

definition replay_floor :: "bytes \<Rightarrow> 'p wpa_sm \<Rightarrow> bool" where
  "replay_floor c w \<longleftrightarrow> rx_replay_counter_set w \<and> (rx_replay_counter w = c \<or> memcmp_less c (rx_replay_counter w))"

lemma replay_floor_rx: "replay_floor c w \<Longrightarrow> replay_floor c (snd (wpa_sm_rx_eapol env src buf w))"
  by (cases rule: rx_eapol_cases [of w env src buf])
    (auto simp: replay_floor_def keeps_def same_keys_def frame_accepted_def dest: memcmp_less_trans)

lemma replay_floor_frames: "replay_floor c w \<Longrightarrow> replay_floor c (wpa_rx_frames frames w)"
  by (induction frames arbitrary: w) (auto simp: wpa_rx_frames_def replay_floor_rx)

lemma replay_floor_not_accepted: "replay_floor (k_replay (rx_key buf)) w \<Longrightarrow> \<not> frame_accepted env buf w"
  by (auto simp: replay_floor_def frame_accepted_def dest: memcmp_less_trans)

text \<open>
  C1: A received frame makes the machine hand a key to the driver only if it has the MIC flag, its
  replay counter is larger than the last accepted one, and its MIC is the one computed with the KCK
  of the new or of the current PTK (\<open>expected_mic\<close>; zeros when the computation fails). Its counter
  becomes the reference.
\<close>

theorem wpa_key_needs_mic:
  assumes "\<not> no_key w (snd (wpa_sm_rx_eapol env src buf w))"
  shows "k_info (rx_key buf) AND 0x100 \<noteq> 0 \<and>
    (rx_replay_counter_set w \<longrightarrow> memcmp_less (rx_replay_counter w) (k_replay (rx_key buf))) \<and>
    mic_accepted env (k_info (rx_key buf) AND 7) (rx_copy buf) w \<and>
    rx_replay_counter_set (snd (wpa_sm_rx_eapol env src buf w)) \<and>
    rx_replay_counter (snd (wpa_sm_rx_eapol env src buf w)) = k_replay (rx_key buf)"
  using assms by (cases rule: rx_eapol_cases [of w env src buf]) (simp_all add: keeps_def frame_accepted_def)

text \<open>
  C2: A frame that has made the machine install a key is dropped when it is received again, after
  any other frames, with any environment and source address: it installs nothing and changes
  neither the PTK nor the counter.
\<close>

theorem wpa_frame_never_reused:
  assumes "\<not> no_key w (snd (wpa_sm_rx_eapol env src buf w))"
    and "v = wpa_rx_frames frames (snd (wpa_sm_rx_eapol env src buf w))"
  shows "keeps v (snd (wpa_sm_rx_eapol env' src' buf v))"
proof -
  have "replay_floor (k_replay (rx_key buf)) (snd (wpa_sm_rx_eapol env src buf w))"
    using assms(1) by (cases rule: rx_eapol_cases [of w env src buf]) (simp_all add: keeps_def replay_floor_def)
  then have "replay_floor (k_replay (rx_key buf)) v"
    using replay_floor_frames assms(2) by blast
  then show ?thesis
    using replay_floor_not_accepted by (cases rule: rx_eapol_cases [of v env' src' buf]) blast+
qed

section \<open>A concrete machine\<close>

text \<open>
  A station that has derived its PTK with an access point without group keys, and message 3 of the
  4-way handshake for it: version 2, flags install, ack, MIC and secure. The hash function of the
  environment returns the length of the message, so that the MIC is computed at a glance.
\<close>

definition sample_wpa_env :: "unit wpa_env" where
  "sample_wpa_env =
     \<lparr>supp_env = sample_env, pm_env = sample_pmksa_env\<lparr>hmac_sha1 := (\<lambda>k m. replicate 20 (word_of_nat (length m)))\<rparr>,
      now = \<lparr>rt_sec = 100, rt_usec = 0\<rparr>, entry_alloc = 1, alloc = (\<lambda>_. True),
      behind = \<lparr>addr = (\<lambda>e i. 0), len = (\<lambda>e. 0)\<rparr>, random_bytes = Some (replicate 32 7),
      get_bssid = Some [2, 0, 0, 0, 0, 1], beacon_ie = None, set_key_ok = (\<lambda>_. True), current_network = 1,
      has_rekey_offload = False, has_key_mgmt_set_pmk = False, eapol_version = 1\<rparr>"

definition sample_wpa :: "unit wpa_sm" where
  "sample_wpa = (wpa_sm_notify_assoc [2, 0, 0, 0, 0, 1] (wpa_sm_init eloop_init))\<lparr>ptk_set := True, proto := WPA_PROTO_RSN, pairwise_cipher := WPA_CIPHER_CCMP,
     group_cipher := WPA_CIPHER_GTK_NOT_USED, key_mgmt := 2, ptk := ptk_zero\<lparr>tk1 := replicate 16 9\<rparr>\<rparr>"

definition sample_msg3 :: bytes where
  "sample_msg3 = [2, 3, 0, 95] @ put_key (zero_key\<lparr>k_type := 2, k_info := 0x3ca, k_length := [0, 16],
     k_replay := [0, 0, 0, 0, 0, 0, 0, 1], k_mic := replicate 16 99\<rparr>)"

lemma sample_msg3_installs:
  "filter is_set_key (trace (snd (wpa_sm_rx_eapol sample_wpa_env (replicate 6 1) sample_msg3 sample_wpa))) =
     [SetKey WPA_ALG_CCMP (Some [2, 0, 0, 0, 0, 1]) 0 True (replicate 6 0) (replicate 16 9)]"
  by code_simp

lemma no_key_filter: "no_key w w' \<Longrightarrow> filter is_set_key (trace w') = filter is_set_key (trace w)"
  by (auto simp: no_key_def list_all_iff filter_empty_conv)

lemma sample_trace: "trace sample_wpa = []"
  by code_simp

lemma sample_key: "\<not> no_key sample_wpa (snd (wpa_sm_rx_eapol sample_wpa_env (replicate 6 1) sample_msg3 sample_wpa))"
proof
  assume "no_key sample_wpa (snd (wpa_sm_rx_eapol sample_wpa_env (replicate 6 1) sample_msg3 sample_wpa))"
  from no_key_filter [OF this] show False using sample_msg3_installs by (simp add: sample_trace)
qed

theorem wpa_key_needs_mic_witness:
  "mic_accepted sample_wpa_env (k_info (rx_key sample_msg3) AND 7) (rx_copy sample_msg3) sample_wpa"
  using wpa_key_needs_mic [OF sample_key] by blast

theorem wpa_frame_never_reused_witness:
  "keeps (snd (wpa_sm_rx_eapol sample_wpa_env (replicate 6 1) sample_msg3 sample_wpa))
     (snd (wpa_sm_rx_eapol sample_wpa_env (replicate 6 1) sample_msg3
        (snd (wpa_sm_rx_eapol sample_wpa_env (replicate 6 1) sample_msg3 sample_wpa))))"
  by (rule wpa_frame_never_reused [OF sample_key, of _ "[]"]) (simp add: wpa_rx_frames_def)

section \<open>Reinstallation of the pairwise key\<close>

text \<open>The configuration that the processing of message 3 reads and leaves alone.\<close>

definition same_cfg :: "'p wpa_sm \<Rightarrow> 'p wpa_sm \<Rightarrow> bool" where
  "same_cfg w w' \<longleftrightarrow> anonce w' = anonce w \<and> ptk w' = ptk w \<and> proto w' = proto w \<and>
     pairwise_cipher w' = pairwise_cipher w \<and> group_cipher w' = group_cipher w \<and> key_mgmt w' = key_mgmt w \<and>
     mgmt_group_cipher w' = mgmt_group_cipher w \<and> rsn_enabled w' = rsn_enabled w \<and> bssid w' = bssid w"

definition same_ies :: "'p wpa_sm \<Rightarrow> 'p wpa_sm \<Rightarrow> bool" where
  "same_ies w w' \<longleftrightarrow> ap_wpa_ie w' = ap_wpa_ie w \<and> ap_rsn_ie w' = ap_rsn_ie w"

text \<open>New events, none of which installs a pairwise key.\<close>

definition is_pairwise_key :: "wpa_event \<Rightarrow> bool" where
  "is_pairwise_key ev = (case ev of SetKey _ (Some a) _ _ _ _ \<Rightarrow> a \<noteq> broadcast_ether_addr | _ \<Rightarrow> False)"

definition no_pairwise :: "'p wpa_sm \<Rightarrow> 'p wpa_sm \<Rightarrow> bool" where
  "no_pairwise w w' \<longleftrightarrow> (\<exists>evs. trace w' = trace w @ evs \<and> list_all (\<lambda>ev. \<not> is_pairwise_key ev) evs)"

definition stays :: "'p wpa_sm \<Rightarrow> 'p wpa_sm \<Rightarrow> bool" where
  "stays w w' \<longleftrightarrow> same_cfg w w' \<and> same_ies w w' \<and> no_pairwise w w'"

lemmas stays_defs = stays_def same_cfg_def same_ies_def no_pairwise_def

lemma stays_refl [simp]: "stays w w"
  by (simp add: stays_defs)

lemma stays_trans [trans]: "stays w w' \<Longrightarrow> stays w' w'' \<Longrightarrow> stays w w''"
  by (fastforce simp: stays_defs)

lemma stays_emit: "\<not> is_pairwise_key ev \<Longrightarrow> stays w (w_emit ev w)"
  by (simp add: stays_defs w_emit_def)

lemma stays_update:
  "sm_bssid c = bssid w \<Longrightarrow> stays w (w\<lparr>cache := c\<rparr>)" "stays w (w\<lparr>renew_snonce := b\<rparr>)"
  "stays w (w\<lparr>p2p_ip_addr := a\<rparr>)" "stays w (w\<lparr>wpa_state := st\<rparr>)"
  by (simp_all add: stays_defs)

lemma stays_eapol [simp]: "stays w (eapol_call f w)"
  by (simp add: stays_defs)

lemma stays_basic [simp]:
  "stays w (wpa_sm_set_state st w)" "stays w (wpa_sm_deauthenticate w)" "stays w (w_timer_register env secs k w)"
  "stays w (w_timer_cancel k w)" "stays w (wpa_sm_set_rekey_offload env w)"
  by (auto simp: stays_defs wpa_sm_set_state_def wpa_sm_deauthenticate_def w_timer_register_def w_timer_cancel_def
      wpa_sm_set_rekey_offload_def w_emit_def is_pairwise_key_def)

lemma stays_neg_complete: "stays w (wpa_supplicant_key_neg_complete env a sec w)"
proof -
  define w1 where "w1 = wpa_sm_set_state WPA_COMPLETED (w_emit CancelAuthTimeout w)"
  define w2 where "w2 = eapol_call (eapol_sm_notify_portValid (supp_env env) True) (w_emit (SetProtection a PROTECT_RX_TX) w1)"
  define w3 where "w3 = (if wpa_key_mgmt_wpa_psk (key_mgmt w2) then eapol_call (eapol_sm_notify_eap_success (supp_env env) True) w2 else w2)"
  define w4 where "w4 = (if sec then w_timer_register env 1 start_preauth_key w3 else w1)"
  have "stays w (w_emit CancelAuthTimeout w)" by (rule stays_emit) (simp add: is_pairwise_key_def)
  also have "stays (w_emit CancelAuthTimeout w) w1" by (simp add: w1_def)
  finally have 1: "stays w w1" .
  have "stays w1 (w_emit (SetProtection a PROTECT_RX_TX) w1)" by (rule stays_emit) (simp add: is_pairwise_key_def)
  also have "stays (w_emit (SetProtection a PROTECT_RX_TX) w1) w2" by (simp add: w2_def)
  also have "stays w2 w3" by (simp add: w3_def)
  finally have "stays w1 w3" .
  then have "stays w1 w4" by (simp add: w4_def stays_trans [OF _ stays_basic(3)])
  then have 4: "stays w w4" using 1 stays_trans by blast
  have "wpa_supplicant_key_neg_complete env a sec w =
      (case cur_entry w4 of None \<Rightarrow> w4 | Some e \<Rightarrow> if opportunistic e
         then w4\<lparr>cache := (cache w4)\<lparr>pmksa := List.map (\<lambda>x. if pe_addr x = pe_addr e then x\<lparr>opportunistic := False\<rparr> else x)
            (pmksa (cache w4))\<rparr>\<rparr> else w4)"
    unfolding wpa_supplicant_key_neg_complete_def Let_def w1_def [symmetric] w2_def [symmetric] w3_def [symmetric]
      w4_def [symmetric] ..
  then show ?thesis using 4 stays_trans [OF 4 stays_update(1)] by (auto split: option.splits)
qed

lemma stays_set_key: "\<not> is_pairwise_key (SetKey alg a i t sq k) \<Longrightarrow> stays w (snd (wpa_sm_set_key env alg a i t sq k w))"
  by (simp add: wpa_sm_set_key_def Let_def stays_emit)

lemma stays_install_gtk: "stays w (snd (wpa_supplicant_install_gtk env gd rsc w))"
  by (auto simp: wpa_supplicant_install_gtk_def Let_def is_pairwise_key_def intro!: stays_set_key)

lemma stays_80211w: "stays w (snd (ieee80211w_set_keys env ie w))"
  by (auto simp: ieee80211w_set_keys_def Let_def is_pairwise_key_def intro!: stays_set_key split: option.splits)

lemma stays_pairwise_gtk: "stays w (snd (wpa_supplicant_pairwise_gtk env key gtk info w))"
proof -
  have c: "stays w v \<Longrightarrow> stays w (wpa_supplicant_key_neg_complete env (bssid v) sec v)" for v sec
    using stays_trans [OF _ stays_neg_complete] by blast
  have i: "wpa_supplicant_install_gtk env gd rsc w = (ok, v) \<Longrightarrow> stays w v" for gd rsc ok v
    using stays_install_gtk [of w env gd rsc] by simp
  define gd where "gd = \<lparr>gd_alg = WPA_ALG_NONE, gd_tx = wpa_supplicant_gtk_tx_bit_workaround w (gtk ! 0 AND 4 \<noteq> 0),
     gd_key_rsc_len = 0, gd_keyidx = unat (gtk ! 0 AND 3), gd_gtk = buf_put (replicate 32 0) 0 (drop 2 gtk),
     gd_gtk_len = length gtk - 2\<rparr>"
  define r where "r = (if group_cipher w \<noteq> WPA_CIPHER_GTK_NOT_USED then
       (case wpa_supplicant_check_group_cipher (group_cipher w) (length gtk - 2) (length gtk - 2) of
          None \<Rightarrow> (False, w)
        | Some (rsclen, alg) \<Rightarrow>
            wpa_supplicant_install_gtk env (gd\<lparr>gd_key_rsc_len := rsclen, gd_alg := alg\<rparr>) (k_rsc key) w)
     else (True, w))"
  obtain ok v where v: "r = (ok, v)" by fastforce
  have "stays w v" using v i by (auto simp: r_def split: if_splits option.splits prod.splits)
  then show ?thesis
    using v c unfolding wpa_supplicant_pairwise_gtk_def Let_def gd_def [symmetric] r_def [symmetric]
    by auto
qed

lemma stays_msg3_group: "stays w (snd (msg3_group_keys env key ie w))"
proof -
  define st where "st = wpa_sm_set_state WPA_GROUP_HANDSHAKE w"
  define r where "r = (if group_cipher st = WPA_CIPHER_GTK_NOT_USED
            then (True, wpa_supplicant_key_neg_complete env (bssid st) (k_info key AND 0x200 \<noteq> 0) st)
            else (case ie_gtk ie of None \<Rightarrow> (True, st)
               | Some gtk \<Rightarrow> wpa_supplicant_pairwise_gtk env key gtk (k_info key) st))"
  obtain ok v where r': "r = (ok, v)" by fastforce
  have "stays st (snd r)"
    using stays_neg_complete stays_pairwise_gtk by (auto simp: r_def split: option.splits)
  then have v: "stays w v"
    using stays_trans [of w st v] r' by (simp add: st_def)
  obtain ok2 u where u: "ieee80211w_set_keys env ie v = (ok2, u)" by fastforce
  have "stays w u" using stays_80211w [of v env ie] u v stays_trans by (metis snd_conv)
  then show ?thesis
    using v r' u stays_trans [OF _ stays_basic(5)]
    unfolding msg3_group_keys_def Let_def st_def [symmetric] r_def [symmetric] by auto
qed

lemma stays_key_send: "\<not> is_zero_ether_addr dest \<Longrightarrow> stays w (wpa_eapol_key_send env key ver dest msg m w)"
  by (auto simp: wpa_eapol_key_send_def Let_def is_pairwise_key_def
      intro: stays_trans [OF stays_emit stays_eapol] split: option.splits)


text \<open>The checks of message 3 give the same result again in the machine that they leave behind.\<close>

lemma three_checks:
  "(if a then (False, x) else if b then (False, x) else if c then (False, x) else (True, x)) = (\<not> a \<and> \<not> b \<and> \<not> c, x)"
  by simp

lemma validate_ie_again:
  assumes "wpa_supplicant_validate_ie env ie w = (ok, w1)" "same_cfg w1 v" "same_ies w1 v"
  shows "fst (wpa_supplicant_validate_ie env ie v) = ok" "same_ies w1 (snd (wpa_supplicant_validate_ie env ie v))"
    "same_cfg w w1" "no_pairwise w w1" "same_cfg v (snd (wpa_supplicant_validate_ie env ie v))"
    "no_pairwise v (snd (wpa_supplicant_validate_ie env ie v))"
proof -
  define load where "load u = (if ap_wpa_ie u = None \<and> ap_rsn_ie u = None then wpa_sm_get_beacon_ie env u else u)" for u
  define verdict where "verdict u \<longleftrightarrow>
     \<not> (ie_wpa_ie ie = None \<and> ie_rsn_ie ie = None \<and> (ap_wpa_ie u \<noteq> None \<or> ap_rsn_ie u \<noteq> None)) \<and>
     \<not> ((ie_wpa_ie ie \<noteq> None \<and> ap_wpa_ie u \<noteq> None \<and> ie_wpa_ie ie \<noteq> ap_wpa_ie u) \<or>
         (ie_rsn_ie ie \<noteq> None \<and> ap_rsn_ie u \<noteq> None \<and>
          \<not> wpa_compare_rsn_ie (wpa_key_mgmt_ft (key_mgmt u)) (ap_rsn_ie u) (ie_rsn_ie ie))) \<and>
     \<not> (proto u = WPA_PROTO_WPA \<and> ie_rsn_ie ie \<noteq> None \<and> ap_rsn_ie u = None \<and> rsn_enabled u)" for u :: "'a wpa_sm"
  have v: "wpa_supplicant_validate_ie env ie u = (verdict (load u), load u)" for u
    unfolding wpa_supplicant_validate_ie_def Let_def load_def [symmetric] verdict_def by (rule three_checks)
  have l: "same_cfg u (load u) \<and> no_pairwise u (load u)" for u
    by (simp add: load_def wpa_sm_get_beacon_ie_def same_cfg_def no_pairwise_def split: option.splits)
  have w1: "w1 = load w" "ok = verdict (load w)" using assms(1) by (auto simp: v)
  have again: "same_ies w1 (load v)"
  proof (cases "ap_wpa_ie w = None \<and> ap_rsn_ie w = None")
    case True
    then show ?thesis
      using assms(3)
      by (cases "beacon_ie env") (auto simp: w1 load_def wpa_sm_get_beacon_ie_def same_ies_def)
  next
    case False
    then show ?thesis using assms(3) by (auto simp: w1 load_def same_ies_def)
  qed
  have "same_cfg w1 (load v)" using assms(2) l [of v] by (simp add: same_cfg_def)
  then have "verdict (load v) = verdict w1" using again by (simp add: verdict_def same_cfg_def same_ies_def)
  then show "fst (wpa_supplicant_validate_ie env ie v) = ok" by (simp add: v w1)
  show "same_ies w1 (snd (wpa_supplicant_validate_ie env ie v))" using again by (simp add: v)
  show "same_cfg w w1" "no_pairwise w w1" "same_cfg v (snd (wpa_supplicant_validate_ie env ie v))"
    "no_pairwise v (snd (wpa_supplicant_validate_ie env ie v))" using l by (simp_all add: w1 v)
qed

lemma msg3_checks_again:
  assumes "msg3_checks env key ie w = (True, w1)" "same_cfg w1 v" "same_ies w1 v"
    and "k_info key' = k_info key" "k_nonce key' = k_nonce key" "k_length key' = k_length key"
  shows "\<exists>v1. msg3_checks env key' ie v = (True, v1) \<and> same_cfg v v1 \<and> no_pairwise v v1"
    "same_cfg w w1" "no_pairwise w w1"
proof -
  obtain ok u where u: "wpa_supplicant_validate_ie env ie w = (ok, u)" by fastforce
  note again = validate_ie_again [OF u]
  have 1: "ok" "w1 = u" "anonce u = k_nonce key" "unat (WPA_GET_BE16 (k_length key)) = wpa_cipher_key_len (pairwise_cipher u)"
    "\<not> (ie_gtk ie \<noteq> None \<and> k_info key AND 0x1000 = 0)" "\<not> (ie_igtk ie \<noteq> None \<and> k_info key AND 0x1000 = 0)"
    "\<not> (ie_igtk ie \<noteq> None \<and> wpa_cipher_valid_mgmt_group (mgmt_group_cipher w) \<and>
         length (the (ie_igtk ie)) \<noteq> 8 + wpa_cipher_key_len (mgmt_group_cipher w))"
    using assms(1) unfolding msg3_checks_def u Let_def prod.case by (simp_all split: if_splits)
  show "same_cfg w w1" "no_pairwise w w1"
    using again(3,4) [of u] 1(2) by (simp_all add: same_cfg_def same_ies_def)
  have v: "same_cfg u v" "same_ies u v" using assms(2,3) 1(2) by simp_all
  obtain ok2 v1 where v1: "wpa_supplicant_validate_ie env ie v = (ok2, v1)" by fastforce
  have "ok2" "same_cfg v v1" "no_pairwise v v1" using again [OF v] v1 1(1) by simp_all
  moreover have "mgmt_group_cipher v = mgmt_group_cipher w" "anonce v1 = anonce u" "pairwise_cipher v1 = pairwise_cipher u"
    using v(1) \<open>same_cfg w w1\<close> 1(2) \<open>same_cfg v v1\<close> by (simp_all add: same_cfg_def)
  ultimately have "msg3_checks env key' ie v = (True, v1)"
    using 1 assms(4-6) by (simp add: msg3_checks_def v1 Let_def)
  then show "\<exists>v1. msg3_checks env key' ie v = (True, v1) \<and> same_cfg v v1 \<and> no_pairwise v v1"
    using \<open>same_cfg v v1\<close> \<open>no_pairwise v v1\<close> by blast
qed

definition ptk_event :: "wpa_eapol_key \<Rightarrow> 'p wpa_sm \<Rightarrow> wpa_event" where
  "ptk_event key w = SetKey (wpa_cipher_to_alg (pairwise_cipher w)) (Some (bssid w)) 0 True
     (take (wpa_cipher_rsc_len (pairwise_cipher w))
        (if proto w = WPA_PROTO_RSN \<or> proto w = WPA_PROTO_OSEN then replicate 8 0 else k_rsc key))
     (take (wpa_cipher_key_len (pairwise_cipher w)) (tk1 (ptk w) @ tk_u (ptk w)))"

lemma ptk_event_cong: "same_cfg w v \<Longrightarrow> k_rsc key' = k_rsc key \<Longrightarrow> ptk_event key' v = ptk_event key w"
  by (simp add: ptk_event_def same_cfg_def)

text \<open>The pairwise key is installed, once.\<close>

definition installs :: "wpa_eapol_key \<Rightarrow> 'p wpa_sm \<Rightarrow> 'p wpa_sm \<Rightarrow> bool" where
  "installs key w w' \<longleftrightarrow> same_cfg w w' \<and>
     (\<exists>xs ys. trace w' = trace w @ xs @ [ptk_event key w] @ ys \<and> list_all (\<lambda>ev. \<not> is_pairwise_key ev) (xs @ ys))"

lemma stays_cfg: "stays w v \<Longrightarrow> same_cfg w v \<and> no_pairwise w v"
  by (simp add: stays_def)

lemma same_cfg_trans: "same_cfg w v \<Longrightarrow> same_cfg v u \<Longrightarrow> same_cfg w u"
  by (simp add: same_cfg_def)

lemma no_pairwise_trans: "no_pairwise w v \<Longrightarrow> no_pairwise v u \<Longrightarrow> no_pairwise w u"
  by (fastforce simp: no_pairwise_def)

lemma installs_after:
  assumes "same_cfg w v" "no_pairwise w v" "installs key v u"
  shows "installs key w u"
proof -
  obtain es where 1: "trace v = trace w @ es" "list_all (\<lambda>ev. \<not> is_pairwise_key ev) es"
    using assms(2) by (auto simp: no_pairwise_def)
  obtain xs ys where 2: "trace u = trace v @ xs @ [ptk_event key v] @ ys" "list_all (\<lambda>ev. \<not> is_pairwise_key ev) (xs @ ys)"
    using assms(3) by (auto simp: installs_def)
  have "trace u = trace w @ (es @ xs) @ [ptk_event key w] @ ys"
    using 1 2 ptk_event_cong [OF assms(1), of key key] by simp
  moreover have "list_all (\<lambda>ev. \<not> is_pairwise_key ev) ((es @ xs) @ ys)" using 1 2 by simp
  moreover have "same_cfg w u" using assms(1,3) same_cfg_trans by (auto simp: installs_def)
  ultimately show ?thesis unfolding installs_def by blast
qed

lemma installs_before:
  assumes "installs key w v" "stays v u"
  shows "installs key w u"
proof -
  obtain xs ys where 1: "trace v = trace w @ xs @ [ptk_event key w] @ ys" "list_all (\<lambda>ev. \<not> is_pairwise_key ev) (xs @ ys)"
    using assms(1) by (auto simp: installs_def)
  obtain es where 2: "trace u = trace v @ es" "list_all (\<lambda>ev. \<not> is_pairwise_key ev) es"
    using assms(2) by (auto simp: stays_def no_pairwise_def)
  have "trace u = trace w @ xs @ [ptk_event key w] @ (ys @ es)" using 1 2 by simp
  moreover have "list_all (\<lambda>ev. \<not> is_pairwise_key ev) (xs @ (ys @ es))" using 1 2 by simp
  moreover have "same_cfg w u" using assms same_cfg_trans by (auto simp: installs_def stays_def)
  ultimately show ?thesis unfolding installs_def by blast
qed

lemma install_ptk_cases:
  assumes "wpa_supplicant_install_ptk env key w = (ok, v)"
  shows "pairwise_cipher w \<noteq> WPA_CIPHER_NONE \<and> wpa_cipher_valid_pairwise (pairwise_cipher w) \<Longrightarrow>
      installs key w v \<and> same_ies w v"
    "\<not> (pairwise_cipher w \<noteq> WPA_CIPHER_NONE \<and> wpa_cipher_valid_pairwise (pairwise_cipher w)) \<Longrightarrow> v = w"
proof -
  define u where "u = w_emit (ptk_event key w) w"
  have s: "wpa_sm_set_key env (wpa_cipher_to_alg (pairwise_cipher w)) (Some (bssid w)) 0 True
     (take (wpa_cipher_rsc_len (pairwise_cipher w))
        (if proto w = WPA_PROTO_RSN \<or> proto w = WPA_PROTO_OSEN then replicate 8 0 else k_rsc key))
     (take (wpa_cipher_key_len (pairwise_cipher w)) (tk1 (ptk w) @ tk_u (ptk w))) w =
     (set_key_ok env (ptk_event key w), u)"
    by (simp add: wpa_sm_set_key_def ptk_event_def u_def Let_def)
  assume a: "pairwise_cipher w \<noteq> WPA_CIPHER_NONE \<and> wpa_cipher_valid_pairwise (pairwise_cipher w)"
  have "v = u \<or> v = w_timer_register env (wpa_ptk_rekey u) rekey_ptk_key (w_timer_cancel rekey_ptk_key u)"
    using assms a unfolding wpa_supplicant_install_ptk_def Let_def s by (auto split: if_splits)
  then have v: "stays u v" by (auto intro: stays_trans [OF stays_basic(4) stays_basic(3)])
  have "installs key w u"
    unfolding installs_def u_def by (rule conjI, simp add: same_cfg_def, rule exI [of _ "[]"], rule exI [of _ "[]"]) simp
  then show "installs key w v \<and> same_ies w v"
    using installs_before [OF _ v] v by (auto simp: stays_def same_ies_def u_def)
next
  assume "\<not> (pairwise_cipher w \<noteq> WPA_CIPHER_NONE \<and> wpa_cipher_valid_pairwise (pairwise_cipher w))"
  then show "v = w" using assms by (simp add: wpa_supplicant_install_ptk_def split: if_splits)
qed

definition msg3_installs_ptk :: "wpa_eapol_key \<Rightarrow> 'p wpa_sm \<Rightarrow> bool" where
  "msg3_installs_ptk key w \<longleftrightarrow> k_info key AND 0x40 \<noteq> 0 \<and> pairwise_cipher w \<noteq> WPA_CIPHER_NONE \<and>
     wpa_cipher_valid_pairwise (pairwise_cipher w)"

lemma msg3_install_cases:
  "msg3_installs_ptk key w \<Longrightarrow> installs key w (snd (msg3_install env key ie w)) \<and> same_ies w (snd (msg3_install env key ie w))"
  "\<not> msg3_installs_ptk key w \<Longrightarrow> stays w (snd (msg3_install env key ie w))"
proof -
  define w1 where "w1 = w\<lparr>renew_snonce := True\<rparr>"
  have w1: "stays w w1" by (simp add: w1_def stays_update)
  obtain ok v where v: "(if k_info key AND 0x40 \<noteq> 0 then wpa_supplicant_install_ptk env key w1 else (True, w1)) = (ok, v)"
    by fastforce
  define u where "u = (if k_info key AND 0x200 \<noteq> 0
        then eapol_call (eapol_sm_notify_portValid (supp_env env) True) (w_emit (SetProtection (bssid v) PROTECT_RX) v)
        else v)"
  have u: "stays v u" unfolding u_def
    by (simp add: is_pairwise_key_def stays_trans [OF stays_emit stays_eapol])
  have r: "snd (msg3_install env key ie w) = (if ok then snd (msg3_group_keys env key ie u) else v)"
    unfolding msg3_install_def Let_def w1_def [symmetric] v prod.case u_def [symmetric] by simp
  have s: "stays v (snd (msg3_install env key ie w))"
    by (auto simp: r intro: stays_trans [OF u stays_msg3_group])
  note ip = install_ptk_cases [of env key w1 ok v]
  have pc: "pairwise_cipher w1 = pairwise_cipher w" by (simp add: w1_def)
  {
    assume a: "msg3_installs_ptk key w"
    then have "installs key w1 v \<and> same_ies w1 v" using ip v by (simp add: msg3_installs_ptk_def pc)
    then show "installs key w (snd (msg3_install env key ie w)) \<and> same_ies w (snd (msg3_install env key ie w))"
      using installs_after [of w w1] installs_before [OF _ s] w1 s by (auto simp: stays_def same_ies_def)
  next
    assume a: "\<not> msg3_installs_ptk key w"
    then have "v = w1" using ip v by (auto simp: msg3_installs_ptk_def pc split: if_splits)
    then show "stays w (snd (msg3_install env key ie w))" using w1 s stays_trans by blast
  }
qed


text \<open>When message 3 installs the pairwise key: it parses, passes the checks and can be answered.\<close>

definition msg3_done :: "'p wpa_env \<Rightarrow> wpa_eapol_key \<Rightarrow> bytes \<Rightarrow> nat \<Rightarrow> 'p wpa_sm \<Rightarrow> bool" where
  "msg3_done env key kd n w \<longleftrightarrow>
     (case wpa_supplicant_parse_ies kd n of
        None \<Rightarrow> False
      | Some ie \<Rightarrow> fst (msg3_checks env key ie (wpa_sm_set_state WPA_4WAY_HANDSHAKE w))) \<and>
     alloc env AllocEapol \<and> msg3_installs_ptk key w"

lemma send_4_of_4_cases:
  assumes "wpa_supplicant_send_4_of_4 env (bssid w) key ver info p w = (ok, v)" "\<not> is_zero_ether_addr (bssid w)"
  shows "ok \<longleftrightarrow> alloc env AllocEapol" "stays w v"
  using assms stays_key_send [OF assms(2)]
  by (auto simp: wpa_supplicant_send_4_of_4_def Let_def wpa_alloc_eapol_def split: if_splits)

lemma process_3_of_4_cases:
  assumes "\<not> is_zero_ether_addr (bssid w)" and ie: "wpa_supplicant_parse_ies kd n = Some ie"
  shows "msg3_done env key kd n w \<Longrightarrow>
      \<exists>w1.
        msg3_checks env key ie (wpa_sm_set_state WPA_4WAY_HANDSHAKE w) = (True, w1) \<and>
        same_cfg w1 (wpa_supplicant_process_3_of_4 env key ver kd n w) \<and>
        same_ies w1 (wpa_supplicant_process_3_of_4 env key ver kd n w) \<and>
        installs key w (wpa_supplicant_process_3_of_4 env key ver kd n w)"
    "\<not> msg3_done env key kd n w \<Longrightarrow> no_pairwise w (wpa_supplicant_process_3_of_4 env key ver kd n w)"
proof -
  define w0 where "w0 = wpa_sm_set_state WPA_4WAY_HANDSHAKE w"
  have w0: "stays w w0" by (simp add: w0_def)
  have fail: "no_pairwise w v \<Longrightarrow> no_pairwise w (wpa_sm_deauthenticate v)" for v
    using no_pairwise_trans stays_cfg [OF stays_basic(2)] by blast
  let ?r = "wpa_supplicant_process_3_of_4 env key ver kd n w"
    obtain ok1 w1 where 1: "msg3_checks env key ie w0 = (ok1, w1)" by fastforce
    define w2 where "w2 = (case ie_ip_addr_alloc ie of None \<Rightarrow> w1 | Some a \<Rightarrow> w1\<lparr>p2p_ip_addr := take 12 a\<rparr>)"
    obtain ok3 w3 where 3: "wpa_supplicant_send_4_of_4 env (bssid w2) key ver (k_info key) (ptk w2) w2 = (ok3, w3)"
      by fastforce
    obtain ok4 w4 where 4: "msg3_install env key ie w3 = (ok4, w4)" by fastforce
    have r: "?r = (if \<not> ok1 then wpa_sm_deauthenticate w1 else if \<not> ok3 then wpa_sm_deauthenticate w3
       else if \<not> ok4 then wpa_sm_deauthenticate w4 else w4)"
      unfolding wpa_supplicant_process_3_of_4_def Let_def w0_def [symmetric]
      by (simp add: ie 1 w2_def [symmetric] 3 4)
    have w1: "w1 \<in> {w0, wpa_sm_get_beacon_ie env w0}" using msg3_checks_state [of env key ie w0] 1 by simp
    then have c1: "same_cfg w w1" "no_pairwise w w1"
      by (auto simp: w0_def wpa_sm_get_beacon_ie_def same_cfg_def no_pairwise_def wpa_sm_set_state_def w_emit_def
          is_pairwise_key_def split: option.splits)
    have 2: "stays w1 w2" by (simp add: w2_def stays_update split: option.splits)
    have b: "\<not> is_zero_ether_addr (bssid w2)"
      using assms c1(1) 2 by (simp add: stays_def same_cfg_def)
    note s3 = send_4_of_4_cases [OF 3 b]
    have w3: "stays w1 w3" by (rule stays_trans [OF 2 s3(2)])
    have c3: "same_cfg w w3" "no_pairwise w w3"
      using c1 w3 same_cfg_trans no_pairwise_trans by (auto simp: stays_def)
    have i: "msg3_installs_ptk key w3 = msg3_installs_ptk key w"
      using c3(1) by (simp add: msg3_installs_ptk_def same_cfg_def)
    have done_iff: "msg3_done env key kd n w \<longleftrightarrow> ok1 \<and> ok3 \<and> msg3_installs_ptk key w"
      using 1 s3(1) by (simp add: msg3_done_def ie w0_def)
    {
      assume d: "msg3_done env key kd n w"
      have w4: "installs key w3 w4" "same_ies w3 w4"
        using msg3_install_cases(1) [of key w3 env ie] d done_iff i 4 by simp_all
      have "installs key w w4" by (rule installs_after [OF c3 w4(1)])
      moreover have rr: "stays w4 ?r" using d done_iff by (simp add: r)
      ultimately have "installs key w ?r" using installs_before by blast
      moreover have "msg3_checks env key ie (wpa_sm_set_state WPA_4WAY_HANDSHAKE w) = (True, w1)"
        using 1 d done_iff by (simp add: w0_def)
      moreover have "same_cfg w1 ?r" "same_ies w1 ?r"
        using w3 w4 rr by (auto simp: installs_def stays_def same_cfg_def same_ies_def)
      ultimately show "\<exists>w1. msg3_checks env key ie (wpa_sm_set_state WPA_4WAY_HANDSHAKE w) = (True, w1) \<and> same_cfg w1 ?r \<and> same_ies w1 ?r \<and> installs key w ?r"
        by blast
    next
      assume d: "\<not> msg3_done env key kd n w"
      have "no_pairwise w3 w4" if "\<not> msg3_installs_ptk key w"
        using msg3_install_cases(2) [of key w3 env ie] i 4 that by (simp add: stays_def)
      then have "no_pairwise w w4" if "\<not> msg3_installs_ptk key w" using no_pairwise_trans c3(2) that by blast
      then show "no_pairwise w ?r" using d done_iff c1(2) c3(2) fail by (auto simp: r)
    }
qed


lemma installs_key:
  assumes "installs key w v" "trace v = trace w @ evs" "ev \<in> set evs" "is_pairwise_key ev"
  shows "ev = ptk_event key w"
  using assms by (auto simp: installs_def list_all_iff)

text \<open>
  C10: When message 3 has installed the pairwise key of an RSN association, message 3 with the same
  key data and any other replay counter and MIC installs the same key again, both times with a
  sequence counter of zeros.
\<close>

theorem retransmitted_msg3_reinstalls:
  assumes "bssid w \<noteq> replicate 6 0" "length (bssid w) = 6" "proto w = WPA_PROTO_RSN"
    and v: "v = wpa_supplicant_process_3_of_4 env key ver kd n w"
    and ev: "trace v = trace w @ evs" "ev \<in> set evs" "is_pairwise_key ev"
    and "k_info key' = k_info key" "k_nonce key' = k_nonce key" "k_length key' = k_length key"
  shows "\<exists>alg tk evs'. ev = SetKey alg (Some (bssid w)) 0 True (replicate (wpa_cipher_rsc_len (pairwise_cipher w)) 0) tk \<and>
    trace (wpa_supplicant_process_3_of_4 env key' ver kd n v) = trace v @ evs' \<and> ev \<in> set evs'"
proof -
  have nz: "\<not> is_zero_ether_addr (bssid w)" using assms(1,2) by (simp add: is_zero_ether_addr_def)
  have d: "msg3_done env key kd n w"
  proof (rule ccontr)
    assume nd: "\<not> msg3_done env key kd n w"
    have "no_pairwise w v"
    proof (cases "wpa_supplicant_parse_ies kd n")
      case None
      have "stays w v"
        unfolding v wpa_supplicant_process_3_of_4_def Let_def None option.case
        by (rule stays_trans [OF stays_basic(1) stays_basic(2)])
      then show ?thesis by (simp add: stays_def)
    next
      case (Some ie)
      then show ?thesis using process_3_of_4_cases(2) [OF nz Some nd] v by simp
    qed
    then show False using ev by (auto simp: no_pairwise_def list_all_iff)
  qed
  then obtain ie where ie: "wpa_supplicant_parse_ies kd n = Some ie"
    by (auto simp: msg3_done_def split: option.splits)
  obtain w1 where w1: "msg3_checks env key ie (wpa_sm_set_state WPA_4WAY_HANDSHAKE w) = (True, w1)"
    "same_cfg w1 v" "same_ies w1 v" "installs key w v"
    using process_3_of_4_cases(1) [OF nz ie d] v by blast
  have ev_eq: "ev = ptk_event key w" using installs_key [OF w1(4) ev] .
  have wv: "same_cfg w v" using w1(4) by (simp add: installs_def)
  have "stays v (wpa_sm_set_state WPA_4WAY_HANDSHAKE v)" by simp
  then have cfg: "same_cfg w1 (wpa_sm_set_state WPA_4WAY_HANDSHAKE v)" "same_ies w1 (wpa_sm_set_state WPA_4WAY_HANDSHAKE v)"
    using w1(2,3) by (auto simp: stays_def same_cfg_def same_ies_def)
  then have "fst (msg3_checks env key' ie (wpa_sm_set_state WPA_4WAY_HANDSHAKE v))"
    using msg3_checks_again(1) [OF w1(1) cfg assms(8-10)] by auto
  then have d2: "msg3_done env key' kd n v"
    using d wv assms(8) by (simp add: msg3_done_def ie msg3_installs_ptk_def same_cfg_def)
  have nz2: "\<not> is_zero_ether_addr (bssid v)" using nz wv by (simp add: same_cfg_def)
  have "installs key' v (wpa_supplicant_process_3_of_4 env key' ver kd n v)"
    using process_3_of_4_cases(1) [OF nz2 ie d2] by blast
  then obtain xs ys where "trace (wpa_supplicant_process_3_of_4 env key' ver kd n v) = trace v @ xs @ [ptk_event key' v] @ ys"
    by (auto simp: installs_def)
  moreover have "ptk_event key' v = ev"
    using wv assms(3) by (simp add: ev_eq ptk_event_def same_cfg_def)
  moreover have "take (wpa_cipher_rsc_len (pairwise_cipher w)) (replicate 8 0) = replicate (wpa_cipher_rsc_len (pairwise_cipher w)) (0 :: u8)"
    by (simp add: wpa_cipher_rsc_len_def)
  ultimately show ?thesis
    using ev_eq assms(3) by (simp add: ptk_event_def)
qed


text \<open>Message 3 of the concrete machine, and the same message with another counter.\<close>

definition sample_key3 :: wpa_eapol_key where
  "sample_key3 = get_key (drop 4 sample_msg3)"

definition sample_done :: "unit wpa_sm" where
  "sample_done = wpa_supplicant_process_3_of_4 sample_wpa_env sample_key3 2 [] 0 sample_wpa"

lemma sample_done_key:
  "filter is_pairwise_key (trace sample_done) =
     [SetKey WPA_ALG_CCMP (Some [2, 0, 0, 0, 0, 1]) 0 True (replicate 6 0) (replicate 16 9)]"
  by code_simp

theorem retransmitted_msg3_reinstalls_witness:
  "\<exists>evs'. trace (wpa_supplicant_process_3_of_4 sample_wpa_env (sample_key3\<lparr>k_replay := [0, 0, 0, 0, 0, 0, 0, 2]\<rparr>) 2 [] 0
       sample_done) = trace sample_done @ evs' \<and>
     SetKey WPA_ALG_CCMP (Some [2, 0, 0, 0, 0, 1]) 0 True (replicate 6 0) (replicate 16 9) \<in> set evs'"
proof -
  let ?ev = "SetKey WPA_ALG_CCMP (Some [2, 0, 0, 0, 0, 1]) 0 True (replicate 6 0) (replicate 16 9)"
  have b: "bssid sample_wpa = [2, 0, 0, 0, 0, 1]" "proto sample_wpa = WPA_PROTO_RSN"
    by (simp_all add: sample_wpa_def wpa_sm_notify_assoc_def wpa_sm_init_def rsn_preauth_deinit_def Let_def)
  have z: "[2, 0, 0, 0, 0, 1] \<noteq> replicate 6 (0 :: u8)" by (simp add: eval_nat_numeral)
  have ev: "?ev \<in> set (filter is_pairwise_key (trace sample_done))" unfolding sample_done_key by simp
  show ?thesis
    using retransmitted_msg3_reinstalls [of sample_wpa sample_done sample_wpa_env sample_key3 2 "[]" 0 "trace sample_done" ?ev
        "sample_key3\<lparr>k_replay := [0, 0, 0, 0, 0, 0, 0, 2]\<rparr>"] ev
    by (auto simp: b z sample_trace sample_done_def [symmetric])
qed

end
