(* ===== verification/WpaAuthIe.thy ===== *)
theory WpaAuthIe
  imports WpaKeys
begin

text \<open>
  The elements and key data of the access point, \<open>src/ap/wpa_auth_ie.c\<close>: writing the RSN, WPA and OSEN
  elements of a configuration, adding a KDE to the key data of a frame and parsing the key data of a
  received frame. \<open>CONFIG_RSN_TESTING\<close>, \<open>CONFIG_IEEE80211R\<close>, \<open>CONFIG_SAE\<close> and \<open>CONFIG_PEERKEY\<close> are not set.
\<close>

section \<open>Configuration\<close>

datatype mfp_options = NO_MGMT_FRAME_PROTECTION | MGMT_FRAME_PROTECTION_OPTIONAL | MGMT_FRAME_PROTECTION_REQUIRED

text \<open>\<open>struct wpa_auth_config\<close>, with its flags as truth values.\<close>

record wpa_auth_config =
  conf_wpa :: u32
  conf_key_mgmt :: u32
  conf_wpa_pairwise :: u32
  conf_group :: u32
  conf_group_rekey :: u32
  conf_strict_rekey :: bool
  conf_gmk_rekey :: u32
  conf_ptk_rekey :: u32
  conf_rsn_pairwise :: u32
  conf_rsn_preauth :: bool
  conf_eapol_version :: u8
  conf_peerkey :: bool
  conf_wmm_enabled :: bool
  conf_tx_status :: bool
  conf_ieee80211w :: mfp_options
  conf_group_mgmt_cipher :: u32
  conf_disable_gtk :: bool
  conf_ip_addr_go :: bytes
  conf_ip_addr_mask :: bytes
  conf_ip_addr_start :: bytes
  conf_ip_addr_end :: bytes

section \<open>Writing elements\<close>

text \<open>
  The selectors of the key management suites that are configured. \<open>None\<close> is -1; the buffer of 128
  octets of the only caller has room for the elements.
\<close>

definition put_akm :: "wpa_auth_config \<Rightarrow> (u32 \<times> u32) list \<Rightarrow> bytes" where
  "put_akm conf suites = concat (map (\<lambda>(b, suite). put_if (conf_key_mgmt conf) b suite) suites)"

definition wpa_write_wpa_ie :: "wpa_auth_config \<Rightarrow> bytes option" where
  "wpa_write_wpa_ie conf =
    (let suite = wpa_cipher_to_suite WPA_PROTO_WPA (conf_group conf);
         pws = wpa_cipher_put_suites (conf_wpa_pairwise conf);
         akms = put_akm conf [(WPA_KEY_MGMT_IEEE8021X, WPA_SUITE 1), (WPA_KEY_MGMT_PSK, WPA_SUITE 2)] in
     if suite = 0 then None
     else if pws = [] then None
     else if akms = [] then None
     else Some (ie_finish ([WLAN_EID_VENDOR_SPECIFIC, 0] @ WPA_PUT_BE32 WPA_OUI_TYPE @ WPA_PUT_LE16 1 @
       WPA_PUT_BE32 suite @ WPA_PUT_LE16 (word_of_nat (length pws div 4)) @ pws @
       WPA_PUT_LE16 (word_of_nat (length akms div 4)) @ akms)))"

definition mfp_capab :: "wpa_auth_config \<Rightarrow> u16" where
  "mfp_capab conf =
    (case conf_ieee80211w conf of
       NO_MGMT_FRAME_PROTECTION \<Rightarrow> 0
     | MGMT_FRAME_PROTECTION_OPTIONAL \<Rightarrow> 0x80
     | MGMT_FRAME_PROTECTION_REQUIRED \<Rightarrow> 0x80 OR 0x40)"

definition rsn_capab :: "wpa_auth_config \<Rightarrow> u16" where
  "rsn_capab conf = (if conf_rsn_preauth conf then 0x1 else 0) OR (if conf_peerkey conf then 0x200 else 0) OR
     (if conf_wmm_enabled conf then 0xc else 0) OR mfp_capab conf"

definition mgmt_suite :: "u32 \<Rightarrow> u32 option" where
  "mgmt_suite cipher =
    (if cipher = WPA_CIPHER_AES_128_CMAC then Some (RSN_SUITE 6)
     else if cipher = WPA_CIPHER_BIP_GMAC_128 then Some (RSN_SUITE 11)
     else if cipher = WPA_CIPHER_BIP_GMAC_256 then Some (RSN_SUITE 12)
     else if cipher = WPA_CIPHER_BIP_CMAC_256 then Some (RSN_SUITE 13)
     else None)"

text \<open>\<open>room\<close> is the length of the buffer; it is compared with the position for the optional fields only.\<close>

definition wpa_write_rsn_ie :: "wpa_auth_config \<Rightarrow> nat \<Rightarrow> bytes option \<Rightarrow> bytes option" where
  "wpa_write_rsn_ie conf room pid =
    (let suite = wpa_cipher_to_suite WPA_PROTO_RSN (conf_group conf);
         pws = rsn_cipher_put_suites (conf_rsn_pairwise conf);
         akms = put_akm conf [(WPA_KEY_MGMT_IEEE8021X, RSN_SUITE 1), (WPA_KEY_MGMT_PSK, RSN_SUITE 2),
           (WPA_KEY_MGMT_IEEE8021X_SHA256, RSN_SUITE 5), (WPA_KEY_MGMT_PSK_SHA256, RSN_SUITE 6)];
         ie = [WLAN_EID_RSN, 0] @ WPA_PUT_LE16 1 @ WPA_PUT_BE32 suite @
           WPA_PUT_LE16 (word_of_nat (length pws div 4)) @ pws @
           WPA_PUT_LE16 (word_of_nat (length akms div 4)) @ akms @ WPA_PUT_LE16 (rsn_capab conf) in
     if suite = 0 then None
     else if pws = [] then None
     else if akms = [] then None
     else if pid \<noteq> None \<and> length ie + 2 + PMKID_LEN > room then None
     else
       (let ie = ie @ (case pid of None \<Rightarrow> [] | Some p \<Rightarrow> WPA_PUT_LE16 1 @ take PMKID_LEN p) in
        if conf_ieee80211w conf \<noteq> NO_MGMT_FRAME_PROTECTION then
          (if length ie + 2 + 4 > room then None
           else
             (case mgmt_suite (conf_group_mgmt_cipher conf) of
                None \<Rightarrow> None
              | Some s \<Rightarrow> Some (ie_finish (ie @ (if pid = None then WPA_PUT_LE16 0 else []) @ WPA_PUT_BE32 s))))
        else Some (ie_finish ie)))"

definition wpa_write_osen :: "wpa_auth_config \<Rightarrow> bytes" where
  "wpa_write_osen conf =
     ie_finish ([WLAN_EID_VENDOR_SPECIFIC, 0] @ WPA_PUT_BE24 0x506f9a @ [18] @ WPA_PUT_BE32 (RSN_SUITE 7) @
       WPA_PUT_LE16 1 @ WPA_PUT_BE32 (RSN_SUITE 4) @ WPA_PUT_LE16 1 @ WPA_PUT_BE32 RSN_AUTH_KEY_MGMT_OSEN @
       WPA_PUT_LE16 ((if conf_wmm_enabled conf then 0xc else 0) OR mfp_capab conf))"

text \<open>The new value of \<open>wpa_ie\<close>; \<open>None\<close> is a negative result.\<close>

definition wpa_auth_gen_wpa_ie :: "bool \<Rightarrow> wpa_auth_config \<Rightarrow> bytes option" where
  "wpa_auth_gen_wpa_ie mem conf =
    (let osen = (if conf_wpa conf = WPA_PROTO_OSEN then wpa_write_osen conf else []);
         rsn = (if has (conf_wpa conf) WPA_PROTO_RSN then wpa_write_rsn_ie conf (128 - length osen) None else Some []);
         wpa = (if has (conf_wpa conf) WPA_PROTO_WPA then wpa_write_wpa_ie conf else Some []) in
     case rsn of
       None \<Rightarrow> None
     | Some rsn \<Rightarrow> (case wpa of None \<Rightarrow> None | Some wpa \<Rightarrow> if mem then Some (osen @ rsn @ wpa) else None))"

section \<open>Key data\<close>

definition wpa_add_kde :: "u32 \<Rightarrow> bytes \<Rightarrow> bytes \<Rightarrow> bytes" where
  "wpa_add_kde kde dat data2 =
     [WLAN_EID_VENDOR_SPECIFIC, word_of_nat (4 + length dat + length data2)] @ WPA_PUT_BE32 kde @ dat @ data2"

text \<open>
  The structure of \<open>wpa_auth_ie.h\<close>: a field with a length is the list of its octets; a pointer without
  one is the list of the octets from there to the end of its element.
\<close>

record kde_parse =
  kde_wpa_ie :: "bytes option"
  kde_rsn_ie :: "bytes option"
  kde_pmkid :: "bytes option"
  kde_gtk :: "bytes option"
  kde_mac_addr :: "bytes option"
  kde_igtk :: "bytes option"
  kde_ip_addr_req :: "bytes option"
  kde_ip_addr_alloc :: "bytes option"
  kde_osen :: "bytes option"

definition kde_empty :: kde_parse where
  "kde_empty = \<lparr>kde_wpa_ie = None, kde_rsn_ie = None, kde_pmkid = None, kde_gtk = None, kde_mac_addr = None,
     kde_igtk = None, kde_ip_addr_req = None, kde_ip_addr_alloc = None, kde_osen = None\<rparr>"

text \<open>
  \<open>p\<close> is the memory from \<open>pos\<close> on, and \<open>room\<close> is \<open>end - pos\<close>. The flag of the result is that of the end
  mark.
\<close>

definition kde_parse_generic :: "bytes \<Rightarrow> nat \<Rightarrow> kde_parse \<Rightarrow> bool \<times> kde_parse" where
  "kde_parse_generic p room ie =
    (let n = unat (p ! 1); sel = WPA_GET_BE32 (drop 2 p); body = take (n - 4) (drop 6 p) in
     if n = 0 then (True, ie)
     else if n \<ge> 6 \<and> sel = WPA_OUI_TYPE \<and> p ! 6 = 1 \<and> p ! 7 = 0
       then (False, ie\<lparr>kde_wpa_ie := Some (take (2 + n) p)\<rparr>)
     else if n \<ge> 4 \<and> sel = 0x506f9a12 then (False, ie\<lparr>kde_osen := Some (take (2 + n) p)\<rparr>)
     else if 5 < room \<and> n \<ge> 4 + PMKID_LEN \<and> sel = RSN_SUITE 4 then (False, ie\<lparr>kde_pmkid := Some body\<rparr>)
     else if n > 6 \<and> sel = RSN_SUITE 1 then (False, ie\<lparr>kde_gtk := Some body\<rparr>)
     else if n > 6 \<and> sel = RSN_SUITE 3 then (False, ie\<lparr>kde_mac_addr := Some body\<rparr>)
     else if n > 6 \<and> sel = RSN_SUITE 9 then (False, ie\<lparr>kde_igtk := Some body\<rparr>)
     else if n \<ge> 5 \<and> sel = RSN_SELECTOR 0x50 0x6f 0x9a 4 then (False, ie\<lparr>kde_ip_addr_req := Some body\<rparr>)
     else if n \<ge> 16 \<and> sel = RSN_SELECTOR 0x50 0x6f 0x9a 5 then (False, ie\<lparr>kde_ip_addr_alloc := Some body\<rparr>)
     else (False, ie))"

text \<open>The loop over the memory \<open>mem\<close>, of which the first \<open>room\<close> octets are the key data; false is -1.\<close>

function kde_parse_loop :: "bytes \<Rightarrow> nat \<Rightarrow> nat \<Rightarrow> kde_parse \<Rightarrow> bool \<times> kde_parse" where
  "kde_parse_loop mem room pos ie =
    (if pos + 1 < room then
       (let n = unat (mem ! (pos + 1)) in
        if mem ! pos = 0xdd \<and> (pos = room - 1 \<or> n = 0) then (True, ie)
        else if pos + 2 + n > room then (False, ie)
        else if mem ! pos = WLAN_EID_RSN
          then kde_parse_loop mem room (pos + 2 + n) (ie\<lparr>kde_rsn_ie := Some (take (2 + n) (drop pos mem))\<rparr>)
        else if mem ! pos = WLAN_EID_VENDOR_SPECIFIC then
          (let (stop, ie) = kde_parse_generic (drop pos mem) (room - pos) ie in
           if stop then (True, ie) else kde_parse_loop mem room (pos + 2 + n) ie)
        else kde_parse_loop mem room (pos + 2 + n) ie)
     else (True, ie))"
  by pat_completeness auto
termination by (relation "measure (\<lambda>(mem, room, pos, ie). room - pos)") auto

declare kde_parse_loop.simps [simp del]

definition wpa_parse_kde_ies :: "bytes \<Rightarrow> nat \<Rightarrow> kde_parse option" where
  "wpa_parse_kde_ies mem room =
    (case kde_parse_loop mem room 0 kde_empty of (True, ie) \<Rightarrow> Some ie | (False, ie) \<Rightarrow> None)"

end
