(* ===== verification/Bitfield.thy ===== *)
theory Bitfield
  imports Prelude
begin

text \<open>
  The bit sets of \<open>src/utils/bitfield.c\<close>, the pool of IP addresses of a group owner. The array \<open>bits\<close>
  has one octet for each started group of eight bits.
\<close>

record bitfield =
  bf_bits :: bytes
  bf_max_bits :: nat

definition bitfield_alloc :: "bool \<Rightarrow> nat \<Rightarrow> bitfield option" where
  "bitfield_alloc mem max_bits =
    (if mem then Some \<lparr>bf_bits = replicate ((max_bits + 7) div 8) 0, bf_max_bits = max_bits\<rparr> else None)"

definition bitfield_set :: "nat \<Rightarrow> bitfield \<Rightarrow> bitfield" where
  "bitfield_set b bf =
    (if b \<ge> bf_max_bits bf then bf
     else bf\<lparr>bf_bits := (bf_bits bf)[b div 8 := bf_bits bf ! (b div 8) OR push_bit (b mod 8) 1]\<rparr>)"

definition bitfield_clear :: "nat \<Rightarrow> bitfield \<Rightarrow> bitfield" where
  "bitfield_clear b bf =
    (if b \<ge> bf_max_bits bf then bf
     else bf\<lparr>bf_bits := (bf_bits bf)[b div 8 := bf_bits bf ! (b div 8) AND NOT (push_bit (b mod 8) 1)]\<rparr>)"

definition bitfield_is_set :: "bitfield \<Rightarrow> nat \<Rightarrow> bool" where
  "bitfield_is_set bf b =
    (if b \<ge> bf_max_bits bf then False else bf_bits bf ! (b div 8) AND push_bit (b mod 8) 1 \<noteq> 0)"

text \<open>The loop from \<open>i\<close> on; the result 8 stands for -1, which the caller never gets.\<close>

fun first_zero_loop :: "nat \<Rightarrow> nat \<Rightarrow> u8 \<Rightarrow> nat" where
  "first_zero_loop 0 i val = 8"
| "first_zero_loop (Suc n) i val = (if val AND 0x01 = 0 then i else first_zero_loop n (i + 1) (drop_bit 1 val))"

definition first_zero :: "u8 \<Rightarrow> nat" where
  "first_zero val = first_zero_loop 8 0 val"

text \<open>
  The loop goes one octet too far: \<open>behind\<close> is the octet that it reads behind the array when all
  octets of the array are full. \<open>None\<close> is -1.
\<close>

definition bitfield_get_first_zero :: "u8 \<Rightarrow> bitfield \<Rightarrow> nat option" where
  "bitfield_get_first_zero behind bf =
    (let i = length (takeWhile (\<lambda>x. x = 0xff) (bf_bits bf @ [behind])) in
     if i > length (bf_bits bf) then None
     else
       (let i = i * 8 + first_zero ((bf_bits bf @ [behind]) ! i) in
        if i \<ge> bf_max_bits bf then None else Some i))"

definition bitfield_ok :: "bitfield \<Rightarrow> bool" where
  "bitfield_ok bf \<longleftrightarrow> length (bf_bits bf) = (bf_max_bits bf + 7) div 8"

lemma bitfield_is_set_bit:
  "bitfield_is_set bf b \<longleftrightarrow> b < bf_max_bits bf \<and> bit (bf_bits bf ! (b div 8)) (b mod 8)"
  by (simp add: bitfield_is_set_def and_exp_eq_0_iff_not_bit push_bit_of_1)

lemma bitfield_set_spec:
  assumes "bitfield_ok bf" "b < bf_max_bits bf"
  shows "bitfield_ok (bitfield_set b bf)" "bitfield_is_set (bitfield_set b bf) c \<longleftrightarrow> c = b \<or> bitfield_is_set bf c"
proof -
  have l: "b div 8 < length (bf_bits bf)" using assms by (simp add: bitfield_ok_def)
  show "bitfield_ok (bitfield_set b bf)" using assms by (simp add: bitfield_ok_def bitfield_set_def)
  have e: "c = b \<longleftrightarrow> c div 8 = b div 8 \<and> c mod 8 = b mod 8" by (metis div_mult_mod_eq)
  have m: "c mod 8 < LENGTH(8)" by simp
  show "bitfield_is_set (bitfield_set b bf) c \<longleftrightarrow> c = b \<or> bitfield_is_set bf c"
    using assms l m e
    by (cases "c = b"; cases "c div 8 = b div 8")
      (auto simp: bitfield_is_set_bit bitfield_set_def bit_or_iff bit_push_bit_iff push_bit_of_1 bit_exp_iff)
qed

lemma bitfield_clear_spec:
  assumes "bitfield_ok bf" "b < bf_max_bits bf"
  shows "bitfield_ok (bitfield_clear b bf)" "bitfield_is_set (bitfield_clear b bf) c \<longleftrightarrow> c \<noteq> b \<and> bitfield_is_set bf c"
proof -
  have l: "b div 8 < length (bf_bits bf)" using assms by (simp add: bitfield_ok_def)
  show "bitfield_ok (bitfield_clear b bf)" using assms by (simp add: bitfield_ok_def bitfield_clear_def)
  have e: "c = b \<longleftrightarrow> c div 8 = b div 8 \<and> c mod 8 = b mod 8" by (metis div_mult_mod_eq)
  have m: "c mod 8 < LENGTH(8)" by simp
  show "bitfield_is_set (bitfield_clear b bf) c \<longleftrightarrow> c \<noteq> b \<and> bitfield_is_set bf c"
    using assms l m e
    by (cases "c = b"; cases "c div 8 = b div 8")
      (auto simp: bitfield_is_set_bit bitfield_clear_def bit_and_iff bit_not_iff push_bit_of_1 bit_exp_iff)
qed

lemma first_zero_spec:
  "x \<noteq> 0xff \<Longrightarrow> first_zero x < 8 \<and> \<not> bit x (first_zero x) \<and> list_all (bit x) [0..<first_zero x]"
proof -
  have "list_all (\<lambda>x :: u8. x = 0xff \<or> (first_zero x < 8 \<and> \<not> bit x (first_zero x) \<and> list_all (bit x) [0..<first_zero x]))
      (List.map word_of_nat [0..<256])" by code_simp
  then show "x \<noteq> 0xff \<Longrightarrow> first_zero x < 8 \<and> \<not> bit x (first_zero x) \<and> list_all (bit x) [0..<first_zero x]"
    using u8_all_iff [of "\<lambda>x. x = 0xff \<or> (first_zero x < 8 \<and> \<not> bit x (first_zero x) \<and> list_all (bit x) [0..<first_zero x])"]
    by blast
qed

text \<open>
  The first clear bit is found, and -1 is returned only when all are set, whatever octet follows the
  array.
\<close>

theorem bitfield_first_zero_least:
  assumes "bitfield_ok bf"
  shows "case bitfield_get_first_zero behind bf of
      None \<Rightarrow> \<forall>b < bf_max_bits bf. bitfield_is_set bf b
    | Some i \<Rightarrow> i < bf_max_bits bf \<and> \<not> bitfield_is_set bf i \<and> (\<forall>b < i. bitfield_is_set bf b)"
proof -
  define xs where "xs = bf_bits bf @ [behind]"
  define k where "k = length (takeWhile (\<lambda>x. x = 0xff) xs)"
  have full: "xs ! j = 0xff" if "j < k" for j
    using that takeWhile_nth [of j "\<lambda>x. x = 0xff" xs] set_takeWhileD [OF nth_mem, of j "\<lambda>x. x = 0xff" xs]
    by (metis k_def)
  have arr: "xs ! j = bf_bits bf ! j" if "j < length (bf_bits bf)" for j using that by (simp add: xs_def nth_append)
  have len: "b div 8 < length (bf_bits bf)" if "b < bf_max_bits bf" for b using that assms by (simp add: bitfield_ok_def)
  have below: "bitfield_is_set bf b" if "b < bf_max_bits bf" "b div 8 < k" for b
    using that full [OF that(2)] arr [OF len [OF that(1)]] by (simp add: bitfield_is_set_bit ff_eq_mask bit_mask_iff)
  show ?thesis
  proof (cases "k > length (bf_bits bf)")
    case True
    then have "bitfield_get_first_zero behind bf = None"
      by (simp add: bitfield_get_first_zero_def Let_def k_def xs_def)
    moreover have "bitfield_is_set bf b" if "b < bf_max_bits bf" for b
      using below [OF that] len [OF that] True by simp
    ultimately show ?thesis by simp
  next
    case False
    then have kl: "k < length xs" by (simp add: xs_def)
    then have nz: "xs ! k \<noteq> 0xff" using nth_length_takeWhile [of "\<lambda>x. x = 0xff" xs] by (simp add: k_def)
    define z where "z = first_zero (xs ! k)"
    note fz = first_zero_spec [OF nz, folded z_def]
    have r: "bitfield_get_first_zero behind bf = (if k * 8 + z \<ge> bf_max_bits bf then None else Some (k * 8 + z))"
      using False by (simp add: bitfield_get_first_zero_def Let_def k_def xs_def z_def)
    have low: "bitfield_is_set bf b" if "b < bf_max_bits bf" "b < k * 8 + z" for b
    proof (cases "b div 8 < k")
      case True
      then show ?thesis using below that(1) by blast
    next
      case False
      then have "b div 8 = k" using that(2) fz by linarith
      moreover from this have "b mod 8 < z" using that(2) div_mult_mod_eq [of b 8] by linarith
      ultimately have "b div 8 = k" "b mod 8 < z" by blast+
      then have "bit (xs ! k) (b mod 8)" using fz by (simp add: list_all_iff)
      then show ?thesis using arr len [OF that(1)] that(1) \<open>b div 8 = k\<close> by (simp add: bitfield_is_set_bit)
    qed
    show ?thesis
    proof (cases "k * 8 + z \<ge> bf_max_bits bf")
      case True
      then show ?thesis using low r by auto
    next
      case lt: False
      have d: "(k * 8 + z) div 8 = k" "(k * 8 + z) mod 8 = z" using fz by simp_all
      have "\<not> bitfield_is_set bf (k * 8 + z)"
        using lt fz arr len [of "k * 8 + z"] by (simp add: bitfield_is_set_bit d)
      then show ?thesis using low r lt by auto
    qed
  qed
qed

theorem bitfield_first_zero_least_witness:
  "bitfield_get_first_zero 0 \<lparr>bf_bits = [0xff, 0x03], bf_max_bits = 12\<rparr> = Some 10 \<and>
   list_all (bitfield_is_set \<lparr>bf_bits = [0xff, 0x03], bf_max_bits = 12\<rparr>) [0..<10]"
proof -
  let ?bf = "\<lparr>bf_bits = [0xff, 0x03], bf_max_bits = 12\<rparr>"
  have ok: "bitfield_ok ?bf" by (simp add: bitfield_ok_def)
  have "bitfield_get_first_zero 0 ?bf = Some 10" by code_simp
  then show ?thesis using bitfield_first_zero_least [OF ok, of 0] by (simp add: list_all_iff)
qed

end
