(* ===== verification/WpaAuth.thy ===== *)
theory WpaAuth
  imports WpaAuthIe Bitfield HexText
begin

text \<open>
  The authenticator of the access point, \<open>src/ap/wpa_auth.c\<close>: the PTK, the PTK group key and the group
  state machine, the reception and transmission of EAPOL-Key frames, the rekeying timeouts and the
  calls by which the program reports events.

  State: one \<open>struct wpa_authenticator\<close> with one \<open>struct wpa_group\<close> and one station (\<open>struct
  wpa_state_machine\<close>), over which \<open>wpa_auth_for_each_sta\<close> iterates. What the association sets in the
  station (version, cipher suites, key management, element, PMKSA entry) is part of its state. The
  callbacks are recorded in \<open>auth_trace\<close>; their results, random octets, time stamps and allocations
  come from the environment, whose answers may depend on the number of the question (\<open>queries\<close>).
  Without \<open>CONFIG_IEEE80211R\<close>, \<open>CONFIG_PEERKEY\<close> and \<open>CONFIG_TESTING_OPTIONS\<close>.
\<close>

section \<open>State\<close>

datatype wpa_ptk_state = WPA_PTK_INITIALIZE | WPA_PTK_DISCONNECT | WPA_PTK_DISCONNECTED | WPA_PTK_AUTHENTICATION
  | WPA_PTK_AUTHENTICATION2 | WPA_PTK_INITPMK | WPA_PTK_INITPSK | WPA_PTK_PTKSTART | WPA_PTK_PTKCALCNEGOTIATING
  | WPA_PTK_PTKCALCNEGOTIATING2 | WPA_PTK_PTKINITNEGOTIATING | WPA_PTK_PTKINITDONE

datatype wpa_ptk_group_state = WPA_PTK_GROUP_IDLE | WPA_PTK_GROUP_REKEYNEGOTIATING | WPA_PTK_GROUP_REKEYESTABLISHED
  | WPA_PTK_GROUP_KEYERROR

datatype wpa_group_state = WPA_GROUP_GTK_INIT | WPA_GROUP_SETKEYS | WPA_GROUP_SETKEYSDONE | WPA_GROUP_FATAL_FAILURE

datatype wpa_version = WPA_VERSION_NO_WPA | WPA_VERSION_WPA | WPA_VERSION_WPA2

record wpa_key_replay_counter =
  kr_counter :: bytes
  kr_valid :: bool

record wpa_state_machine =
  sta_addr :: bytes
  wpa_ptk_state :: wpa_ptk_state
  wpa_ptk_group_state :: wpa_ptk_group_state
  Init :: bool
  DeauthenticationRequest :: bool
  AuthenticationRequest :: bool
  ReAuthenticationRequest :: bool
  Disconnect :: bool
  TimeoutCtr :: int
  GTimeoutCtr :: int
  TimeoutEvt :: bool
  EAPOLKeyReceived :: bool
  EAPOLKeyPairwise :: bool
  EAPOLKeyRequest :: bool
  MICVerified :: bool
  GUpdateStationKeys :: bool
  ANonce :: bytes
  SNonce :: bytes
  PMK :: bytes
  PTK :: wpa_ptk
  PTK_valid :: bool
  pairwise_set :: bool
  keycount :: int
  Pair :: bool
  key_replay :: "wpa_key_replay_counter list"
  prev_key_replay :: "wpa_key_replay_counter list"
  PInitAKeys :: bool
  PTKRequest :: bool
  has_GTK :: bool
  PtkGroupInit :: bool
  last_rx_eapol_key :: "bytes option"
  sta_changed :: bool
  in_step_loop :: bool
  pending_deinit :: bool
  sta_started :: bool
  mgmt_frame_prot :: bool
  rx_eapol_key_secure :: bool
  update_snonce :: bool
  is_wnmsleep :: bool
  req_replay_counter :: bytes
  req_replay_counter_used :: bool
  sta_wpa_ie :: "bytes option"
  sta_wpa :: wpa_version
  sta_pairwise :: u32
  sta_key_mgmt :: u32
  sta_pmksa :: "(bytes \<times> bytes) option"
  mic_failures :: nat
  pending_1_of_4_timeout :: bool
  sta_ip_addr :: bytes

record wpa_group =
  vlan_id :: nat
  GInit :: bool
  GKeyDoneStations :: int
  GTKReKey :: bool
  GTK_len :: nat
  GN :: nat
  GM :: nat
  GTKAuthenticator :: bool
  Counter :: bytes
  wpa_group_state :: wpa_group_state
  GMK :: bytes
  GTK :: "bytes list"
  GNonce :: bytes
  group_changed :: bool
  first_sta_seen :: bool
  reject_4way_hs_for_entropy :: bool
  IGTK :: "bytes list"
  GN_igtk :: nat
  GM_igtk :: nat

datatype wpa_eapol_variable = WPA_EAPOL_portEnabled | WPA_EAPOL_portValid | WPA_EAPOL_authorized
  | WPA_EAPOL_portControl_Auto | WPA_EAPOL_keyRun | WPA_EAPOL_keyAvailable | WPA_EAPOL_keyDone
  | WPA_EAPOL_inc_EapolFramesTx

text \<open>\<open>AuthSetKey\<close>: VLAN, algorithm, address, index and key; \<open>AuthSend\<close>: frame and encryption flag.\<close>

datatype auth_event =
    SetEapol wpa_eapol_variable bool
  | AuthSetKey nat wpa_alg bytes nat bytes
  | AuthSend bytes bool
  | StaDisconnect

record authenticator =
  conf :: wpa_auth_config
  auth_addr :: bytes
  auth_wpa_ie :: bytes
  auth_4way_failures :: nat
  auth_mic_failures :: nat
  ip_pool :: "bitfield option"
  grp :: wpa_group
  sta :: wpa_state_machine
  sta_freed :: bool
  auth_loop :: eloop_data
  auth_trace :: "auth_event list"
  queries :: nat

text \<open>
  \<open>rnd\<close> gives, for a length, the success of \<open>random_get_bytes\<close> and the new content of the buffer.
  \<open>psks\<close> are the keys that \<open>get_psk\<close> enumerates; \<open>msk\<close> is the start of the master session key,
  \<open>stack\<close> the octets of a local array before anything is written to it, \<open>group_ptr\<close> those of a pointer.
\<close>

record auth_env =
  auth_md5 :: "bytes \<Rightarrow> bytes \<Rightarrow> bytes"
  auth_pm :: pmksa_env
  auth_behind :: omac_vector
  bits_behind :: u8
  auth_now :: os_reltime
  malloc_ok :: "nat \<Rightarrow> bool"
  rnd :: "nat \<Rightarrow> nat \<Rightarrow> bool \<times> bytes"
  pool_ready :: "nat \<Rightarrow> bool"
  ntp :: "nat \<Rightarrow> bytes"
  group_ptr :: bytes
  stack :: "nat \<Rightarrow> bytes"
  set_key_res :: "nat \<Rightarrow> bool"
  seqnum :: "nat \<Rightarrow> nat \<Rightarrow> bytes option"
  eapol_var :: "nat \<Rightarrow> wpa_eapol_variable \<Rightarrow> bool"
  psks :: "bytes list"
  msk :: "nat \<Rightarrow> bytes option"
  mic_failure :: "nat \<Rightarrow> bool"

definition upd :: "(wpa_state_machine \<Rightarrow> wpa_state_machine) \<Rightarrow> authenticator \<Rightarrow> authenticator" where
  "upd f a = a\<lparr>sta := f (sta a)\<rparr>"

definition updg :: "(wpa_group \<Rightarrow> wpa_group) \<Rightarrow> authenticator \<Rightarrow> authenticator" where
  "updg f a = a\<lparr>grp := f (grp a)\<rparr>"

definition a_emit :: "auth_event \<Rightarrow> authenticator \<Rightarrow> authenticator" where
  "a_emit ev a = a\<lparr>auth_trace := auth_trace a @ [ev]\<rparr>"

text \<open>The answer to the next question.\<close>

definition ask :: "(nat \<Rightarrow> 'x) \<Rightarrow> authenticator \<Rightarrow> 'x \<times> authenticator" where
  "ask q a = (q (queries a), a\<lparr>queries := queries a + 1\<rparr>)"

definition send_eapol_timeout_key :: timer_key where "send_eapol_timeout_key = (6, 3, 4)"
definition auth_rekey_ptk_key :: timer_key where "auth_rekey_ptk_key = (7, 3, 4)"
definition rekey_gtk_key :: timer_key where "rekey_gtk_key = (8, 3, 0)"
definition rekey_gmk_key :: timer_key where "rekey_gmk_key = (9, 3, 0)"
definition call_step_key :: timer_key where "call_step_key = (10, 4, 0)"

definition a_register :: "auth_env \<Rightarrow> u32 \<Rightarrow> u32 \<Rightarrow> timer_key \<Rightarrow> authenticator \<Rightarrow> authenticator" where
  "a_register env secs usecs k a =
     a\<lparr>auth_loop := timer_register (timer_alloc (auth_pm env), Some (auth_now env), secs, usecs) k (auth_loop a)\<rparr>"

definition a_cancel :: "timer_key \<Rightarrow> authenticator \<Rightarrow> authenticator" where
  "a_cancel k a = a\<lparr>auth_loop := timer_cancel k (auth_loop a)\<rparr>"

section \<open>Callbacks\<close>

definition wpa_auth_set_eapol :: "wpa_eapol_variable \<Rightarrow> bool \<Rightarrow> authenticator \<Rightarrow> authenticator" where
  "wpa_auth_set_eapol var val a = a_emit (SetEapol var val) a"

definition wpa_auth_get_eapol :: "auth_env \<Rightarrow> wpa_eapol_variable \<Rightarrow> authenticator \<Rightarrow> bool \<times> authenticator" where
  "wpa_auth_get_eapol env var a = ask (\<lambda>n. eapol_var env n var) a"

text \<open>The flag is the success of the driver.\<close>

definition wpa_auth_set_key ::
    "auth_env \<Rightarrow> nat \<Rightarrow> wpa_alg \<Rightarrow> bytes \<Rightarrow> nat \<Rightarrow> bytes \<Rightarrow> authenticator \<Rightarrow> bool \<times> authenticator" where
  "wpa_auth_set_key env vlan alg a idx key st = ask (set_key_res env) (a_emit (AuthSetKey vlan alg a idx key) st)"

definition wpa_sta_disconnect :: "authenticator \<Rightarrow> authenticator" where
  "wpa_sta_disconnect a = a_emit StaDisconnect a"

section \<open>Replay counters\<close>

fun wpa_replay_counter_valid :: "wpa_key_replay_counter list \<Rightarrow> bytes \<Rightarrow> bool" where
  "wpa_replay_counter_valid [] rc = False"
| "wpa_replay_counter_valid (c # cs) rc =
    (if \<not> kr_valid c then False else if rc = kr_counter c then True else wpa_replay_counter_valid cs rc)"

definition wpa_replay_counter_mark_invalid ::
    "wpa_key_replay_counter list \<Rightarrow> bytes option \<Rightarrow> wpa_key_replay_counter list" where
  "wpa_replay_counter_mark_invalid ctr rc =
     List.map (\<lambda>c. if kr_valid c \<and> (rc = None \<or> rc = Some (kr_counter c)) then c\<lparr>kr_valid := False\<rparr> else c) ctr"

definition zero_replay :: "wpa_key_replay_counter list" where
  "zero_replay = replicate 4 \<lparr>kr_counter = replicate 8 0, kr_valid = False\<rparr>"

text \<open>The counter of the next frame, in front of those of the last three.\<close>

definition push_replay :: "wpa_key_replay_counter list \<Rightarrow> wpa_key_replay_counter list" where
  "push_replay kr = \<lparr>kr_counter = inc_byte_array (kr_counter (kr ! 0)), kr_valid = True\<rparr> # take 3 kr"

section \<open>Sending EAPOL-Key frames\<close>

definition wpa_use_aes_cmac :: "wpa_state_machine \<Rightarrow> bool" where
  "wpa_use_aes_cmac s \<longleftrightarrow> wpa_key_mgmt_sha256 (sta_key_mgmt s) \<or> sta_key_mgmt s = WPA_KEY_MGMT_OSEN"

definition auth_key_mic :: "auth_env \<Rightarrow> bool \<Rightarrow> bytes \<Rightarrow> u16 \<Rightarrow> bytes \<Rightarrow> bytes option" where
  "auth_key_mic env mem key ver buf =
     wpa_eapol_key_mic (auth_md5 env) (hmac_sha1 (auth_pm env)) mem (auth_behind env) key ver buf"

text \<open>The version of the key descriptor.\<close>

definition eapol_key_version :: "wpa_state_machine \<Rightarrow> u16 \<Rightarrow> u16" where
  "eapol_key_version s force =
    (if force \<noteq> 0 then force
     else if sta_key_mgmt s = WPA_KEY_MGMT_OSEN then 0
     else if wpa_use_aes_cmac s then 3
     else if sta_pairwise s \<noteq> WPA_CIPHER_TKIP then 2
     else 1)"

definition wraps_key_data :: "wpa_state_machine \<Rightarrow> u16 \<Rightarrow> bool" where
  "wraps_key_data s ver \<longleftrightarrow> ver = 2 \<or> sta_key_mgmt s = WPA_KEY_MGMT_OSEN \<or> ver = 3"

text \<open>The number of octets of padding, and the padded key data in a buffer with eight octets more.\<close>

definition pad_len :: "nat \<Rightarrow> nat" where
  "pad_len n = (if n mod 8 = 0 then 0 else 8 - n mod 8)"

definition padded :: "bytes \<Rightarrow> bytes" where
  "padded kde = kde @ (if pad_len (length kde) = 0 then [] else 0xdd # replicate (pad_len (length kde) - 1) 0) @
     replicate 8 0"

text \<open>The key data field and the IV, when they can be made.\<close>

definition send_key_data ::
    "auth_env \<Rightarrow> u16 \<Rightarrow> bytes option \<Rightarrow> bool \<Rightarrow> authenticator \<Rightarrow> (bytes \<times> bytes \<times> nat) option \<times> authenticator" where
  "send_key_data env ver kde encr a =
    (case kde of
       None \<Rightarrow> (Some (replicate 16 0, replicate (if encr \<and> wraps_key_data (sta a) ver then 8 else 0) 0, 0), a)
     | Some kde \<Rightarrow>
         if \<not> encr then (Some (replicate 16 0, kde, length kde), a)
         else
           (let (ok, a) = ask (malloc_ok env) a in
            if \<not> ok then (None, a)
            else if wraps_key_data (sta a) ver then
              (let (mem, a) = ask (malloc_ok env) a;
                   n = length kde + pad_len (length kde) + 8 in
               case aes_wrap mem (kek (PTK (sta a))) ((n - 8) div 8) (padded kde) of
                 None \<Rightarrow> (None, a)
               | Some w \<Rightarrow> (Some (replicate 16 0, w, n), a))
            else
              (let iv = drop 16 (Counter (grp a)); a = updg (\<lambda>g. g\<lparr>Counter := inc_byte_array (Counter g)\<rparr>) a in
               (Some (iv, rc4_skip (iv @ kek (PTK (sta a))) 256 kde, length kde), a))))"

text \<open>\<open>__wpa_send_eapol\<close>; \<open>key_info\<close> and \<open>keyidx\<close> are the callers' constants.\<close>

definition wpa_send_eapol_frame ::
    "auth_env \<Rightarrow> u16 \<Rightarrow> bytes option \<Rightarrow> bytes option \<Rightarrow> bytes option \<Rightarrow> nat \<Rightarrow> bool \<Rightarrow> u16 \<Rightarrow> authenticator \<Rightarrow>
       authenticator" where
  "wpa_send_eapol_frame env info key_rsc nonce kde keyidx encr force_version a =
    (let s = sta a; ver = eapol_key_version s force_version; (ok, a) = ask (malloc_ok env) a in
     if \<not> ok then a
     else
       (let pw = info AND 0x8 \<noteq> 0;
            info = info OR ver OR (if encr \<and> sta_wpa s = WPA_VERSION_WPA2 then 0x1000 else 0) OR
              (if sta_wpa s \<noteq> WPA_VERSION_WPA2 then push_bit 4 (word_of_nat keyidx) else 0);
            alg = (if pw then sta_pairwise s else conf_group (conf a));
            a = upd (\<lambda>s. s\<lparr>key_replay := push_replay (key_replay s)\<rparr>) a;
            (r, a) = send_key_data env ver kde encr a in
        case r of
          None \<Rightarrow> a
        | Some (iv, dat, n) \<Rightarrow>
            (let key = zero_key\<lparr>k_type := (if sta_wpa s = WPA_VERSION_WPA2 then 2 else 254), k_info := info,
                   k_length := (if info AND 0x2000 \<noteq> 0 then [0, 0] else WPA_PUT_BE16 (word_of_nat (wpa_cipher_key_len alg))),
                   k_replay := kr_counter (key_replay (sta a) ! 0),
                   k_nonce := (case nonce of None \<Rightarrow> replicate 32 0 | Some x \<Rightarrow> take 32 x), k_iv := iv,
                   k_rsc := (case key_rsc of None \<Rightarrow> replicate 8 0 | Some x \<Rightarrow> take 8 x),
                   k_data_len := word_of_nat n\<rparr>;
                 msg = [conf_eapol_version (conf a), 3] @ WPA_PUT_BE16 (word_of_nat (95 + length dat)) @ put_key key @ dat in
             if info AND 0x100 \<noteq> 0 \<and> \<not> PTK_valid s then a
             else
               (let (mem, a) = ask (malloc_ok env) a;
                    msg = (if info AND 0x100 \<noteq> 0
                      then (case auth_key_mic env mem (kck (PTK s)) ver msg of None \<Rightarrow> msg | Some m \<Rightarrow> put_mic msg m)
                      else msg);
                    a = wpa_auth_set_eapol WPA_EAPOL_inc_EapolFramesTx True a in
                a_emit (AuthSend msg (pairwise_set s)) a))))"

definition wpa_send_eapol ::
    "auth_env \<Rightarrow> u16 \<Rightarrow> bytes option \<Rightarrow> bytes option \<Rightarrow> bytes option \<Rightarrow> nat \<Rightarrow> bool \<Rightarrow> authenticator \<Rightarrow> authenticator" where
  "wpa_send_eapol env info key_rsc nonce kde keyidx encr a =
    (let a = wpa_send_eapol_frame env info key_rsc nonce kde keyidx encr 0 a;
         pw = info AND 0x8 \<noteq> 0; ctr = (if pw then TimeoutCtr (sta a) else GTimeoutCtr (sta a));
         ms = (if ctr = 1 \<and> conf_tx_status (conf a) then (if pw then 100 else 500) else 1000);
         a = (if pw \<and> ctr = 1 \<and> info AND 0x100 = 0 then upd (\<lambda>s. s\<lparr>pending_1_of_4_timeout := True\<rparr>) a else a) in
     a_register env (ms div 1000) (ms mod 1000 * 1000) send_eapol_timeout_key a)"

definition wpa_verify_key_mic :: "auth_env \<Rightarrow> bool \<Rightarrow> wpa_ptk \<Rightarrow> bytes \<Rightarrow> bool" where
  "wpa_verify_key_mic env mem p dat =
    (if length dat < 99 then False
     else
       (let key = get_key (drop 4 dat); z = put_mic dat (replicate 16 0) in
        case auth_key_mic env mem (kck p) (k_info key AND 7) z of
          None \<Rightarrow> False
        | Some m \<Rightarrow> k_mic key = k_mic (get_key (drop 4 (put_mic z m)))))"

definition wpa_remove_ptk :: "auth_env \<Rightarrow> authenticator \<Rightarrow> authenticator" where
  "wpa_remove_ptk env a =
    (let a = upd (\<lambda>s. s\<lparr>PTK_valid := False, PTK := ptk_zero\<rparr>) a;
         a = snd (wpa_auth_set_key env 0 WPA_ALG_NONE (sta_addr (sta a)) 0 [] a);
         a = upd (\<lambda>s. s\<lparr>pairwise_set := False\<rparr>) a in
     a_cancel auth_rekey_ptk_key a)"

section \<open>Group keys\<close>

definition broadcast_ether_addr :: bytes where
  "broadcast_ether_addr = replicate 6 0xff"

text \<open>The buffer \<open>gtk\<close> with the new key; the result of the code, which no caller uses, is left out.\<close>

definition wpa_gmk_to_gtk ::
    "auth_env \<Rightarrow> bytes \<Rightarrow> bytes \<Rightarrow> bytes \<Rightarrow> bytes \<Rightarrow> bytes \<Rightarrow> nat \<Rightarrow> authenticator \<Rightarrow> bytes \<times> authenticator" where
  "wpa_gmk_to_gtk env gmk label ad gnonce gtk gtk_len a =
    (let (ts, a) = ask (ntp env) a; (r, a) = ask (rnd env 16) a in
     (sha256_prf (hmac_sha256 (auth_pm env)) gmk label (ad @ gnonce @ ts @ snd r) gtk gtk_len, a))"

definition next_gnonce :: "authenticator \<Rightarrow> authenticator" where
  "next_gnonce a = updg (\<lambda>g. g\<lparr>GNonce := Counter g, Counter := inc_byte_array (Counter g)\<rparr>) a"

definition gtk_label :: bytes where "gtk_label = map of_char ''Group key expansion''"
definition igtk_label :: bytes where "igtk_label = map of_char ''IGTK key expansion''"
definition counter_label :: bytes where "counter_label = map of_char ''Init Counter''"

definition wpa_gtk_update :: "auth_env \<Rightarrow> authenticator \<Rightarrow> authenticator" where
  "wpa_gtk_update env a =
    (let a = next_gnonce a; g = grp a;
         (k, a) = wpa_gmk_to_gtk env (GMK g) gtk_label (auth_addr a) (GNonce g) (GTK g ! (GN g - 1)) (GTK_len g) a;
         a = updg (\<lambda>g. g\<lparr>GTK := (GTK g)[GN g - 1 := k]\<rparr>) a in
     if conf_ieee80211w (conf a) \<noteq> NO_MGMT_FRAME_PROTECTION then
       (let a = next_gnonce a; g = grp a;
            (k, a) = wpa_gmk_to_gtk env (GMK g) igtk_label (auth_addr a) (GNonce g) (IGTK g ! (GN_igtk g - 4))
              (wpa_cipher_key_len (conf_group_mgmt_cipher (conf a))) a in
        updg (\<lambda>g. g\<lparr>IGTK := (IGTK g)[GN_igtk g - 4 := k]\<rparr>) a)
     else a)"

definition wpa_group_gtk_init :: "auth_env \<Rightarrow> authenticator \<Rightarrow> authenticator" where
  "wpa_group_gtk_init env a =
     wpa_gtk_update env (updg (\<lambda>g. g\<lparr>group_changed := False, wpa_group_state := WPA_GROUP_GTK_INIT,
       GTK := replicate 2 (replicate 32 0), GN := 1, GM := 2, GN_igtk := 4, GM_igtk := 5\<rparr>) a)"

text \<open>The flag is a result of 0.\<close>

definition wpa_group_config_group_keys :: "auth_env \<Rightarrow> authenticator \<Rightarrow> bool \<times> authenticator" where
  "wpa_group_config_group_keys env a =
    (let g = grp a; c = conf a;
         (ok, a) = wpa_auth_set_key env (vlan_id g) (wpa_cipher_to_alg (conf_group c)) broadcast_ether_addr (GN g)
           (take (GTK_len g) (GTK g ! (GN g - 1))) a in
     if conf_ieee80211w c \<noteq> NO_MGMT_FRAME_PROTECTION \<and> ok then
       wpa_auth_set_key env (vlan_id g) (wpa_cipher_to_alg (conf_group_mgmt_cipher c)) broadcast_ether_addr (GN_igtk g)
         (take (wpa_cipher_key_len (conf_group_mgmt_cipher c)) (IGTK g ! (GN_igtk g - 4))) a
     else (ok, a))"

text \<open>
  \<open>stepf\<close> is the call of \<open>wpa_sm_step\<close>: the step function itself, or the identity within its loop, where
  \<open>in_step_loop\<close> makes the recursive call return at once.
\<close>

definition wpa_group_update_sta :: "(authenticator \<Rightarrow> authenticator) \<Rightarrow> authenticator \<Rightarrow> authenticator" where
  "wpa_group_update_sta stepf a =
    (if sta_freed a then a
     else if wpa_ptk_state (sta a) \<noteq> WPA_PTK_PTKINITDONE then upd (\<lambda>s. s\<lparr>GUpdateStationKeys := False\<rparr>) a
     else if is_wnmsleep (sta a) then a
     else stepf (upd (\<lambda>s. s\<lparr>GUpdateStationKeys := True\<rparr>) (updg (\<lambda>g. g\<lparr>GKeyDoneStations := GKeyDoneStations g + 1\<rparr>) a)))"

definition swap_keys :: "wpa_group \<Rightarrow> wpa_group" where
  "swap_keys g = g\<lparr>GM := GN g, GN := GM g, GM_igtk := GN_igtk g, GN_igtk := GM_igtk g\<rparr>"

definition wpa_group_setkeys ::
    "auth_env \<Rightarrow> (authenticator \<Rightarrow> authenticator) \<Rightarrow> authenticator \<Rightarrow> authenticator" where
  "wpa_group_setkeys env stepf a =
    (let a = updg (\<lambda>g. swap_keys (g\<lparr>group_changed := True, wpa_group_state := WPA_GROUP_SETKEYS, GTKReKey := False\<rparr>)) a;
         a = wpa_gtk_update env a;
         a = updg (\<lambda>g. g\<lparr>GKeyDoneStations := 0\<rparr>) a in
     wpa_group_update_sta stepf a)"

definition wpa_group_fatal_failure :: "authenticator \<Rightarrow> authenticator" where
  "wpa_group_fatal_failure a =
    (let a = updg (\<lambda>g. g\<lparr>group_changed := True, wpa_group_state := WPA_GROUP_FATAL_FAILURE\<rparr>) a in
     if sta_freed a then a else upd (\<lambda>s. s\<lparr>Disconnect := True\<rparr>) a)"

definition wpa_group_setkeysdone :: "auth_env \<Rightarrow> authenticator \<Rightarrow> authenticator" where
  "wpa_group_setkeysdone env a =
    (let a = updg (\<lambda>g. g\<lparr>group_changed := True, wpa_group_state := WPA_GROUP_SETKEYSDONE\<rparr>) a;
         (ok, a) = wpa_group_config_group_keys env a in
     if ok then a else wpa_group_fatal_failure a)"

definition wpa_group_sm_step ::
    "auth_env \<Rightarrow> (authenticator \<Rightarrow> authenticator) \<Rightarrow> authenticator \<Rightarrow> authenticator" where
  "wpa_group_sm_step env stepf a =
    (let g = grp a in
     if GInit g then wpa_group_gtk_init env a
     else if wpa_group_state g = WPA_GROUP_FATAL_FAILURE then a
     else if wpa_group_state g = WPA_GROUP_GTK_INIT \<and> GTKAuthenticator g then wpa_group_setkeysdone env a
     else if wpa_group_state g = WPA_GROUP_SETKEYSDONE \<and> GTKReKey g then wpa_group_setkeys env stepf a
     else if wpa_group_state g = WPA_GROUP_SETKEYS then
       (if GKeyDoneStations g = 0 then wpa_group_setkeysdone env a
        else if GTKReKey g then wpa_group_setkeys env stepf a
        else a)
     else a)"

text \<open>The flag is a result of 0.\<close>

definition wpa_group_init_gmk_and_counter :: "auth_env \<Rightarrow> authenticator \<Rightarrow> bool \<times> authenticator" where
  "wpa_group_init_gmk_and_counter env a =
    (let (r, a) = ask (rnd env 32) a; a = updg (\<lambda>g. g\<lparr>GMK := snd r\<rparr>) a in
     if \<not> fst r then (False, a)
     else
       (let (ts, a) = ask (ntp env) a; (k, a) = ask (rnd env 32) a in
        if \<not> fst k then (False, a)
        else (True, updg (\<lambda>g. g\<lparr>Counter := sha1_prf (hmac_sha1 (auth_pm env)) (snd k) counter_label
          (auth_addr a @ ts @ group_ptr env) (Counter g) 32\<rparr>) a)))"

definition wpa_group_ensure_init :: "auth_env \<Rightarrow> authenticator \<Rightarrow> authenticator" where
  "wpa_group_ensure_init env a =
    (if first_sta_seen (grp a) then a
     else
       (let (ready, a) = ask (pool_ready env) a;
            a = (if \<not> ready then updg (\<lambda>g. g\<lparr>reject_4way_hs_for_entropy := True\<rparr>) a
                 else updg (\<lambda>g. g\<lparr>first_sta_seen := True, reject_4way_hs_for_entropy := False\<rparr>) a);
            a = snd (wpa_group_init_gmk_and_counter env a);
            a = wpa_gtk_update env a in
        snd (wpa_group_config_group_keys env a)))"

section \<open>The PTK state machine\<close>

definition ptk_entry :: "wpa_ptk_state \<Rightarrow> authenticator \<Rightarrow> authenticator" where
  "ptk_entry st a = upd (\<lambda>s. s\<lparr>sta_changed := True, wpa_ptk_state := st\<rparr>) a"

definition init_unchanged :: "authenticator \<Rightarrow> authenticator" where
  "init_unchanged a = (if Init (sta a) then upd (\<lambda>s. s\<lparr>sta_changed := False\<rparr>) a else a)"

text \<open>The station is no longer counted for the group key update.\<close>

definition uncount_sta :: "authenticator \<Rightarrow> authenticator" where
  "uncount_sta a =
    (let a = (if GUpdateStationKeys (sta a) then updg (\<lambda>g. g\<lparr>GKeyDoneStations := GKeyDoneStations g - 1\<rparr>) a else a) in
     upd (\<lambda>s. s\<lparr>GUpdateStationKeys := False\<rparr>) a)"

definition sm_WPA_PTK_INITIALIZE_Enter :: "auth_env \<Rightarrow> authenticator \<Rightarrow> authenticator" where
  "sm_WPA_PTK_INITIALIZE_Enter env a =
    (let a = init_unchanged (ptk_entry WPA_PTK_INITIALIZE a);
         a = uncount_sta (upd (\<lambda>s. s\<lparr>keycount := 0\<rparr>) a);
         a = (if sta_wpa (sta a) = WPA_VERSION_WPA then upd (\<lambda>s. s\<lparr>PInitAKeys := False\<rparr>) a else a);
         a = upd (\<lambda>s. s\<lparr>Pair := True\<rparr>) a;
         a = wpa_remove_ptk env (wpa_auth_set_eapol WPA_EAPOL_portEnabled False a);
         a = upd (\<lambda>s. s\<lparr>TimeoutCtr := 0\<rparr>) (wpa_auth_set_eapol WPA_EAPOL_portValid False a) in
     if wpa_key_mgmt_wpa_psk (sta_key_mgmt (sta a)) then wpa_auth_set_eapol WPA_EAPOL_authorized False a else a)"

definition sm_WPA_PTK_DISCONNECT_Enter :: "authenticator \<Rightarrow> authenticator" where
  "sm_WPA_PTK_DISCONNECT_Enter a =
     wpa_sta_disconnect (upd (\<lambda>s. s\<lparr>Disconnect := False\<rparr>) (ptk_entry WPA_PTK_DISCONNECT a))"

definition sm_WPA_PTK_DISCONNECTED_Enter :: "authenticator \<Rightarrow> authenticator" where
  "sm_WPA_PTK_DISCONNECTED_Enter a =
     upd (\<lambda>s. s\<lparr>DeauthenticationRequest := False\<rparr>) (ptk_entry WPA_PTK_DISCONNECTED a)"

definition sm_WPA_PTK_AUTHENTICATION_Enter :: "authenticator \<Rightarrow> authenticator" where
  "sm_WPA_PTK_AUTHENTICATION_Enter a =
    (let a = upd (\<lambda>s. s\<lparr>PTK := ptk_zero, PTK_valid := False\<rparr>) (ptk_entry WPA_PTK_AUTHENTICATION a);
         a = wpa_auth_set_eapol WPA_EAPOL_portControl_Auto True a;
         a = wpa_auth_set_eapol WPA_EAPOL_portEnabled True a in
     upd (\<lambda>s. s\<lparr>AuthenticationRequest := False\<rparr>) a)"

definition sm_WPA_PTK_AUTHENTICATION2_Enter :: "auth_env \<Rightarrow> authenticator \<Rightarrow> authenticator" where
  "sm_WPA_PTK_AUTHENTICATION2_Enter env a =
    (let a = wpa_group_ensure_init env (ptk_entry WPA_PTK_AUTHENTICATION2 a);
         a = upd (\<lambda>s. s\<lparr>ReAuthenticationRequest := False\<rparr>) a;
         (r, a) = ask (rnd env 32) a;
         a = upd (\<lambda>s. s\<lparr>ANonce := snd r\<rparr>) a in
     if \<not> fst r then upd (\<lambda>s. s\<lparr>Disconnect := True\<rparr>) a else upd (\<lambda>s. s\<lparr>TimeoutCtr := 0\<rparr>) a)"

definition sm_WPA_PTK_INITPMK_Enter :: "auth_env \<Rightarrow> authenticator \<Rightarrow> authenticator" where
  "sm_WPA_PTK_INITPMK_Enter env a =
    (let a = ptk_entry WPA_PTK_INITPMK a;
         a = (case sta_pmksa (sta a) of
             Some (k, pid) \<Rightarrow> upd (\<lambda>s. s\<lparr>PMK := take 32 k\<rparr>) a
           | None \<Rightarrow> (case ask (msk env) a of
               (Some m, a) \<Rightarrow> upd (\<lambda>s. s\<lparr>PMK := take 32 m\<rparr>) a
             | (None, a) \<Rightarrow> a));
         a = upd (\<lambda>s. s\<lparr>req_replay_counter_used := False\<rparr>) a in
     wpa_auth_set_eapol WPA_EAPOL_keyRun False a)"

definition sm_WPA_PTK_INITPSK_Enter :: "auth_env \<Rightarrow> authenticator \<Rightarrow> authenticator" where
  "sm_WPA_PTK_INITPSK_Enter env a =
    (let a = ptk_entry WPA_PTK_INITPSK a;
         a = (case psks env of [] \<Rightarrow> a | k # _ \<Rightarrow> upd (\<lambda>s. s\<lparr>PMK := take 32 k\<rparr>) a) in
     upd (\<lambda>s. s\<lparr>req_replay_counter_used := False\<rparr>) a)"

text \<open>The PMKID of message 1.\<close>

definition msg1_pmkid :: "auth_env \<Rightarrow> authenticator \<Rightarrow> bytes option" where
  "msg1_pmkid env a =
    (let s = sta a in
     if sta_wpa s = WPA_VERSION_WPA2 \<and> wpa_key_mgmt_wpa_ieee8021x (sta_key_mgmt s) \<and> sta_key_mgmt s \<noteq> WPA_KEY_MGMT_OSEN
     then Some ([WLAN_EID_VENDOR_SPECIFIC, 20] @ WPA_PUT_BE32 (RSN_SUITE 4) @
       (case sta_pmksa s of
          Some (k, pid) \<Rightarrow> take PMKID_LEN pid
        | None \<Rightarrow> rsn_pmkid (auth_pm env) (PMK s) (auth_addr a) (sta_addr s) (wpa_key_mgmt_sha256 (sta_key_mgmt s))))
     else None)"

definition sm_WPA_PTK_PTKSTART_Enter :: "auth_env \<Rightarrow> authenticator \<Rightarrow> authenticator" where
  "sm_WPA_PTK_PTKSTART_Enter env a =
    (let a = upd (\<lambda>s. s\<lparr>PTKRequest := False, TimeoutEvt := False, TimeoutCtr := TimeoutCtr s + 1\<rparr>)
           (ptk_entry WPA_PTK_PTKSTART a) in
     if TimeoutCtr (sta a) > 4 then a
     else wpa_send_eapol env (0x80 OR 0x8) None (Some (ANonce (sta a))) (msg1_pmkid env a) 0 False a)"

text \<open>\<open>wpa_derive_ptk\<close>; \<open>p\<close> is the old content of the structure.\<close>

definition auth_derive_ptk :: "auth_env \<Rightarrow> authenticator \<Rightarrow> bytes \<Rightarrow> wpa_ptk \<Rightarrow> wpa_ptk" where
  "auth_derive_ptk env a k p =
    (let s = sta a in
     ptk_of_octets (wpa_pmk_to_ptk (auth_pm env) (take 32 k) ptk_label (auth_addr a) (sta_addr s) (ANonce s) (SNonce s)
       (ptk_octets p) (wpa_cipher_key_len (sta_pairwise s) + 32) (wpa_key_mgmt_sha256 (sta_key_mgmt s))))"

text \<open>The loop over the possible keys; \<open>None\<close> when the MIC matches with none of them.\<close>

fun ptk_search ::
    "auth_env \<Rightarrow> bytes \<Rightarrow> bytes list \<Rightarrow> wpa_ptk \<Rightarrow> authenticator \<Rightarrow> (bytes \<times> wpa_ptk) option \<times> authenticator" where
  "ptk_search env dat [] p a = (None, a)"
| "ptk_search env dat (k # ks) p a =
    (let p = auth_derive_ptk env a k p; (mem, a) = ask (malloc_ok env) a in
     if wpa_verify_key_mic env mem p dat then (Some (k, p), a) else ptk_search env dat ks p a)"

definition sm_WPA_PTK_PTKCALCNEGOTIATING_Enter :: "auth_env \<Rightarrow> authenticator \<Rightarrow> authenticator" where
  "sm_WPA_PTK_PTKCALCNEGOTIATING_Enter env a =
    (let a = upd (\<lambda>s. s\<lparr>EAPOLKeyReceived := False, update_snonce := False\<rparr>) (ptk_entry WPA_PTK_PTKCALCNEGOTIATING a);
         psk = wpa_key_mgmt_wpa_psk (sta_key_mgmt (sta a));
         keys = (if psk then psks env else [PMK (sta a)]);
         frame = (case last_rx_eapol_key (sta a) of Some d \<Rightarrow> d | None \<Rightarrow> []);
         (old, a) = ask (stack env) a in
     case ptk_search env frame keys (ptk_of_octets old) a of
       (None, a) \<Rightarrow> a
     | (Some (k, p), a) \<Rightarrow>
         (let a = a_cancel send_eapol_timeout_key (upd (\<lambda>s. s\<lparr>pending_1_of_4_timeout := False\<rparr>) a);
              a = (if psk then upd (\<lambda>s. s\<lparr>PMK := take 32 k\<rparr>) a else a) in
          upd (\<lambda>s. s\<lparr>MICVerified := True, PTK := p, PTK_valid := True\<rparr>) a))"

definition sm_WPA_PTK_PTKCALCNEGOTIATING2_Enter :: "authenticator \<Rightarrow> authenticator" where
  "sm_WPA_PTK_PTKCALCNEGOTIATING2_Enter a =
     upd (\<lambda>s. s\<lparr>TimeoutCtr := 0\<rparr>) (ptk_entry WPA_PTK_PTKCALCNEGOTIATING2 a)"

text \<open>The IGTK KDE, empty when there is none.\<close>

definition ieee80211w_kde_add :: "auth_env \<Rightarrow> authenticator \<Rightarrow> bytes \<times> authenticator" where
  "ieee80211w_kde_add env a =
    (let g = grp a; n = wpa_cipher_key_len (conf_group_mgmt_cipher (conf a)) in
     if \<not> mgmt_frame_prot (sta a) then ([], a)
     else
       (let (sq, a) = (if wpa_group_state g \<noteq> WPA_GROUP_SETKEYSDONE then (None, a) else ask (seqnum env (GN_igtk g)) a);
            pn = (case sq of None \<Rightarrow> replicate 6 0 | Some r \<Rightarrow> take 6 r);
            hdr = [word_of_nat (GN_igtk g), 0] @ pn in
        if conf_disable_gtk (conf a) then
          (let (r, a) = ask (rnd env n) a in
           if \<not> fst r then ([], a) else (wpa_add_kde (RSN_SUITE 9) (hdr @ snd r) [], a))
        else (wpa_add_kde (RSN_SUITE 9) (hdr @ take n (IGTK g ! (GN_igtk g - 4))) [], a)))"

text \<open>The group key for the station: a random one when the group key is disabled; \<open>None\<close> is a failure.\<close>

definition sta_gtk :: "auth_env \<Rightarrow> authenticator \<Rightarrow> bytes option \<times> authenticator" where
  "sta_gtk env a =
    (if conf_disable_gtk (conf a) then
       (let (r, a) = ask (rnd env (GTK_len (grp a))) a in (if fst r then Some (snd r) else None, a))
     else (Some (take (GTK_len (grp a)) (GTK (grp a) ! (GN (grp a) - 1))), a))"

definition gtk_kde :: "authenticator \<Rightarrow> bytes \<Rightarrow> bytes" where
  "gtk_kde a gtk = wpa_add_kde (RSN_SUITE 1) [word_of_nat (GN (grp a)) AND 0x03, 0] gtk"

text \<open>The elements of message 3: without the RSN element for a station that uses WPA.\<close>

definition msg3_ie :: "authenticator \<Rightarrow> bytes" where
  "msg3_ie a =
    (let ie = auth_wpa_ie a; n = unat (ie ! 1) + 2 in
     if sta_wpa (sta a) = WPA_VERSION_WPA \<and> has (conf_wpa (conf a)) WPA_PROTO_RSN \<and> length ie > n \<and> ie ! 0 = WLAN_EID_RSN
     then take (unat (ie ! (n + 1)) + 2) (drop n ie)
     else ie)"

definition ip_kde :: "authenticator \<Rightarrow> bytes" where
  "ip_kde a =
    (if WPA_GET_BE32 (sta_ip_addr (sta a)) > 0 then
       wpa_add_kde (RSN_SELECTOR 0x50 0x6f 0x9a 5)
         (take 4 (sta_ip_addr (sta a)) @ take 4 (conf_ip_addr_mask (conf a)) @ take 4 (conf_ip_addr_go (conf a))) []
     else [])"

text \<open>Message 3 once the group key, \<open>None\<close> for WPA, is known.\<close>

definition send_msg3 :: "auth_env \<Rightarrow> bytes \<Rightarrow> bytes option \<Rightarrow> bool \<Rightarrow> authenticator \<Rightarrow> authenticator" where
  "send_msg3 env rsc gtk secure a =
    (let (ok, a) = ask (malloc_ok env) a in
     if \<not> ok then a
     else
       (let (igtk, a) = ieee80211w_kde_add env a;
            kde = msg3_ie a @ (case gtk of Some k \<Rightarrow> gtk_kde a k | None \<Rightarrow> []) @ igtk @ ip_kde a in
        wpa_send_eapol env ((if secure then 0x200 else 0) OR 0x100 OR 0x80 OR 0x40 OR 0x8)
          (if gtk = None then None else Some rsc) (Some (ANonce (sta a))) (Some kde)
          (if gtk = None then 0 else GN (grp a)) (gtk \<noteq> None) a))"

definition sm_WPA_PTK_PTKINITNEGOTIATING_Enter :: "auth_env \<Rightarrow> authenticator \<Rightarrow> authenticator" where
  "sm_WPA_PTK_PTKINITNEGOTIATING_Enter env a =
    (let a = upd (\<lambda>s. s\<lparr>TimeoutEvt := False, TimeoutCtr := TimeoutCtr s + 1\<rparr>) (ptk_entry WPA_PTK_PTKINITNEGOTIATING a) in
     if TimeoutCtr (sta a) > 4 then a
     else
       (let (sq, a) = ask (seqnum env (GN (grp a))) a; rsc = (case sq of None \<Rightarrow> replicate 8 0 | Some r \<Rightarrow> r) in
        if sta_wpa (sta a) = WPA_VERSION_WPA2 then
          (case sta_gtk env a of (None, a) \<Rightarrow> a | (Some k, a) \<Rightarrow> send_msg3 env rsc (Some k) True a)
        else send_msg3 env rsc None (rx_eapol_key_secure (sta a)) a))"

text \<open>The key of the station is \<open>tk1\<close> and the octets that follow it.\<close>

definition sm_WPA_PTK_PTKINITDONE_Enter :: "auth_env \<Rightarrow> authenticator \<Rightarrow> authenticator" where
  "sm_WPA_PTK_PTKINITDONE_Enter env a =
    (let a = upd (\<lambda>s. s\<lparr>EAPOLKeyReceived := False\<rparr>) (ptk_entry WPA_PTK_PTKINITDONE a); s = sta a;
         (ok, a) = (if Pair s then
             wpa_auth_set_key env 0 (wpa_cipher_to_alg (sta_pairwise s)) (sta_addr s) 0
               (take (wpa_cipher_key_len (sta_pairwise s)) (tk1 (PTK s) @ tk_u (PTK s))) a
           else (True, a)) in
     if \<not> ok then wpa_sta_disconnect a
     else
       (let a = (if Pair s then
             (let a = upd (\<lambda>s. s\<lparr>pairwise_set := True\<rparr>) a;
                  a = (if conf_ptk_rekey (conf a) \<noteq> 0
                    then a_register env (conf_ptk_rekey (conf a)) 0 auth_rekey_ptk_key (a_cancel auth_rekey_ptk_key a)
                    else a) in
              if wpa_key_mgmt_wpa_psk (sta_key_mgmt s) then wpa_auth_set_eapol WPA_EAPOL_authorized True a else a)
           else a);
            a = wpa_auth_set_eapol WPA_EAPOL_portValid True a;
            a = wpa_auth_set_eapol WPA_EAPOL_keyAvailable False a;
            a = wpa_auth_set_eapol WPA_EAPOL_keyDone True a in
        if sta_wpa s = WPA_VERSION_WPA then upd (\<lambda>s. s\<lparr>PInitAKeys := True\<rparr>) a else upd (\<lambda>s. s\<lparr>has_GTK := True\<rparr>) a))"

definition key_for :: "bool \<Rightarrow> wpa_state_machine \<Rightarrow> bool" where
  "key_for pairwise_key s \<longleftrightarrow> EAPOLKeyReceived s \<and> \<not> EAPOLKeyRequest s \<and> EAPOLKeyPairwise s = pairwise_key"

definition fail_4way :: "authenticator \<Rightarrow> authenticator" where
  "fail_4way a = a\<lparr>auth_4way_failures := auth_4way_failures a + 1\<rparr>"

text \<open>\<open>SM_STEP(WPA_PTK)\<close>: the part of the state without a request.\<close>

definition ptk_state_step :: "auth_env \<Rightarrow> authenticator \<Rightarrow> authenticator" where
  "ptk_state_step env a =
    (let s = sta a in
     case wpa_ptk_state s of
       WPA_PTK_INITIALIZE \<Rightarrow> a
     | WPA_PTK_DISCONNECT \<Rightarrow> sm_WPA_PTK_DISCONNECTED_Enter a
     | WPA_PTK_DISCONNECTED \<Rightarrow> sm_WPA_PTK_INITIALIZE_Enter env a
     | WPA_PTK_AUTHENTICATION \<Rightarrow> sm_WPA_PTK_AUTHENTICATION2_Enter env a
     | WPA_PTK_AUTHENTICATION2 \<Rightarrow>
         (let (run, a) = (if wpa_key_mgmt_wpa_ieee8021x (sta_key_mgmt s) then wpa_auth_get_eapol env WPA_EAPOL_keyRun a
            else (False, a)) in
          if run then sm_WPA_PTK_INITPMK_Enter env a
          else if wpa_key_mgmt_wpa_psk (sta_key_mgmt s) then sm_WPA_PTK_INITPSK_Enter env a
          else a)
     | WPA_PTK_INITPMK \<Rightarrow>
         (let (avail, a) = wpa_auth_get_eapol env WPA_EAPOL_keyAvailable a in
          if avail then sm_WPA_PTK_PTKSTART_Enter env a else sm_WPA_PTK_DISCONNECT_Enter (fail_4way a))
     | WPA_PTK_INITPSK \<Rightarrow>
         (if psks env \<noteq> [] then sm_WPA_PTK_PTKSTART_Enter env a else sm_WPA_PTK_DISCONNECT_Enter (fail_4way a))
     | WPA_PTK_PTKSTART \<Rightarrow>
         (if key_for True s then sm_WPA_PTK_PTKCALCNEGOTIATING_Enter env a
          else if TimeoutCtr s > 4 then sm_WPA_PTK_DISCONNECT_Enter (fail_4way a)
          else if TimeoutEvt s then sm_WPA_PTK_PTKSTART_Enter env a
          else a)
     | WPA_PTK_PTKCALCNEGOTIATING \<Rightarrow>
         (if MICVerified s then sm_WPA_PTK_PTKCALCNEGOTIATING2_Enter a
          else if key_for True s then sm_WPA_PTK_PTKCALCNEGOTIATING_Enter env a
          else if TimeoutEvt s then sm_WPA_PTK_PTKSTART_Enter env a
          else a)
     | WPA_PTK_PTKCALCNEGOTIATING2 \<Rightarrow> sm_WPA_PTK_PTKINITNEGOTIATING_Enter env a
     | WPA_PTK_PTKINITNEGOTIATING \<Rightarrow>
         (if update_snonce s then sm_WPA_PTK_PTKCALCNEGOTIATING_Enter env a
          else if key_for True s \<and> MICVerified s then sm_WPA_PTK_PTKINITDONE_Enter env a
          else if TimeoutCtr s > 4 then sm_WPA_PTK_DISCONNECT_Enter (fail_4way a)
          else if TimeoutEvt s then sm_WPA_PTK_PTKINITNEGOTIATING_Enter env a
          else a)
     | WPA_PTK_PTKINITDONE \<Rightarrow> a)"

definition sm_WPA_PTK_Step :: "auth_env \<Rightarrow> authenticator \<Rightarrow> authenticator" where
  "sm_WPA_PTK_Step env a =
    (let s = sta a in
     if Init s then sm_WPA_PTK_INITIALIZE_Enter env a
     else if Disconnect s then sm_WPA_PTK_DISCONNECT_Enter a
     else if DeauthenticationRequest s then sm_WPA_PTK_DISCONNECTED_Enter a
     else if AuthenticationRequest s then sm_WPA_PTK_AUTHENTICATION_Enter a
     else if ReAuthenticationRequest s then sm_WPA_PTK_AUTHENTICATION2_Enter env a
     else if PTKRequest s then sm_WPA_PTK_PTKSTART_Enter env a
     else ptk_state_step env a)"

section \<open>The PTK group key state machine\<close>

definition group_entry :: "wpa_ptk_group_state \<Rightarrow> authenticator \<Rightarrow> authenticator" where
  "group_entry st a = upd (\<lambda>s. s\<lparr>sta_changed := True, wpa_ptk_group_state := st\<rparr>) a"

definition sm_WPA_PTK_GROUP_IDLE_Enter :: "authenticator \<Rightarrow> authenticator" where
  "sm_WPA_PTK_GROUP_IDLE_Enter a =
     upd (\<lambda>s. s\<lparr>GTimeoutCtr := 0\<rparr>) (init_unchanged (group_entry WPA_PTK_GROUP_IDLE a))"

text \<open>The group message 1 with its key data.\<close>

definition send_group1 :: "auth_env \<Rightarrow> bytes \<Rightarrow> bytes \<Rightarrow> authenticator \<Rightarrow> authenticator" where
  "send_group1 env rsc gtk a =
    (let info = 0x200 OR 0x100 OR 0x80 OR (if \<not> Pair (sta a) then 0x40 else 0) in
     if sta_wpa (sta a) = WPA_VERSION_WPA2 then
       (let (ok, a) = ask (malloc_ok env) a in
        if \<not> ok then a
        else
          (let (igtk, a) = ieee80211w_kde_add env a in
           wpa_send_eapol env info (Some rsc) (Some (GNonce (grp a))) (Some (gtk_kde a gtk @ igtk)) (GN (grp a)) True a))
     else wpa_send_eapol env info (Some rsc) (Some (GNonce (grp a))) (Some gtk) (GN (grp a)) True a)"

definition sm_WPA_PTK_GROUP_REKEYNEGOTIATING_Enter :: "auth_env \<Rightarrow> authenticator \<Rightarrow> authenticator" where
  "sm_WPA_PTK_GROUP_REKEYNEGOTIATING_Enter env a =
    (let a = upd (\<lambda>s. s\<lparr>GTimeoutCtr := GTimeoutCtr s + 1\<rparr>) (group_entry WPA_PTK_GROUP_REKEYNEGOTIATING a) in
     if GTimeoutCtr (sta a) > 4 then a
     else
       (let a = (if sta_wpa (sta a) = WPA_VERSION_WPA then upd (\<lambda>s. s\<lparr>PInitAKeys := False\<rparr>) a else a);
            a = upd (\<lambda>s. s\<lparr>TimeoutEvt := False\<rparr>) a;
            (sq, a) = (if wpa_group_state (grp a) = WPA_GROUP_SETKEYSDONE then ask (seqnum env (GN (grp a))) a else (None, a));
            rsc = (case sq of None \<Rightarrow> replicate 8 0 | Some r \<Rightarrow> r) in
        case sta_gtk env a of (None, a) \<Rightarrow> a | (Some k, a) \<Rightarrow> send_group1 env rsc k a))"

definition sm_WPA_PTK_GROUP_REKEYESTABLISHED_Enter :: "authenticator \<Rightarrow> authenticator" where
  "sm_WPA_PTK_GROUP_REKEYESTABLISHED_Enter a =
    (let a = upd (\<lambda>s. s\<lparr>EAPOLKeyReceived := False\<rparr>) (group_entry WPA_PTK_GROUP_REKEYESTABLISHED a) in
     upd (\<lambda>s. s\<lparr>GTimeoutCtr := 0, has_GTK := True\<rparr>) (uncount_sta a))"

definition sm_WPA_PTK_GROUP_KEYERROR_Enter :: "authenticator \<Rightarrow> authenticator" where
  "sm_WPA_PTK_GROUP_KEYERROR_Enter a =
     upd (\<lambda>s. s\<lparr>Disconnect := True\<rparr>) (uncount_sta (group_entry WPA_PTK_GROUP_KEYERROR a))"

definition sm_WPA_PTK_GROUP_Step :: "auth_env \<Rightarrow> authenticator \<Rightarrow> authenticator" where
  "sm_WPA_PTK_GROUP_Step env a =
    (let s = sta a in
     if Init s \<or> PtkGroupInit s then upd (\<lambda>s. s\<lparr>PtkGroupInit := False\<rparr>) (sm_WPA_PTK_GROUP_IDLE_Enter a)
     else
       (case wpa_ptk_group_state s of
          WPA_PTK_GROUP_IDLE \<Rightarrow>
            (if GUpdateStationKeys s \<or> (sta_wpa s = WPA_VERSION_WPA \<and> PInitAKeys s)
             then sm_WPA_PTK_GROUP_REKEYNEGOTIATING_Enter env a else a)
        | WPA_PTK_GROUP_REKEYNEGOTIATING \<Rightarrow>
            (if key_for False s \<and> MICVerified s then sm_WPA_PTK_GROUP_REKEYESTABLISHED_Enter a
             else if GTimeoutCtr s > 4 then sm_WPA_PTK_GROUP_KEYERROR_Enter a
             else if TimeoutEvt s then sm_WPA_PTK_GROUP_REKEYNEGOTIATING_Enter env a
             else a)
        | WPA_PTK_GROUP_KEYERROR \<Rightarrow> sm_WPA_PTK_GROUP_IDLE_Enter a
        | WPA_PTK_GROUP_REKEYESTABLISHED \<Rightarrow> sm_WPA_PTK_GROUP_IDLE_Enter a))"

section \<open>Running the state machines\<close>

definition wpa_free_sta_sm :: "authenticator \<Rightarrow> authenticator" where
  "wpa_free_sta_sm a =
    (let ip = WPA_GET_BE32 (sta_ip_addr (sta a));
         a = (if ip \<noteq> 0 then
             a\<lparr>ip_pool := map_option (bitfield_clear (unat (ip - WPA_GET_BE32 (conf_ip_addr_start (conf a))))) (ip_pool a)\<rparr>
           else a);
         a = (if GUpdateStationKeys (sta a) then uncount_sta a else a) in
     a\<lparr>sta_freed := True\<rparr>)"

text \<open>
  The loop of \<open>wpa_sm_step\<close>. The first argument bounds the number of iterations; \<open>None\<close> when they are used up.
\<close>

definition sm_round :: "auth_env \<Rightarrow> authenticator \<Rightarrow> authenticator" where
  "sm_round env a =
    (let a = updg (\<lambda>g. g\<lparr>group_changed := False\<rparr>) (upd (\<lambda>s. s\<lparr>sta_changed := False\<rparr>) a);
         a = sm_WPA_PTK_GROUP_Step env (sm_WPA_PTK_Step env a) in
     wpa_group_sm_step env (\<lambda>a. a) a)"

fun sm_loop :: "auth_env \<Rightarrow> nat \<Rightarrow> authenticator \<Rightarrow> authenticator option" where
  "sm_loop env 0 a = None"
| "sm_loop env (Suc n) a =
    (if pending_deinit (sta a) then Some a
     else
       (let a = sm_round env a in
        if sta_changed (sta a) \<or> group_changed (grp a) then sm_loop env n a else Some a))"

definition SM_FUEL :: nat where "SM_FUEL = 300"

text \<open>The result 1 is \<open>sta_freed\<close>.\<close>

definition wpa_sm_step :: "auth_env \<Rightarrow> authenticator \<Rightarrow> authenticator" where
  "wpa_sm_step env a =
    (if sta_freed a \<or> in_step_loop (sta a) then a
     else
       (let a = upd (\<lambda>s. s\<lparr>in_step_loop := True\<rparr>) a;
            a = upd (\<lambda>s. s\<lparr>in_step_loop := False\<rparr>) (case sm_loop env SM_FUEL a of Some a \<Rightarrow> a | None \<Rightarrow> a) in
        if pending_deinit (sta a) then wpa_free_sta_sm a else a))"

text \<open>The loop of \<open>wpa_rekey_gtk\<close> over one group.\<close>

fun group_loop :: "auth_env \<Rightarrow> nat \<Rightarrow> authenticator \<Rightarrow> authenticator option" where
  "group_loop env 0 a = None"
| "group_loop env (Suc n) a =
    (let a = wpa_group_sm_step env (wpa_sm_step env) (updg (\<lambda>g. g\<lparr>group_changed := False\<rparr>) a) in
     if group_changed (grp a) then group_loop env n a else Some a)"

definition wpa_rekey_gtk :: "auth_env \<Rightarrow> authenticator \<Rightarrow> authenticator" where
  "wpa_rekey_gtk env a =
    (let a = updg (\<lambda>g. g\<lparr>GTKReKey := True\<rparr>) a; a = (case group_loop env SM_FUEL a of Some a \<Rightarrow> a | None \<Rightarrow> a) in
     if conf_group_rekey (conf a) \<noteq> 0 then a_register env (conf_group_rekey (conf a)) 0 rekey_gtk_key a else a)"

definition wpa_rekey_gmk :: "auth_env \<Rightarrow> authenticator \<Rightarrow> authenticator" where
  "wpa_rekey_gmk env a =
    (let (r, a) = ask (rnd env 32) a; a = updg (\<lambda>g. g\<lparr>GMK := snd r\<rparr>) a in
     if conf_gmk_rekey (conf a) \<noteq> 0 then a_register env (conf_gmk_rekey (conf a)) 0 rekey_gmk_key a else a)"

definition wpa_request_new_ptk :: "authenticator \<Rightarrow> authenticator" where
  "wpa_request_new_ptk a = upd (\<lambda>s. s\<lparr>PTKRequest := True, PTK_valid := False\<rparr>) a"

definition wpa_rekey_ptk :: "auth_env \<Rightarrow> authenticator \<Rightarrow> authenticator" where
  "wpa_rekey_ptk env a = wpa_sm_step env (wpa_request_new_ptk a)"

definition wpa_send_eapol_timeout :: "auth_env \<Rightarrow> authenticator \<Rightarrow> authenticator" where
  "wpa_send_eapol_timeout env a =
     wpa_sm_step env (upd (\<lambda>s. s\<lparr>pending_1_of_4_timeout := False, TimeoutEvt := True\<rparr>) a)"

section \<open>Receiving EAPOL-Key frames\<close>

datatype rx_msg = PAIRWISE_2 | PAIRWISE_4 | GROUP_2 | REQUEST | SMK_M1 | SMK_M3 | SMK_ERROR

definition rx_type_ok :: "wpa_state_machine \<Rightarrow> u8 \<Rightarrow> bool" where
  "rx_type_ok s ty \<longleftrightarrow> ty = 254 \<or> (sta_wpa s = WPA_VERSION_WPA2 \<and> ty = 2)"

definition rx_class :: "u16 \<Rightarrow> nat \<Rightarrow> rx_msg" where
  "rx_class info key_data_length =
    (if info AND (0x2000 OR 0x800) = 0x2000 OR 0x800 then (if info AND 0x400 \<noteq> 0 then SMK_ERROR else SMK_M1)
     else if info AND 0x2000 \<noteq> 0 then SMK_M3
     else if info AND 0x800 \<noteq> 0 then REQUEST
     else if info AND 0x8 = 0 then GROUP_2
     else if key_data_length = 0 then PAIRWISE_4
     else PAIRWISE_2)"

definition rx_version_ok :: "wpa_state_machine \<Rightarrow> rx_msg \<Rightarrow> u16 \<Rightarrow> bool" where
  "rx_version_ok s msg info =
    (let ver = info AND 7 in
     if msg \<in> {REQUEST, PAIRWISE_2, PAIRWISE_4, GROUP_2} \<and>
       (sta_pairwise s = WPA_CIPHER_CCMP \<or> sta_pairwise s = WPA_CIPHER_GCMP)
     then
       (if wpa_use_aes_cmac s \<and> sta_key_mgmt s \<noteq> WPA_KEY_MGMT_OSEN \<and> ver \<noteq> 3 then False
        else if \<not> wpa_use_aes_cmac s \<and> ver \<noteq> 2 then False
        else True)
     else True)"

text \<open>The checks of the replay counter; \<open>None\<close> drops the frame.\<close>

definition rx_replay :: "rx_msg \<Rightarrow> wpa_eapol_key \<Rightarrow> authenticator \<Rightarrow> authenticator option" where
  "rx_replay msg key a =
    (let s = sta a; request = k_info key AND 0x800 \<noteq> 0 in
     if request \<and> req_replay_counter_used s \<and> \<not> memcmp_less (req_replay_counter s) (k_replay key) then None
     else if \<not> request \<and> \<not> wpa_replay_counter_valid (key_replay s) (k_replay key) then
       (if msg = PAIRWISE_2 \<and> wpa_replay_counter_valid (prev_key_replay s) (k_replay key) \<and>
          wpa_ptk_state s = WPA_PTK_PTKINITNEGOTIATING \<and> SNonce s \<noteq> k_nonce key
        then Some (upd (\<lambda>s. s\<lparr>update_snonce := True,
          prev_key_replay := wpa_replay_counter_mark_invalid (prev_key_replay s) (Some (k_replay key))\<rparr>) a)
        else None)
     else Some a)"

text \<open>The element of message 2, and the address of a station that asks for one.\<close>

definition msg2_ie :: "kde_parse \<Rightarrow> bytes option" where
  "msg2_ie kde = (case kde_rsn_ie kde of Some x \<Rightarrow> Some x | None \<Rightarrow>
     (case kde_osen kde of Some x \<Rightarrow> Some x | None \<Rightarrow> kde_wpa_ie kde))"

definition assign_ip :: "auth_env \<Rightarrow> kde_parse \<Rightarrow> authenticator \<Rightarrow> authenticator" where
  "assign_ip env kde a =
    (case (kde_ip_addr_req kde, ip_pool a) of
       (Some r, Some pool) \<Rightarrow>
         (if r ! 0 \<noteq> 0 \<and> WPA_GET_BE32 (sta_ip_addr (sta a)) = 0 then
            (case bitfield_get_first_zero (bits_behind env) pool of
               None \<Rightarrow> a
             | Some idx \<Rightarrow>
                 upd (\<lambda>s. s\<lparr>sta_ip_addr := WPA_PUT_BE32 (WPA_GET_BE32 (conf_ip_addr_start (conf a)) + word_of_nat idx)\<rparr>)
                   (a\<lparr>ip_pool := Some (bitfield_set idx pool)\<rparr>))
          else a)
     | _ \<Rightarrow> a)"

text \<open>Message 2; the flag is false when the function returns. \<open>mem\<close> is the memory behind the key header.\<close>

definition rx_pairwise_2 :: "auth_env \<Rightarrow> bytes \<Rightarrow> nat \<Rightarrow> authenticator \<Rightarrow> bool \<times> authenticator" where
  "rx_pairwise_2 env mem key_data_length a =
    (let s = sta a in
     if wpa_ptk_state s \<noteq> WPA_PTK_PTKSTART \<and> wpa_ptk_state s \<noteq> WPA_PTK_PTKCALCNEGOTIATING \<and>
       (\<not> update_snonce s \<or> wpa_ptk_state s \<noteq> WPA_PTK_PTKINITNEGOTIATING) then (False, a)
     else if reject_4way_hs_for_entropy (grp a) then (False, wpa_sta_disconnect a)
     else
       (case wpa_parse_kde_ies mem key_data_length of
          None \<Rightarrow> (False, a)
        | Some kde \<Rightarrow>
            (if sta_wpa_ie s = None \<or>
               \<not> wpa_compare_rsn_ie (sta_wpa s = WPA_VERSION_WPA2 \<and> wpa_key_mgmt_ft (sta_key_mgmt s)) (sta_wpa_ie s) (msg2_ie kde)
             then (False, wpa_sta_disconnect a)
             else (True, assign_ip env kde a))))"

definition rx_message :: "auth_env \<Rightarrow> rx_msg \<Rightarrow> bytes \<Rightarrow> nat \<Rightarrow> authenticator \<Rightarrow> bool \<times> authenticator" where
  "rx_message env msg mem key_data_length a =
    (case msg of
       PAIRWISE_2 \<Rightarrow> rx_pairwise_2 env mem key_data_length a
     | PAIRWISE_4 \<Rightarrow> (wpa_ptk_state (sta a) = WPA_PTK_PTKINITNEGOTIATING \<and> PTK_valid (sta a), a)
     | GROUP_2 \<Rightarrow> (wpa_ptk_group_state (sta a) = WPA_PTK_GROUP_REKEYNEGOTIATING \<and> PTK_valid (sta a), a)
     | SMK_M1 \<Rightarrow> (False, a)
     | SMK_M3 \<Rightarrow> (False, a)
     | SMK_ERROR \<Rightarrow> (False, a)
     | REQUEST \<Rightarrow> (True, a))"

text \<open>The check of the MIC, when there is a key that the station knows.\<close>

definition rx_mic :: "auth_env \<Rightarrow> bytes \<Rightarrow> authenticator \<Rightarrow> bool \<times> authenticator" where
  "rx_mic env dat a =
    (let a = upd (\<lambda>s. s\<lparr>MICVerified := False\<rparr>) a in
     if PTK_valid (sta a) \<and> \<not> update_snonce (sta a) then
       (let (mem, a) = ask (malloc_ok env) a in
        if \<not> wpa_verify_key_mic env mem (PTK (sta a)) dat then (False, a)
        else
          (let a = a_cancel send_eapol_timeout_key (upd (\<lambda>s. s\<lparr>MICVerified := True\<rparr>) a) in
           (True, upd (\<lambda>s. s\<lparr>pending_1_of_4_timeout := False\<rparr>) a)))
     else (True, a))"

text \<open>The flag is the result 1: the station is gone.\<close>

definition wpa_receive_error_report :: "auth_env \<Rightarrow> bool \<Rightarrow> authenticator \<Rightarrow> bool \<times> authenticator" where
  "wpa_receive_error_report env of_group a =
    (if (of_group \<and> conf_group (conf a) \<noteq> WPA_CIPHER_TKIP) \<or> (\<not> of_group \<and> sta_pairwise (sta a) \<noteq> WPA_CIPHER_TKIP)
     then (False, wpa_request_new_ptk a)
     else
       (let (gone, a) = ask (mic_failure env) a in
        if gone then (True, a)
        else (False, wpa_request_new_ptk (upd (\<lambda>s. s\<lparr>mic_failures := mic_failures s + 1\<rparr>)
          (a\<lparr>auth_mic_failures := auth_mic_failures a + 1\<rparr>)))))"

text \<open>The flag is false when the function returns.\<close>

definition rx_request :: "auth_env \<Rightarrow> wpa_eapol_key \<Rightarrow> bytes \<Rightarrow> nat \<Rightarrow> authenticator \<Rightarrow> bool \<times> authenticator" where
  "rx_request env key mem key_data_length a =
    (if \<not> MICVerified (sta a) then (False, a)
     else
       (let a = upd (\<lambda>s. s\<lparr>req_replay_counter_used := True, req_replay_counter := k_replay key\<rparr>) a; info = k_info key in
        if info AND 0x400 \<noteq> 0 then
          (let (gone, a) = wpa_receive_error_report env (info AND 0x8 = 0) a in (\<not> gone, a))
        else if info AND 0x8 \<noteq> 0 then (True, wpa_request_new_ptk a)
        else
          (case (if key_data_length > 0 then wpa_parse_kde_ies mem key_data_length else None) of
             Some kde \<Rightarrow> if kde_mac_addr kde \<noteq> None then (True, a)
               else (True, wpa_rekey_gtk env (a_cancel rekey_gtk_key a))
           | None \<Rightarrow> (True, wpa_rekey_gtk env (a_cancel rekey_gtk_key a)))))"

text \<open>A replay counter is accepted once.\<close>

definition rx_invalidate :: "rx_msg \<Rightarrow> wpa_eapol_key \<Rightarrow> authenticator \<Rightarrow> authenticator" where
  "rx_invalidate msg key a =
     upd (\<lambda>s. let kr = wpa_replay_counter_mark_invalid (key_replay s) (Some (k_replay key)) in
       s\<lparr>prev_key_replay := (if msg = PAIRWISE_2 then kr else zero_replay),
         key_replay := wpa_replay_counter_mark_invalid kr None\<rparr>) a"

text \<open>The frame is kept and the state machine runs.\<close>

definition rx_accept :: "auth_env \<Rightarrow> bytes \<Rightarrow> wpa_eapol_key \<Rightarrow> authenticator \<Rightarrow> authenticator" where
  "rx_accept env dat key a =
    (let (ok, a) = ask (malloc_ok env) a; info = k_info key in
     if \<not> ok then upd (\<lambda>s. s\<lparr>last_rx_eapol_key := None\<rparr>) a
     else wpa_sm_step env (upd (\<lambda>s. s\<lparr>last_rx_eapol_key := Some dat, rx_eapol_key_secure := (info AND 0x200 \<noteq> 0),
       EAPOLKeyReceived := True, EAPOLKeyPairwise := (info AND 0x8 \<noteq> 0), EAPOLKeyRequest := (info AND 0x800 \<noteq> 0),
       SNonce := k_nonce key\<rparr>) a))"

text \<open>From the replay counter on: every check in turn.\<close>

definition rx_checked :: "auth_env \<Rightarrow> rx_msg \<Rightarrow> bytes \<Rightarrow> wpa_eapol_key \<Rightarrow> authenticator \<Rightarrow> bool \<times> authenticator" where
  "rx_checked env msg dat key a =
    (case rx_replay msg key a of
       None \<Rightarrow> (False, a)
     | Some a \<Rightarrow>
         (let (go, a) = rx_message env msg (drop 99 dat) (unat (k_data_len key)) a in
          if \<not> go then (False, a)
          else if k_info key AND 0x80 \<noteq> 0 then (False, a)
          else if k_info key AND 0x100 = 0 then (False, a)
          else rx_mic env dat a))"

definition wpa_receive :: "auth_env \<Rightarrow> bytes \<Rightarrow> authenticator \<Rightarrow> authenticator" where
  "wpa_receive env dat a =
    (let key = get_key (drop 4 dat); n = unat (k_data_len key); msg = rx_class (k_info key) n in
     if conf_wpa (conf a) = 0 \<or> sta_freed a then a
     else if length dat < 99 then a
     else if n > length dat - 99 then a
     else if \<not> rx_type_ok (sta a) (k_type key) then a
     else if \<not> rx_version_ok (sta a) msg (k_info key) then a
     else
       (let (go, a) = rx_checked env msg dat key a in
        if \<not> go then a
        else if k_info key AND 0x800 \<noteq> 0 then
          (let (go, a) = rx_request env key (drop 99 dat) n a in if go then rx_accept env dat key a else a)
        else rx_accept env dat key (rx_invalidate msg key a)))"

section \<open>Calls of the program\<close>

datatype wpa_auth_event = WPA_AUTH | WPA_ASSOC | WPA_DISASSOC | WPA_DEAUTH | WPA_REAUTH | WPA_REAUTH_EAPOL | WPA_ASSOC_FT

text \<open>The first start of the state machine; the result 1 is \<open>sta_freed\<close>.\<close>

definition sta_start :: "auth_env \<Rightarrow> authenticator \<Rightarrow> authenticator" where
  "sta_start env a =
    (let a = wpa_sm_step env (upd (\<lambda>s. s\<lparr>sta_started := True, Init := True\<rparr>) a) in
     if sta_freed a then a else upd (\<lambda>s. s\<lparr>Init := False, AuthenticationRequest := True\<rparr>) a)"

definition event_flags :: "auth_env \<Rightarrow> wpa_auth_event \<Rightarrow> authenticator \<Rightarrow> authenticator" where
  "event_flags env ev a =
    (case ev of
       WPA_AUTH \<Rightarrow> a
     | WPA_ASSOC \<Rightarrow> a
     | WPA_ASSOC_FT \<Rightarrow> a
     | WPA_DEAUTH \<Rightarrow> upd (\<lambda>s. s\<lparr>DeauthenticationRequest := True\<rparr>) a
     | WPA_DISASSOC \<Rightarrow> upd (\<lambda>s. s\<lparr>DeauthenticationRequest := True\<rparr>) a
     | _ \<Rightarrow>
         (if \<not> sta_started (sta a) then sta_start env a
          else
            (let a = (if GUpdateStationKeys (sta a) then upd (\<lambda>s. s\<lparr>PtkGroupInit := True\<rparr>) (uncount_sta a) else a) in
             upd (\<lambda>s. s\<lparr>ReAuthenticationRequest := True\<rparr>) a)))"

definition wpa_auth_sm_event :: "auth_env \<Rightarrow> wpa_auth_event \<Rightarrow> authenticator \<Rightarrow> authenticator" where
  "wpa_auth_sm_event env ev a =
    (if sta_freed a then a
     else
       (let a = event_flags env ev a in
        if sta_freed a then a
        else if mgmt_frame_prot (sta a) \<and> ev = WPA_AUTH then wpa_sm_step env a
        else
          (let a = upd (\<lambda>s. s\<lparr>PTK_valid := False, PTK := ptk_zero\<rparr>) a;
               a = (if ev \<noteq> WPA_REAUTH_EAPOL then wpa_remove_ptk env a else a) in
           wpa_sm_step env a)))"

definition wpa_auth_sta_associated :: "auth_env \<Rightarrow> authenticator \<Rightarrow> authenticator" where
  "wpa_auth_sta_associated env a =
    (if conf_wpa (conf a) = 0 \<or> sta_freed a then a
     else if sta_started (sta a) then
       wpa_sm_step env (upd (\<lambda>s. s\<lparr>key_replay := zero_replay, ReAuthenticationRequest := True\<rparr>) a)
     else
       (let a = sta_start env a in if sta_freed a then a else wpa_sm_step env a))"

definition wpa_auth_sta_no_wpa :: "authenticator \<Rightarrow> authenticator" where
  "wpa_auth_sta_no_wpa a = upd (\<lambda>s. s\<lparr>sta_key_mgmt := 0\<rparr>) a"

definition wpa_auth_sta_deinit :: "auth_env \<Rightarrow> authenticator \<Rightarrow> authenticator" where
  "wpa_auth_sta_deinit env a =
    (if sta_freed a then a
     else
       (let a = (if conf_strict_rekey (conf a) \<and> has_GTK (sta a)
              then a_register env 0 500000 rekey_gtk_key (a_cancel rekey_gtk_key a) else a);
            a = upd (\<lambda>s. s\<lparr>pending_1_of_4_timeout := False\<rparr>) (a_cancel send_eapol_timeout_key a);
            a = a_cancel auth_rekey_ptk_key (a_cancel call_step_key a) in
        if in_step_loop (sta a) then upd (\<lambda>s. s\<lparr>pending_deinit := True\<rparr>) a else wpa_free_sta_sm a))"

definition wpa_sm_call_step :: "auth_env \<Rightarrow> authenticator \<Rightarrow> authenticator" where
  "wpa_sm_call_step env a = wpa_sm_step env a"

definition wpa_auth_sm_notify :: "auth_env \<Rightarrow> authenticator \<Rightarrow> authenticator" where
  "wpa_auth_sm_notify env a = a_register env 0 0 call_step_key a"

text \<open>Twice: the keys are exchanged, updated and given to the driver.\<close>

definition gtk_rekey_once :: "auth_env \<Rightarrow> authenticator \<Rightarrow> authenticator" where
  "gtk_rekey_once env a = snd (wpa_group_config_group_keys env (wpa_gtk_update env (updg swap_keys a)))"

definition wpa_gtk_rekey :: "auth_env \<Rightarrow> authenticator \<Rightarrow> authenticator" where
  "wpa_gtk_rekey env a = gtk_rekey_once env (gtk_rekey_once env a)"

definition wpa_wnmsleep_rekey_gtk :: "auth_env \<Rightarrow> authenticator \<Rightarrow> authenticator" where
  "wpa_wnmsleep_rekey_gtk env a =
    (if sta_freed a \<or> is_wnmsleep (sta a) then a else wpa_group_update_sta (wpa_sm_step env) a)"

definition wpa_set_wnmsleep :: "bool \<Rightarrow> authenticator \<Rightarrow> authenticator" where
  "wpa_set_wnmsleep flag a = upd (\<lambda>s. s\<lparr>is_wnmsleep := flag\<rparr>) a"

text \<open>The subelements of a WNM-Sleep Mode Response; empty when the sequence number is not known.\<close>

definition wpa_wnmsleep_gtk_subelem :: "auth_env \<Rightarrow> authenticator \<Rightarrow> bytes \<times> authenticator" where
  "wpa_wnmsleep_gtk_subelem env a =
    (let g = grp a; (sq, a) = ask (seqnum env (GN g)) a in
     case sq of
       None \<Rightarrow> ([], a)
     | Some r \<Rightarrow> ([0, word_of_nat (11 + GTK_len g)] @ WPA_PUT_LE16 (word_of_nat (GN g) AND 0x03) @
         [word_of_nat (GTK_len g)] @ take 8 r @ take (GTK_len g) (GTK g ! (GN g - 1)), a))"

definition wpa_wnmsleep_igtk_subelem :: "auth_env \<Rightarrow> authenticator \<Rightarrow> bytes \<times> authenticator" where
  "wpa_wnmsleep_igtk_subelem env a =
    (let g = grp a; n = wpa_cipher_key_len (conf_group_mgmt_cipher (conf a)); (sq, a) = ask (seqnum env (GN_igtk g)) a in
     case sq of
       None \<Rightarrow> ([], a)
     | Some r \<Rightarrow> ([1, word_of_nat (2 + 6 + n)] @ WPA_PUT_LE16 (word_of_nat (GN_igtk g)) @ take 6 r @
         take n (IGTK g ! (GN_igtk g - 4)), a))"

definition wpa_auth_eapol_key_tx_status :: "auth_env \<Rightarrow> bool \<Rightarrow> authenticator \<Rightarrow> authenticator" where
  "wpa_auth_eapol_key_tx_status env ack a =
    (if pending_1_of_4_timeout (sta a) \<and> ack
     then a_register env 1 0 send_eapol_timeout_key (a_cancel send_eapol_timeout_key a) else a)"

definition wpa_auth_get_ip_addr :: "authenticator \<Rightarrow> bytes option" where
  "wpa_auth_get_ip_addr a =
    (if WPA_GET_BE32 (sta_ip_addr (sta a)) = 0 then None else Some (take 4 (sta_ip_addr (sta a))))"

text \<open>The steps that \<open>wpa_init_keys\<close> and \<open>wpa_reconfig\<close> make the group take.\<close>

definition group_restart :: "auth_env \<Rightarrow> authenticator \<Rightarrow> authenticator" where
  "group_restart env a =
    (let a = wpa_group_sm_step env (wpa_sm_step env) a; a = updg (\<lambda>g. g\<lparr>GInit := False\<rparr>) a in
     wpa_group_sm_step env (wpa_sm_step env) a)"

definition wpa_init_keys :: "auth_env \<Rightarrow> authenticator \<Rightarrow> bool \<times> authenticator" where
  "wpa_init_keys env a =
    (let a = group_restart env a in (wpa_group_state (grp a) \<noteq> WPA_GROUP_FATAL_FAILURE, a))"

definition wpa_reconfig :: "auth_env \<Rightarrow> wpa_auth_config \<Rightarrow> authenticator \<Rightarrow> bool \<times> authenticator" where
  "wpa_reconfig env c a =
    (let (mem, a) = ask (malloc_ok env) a; a = a\<lparr>conf := c\<rparr> in
     case wpa_auth_gen_wpa_ie mem c of
       None \<Rightarrow> (False, a\<lparr>auth_wpa_ie := (if wpa_auth_gen_wpa_ie True c = None then auth_wpa_ie a else [])\<rparr>)
     | Some ie \<Rightarrow>
         (True, group_restart env (updg (\<lambda>g. g\<lparr>GTK_len := wpa_cipher_key_len (conf_group c), GInit := True\<rparr>)
           (a\<lparr>auth_wpa_ie := ie\<rparr>))))"

section \<open>Creation\<close>

definition sta_zero :: wpa_state_machine where
  "sta_zero = \<lparr>sta_addr = replicate 6 0, wpa_ptk_state = WPA_PTK_INITIALIZE, wpa_ptk_group_state = WPA_PTK_GROUP_IDLE,
     Init = False, DeauthenticationRequest = False, AuthenticationRequest = False, ReAuthenticationRequest = False,
     Disconnect = False, TimeoutCtr = 0, GTimeoutCtr = 0, TimeoutEvt = False, EAPOLKeyReceived = False,
     EAPOLKeyPairwise = False, EAPOLKeyRequest = False, MICVerified = False, GUpdateStationKeys = False,
     ANonce = replicate 32 0, SNonce = replicate 32 0, PMK = replicate 32 0, PTK = ptk_zero, PTK_valid = False,
     pairwise_set = False, keycount = 0, Pair = False, key_replay = zero_replay, prev_key_replay = zero_replay,
     PInitAKeys = False, PTKRequest = False, has_GTK = False, PtkGroupInit = False, last_rx_eapol_key = None,
     sta_changed = False, in_step_loop = False, pending_deinit = False, sta_started = False, mgmt_frame_prot = False,
     rx_eapol_key_secure = False, update_snonce = False, is_wnmsleep = False, req_replay_counter = replicate 8 0,
     req_replay_counter_used = False, sta_wpa_ie = None, sta_wpa = WPA_VERSION_NO_WPA, sta_pairwise = 0,
     sta_key_mgmt = 0, sta_pmksa = None, mic_failures = 0, pending_1_of_4_timeout = False, sta_ip_addr = replicate 4 0\<rparr>"

definition group_zero :: wpa_group where
  "group_zero = \<lparr>vlan_id = 0, GInit = False, GKeyDoneStations = 0, GTKReKey = False, GTK_len = 0, GN = 0, GM = 0,
     GTKAuthenticator = False, Counter = replicate 32 0, wpa_group_state = WPA_GROUP_GTK_INIT, GMK = replicate 32 0,
     GTK = replicate 2 (replicate 32 0), GNonce = replicate 32 0, group_changed = False, first_sta_seen = False,
     reject_4way_hs_for_entropy = False, IGTK = replicate 2 (replicate 32 0), GN_igtk = 0, GM_igtk = 0\<rparr>"

text \<open>\<open>wpa_group_init\<close> with the delayed start that \<open>wpa_init\<close> asks for; the flag is false for NULL.\<close>

definition wpa_group_init :: "auth_env \<Rightarrow> nat \<Rightarrow> authenticator \<Rightarrow> bool \<times> authenticator" where
  "wpa_group_init env vlan a =
    (let (mem, a) = ask (malloc_ok env) a in
     if \<not> mem then (False, a)
     else
       (let a = a\<lparr>grp := group_zero\<lparr>GTKAuthenticator := True, vlan_id := vlan,
              GTK_len := wpa_cipher_key_len (conf_group (conf a))\<rparr>\<rparr>;
            a = snd (ask (pool_ready env) a);
            (ok, a) = wpa_group_init_gmk_and_counter env a in
        if \<not> ok then (False, a) else (True, updg (\<lambda>g. g\<lparr>GInit := True\<rparr>) a)))"

text \<open>The number of addresses of the pool; the difference is that of \<open>int\<close>.\<close>

definition ip_pool_size :: "wpa_auth_config \<Rightarrow> nat" where
  "ip_pool_size c =
    (let start = WPA_GET_BE32 (conf_ip_addr_start c); count = sint (WPA_GET_BE32 (conf_ip_addr_end c) - start + 1) in
     if start = 0 then 0 else if count > 1000 then 1000 else if count > 0 then nat count else 0)"

text \<open>\<open>el\<close> are the timeouts of the program, \<open>pm\<close> the success of the creation of the PMKSA cache.\<close>

definition wpa_init ::
    "auth_env \<Rightarrow> bytes \<Rightarrow> wpa_auth_config \<Rightarrow> bool \<Rightarrow> eloop_data \<Rightarrow> authenticator option" where
  "wpa_init env ad c pm el =
    (let a = \<lparr>conf = c, auth_addr = take 6 ad, auth_wpa_ie = [], auth_4way_failures = 0, auth_mic_failures = 0,
           ip_pool = None, grp = group_zero, sta = sta_zero, sta_freed = True, auth_loop = el, auth_trace = [],
           queries = 0\<rparr>;
         (mem1, a) = ask (malloc_ok env) a; (mem2, a) = ask (malloc_ok env) a in
     if \<not> mem1 then None
     else
       (case wpa_auth_gen_wpa_ie mem2 c of
          None \<Rightarrow> None
        | Some ie \<Rightarrow>
            (let (ok, a) = wpa_group_init env 0 (a\<lparr>auth_wpa_ie := ie\<rparr>) in
             if \<not> ok then None
             else if \<not> pm then None
             else
               (let a = (if conf_gmk_rekey c \<noteq> 0 then a_register env (conf_gmk_rekey c) 0 rekey_gmk_key a else a);
                    a = (if conf_group_rekey c \<noteq> 0 then a_register env (conf_group_rekey c) 0 rekey_gtk_key a else a);
                    (mem, a) = (if ip_pool_size c > 0 then ask (malloc_ok env) a else (False, a)) in
                Some (a\<lparr>ip_pool := bitfield_alloc mem (ip_pool_size c)\<rparr>)))))"

text \<open>The station takes the place of the last one.\<close>

definition wpa_auth_sta_init :: "auth_env \<Rightarrow> bytes \<Rightarrow> authenticator \<Rightarrow> bool \<times> authenticator" where
  "wpa_auth_sta_init env ad a =
    (if wpa_group_state (grp a) = WPA_GROUP_FATAL_FAILURE then (False, a)
     else
       (let (mem, a) = ask (malloc_ok env) a in
        if \<not> mem then (False, a) else (True, a\<lparr>sta := sta_zero\<lparr>sta_addr := take 6 ad\<rparr>, sta_freed := False\<rparr>)))"
end
