(* ===== verification/WpaAuthFrames.thy ===== *)
theory WpaAuthFrames
  imports WpaAuth
begin

text \<open>
  The part of the state on which the control of the authenticator depends: the station and the group
  without the fields that only carry data, and the pairwise keys that the driver has been given.
\<close>

definition ctl_s :: "wpa_state_machine \<Rightarrow> wpa_state_machine" where
  "ctl_s s = s\<lparr>key_replay := [], pending_1_of_4_timeout := False, ANonce := [], PMK := [], req_replay_counter_used := False,
     pairwise_set := False, keycount := 0, has_GTK := False\<rparr>"

definition ctl_g :: "wpa_group \<Rightarrow> wpa_group" where
  "ctl_g g = g\<lparr>GNonce := [], Counter := [], GTK := [], IGTK := [], GMK := [], first_sta_seen := False,
     reject_4way_hs_for_entropy := False, GN := 0, GM := 0, GN_igtk := 0, GM_igtk := 0\<rparr>"

definition pair_key :: "auth_event \<Rightarrow> bool" where
  "pair_key ev = (case ev of AuthSetKey v alg ad idx k \<Rightarrow> alg \<noteq> WPA_ALG_NONE \<and> ad \<noteq> broadcast_ether_addr | _ \<Rightarrow> False)"

definition ctl :: "authenticator \<Rightarrow> wpa_state_machine \<times> wpa_group \<times> bool \<times> wpa_auth_config \<times> auth_event list" where
  "ctl a = (ctl_s (sta a), ctl_g (grp a), sta_freed a, conf a, filter pair_key (auth_trace a))"

lemma pair_key_simps [simp]:
  "\<not> pair_key (SetEapol var b)" "\<not> pair_key (AuthSend m b)" "\<not> pair_key StaDisconnect"
  "\<not> pair_key (AuthSetKey v WPA_ALG_NONE ad idx k)" "\<not> pair_key (AuthSetKey v alg broadcast_ether_addr idx k)"
  by (simp_all add: pair_key_def)

lemma ctl_upd: "ctl_s (f (sta a)) = ctl_s (sta a) \<Longrightarrow> ctl (upd f a) = ctl a"
  by (simp add: ctl_def upd_def)

lemma ctl_updg: "ctl_g (f (grp a)) = ctl_g (grp a) \<Longrightarrow> ctl (updg f a) = ctl a"
  by (simp add: ctl_def updg_def)

lemma ctl_emit: "\<not> pair_key ev \<Longrightarrow> ctl (a_emit ev a) = ctl a"
  by (simp add: ctl_def a_emit_def)

lemma ctl_ask [simp]: "ctl (snd (ask q a)) = ctl a"
  by (simp add: ctl_def ask_def)

lemma ctl_ask' : "ask q a = (x, b) \<Longrightarrow> ctl b = ctl a"
  by (auto simp: ctl_def ask_def)

lemma ctl_timers [simp]: "ctl (a_register env s u k a) = ctl a" "ctl (a_cancel k a) = ctl a"
  by (simp_all add: ctl_def a_register_def a_cancel_def)

lemma ctl_set_eapol [simp]: "ctl (wpa_auth_set_eapol v b a) = ctl a"
  by (simp add: wpa_auth_set_eapol_def ctl_emit)

lemma ctl_get_eapol [simp]: "ctl (snd (wpa_auth_get_eapol env v a)) = ctl a"
  by (simp add: wpa_auth_get_eapol_def)

lemma ctl_disconnect [simp]: "ctl (wpa_sta_disconnect a) = ctl a"
  by (simp add: wpa_sta_disconnect_def ctl_emit)

lemma ctl_set_key: "\<not> pair_key (AuthSetKey v alg ad i k) \<Longrightarrow> ctl (snd (wpa_auth_set_key env v alg ad i k a)) = ctl a"
  by (simp add: wpa_auth_set_key_def ctl_emit)

lemmas ctl_quiet = ctl_upd ctl_updg ctl_emit ctl_set_key ctl_s_def ctl_g_def

text \<open>Splitting the results that carry the state.\<close>

lemma snd_case: "(case r of (x, a) \<Rightarrow> f x a) = f (fst r) (snd r)"
  by (simp add: case_prod_unfold)

lemma ctl_send_key_data [simp]: "ctl (snd (send_key_data env ver kde encr a)) = ctl a"
  unfolding send_key_data_def Let_def snd_case
  by (simp add: ctl_quiet split: option.splits)

lemma ctl_send_frame [simp]: "ctl (wpa_send_eapol_frame env info rsc nonce kde keyidx encr force a) = ctl a"
  unfolding wpa_send_eapol_frame_def Let_def snd_case
  by (auto simp: ctl_quiet split: option.splits prod.splits) 

lemma ctl_send [simp]: "ctl (wpa_send_eapol env info rsc nonce kde keyidx encr a) = ctl a"
  unfolding wpa_send_eapol_def Let_def by (simp add: ctl_quiet)

lemma ctl_gmk_to_gtk [simp]: "ctl (snd (wpa_gmk_to_gtk env gmk l ad gn gtk n a)) = ctl a"
  unfolding wpa_gmk_to_gtk_def Let_def snd_case by simp

lemma ctl_next_gnonce [simp]: "ctl (next_gnonce a) = ctl a"
  by (simp add: next_gnonce_def ctl_quiet)

lemma ctl_gtk_update [simp]: "ctl (wpa_gtk_update env a) = ctl a"
  unfolding wpa_gtk_update_def Let_def snd_case by (simp add: ctl_quiet)

lemma ctl_config_group_keys [simp]: "ctl (snd (wpa_group_config_group_keys env a)) = ctl a"
  unfolding wpa_group_config_group_keys_def Let_def snd_case by (simp add: ctl_quiet)

lemma ctl_init_gmk [simp]: "ctl (snd (wpa_group_init_gmk_and_counter env a)) = ctl a"
  unfolding wpa_group_init_gmk_and_counter_def Let_def snd_case by (simp add: ctl_quiet)

lemma ctl_ensure_init [simp]: "ctl (wpa_group_ensure_init env a) = ctl a"
  unfolding wpa_group_ensure_init_def Let_def snd_case by (simp add: ctl_quiet)

lemma ctl_kde_add [simp]: "ctl (snd (ieee80211w_kde_add env a)) = ctl a"
  unfolding ieee80211w_kde_add_def Let_def snd_case by simp

lemma ctl_sta_gtk [simp]: "ctl (snd (sta_gtk env a)) = ctl a"
  unfolding sta_gtk_def Let_def snd_case by simp

lemma ctl_send_msg3 [simp]: "ctl (send_msg3 env rsc gtk sec a) = ctl a"
  unfolding send_msg3_def Let_def snd_case by simp

lemma ctl_send_group1 [simp]: "ctl (send_group1 env rsc gtk a) = ctl a"
  unfolding send_group1_def Let_def snd_case by simp


lemma ctl_D:
  assumes "ctl b = ctl a"
  shows "ctl_s (sta b) = ctl_s (sta a)" "ctl_g (grp b) = ctl_g (grp a)" "sta_freed b = sta_freed a" "conf b = conf a"
    "filter pair_key (auth_trace b) = filter pair_key (auth_trace a)"
  using assms by (simp_all add: ctl_def)

lemma sta_same [simp]:
  "sta (snd (ask q a)) = sta a" "sta (a_emit ev a) = sta a" "sta (a_register env s u k a) = sta a" "sta (a_cancel k a) = sta a"
  "sta (wpa_auth_set_eapol v b a) = sta a" "sta (snd (wpa_auth_get_eapol env v a)) = sta a" "sta (wpa_sta_disconnect a) = sta a"
  "sta (snd (wpa_auth_set_key env vl alg ad i key a)) = sta a" "sta (updg g a) = sta a" "sta (next_gnonce a) = sta a"
  "sta (snd (wpa_gmk_to_gtk env gmk l ad gn gtk n a)) = sta a"
  by (simp_all add: ask_def a_emit_def a_register_def a_cancel_def wpa_auth_set_eapol_def wpa_auth_get_eapol_def
      wpa_sta_disconnect_def wpa_auth_set_key_def updg_def next_gnonce_def wpa_gmk_to_gtk_def Let_def snd_case)

lemma sta_gtk_update [simp]: "sta (wpa_gtk_update env a) = sta a"
  unfolding wpa_gtk_update_def Let_def snd_case by simp

lemma sta_config_group_keys [simp]: "sta (snd (wpa_group_config_group_keys env a)) = sta a"
  unfolding wpa_group_config_group_keys_def Let_def snd_case by simp

lemma sta_init_gmk [simp]: "sta (snd (wpa_group_init_gmk_and_counter env a)) = sta a"
  unfolding wpa_group_init_gmk_and_counter_def Let_def snd_case by simp

lemma sta_ensure_init [simp]: "sta (wpa_group_ensure_init env a) = sta a"
  unfolding wpa_group_ensure_init_def Let_def snd_case by simp

lemma grp_same [simp]:
  "grp (snd (ask q a)) = grp a" "grp (a_emit ev a) = grp a" "grp (a_register env s u k a) = grp a" "grp (a_cancel k a) = grp a"
  "grp (wpa_auth_set_eapol v b a) = grp a" "grp (snd (wpa_auth_get_eapol env v a)) = grp a" "grp (wpa_sta_disconnect a) = grp a"
  "grp (snd (wpa_auth_set_key env vl alg ad i key a)) = grp a" "grp (upd f a) = grp a"
  by (simp_all add: ask_def a_emit_def a_register_def a_cancel_def wpa_auth_set_eapol_def wpa_auth_get_eapol_def
      wpa_sta_disconnect_def wpa_auth_set_key_def upd_def)

lemma upd_simps [simp]:
  "sta (upd f a) = f (sta a)" "grp (updg g a) = g (grp a)" "sta_freed (upd f a) = sta_freed a" "sta_freed (updg g a) = sta_freed a"
  "conf (upd f a) = conf a" "conf (updg g a) = conf a" "auth_trace (upd f a) = auth_trace a" "auth_trace (updg g a) = auth_trace a"
  by (simp_all add: upd_def updg_def)

lemmas frame_ops = ctl_ask ctl_timers ctl_set_eapol ctl_get_eapol ctl_disconnect ctl_gtk_update ctl_config_group_keys
  ctl_ensure_init ctl_send ctl_send_msg3 ctl_send_group1 ctl_kde_add ctl_sta_gtk
lemmas frame_g = frame_ops [THEN ctl_D(2)]
lemmas frame_freed = frame_ops [THEN ctl_D(3)]
lemmas frame_conf = frame_ops [THEN ctl_D(4)]
lemmas frame_trace = frame_ops [THEN ctl_D(5)]
lemmas frame_all = frame_g frame_freed frame_conf frame_trace

text \<open>A change of the control fields may be moved before an operation that keeps them.\<close>

lemma ctl_upd_cong:
  assumes "ctl b = ctl a" "\<And>s. ctl_s (f (ctl_s s)) = ctl_s (f s)"
  shows "ctl (upd f b) = ctl (upd f a)"
  using assms by (simp add: ctl_def) metis

section \<open>The entry actions\<close>

lemma ctl_remove_ptk:
  "ctl (wpa_remove_ptk env a) = ctl (upd (\<lambda>s. s\<lparr>PTK_valid := False, PTK := ptk_zero\<rparr>) a)"
  unfolding wpa_remove_ptk_def Let_def by (simp add: ctl_quiet) 

lemma ctl_AUTHENTICATION:
  "ctl (sm_WPA_PTK_AUTHENTICATION_Enter a) = ctl (upd (\<lambda>s. s\<lparr>sta_changed := True, wpa_ptk_state := WPA_PTK_AUTHENTICATION,
     PTK := ptk_zero, PTK_valid := False, AuthenticationRequest := False\<rparr>) a)"
  unfolding sm_WPA_PTK_AUTHENTICATION_Enter_def ptk_entry_def Let_def by (simp add: ctl_def frame_all)

lemma ctl_AUTHENTICATION2:
  "\<exists>d. ctl (sm_WPA_PTK_AUTHENTICATION2_Enter env a) = ctl (upd (\<lambda>s. s\<lparr>sta_changed := True,
     wpa_ptk_state := WPA_PTK_AUTHENTICATION2, ReAuthenticationRequest := False, Disconnect := (d \<or> Disconnect s),
     TimeoutCtr := (if d then TimeoutCtr s else 0)\<rparr>) a)"
proof (cases "fst (fst (ask (rnd env 32) (upd (\<lambda>s. s\<lparr>ReAuthenticationRequest := False\<rparr>)
    (wpa_group_ensure_init env (ptk_entry WPA_PTK_AUTHENTICATION2 a)))))")
  case True
  then show ?thesis
    unfolding sm_WPA_PTK_AUTHENTICATION2_Enter_def ptk_entry_def Let_def snd_case
    by (intro exI [of _ False]) (simp add: ctl_def frame_all ctl_s_def)
next
  case False
  then show ?thesis
    unfolding sm_WPA_PTK_AUTHENTICATION2_Enter_def ptk_entry_def Let_def snd_case
    by (intro exI [of _ True]) (simp add: ctl_def frame_all ctl_s_def)
qed


lemmas frame_s = frame_ops [THEN ctl_D(1)]

lemma ctl_DISCONNECT:
  "ctl (sm_WPA_PTK_DISCONNECT_Enter a) =
   ctl (upd (\<lambda>s. s\<lparr>sta_changed := True, wpa_ptk_state := WPA_PTK_DISCONNECT, Disconnect := False\<rparr>) a)"
  unfolding sm_WPA_PTK_DISCONNECT_Enter_def ptk_entry_def by (simp add: ctl_def frame_all)

lemma ctl_DISCONNECTED:
  "ctl (sm_WPA_PTK_DISCONNECTED_Enter a) =
   ctl (upd (\<lambda>s. s\<lparr>sta_changed := True, wpa_ptk_state := WPA_PTK_DISCONNECTED, DeauthenticationRequest := False\<rparr>) a)"
  unfolding sm_WPA_PTK_DISCONNECTED_Enter_def ptk_entry_def by (simp add: ctl_def)

definition uncounted :: "wpa_state_machine \<Rightarrow> wpa_group \<Rightarrow> wpa_group" where
  "uncounted s g = (if GUpdateStationKeys s then g\<lparr>GKeyDoneStations := GKeyDoneStations g - 1\<rparr> else g)"

lemma uncount_sta_fields [simp]:
  "sta (uncount_sta a) = (sta a)\<lparr>GUpdateStationKeys := False\<rparr>" "grp (uncount_sta a) = uncounted (sta a) (grp a)"
  "sta_freed (uncount_sta a) = sta_freed a" "conf (uncount_sta a) = conf a" "auth_trace (uncount_sta a) = auth_trace a"
  by (simp_all add: uncount_sta_def uncounted_def Let_def)

lemma remove_ptk_fields [simp]:
  "sta (wpa_remove_ptk env a) = (sta a)\<lparr>PTK_valid := False, PTK := ptk_zero, pairwise_set := False\<rparr>"
  "grp (wpa_remove_ptk env a) = grp a"
  by (simp_all add: wpa_remove_ptk_def Let_def)

lemma init_unchanged_fields [simp]:
  "sta (init_unchanged a) = (sta a)\<lparr>sta_changed := (sta_changed (sta a) \<and> \<not> Init (sta a))\<rparr>" "grp (init_unchanged a) = grp a"
  "sta_freed (init_unchanged a) = sta_freed a" "conf (init_unchanged a) = conf a"
  "auth_trace (init_unchanged a) = auth_trace a"
  by (simp_all add: init_unchanged_def)

lemma ctl_INITIALIZE:
  "ctl (sm_WPA_PTK_INITIALIZE_Enter env a) =
   ctl (updg (uncounted (sta a)) (upd (\<lambda>s. s\<lparr>sta_changed := \<not> Init s, wpa_ptk_state := WPA_PTK_INITIALIZE,
     GUpdateStationKeys := False, PInitAKeys := (PInitAKeys s \<and> sta_wpa s \<noteq> WPA_VERSION_WPA), Pair := True,
     PTK_valid := False, PTK := ptk_zero, TimeoutCtr := 0\<rparr>) a))"
  unfolding sm_WPA_PTK_INITIALIZE_Enter_def ptk_entry_def Let_def
  by (simp add: ctl_def frame_all ctl_remove_ptk [THEN ctl_D(3)] ctl_remove_ptk [THEN ctl_D(4)]
      ctl_remove_ptk [THEN ctl_D(5)] uncounted_def ctl_s_def)

lemma ctl_INITPMK:
  "ctl (sm_WPA_PTK_INITPMK_Enter env a) = ctl (upd (\<lambda>s. s\<lparr>sta_changed := True, wpa_ptk_state := WPA_PTK_INITPMK\<rparr>) a)"
  unfolding sm_WPA_PTK_INITPMK_Enter_def ptk_entry_def Let_def
  by (simp add: ctl_quiet ask_def split: option.splits) (simp add: ctl_def ctl_s_def)

lemma ctl_INITPSK:
  "ctl (sm_WPA_PTK_INITPSK_Enter env a) = ctl (upd (\<lambda>s. s\<lparr>sta_changed := True, wpa_ptk_state := WPA_PTK_INITPSK\<rparr>) a)"
  unfolding sm_WPA_PTK_INITPSK_Enter_def ptk_entry_def Let_def
  by (simp add: ctl_quiet split: list.splits)

lemma ctl_PTKSTART:
  "ctl (sm_WPA_PTK_PTKSTART_Enter env a) = ctl (upd (\<lambda>s. s\<lparr>sta_changed := True, wpa_ptk_state := WPA_PTK_PTKSTART,
     PTKRequest := False, TimeoutEvt := False, TimeoutCtr := TimeoutCtr s + 1\<rparr>) a)"
  unfolding sm_WPA_PTK_PTKSTART_Enter_def ptk_entry_def Let_def by (simp add: ctl_def frame_all frame_s)

lemma sta_ptk_search [simp]: "sta (snd (ptk_search env dat ks p a)) = sta a"
  by (induction ks arbitrary: p a) (simp_all add: Let_def snd_case)

lemma ctl_ptk_search [simp]: "ctl (snd (ptk_search env dat ks p a)) = ctl a"
  by (induction ks arbitrary: p a) (simp_all add: Let_def snd_case)

lemma ctl_PTKCALCNEGOTIATING:
  "\<exists>ok p. ctl (sm_WPA_PTK_PTKCALCNEGOTIATING_Enter env a) = ctl (upd (\<lambda>s. s\<lparr>sta_changed := True,
     wpa_ptk_state := WPA_PTK_PTKCALCNEGOTIATING, EAPOLKeyReceived := False, update_snonce := False,
     MICVerified := (ok \<or> MICVerified s), PTK := (if ok then p else PTK s), PTK_valid := (ok \<or> PTK_valid s)\<rparr>) a)"
proof -
  define a1 where "a1 = upd (\<lambda>s. s\<lparr>EAPOLKeyReceived := False, update_snonce := False\<rparr>) (ptk_entry WPA_PTK_PTKCALCNEGOTIATING a)"
  define keys where "keys = (if wpa_key_mgmt_wpa_psk (sta_key_mgmt (sta a1)) then psks env else [PMK (sta a1)])"
  define frame where "frame = (case last_rx_eapol_key (sta a1) of Some d \<Rightarrow> d | None \<Rightarrow> [])"
  define r where "r = ptk_search env frame keys (ptk_of_octets (fst (ask (stack env) a1))) (snd (ask (stack env) a1))"
  have c: "ctl (snd r) = ctl a1" "sta (snd r) = sta a1" by (simp_all add: r_def)
  have e: "sm_WPA_PTK_PTKCALCNEGOTIATING_Enter env a = (case r of (None, a) \<Rightarrow> a
     | (Some (k, p), a) \<Rightarrow>
         (let a = a_cancel send_eapol_timeout_key (upd (\<lambda>s. s\<lparr>pending_1_of_4_timeout := False\<rparr>) a);
              a = (if wpa_key_mgmt_wpa_psk (sta_key_mgmt (sta a1)) then upd (\<lambda>s. s\<lparr>PMK := take 32 k\<rparr>) a else a) in
          upd (\<lambda>s. s\<lparr>MICVerified := True, PTK := p, PTK_valid := True\<rparr>) a))"
    unfolding sm_WPA_PTK_PTKCALCNEGOTIATING_Enter_def a1_def [symmetric] Let_def keys_def [symmetric]
      frame_def [symmetric] r_def snd_case [of _ "ask (stack env) a1"] by simp
  show ?thesis
  proof (cases "fst r")
    case None
    then have "r = (None, snd r)" by (metis prod.collapse)
    then have "ctl (sm_WPA_PTK_PTKCALCNEGOTIATING_Enter env a) = ctl a1" using c by (subst e) (metis (no_types, lifting) old.prod.case option.case(1))
    then show ?thesis by (intro exI [of _ False]) (simp add: a1_def ptk_entry_def ctl_def)
  next
    case (Some kp)
    obtain k p where kp: "kp = (k, p)" by (cases kp)
    have rr: "r = (Some (k, p), snd r)" using Some kp by (metis prod.collapse)
    have "ctl (sm_WPA_PTK_PTKCALCNEGOTIATING_Enter env a) = ctl (upd (\<lambda>s. s\<lparr>MICVerified := True, PTK := p, PTK_valid := True\<rparr>) a1)"
      using c ctl_D [OF c(1)] by (subst e, subst rr) (simp add: ctl_def ctl_s_def Let_def frame_all del: ctl_timers)
    then show ?thesis by (intro exI [of _ True] exI [of _ p]) (simp add: a1_def ptk_entry_def ctl_def)
  qed
qed

lemma ctl_PTKCALCNEGOTIATING2:
  "ctl (sm_WPA_PTK_PTKCALCNEGOTIATING2_Enter a) =
   ctl (upd (\<lambda>s. s\<lparr>sta_changed := True, wpa_ptk_state := WPA_PTK_PTKCALCNEGOTIATING2, TimeoutCtr := 0\<rparr>) a)"
  unfolding sm_WPA_PTK_PTKCALCNEGOTIATING2_Enter_def ptk_entry_def by (simp add: ctl_def)

lemma ctl_sta_gtk_case:
  assumes "\<And>k b. ctl (f k b) = ctl b"
  shows "ctl (case sta_gtk env a of (None, b) \<Rightarrow> b | (Some k, b) \<Rightarrow> f k b) = ctl a"
proof -
  obtain r b where r: "sta_gtk env a = (r, b)" by (cases "sta_gtk env a")
  then have "ctl b = ctl a" using ctl_sta_gtk [of env a] by simp
  then show ?thesis using assms r by (simp split: option.splits)
qed

lemma ctl_PTKINITNEGOTIATING:
  "ctl (sm_WPA_PTK_PTKINITNEGOTIATING_Enter env a) = ctl (upd (\<lambda>s. s\<lparr>sta_changed := True,
     wpa_ptk_state := WPA_PTK_PTKINITNEGOTIATING, TimeoutEvt := False, TimeoutCtr := TimeoutCtr s + 1\<rparr>) a)"
proof -
  have "ctl (sm_WPA_PTK_PTKINITNEGOTIATING_Enter env a) =
      ctl (upd (\<lambda>s. s\<lparr>TimeoutEvt := False, TimeoutCtr := TimeoutCtr s + 1\<rparr>) (ptk_entry WPA_PTK_PTKINITNEGOTIATING a))"
    unfolding sm_WPA_PTK_PTKINITNEGOTIATING_Enter_def Let_def snd_case [of _ "ask q b" for q b]
    by (simp add: ctl_sta_gtk_case)
  then show ?thesis by (simp add: ctl_def ptk_entry_def)
qed

lemma ctl_PTKINITDONE:
  "\<exists>p l. ctl (sm_WPA_PTK_PTKINITDONE_Enter env a) =
     (ctl_s ((sta a)\<lparr>sta_changed := True, wpa_ptk_state := WPA_PTK_PTKINITDONE, EAPOLKeyReceived := False, PInitAKeys := p\<rparr>),
      ctl_g (grp a), sta_freed a, conf a, filter pair_key (auth_trace a) @ l) \<and>
     set l \<subseteq> {AuthSetKey 0 (wpa_cipher_to_alg (sta_pairwise (sta a))) (sta_addr (sta a)) 0
       (take (wpa_cipher_key_len (sta_pairwise (sta a))) (tk1 (PTK (sta a)) @ tk_u (PTK (sta a))))}"
proof -
  define a1 where "a1 = upd (\<lambda>s. s\<lparr>EAPOLKeyReceived := False\<rparr>) (ptk_entry WPA_PTK_PTKINITDONE a)"
  define k where "k = take (wpa_cipher_key_len (sta_pairwise (sta a))) (tk1 (PTK (sta a)) @ tk_u (PTK (sta a)))"
  define ev where "ev = AuthSetKey 0 (wpa_cipher_to_alg (sta_pairwise (sta a))) (sta_addr (sta a)) 0 k"
  have f: "PTK (sta a1) = PTK (sta a)" "sta_pairwise (sta a1) = sta_pairwise (sta a)" "sta_addr (sta a1) = sta_addr (sta a)"
    "Pair (sta a1) = Pair (sta a)"
    by (simp_all add: a1_def ptk_entry_def)
  define r where "r = (if Pair (sta a1) then wpa_auth_set_key env 0 (wpa_cipher_to_alg (sta_pairwise (sta a))) (sta_addr (sta a)) 0 k a1
    else (True, a1))"
  define l where "l = (if Pair (sta a) \<and> pair_key ev then [ev] else [])"
  have ra: "sta (snd r) = sta a1" "grp (snd r) = grp a1" "sta_freed (snd r) = sta_freed a1" "conf (snd r) = conf a1"
      "filter pair_key (auth_trace (snd r)) = filter pair_key (auth_trace a1) @ l"
    by (simp_all add: r_def l_def ev_def f wpa_auth_set_key_def ask_def a_emit_def)
  have e: "sm_WPA_PTK_PTKINITDONE_Enter env a = (if \<not> fst r then wpa_sta_disconnect (snd r)
     else
       (let a = (if Pair (sta a1) then
             (let a = upd (\<lambda>s. s\<lparr>pairwise_set := True\<rparr>) (snd r);
                  a = (if conf_ptk_rekey (conf a) \<noteq> 0
                    then a_register env (conf_ptk_rekey (conf a)) 0 auth_rekey_ptk_key (a_cancel auth_rekey_ptk_key a)
                    else a) in
              if wpa_key_mgmt_wpa_psk (sta_key_mgmt (sta a1)) then wpa_auth_set_eapol WPA_EAPOL_authorized True a else a)
           else snd r);
            a = wpa_auth_set_eapol WPA_EAPOL_portValid True a;
            a = wpa_auth_set_eapol WPA_EAPOL_keyAvailable False a;
            a = wpa_auth_set_eapol WPA_EAPOL_keyDone True a in
        if sta_wpa (sta a1) = WPA_VERSION_WPA then upd (\<lambda>s. s\<lparr>PInitAKeys := True\<rparr>) a else upd (\<lambda>s. s\<lparr>has_GTK := True\<rparr>) a))"
    unfolding sm_WPA_PTK_PTKINITDONE_Enter_def a1_def [symmetric] Let_def r_def k_def f snd_case [of _ "if c then x else y" for c x y] ..
  have "\<exists>p. ctl (sm_WPA_PTK_PTKINITDONE_Enter env a) =
     (ctl_s ((sta a1)\<lparr>PInitAKeys := p\<rparr>), ctl_g (grp a1), sta_freed a1, conf a1, filter pair_key (auth_trace a1) @ l)"
  proof (cases "fst r \<and> sta_wpa (sta a1) = WPA_VERSION_WPA")
    case True
    then show ?thesis unfolding e Let_def by (intro exI [of _ True]) (simp add: ctl_def frame_all ra ctl_s_def)
  next
    case False
    then show ?thesis unfolding e Let_def
      by (intro exI [of _ "PInitAKeys (sta a1)"]) (auto simp add: ctl_def frame_all ra ctl_s_def)
  qed
  then obtain p where "ctl (sm_WPA_PTK_PTKINITDONE_Enter env a) =
     (ctl_s ((sta a1)\<lparr>PInitAKeys := p\<rparr>), ctl_g (grp a1), sta_freed a1, conf a1, filter pair_key (auth_trace a1) @ l)" ..
  moreover have "set l \<subseteq> {ev}" by (auto simp: l_def)
  ultimately show ?thesis
    by (intro exI [of _ p] exI [of _ l]) (simp add: a1_def ptk_entry_def ev_def k_def)
qed

lemma ctl_GROUP_IDLE:
  "ctl (sm_WPA_PTK_GROUP_IDLE_Enter a) =
   ctl (upd (\<lambda>s. s\<lparr>sta_changed := \<not> Init s, wpa_ptk_group_state := WPA_PTK_GROUP_IDLE, GTimeoutCtr := 0\<rparr>) a)"
  unfolding sm_WPA_PTK_GROUP_IDLE_Enter_def group_entry_def by (simp add: ctl_def ctl_s_def)

lemma ctl_GROUP_REKEYNEGOTIATING:
  "ctl (sm_WPA_PTK_GROUP_REKEYNEGOTIATING_Enter env a) =
   ctl (upd (\<lambda>s. s\<lparr>sta_changed := True, wpa_ptk_group_state := WPA_PTK_GROUP_REKEYNEGOTIATING, GTimeoutCtr := GTimeoutCtr s + 1,
     PInitAKeys := (PInitAKeys s \<and> \<not> (sta_wpa s = WPA_VERSION_WPA \<and> GTimeoutCtr s + 1 \<le> 4)),
     TimeoutEvt := (TimeoutEvt s \<and> GTimeoutCtr s + 1 > 4)\<rparr>) a)"
proof -
  have o: "ctl (snd (if c then ask q b else (x, b))) = ctl b" "sta (snd (if c then ask q b else (x, b))) = sta b" for c q b x
    by simp_all
  define a1 where "a1 = upd (\<lambda>s. s\<lparr>GTimeoutCtr := GTimeoutCtr s + 1\<rparr>) (group_entry WPA_PTK_GROUP_REKEYNEGOTIATING a)"
  show ?thesis
  proof (cases "GTimeoutCtr (sta a1) > 4")
    case True
    then show ?thesis
      unfolding sm_WPA_PTK_GROUP_REKEYNEGOTIATING_Enter_def a1_def [symmetric] Let_def
      by (simp add: ctl_def a1_def group_entry_def)
  next
    case False
    have "ctl (sm_WPA_PTK_GROUP_REKEYNEGOTIATING_Enter env a) =
        ctl (upd (\<lambda>s. s\<lparr>TimeoutEvt := False\<rparr>) (if sta_wpa (sta a1) = WPA_VERSION_WPA then upd (\<lambda>s. s\<lparr>PInitAKeys := False\<rparr>) a1 else a1))"
      unfolding sm_WPA_PTK_GROUP_REKEYNEGOTIATING_Enter_def a1_def [symmetric] Let_def
        snd_case [of _ "if c then ask q b else x" for c q b x] if_not_P [OF False]
      by (simp only: ctl_sta_gtk_case ctl_send_group1 o)
    then show ?thesis using False by (auto simp: ctl_def a1_def group_entry_def ctl_s_def)
  qed
qed

lemma ctl_GROUP_REKEYESTABLISHED:
  "ctl (sm_WPA_PTK_GROUP_REKEYESTABLISHED_Enter a) =
   ctl (updg (uncounted (sta a)) (upd (\<lambda>s. s\<lparr>sta_changed := True, wpa_ptk_group_state := WPA_PTK_GROUP_REKEYESTABLISHED,
     EAPOLKeyReceived := False, GUpdateStationKeys := False, GTimeoutCtr := 0\<rparr>) a))"
  unfolding sm_WPA_PTK_GROUP_REKEYESTABLISHED_Enter_def group_entry_def Let_def
  by (simp add: ctl_def uncounted_def ctl_s_def)

lemma ctl_GROUP_KEYERROR:
  "ctl (sm_WPA_PTK_GROUP_KEYERROR_Enter a) =
   ctl (updg (uncounted (sta a)) (upd (\<lambda>s. s\<lparr>sta_changed := True, wpa_ptk_group_state := WPA_PTK_GROUP_KEYERROR,
     GUpdateStationKeys := False, Disconnect := True\<rparr>) a))"
  unfolding sm_WPA_PTK_GROUP_KEYERROR_Enter_def group_entry_def
  by (simp add: ctl_def uncounted_def ctl_s_def)

section \<open>The group state machine\<close>

lemma ctl_gtk_init:
  "ctl (wpa_group_gtk_init env a) = ctl (updg (\<lambda>g. g\<lparr>group_changed := False, wpa_group_state := WPA_GROUP_GTK_INIT\<rparr>) a)"
  unfolding wpa_group_gtk_init_def by (simp only: ctl_gtk_update) (simp add: ctl_def ctl_g_def)

lemma ctl_setkeysdone:
  "\<exists>ok. ctl (wpa_group_setkeysdone env a) = ctl (updg (\<lambda>g. g\<lparr>group_changed := True,
     wpa_group_state := (if ok then WPA_GROUP_SETKEYSDONE else WPA_GROUP_FATAL_FAILURE)\<rparr>)
     (if ok \<or> sta_freed a then a else upd (\<lambda>s. s\<lparr>Disconnect := True\<rparr>) a))"
proof -
  define a1 where "a1 = updg (\<lambda>g. g\<lparr>group_changed := True, wpa_group_state := WPA_GROUP_SETKEYSDONE\<rparr>) a"
  define r where "r = wpa_group_config_group_keys env a1"
  have c: "ctl (snd r) = ctl a1" "sta (snd r) = sta a1" by (simp_all add: r_def)
  note d = ctl_D [OF c(1)]
  have e: "wpa_group_setkeysdone env a = (if fst r then snd r else wpa_group_fatal_failure (snd r))"
    unfolding wpa_group_setkeysdone_def a1_def [symmetric] Let_def snd_case r_def ..
  show ?thesis
  proof (cases "fst r")
    case True
    then show ?thesis by (intro exI [of _ True]) (simp add: e c a1_def)
  next
    case False
    have "ctl_g ((grp (snd r))\<lparr>group_changed := True, wpa_group_state := WPA_GROUP_FATAL_FAILURE\<rparr>) =
        (ctl_g (grp (snd r)))\<lparr>group_changed := True, wpa_group_state := WPA_GROUP_FATAL_FAILURE\<rparr>"
      by (simp add: ctl_g_def)
    also have "\<dots> = ctl_g ((grp a)\<lparr>group_changed := True, wpa_group_state := WPA_GROUP_FATAL_FAILURE\<rparr>)"
      by (simp add: d a1_def) (simp add: ctl_g_def)
    finally show ?thesis using False d
      by (intro exI [of _ False]) (simp add: e wpa_group_fatal_failure_def Let_def ctl_def c a1_def)
  qed
qed

text \<open>The group and the station before the station takes its step.\<close>

lemma setkeys_start:
  "\<exists>b n g h. wpa_group_setkeys env stepf a = (if g then stepf b else b) \<and> (h \<longrightarrow> g \<or> GUpdateStationKeys (sta a)) \<and>
     ctl b = ctl (updg (\<lambda>g. g\<lparr>group_changed := True, wpa_group_state := WPA_GROUP_SETKEYS, GTKReKey := False,
       GKeyDoneStations := n\<rparr>) (upd (\<lambda>s. s\<lparr>GUpdateStationKeys := h\<rparr>) a))"
proof -
  define a1 where "a1 = updg (\<lambda>g. swap_keys (g\<lparr>group_changed := True, wpa_group_state := WPA_GROUP_SETKEYS, GTKReKey := False\<rparr>)) a"
  define a2 where "a2 = updg (\<lambda>g. g\<lparr>GKeyDoneStations := 0\<rparr>) (wpa_gtk_update env a1)"
  have e: "wpa_group_setkeys env stepf a = wpa_group_update_sta stepf a2"
    unfolding wpa_group_setkeys_def a1_def [symmetric] Let_def a2_def ..
  have g: "ctl_g ((grp (wpa_gtk_update env a1))\<lparr>GKeyDoneStations := n\<rparr>) = (ctl_g (grp (wpa_gtk_update env a1)))\<lparr>GKeyDoneStations := n\<rparr>" for n
    by (simp add: ctl_g_def)
  have k: "GKeyDoneStations (grp a2) = 0" "sta a2 = sta a" by (simp_all add: a2_def a1_def)
  have c: "ctl a2 = ctl (updg (\<lambda>g. g\<lparr>group_changed := True, wpa_group_state := WPA_GROUP_SETKEYS, GTKReKey := False,
       GKeyDoneStations := 0\<rparr>) a)"
    by (simp add: ctl_def a2_def g frame_all) (simp add: a1_def ctl_g_def swap_keys_def)
  have u: "ctl (upd f a2) = (ctl_s (f (sta a)), snd (ctl a2))" for f by (simp add: ctl_def k)
  have n: "ctl (upd f (updg (\<lambda>g. g\<lparr>GKeyDoneStations := GKeyDoneStations g + 1\<rparr>) a2)) =
      (ctl_s (f (sta a)), snd (ctl (updg (\<lambda>g. g\<lparr>GKeyDoneStations := 1\<rparr>) a2)))" for f by (simp add: ctl_def k)
  have n1: "ctl (updg (\<lambda>g. g\<lparr>GKeyDoneStations := 1\<rparr>) a2) = ctl (updg (\<lambda>g. g\<lparr>group_changed := True,
      wpa_group_state := WPA_GROUP_SETKEYS, GTKReKey := False, GKeyDoneStations := 1\<rparr>) a)"
    by (simp add: ctl_def a2_def g frame_all) (simp add: a1_def ctl_g_def swap_keys_def)
  have fr: "sta_freed a2 = sta_freed a" using ctl_D [OF c] by simp
  consider (freed) "sta_freed a" | (busy) "\<not> sta_freed a" "wpa_ptk_state (sta a) \<noteq> WPA_PTK_PTKINITDONE"
    | (sleep) "\<not> sta_freed a" "wpa_ptk_state (sta a) = WPA_PTK_PTKINITDONE" "is_wnmsleep (sta a)"
    | (step) "\<not> sta_freed a" "wpa_ptk_state (sta a) = WPA_PTK_PTKINITDONE" "\<not> is_wnmsleep (sta a)" by blast
  then show ?thesis
  proof cases
    case freed
    then show ?thesis by (intro exI [of _ a2] exI [of _ 0] exI [of _ False] exI [of _ "GUpdateStationKeys (sta a)"]) (simp add: e wpa_group_update_sta_def fr c, simp add: ctl_def)
  next
    case busy
    then show ?thesis
      by (intro exI [of _ "wpa_group_update_sta stepf a2"] exI [of _ 0] exI [of _ False] exI [of _ False])
        (simp add: e wpa_group_update_sta_def fr k u c, simp add: ctl_def ctl_s_def)
  next
    case sleep
    then show ?thesis by (intro exI [of _ a2] exI [of _ 0] exI [of _ False] exI [of _ "GUpdateStationKeys (sta a)"]) (simp add: e wpa_group_update_sta_def fr k c, simp add: ctl_def)
  next
    case step
    then show ?thesis
      by (intro exI [of _ "upd (\<lambda>s. s\<lparr>GUpdateStationKeys := True\<rparr>)
          (updg (\<lambda>g. g\<lparr>GKeyDoneStations := GKeyDoneStations g + 1\<rparr>) a2)"] exI [of _ 1] exI [of _ True] exI [of _ True])
        (simp add: e wpa_group_update_sta_def fr k n n1, simp add: ctl_def ctl_s_def)
  qed
qed

end
