(* ===== verification/WpaAuthEnds.thy ===== *)
theory WpaAuthEnds
  imports WpaAuthFrames
begin

text \<open>
  The loops of the authenticator end: a rank of the requests, the states and the keys that goes down in
  every round that changes something. The fuel of the model is above the largest rank.
\<close>

section \<open>The rank\<close>

definition flag :: "bool \<Rightarrow> nat \<Rightarrow> nat" where
  "flag b n = (if b then n else 0)"

lemma flag_simps [simp]: "flag True n = n" "flag False n = 0" "flag b n \<le> n"
  by (simp_all add: flag_def)

definition ptk_rank :: "wpa_ptk_state \<Rightarrow> nat" where
  "ptk_rank st = (case st of WPA_PTK_INITIALIZE \<Rightarrow> 1 | WPA_PTK_DISCONNECT \<Rightarrow> 3 | WPA_PTK_DISCONNECTED \<Rightarrow> 2
     | WPA_PTK_AUTHENTICATION \<Rightarrow> 20 | WPA_PTK_AUTHENTICATION2 \<Rightarrow> 11 | WPA_PTK_INITPMK \<Rightarrow> 10 | WPA_PTK_INITPSK \<Rightarrow> 10
     | WPA_PTK_PTKSTART \<Rightarrow> 9 | WPA_PTK_PTKCALCNEGOTIATING \<Rightarrow> 8 | WPA_PTK_PTKCALCNEGOTIATING2 \<Rightarrow> 7
     | WPA_PTK_PTKINITNEGOTIATING \<Rightarrow> 6 | WPA_PTK_PTKINITDONE \<Rightarrow> 5)"

definition wants_group :: "wpa_state_machine \<Rightarrow> bool" where
  "wants_group s \<longleftrightarrow> sta_wpa s = WPA_VERSION_WPA \<and> PInitAKeys s"

definition group_rank :: "wpa_ptk_group_state \<Rightarrow> bool \<Rightarrow> bool \<Rightarrow> int \<Rightarrow> nat" where
  "group_rank st upd_keys init_keys ctr =
    (case st of
       WPA_PTK_GROUP_IDLE \<Rightarrow> 1 + flag (upd_keys \<or> init_keys) (if ctr \<ge> 4 then 18 else 10)
     | WPA_PTK_GROUP_REKEYNEGOTIATING \<Rightarrow> (if ctr > 4 then 8 else 9) + flag init_keys 10
     | _ \<Rightarrow> 2 + flag (upd_keys \<or> init_keys) 10)"

definition sta_group_rank :: "wpa_state_machine \<Rightarrow> nat" where
  "sta_group_rank s = group_rank (wpa_ptk_group_state s) (GUpdateStationKeys s) (wants_group s) (GTimeoutCtr s)"

definition requests :: "wpa_state_machine \<Rightarrow> nat" where
  "requests s = flag (AuthenticationRequest s) 25 + flag (ReAuthenticationRequest s) 20 + flag (PTKRequest s) 10 +
     flag (DeauthenticationRequest s) 3 + flag (Disconnect s) 5 + flag (update_snonce s) 5 + flag (TimeoutEvt s) 5 +
     flag (EAPOLKeyReceived s) 30 + flag (PtkGroupInit s) 12"

definition key_rank :: "wpa_group \<Rightarrow> nat" where
  "key_rank g = flag (GTKReKey g) 60 +
     (if GInit g then 30
      else (case wpa_group_state g of WPA_GROUP_GTK_INIT \<Rightarrow> 30 | WPA_GROUP_SETKEYS \<Rightarrow> 20 | WPA_GROUP_SETKEYSDONE \<Rightarrow> 10
        | WPA_GROUP_FATAL_FAILURE \<Rightarrow> 0))"

definition sta_rank :: "wpa_state_machine \<Rightarrow> nat" where
  "sta_rank s = requests s + ptk_rank (wpa_ptk_state s) + sta_group_rank s"

definition sm_rank :: "authenticator \<Rightarrow> nat" where
  "sm_rank a = sta_rank (sta a) + key_rank (grp a)"

lemma ranks_ctl: "sta_rank (ctl_s s) = sta_rank s" "key_rank (ctl_g g) = key_rank g"
  by (simp_all add: sta_rank_def requests_def sta_group_rank_def wants_group_def key_rank_def ctl_s_def ctl_g_def)

lemma sm_rank_ctl: "ctl b = ctl a \<Longrightarrow> sm_rank b = sm_rank a"
  unfolding sm_rank_def using ctl_D(1,2) ranks_ctl by metis

lemma ptk_rank_bounds: "1 \<le> ptk_rank st" "ptk_rank st \<le> 20"
  by (cases st; simp add: ptk_rank_def)+

lemma group_rank_bounds: "1 \<le> sta_group_rank s" "sta_group_rank s \<le> 19"
  by (cases "wpa_ptk_group_state s"; simp add: sta_group_rank_def group_rank_def flag_def)+

lemma key_rank_bound: "key_rank g \<le> 90"
  by (cases "wpa_group_state g"; simp add: key_rank_def flag_def)

lemma sm_rank_bound: "sm_rank a < 250"
proof -
  have "requests (sta a) \<le> 25 + 20 + 10 + 3 + 5 + 5 + 5 + 30 + 12"
    unfolding requests_def by (intro add_mono flag_simps(3))
  then have "requests (sta a) \<le> 115" by simp
  then show ?thesis
    using ptk_rank_bounds(2) [of "wpa_ptk_state (sta a)"] group_rank_bounds(2) [of "sta a"] key_rank_bound [of "grp a"]
    unfolding sm_rank_def sta_rank_def by linarith
qed

lemma downI: "\<lbrakk>ctl b = ctl c; sta_rank (sta c) < sta_rank (sta a); key_rank (grp c) = key_rank (grp a)\<rbrakk> \<Longrightarrow> sm_rank b < sm_rank a"
  using sm_rank_ctl [of b c] by (simp add: sm_rank_def)

lemma key_rank_uncounted [simp]: "key_rank (uncounted s g) = key_rank g"
  by (simp add: uncounted_def key_rank_def)

text \<open>The group part of the rank after changes by the PTK state machine.\<close>

lemmas rank_defs = sta_rank_def requests_def sta_group_rank_def wants_group_def

lemma rank_DISCONNECT:
  assumes "Disconnect (sta a) \<or> ptk_rank (wpa_ptk_state (sta a)) > 3"
  shows "sm_rank (sm_WPA_PTK_DISCONNECT_Enter a) < sm_rank a"
  using assms ptk_rank_bounds(1) [of "wpa_ptk_state (sta a)"]
  by (intro downI [OF ctl_DISCONNECT]) (auto simp: rank_defs flag_def ptk_rank_def [of WPA_PTK_DISCONNECT])

lemma rank_DISCONNECTED:
  assumes "DeauthenticationRequest (sta a) \<or> wpa_ptk_state (sta a) = WPA_PTK_DISCONNECT"
  shows "sm_rank (sm_WPA_PTK_DISCONNECTED_Enter a) < sm_rank a"
  using assms ptk_rank_bounds(1) [of "wpa_ptk_state (sta a)"]
  by (intro downI [OF ctl_DISCONNECTED]) (auto simp: rank_defs flag_def ptk_rank_def [of WPA_PTK_DISCONNECTED] ptk_rank_def [of WPA_PTK_DISCONNECT])

lemma rank_AUTHENTICATION:
  assumes "AuthenticationRequest (sta a)"
  shows "sm_rank (sm_WPA_PTK_AUTHENTICATION_Enter a) < sm_rank a"
  using assms ptk_rank_bounds(1) [of "wpa_ptk_state (sta a)"]
  by (intro downI [OF ctl_AUTHENTICATION]) (auto simp: rank_defs flag_def ptk_rank_def [of WPA_PTK_AUTHENTICATION])

lemma rank_AUTHENTICATION2:
  assumes "ReAuthenticationRequest (sta a) \<or> wpa_ptk_state (sta a) = WPA_PTK_AUTHENTICATION"
  shows "sm_rank (sm_WPA_PTK_AUTHENTICATION2_Enter env a) < sm_rank a"
proof -
  obtain d where c: "ctl (sm_WPA_PTK_AUTHENTICATION2_Enter env a) = ctl (upd (\<lambda>s. s\<lparr>sta_changed := True,
     wpa_ptk_state := WPA_PTK_AUTHENTICATION2, ReAuthenticationRequest := False, Disconnect := (d \<or> Disconnect s),
     TimeoutCtr := (if d then TimeoutCtr s else 0)\<rparr>) a)" using ctl_AUTHENTICATION2 by blast
  show ?thesis using assms ptk_rank_bounds(1) [of "wpa_ptk_state (sta a)"]
    by (intro downI [OF c])
      (auto simp: rank_defs flag_def ptk_rank_def [of WPA_PTK_AUTHENTICATION2] ptk_rank_def [of WPA_PTK_AUTHENTICATION])
qed

lemma rank_INITPMK:
  assumes "wpa_ptk_state (sta a) = WPA_PTK_AUTHENTICATION2"
  shows "sm_rank (sm_WPA_PTK_INITPMK_Enter env a) < sm_rank a" "sm_rank (sm_WPA_PTK_INITPSK_Enter env a) < sm_rank a"
  using assms by (intro downI [OF ctl_INITPMK] downI [OF ctl_INITPSK]; simp add: rank_defs ptk_rank_def)+

lemma rank_PTKSTART:
  assumes "PTKRequest (sta a) \<or> TimeoutEvt (sta a) \<and> ptk_rank (wpa_ptk_state (sta a)) > 7 \<or> ptk_rank (wpa_ptk_state (sta a)) > 9"
  shows "sm_rank (sm_WPA_PTK_PTKSTART_Enter env a) < sm_rank a"
  using assms ptk_rank_bounds(1) [of "wpa_ptk_state (sta a)"]
  by (intro downI [OF ctl_PTKSTART]) (auto simp: rank_defs flag_def ptk_rank_def [of WPA_PTK_PTKSTART])

lemma rank_PTKCALCNEGOTIATING:
  assumes "EAPOLKeyReceived (sta a) \<or> update_snonce (sta a) \<and> wpa_ptk_state (sta a) = WPA_PTK_PTKINITNEGOTIATING"
  shows "sm_rank (sm_WPA_PTK_PTKCALCNEGOTIATING_Enter env a) < sm_rank a"
proof -
  obtain ok p where c: "ctl (sm_WPA_PTK_PTKCALCNEGOTIATING_Enter env a) = ctl (upd (\<lambda>s. s\<lparr>sta_changed := True,
     wpa_ptk_state := WPA_PTK_PTKCALCNEGOTIATING, EAPOLKeyReceived := False, update_snonce := False,
     MICVerified := (ok \<or> MICVerified s), PTK := (if ok then p else PTK s), PTK_valid := (ok \<or> PTK_valid s)\<rparr>) a)"
    using ctl_PTKCALCNEGOTIATING by blast
  show ?thesis using assms ptk_rank_bounds(1) [of "wpa_ptk_state (sta a)"]
    by (intro downI [OF c])
      (auto simp: rank_defs flag_def ptk_rank_def [of WPA_PTK_PTKCALCNEGOTIATING] ptk_rank_def [of WPA_PTK_PTKINITNEGOTIATING])
qed

lemma rank_PTKCALCNEGOTIATING2:
  assumes "wpa_ptk_state (sta a) = WPA_PTK_PTKCALCNEGOTIATING"
  shows "sm_rank (sm_WPA_PTK_PTKCALCNEGOTIATING2_Enter a) < sm_rank a"
  using assms by (intro downI [OF ctl_PTKCALCNEGOTIATING2]; simp add: rank_defs ptk_rank_def)

lemma rank_PTKINITNEGOTIATING:
  assumes "wpa_ptk_state (sta a) = WPA_PTK_PTKCALCNEGOTIATING2 \<or>
    wpa_ptk_state (sta a) = WPA_PTK_PTKINITNEGOTIATING \<and> TimeoutEvt (sta a)"
  shows "sm_rank (sm_WPA_PTK_PTKINITNEGOTIATING_Enter env a) < sm_rank a"
  using assms by (intro downI [OF ctl_PTKINITNEGOTIATING]) (auto simp: rank_defs flag_def ptk_rank_def)

lemma rank_PTKINITDONE:
  assumes "EAPOLKeyReceived (sta a)"
  shows "sm_rank (sm_WPA_PTK_PTKINITDONE_Enter env a) < sm_rank a"
proof -
  obtain p l where c: "ctl (sm_WPA_PTK_PTKINITDONE_Enter env a) =
     (ctl_s ((sta a)\<lparr>sta_changed := True, wpa_ptk_state := WPA_PTK_PTKINITDONE, EAPOLKeyReceived := False, PInitAKeys := p\<rparr>),
      ctl_g (grp a), sta_freed a, conf a, filter pair_key (auth_trace a) @ l)" using ctl_PTKINITDONE by blast
  define s where "s = (sta a)\<lparr>sta_changed := True, wpa_ptk_state := WPA_PTK_PTKINITDONE, EAPOLKeyReceived := False, PInitAKeys := p\<rparr>"
  have "sm_rank (sm_WPA_PTK_PTKINITDONE_Enter env a) = sta_rank s + key_rank (grp a)"
    using c ranks_ctl unfolding sm_rank_def ctl_def s_def by (metis prod.inject)
  moreover have "requests s + 30 = requests (sta a)" using assms by (simp add: s_def requests_def)
  moreover have "ptk_rank (wpa_ptk_state s) = 5" by (simp add: s_def ptk_rank_def)
  moreover have "sta_group_rank s \<le> 19" by (rule group_rank_bounds)
  ultimately show ?thesis
    using ptk_rank_bounds(1) [of "wpa_ptk_state (sta a)"] group_rank_bounds(1) [of "sta a"]
    by (simp add: sm_rank_def sta_rank_def)
qed

lemma rank_INITIALIZE:
  "sm_rank (sm_WPA_PTK_INITIALIZE_Enter env a) \<le> sm_rank a"
  "wpa_ptk_state (sta a) = WPA_PTK_DISCONNECTED \<Longrightarrow> sm_rank (sm_WPA_PTK_INITIALIZE_Enter env a) < sm_rank a"
proof -
  define f where "f = (\<lambda>s :: wpa_state_machine. s\<lparr>sta_changed := \<not> Init s, wpa_ptk_state := WPA_PTK_INITIALIZE,
     GUpdateStationKeys := False, PInitAKeys := (PInitAKeys s \<and> sta_wpa s \<noteq> WPA_VERSION_WPA), Pair := True,
     PTK_valid := False, PTK := ptk_zero, TimeoutCtr := 0\<rparr>)"
  have "requests (f (sta a)) = requests (sta a)" "sta_group_rank (f (sta a)) \<le> sta_group_rank (sta a)"
    by (simp_all add: f_def requests_def) (cases "wpa_ptk_group_state (sta a)"; simp add: sta_group_rank_def group_rank_def wants_group_def flag_def)
  moreover have "ptk_rank (wpa_ptk_state (f (sta a))) = 1" by (simp add: f_def ptk_rank_def)
  moreover have "sm_rank (sm_WPA_PTK_INITIALIZE_Enter env a) = sta_rank (f (sta a)) + key_rank (grp a)"
    using sm_rank_ctl [OF ctl_INITIALIZE [of env a]] by (simp add: sm_rank_def f_def)
  ultimately show "sm_rank (sm_WPA_PTK_INITIALIZE_Enter env a) \<le> sm_rank a"
    "wpa_ptk_state (sta a) = WPA_PTK_DISCONNECTED \<Longrightarrow> sm_rank (sm_WPA_PTK_INITIALIZE_Enter env a) < sm_rank a"
    using ptk_rank_bounds(1) [of "wpa_ptk_state (sta a)"]
    by (simp_all add: sm_rank_def sta_rank_def ptk_rank_def [of WPA_PTK_DISCONNECTED])
qed

text \<open>The cases of a step of the PTK state machine; \<open>c\<close> is the state after a question to the program.\<close>

lemma ptk_step_cases:
  assumes init: "Init (sta a) \<Longrightarrow> P (sm_WPA_PTK_INITIALIZE_Enter env a)"
    and stay: "\<And>c. \<lbrakk>ctl c = ctl a; sta c = sta a; \<not> Init (sta a)\<rbrakk> \<Longrightarrow> P c"
    and disconnect: "\<And>c. \<lbrakk>ctl c = ctl a; sta c = sta a; \<not> Init (sta a); Disconnect (sta a) \<or> ptk_rank (wpa_ptk_state (sta a)) > 3\<rbrakk> \<Longrightarrow>
      P (sm_WPA_PTK_DISCONNECT_Enter c)"
    and disconnected: "\<lbrakk>\<not> Init (sta a); DeauthenticationRequest (sta a) \<or> wpa_ptk_state (sta a) = WPA_PTK_DISCONNECT\<rbrakk> \<Longrightarrow>
      P (sm_WPA_PTK_DISCONNECTED_Enter a)"
    and initialize: "\<lbrakk>\<not> Init (sta a); wpa_ptk_state (sta a) = WPA_PTK_DISCONNECTED\<rbrakk> \<Longrightarrow> P (sm_WPA_PTK_INITIALIZE_Enter env a)"
    and auth: "\<lbrakk>\<not> Init (sta a); AuthenticationRequest (sta a)\<rbrakk> \<Longrightarrow> P (sm_WPA_PTK_AUTHENTICATION_Enter a)"
    and auth2: "\<lbrakk>\<not> Init (sta a); ReAuthenticationRequest (sta a) \<or> wpa_ptk_state (sta a) = WPA_PTK_AUTHENTICATION\<rbrakk> \<Longrightarrow>
      P (sm_WPA_PTK_AUTHENTICATION2_Enter env a)"
    and pmk: "\<And>c. \<lbrakk>ctl c = ctl a; sta c = sta a; \<not> Init (sta a); wpa_ptk_state (sta a) = WPA_PTK_AUTHENTICATION2\<rbrakk> \<Longrightarrow>
      P (sm_WPA_PTK_INITPMK_Enter env c)"
    and psk: "\<And>c. \<lbrakk>ctl c = ctl a; sta c = sta a; \<not> Init (sta a); wpa_ptk_state (sta a) = WPA_PTK_AUTHENTICATION2\<rbrakk> \<Longrightarrow>
      P (sm_WPA_PTK_INITPSK_Enter env c)"
    and start: "\<And>c. \<lbrakk>ctl c = ctl a; sta c = sta a; \<not> Init (sta a); PTKRequest (sta a) \<or>
        TimeoutEvt (sta a) \<and> ptk_rank (wpa_ptk_state (sta a)) > 7 \<or> ptk_rank (wpa_ptk_state (sta a)) > 9\<rbrakk> \<Longrightarrow>
      P (sm_WPA_PTK_PTKSTART_Enter env c)"
    and calc: "\<lbrakk>\<not> Init (sta a); EAPOLKeyReceived (sta a) \<or> update_snonce (sta a) \<and> wpa_ptk_state (sta a) = WPA_PTK_PTKINITNEGOTIATING\<rbrakk> \<Longrightarrow>
      P (sm_WPA_PTK_PTKCALCNEGOTIATING_Enter env a)"
    and calc2: "\<lbrakk>\<not> Init (sta a); wpa_ptk_state (sta a) = WPA_PTK_PTKCALCNEGOTIATING\<rbrakk> \<Longrightarrow> P (sm_WPA_PTK_PTKCALCNEGOTIATING2_Enter a)"
    and neg: "\<lbrakk>\<not> Init (sta a); wpa_ptk_state (sta a) = WPA_PTK_PTKCALCNEGOTIATING2 \<or>
        wpa_ptk_state (sta a) = WPA_PTK_PTKINITNEGOTIATING \<and> TimeoutEvt (sta a)\<rbrakk> \<Longrightarrow> P (sm_WPA_PTK_PTKINITNEGOTIATING_Enter env a)"
    and fin: "\<lbrakk>\<not> Init (sta a); wpa_ptk_state (sta a) = WPA_PTK_PTKINITNEGOTIATING; key_for True (sta a); MICVerified (sta a)\<rbrakk> \<Longrightarrow>
      P (sm_WPA_PTK_PTKINITDONE_Enter env a)"
  shows "P (sm_WPA_PTK_Step env a)"
proof -
  have f: "ctl (fail_4way a) = ctl a" "sta (fail_4way a) = sta a" by (simp_all add: ctl_def fail_4way_def)
  define e where "e v = snd (wpa_auth_get_eapol env v a)" for v
  have e: "ctl (e v) = ctl a" "sta (e v) = sta a" for v by (simp_all add: e_def)
  have fe: "ctl (fail_4way (e v)) = ctl a" "sta (fail_4way (e v)) = sta a" for v
    using e by (simp_all add: ctl_def fail_4way_def)
  show ?thesis
  proof (cases "Init (sta a) \<or> Disconnect (sta a) \<or> DeauthenticationRequest (sta a) \<or> AuthenticationRequest (sta a) \<or>
      ReAuthenticationRequest (sta a) \<or> PTKRequest (sta a)")
    case True
    then show ?thesis unfolding sm_WPA_PTK_Step_def Let_def
      using init disconnect [of a] disconnected auth auth2 start [of a] by (simp split: if_split) blast
  next
    case False
    then have n: "\<not> Init (sta a)" and s: "sm_WPA_PTK_Step env a = ptk_state_step env a"
      by (auto simp: sm_WPA_PTK_Step_def)
    note r = ptk_rank_def ptk_state_step_def Let_def snd_case [of _ "wpa_auth_get_eapol env v a" for v] e_def [symmetric]
    show ?thesis
    proof (cases "wpa_ptk_state (sta a)")
      case WPA_PTK_INITIALIZE
      then show ?thesis using stay [of a] n by (simp add: s r)
    next
      case WPA_PTK_DISCONNECT
      then show ?thesis using disconnected n by (simp add: s r)
    next
      case WPA_PTK_DISCONNECTED
      then show ?thesis using initialize n by (simp add: s r)
    next
      case WPA_PTK_AUTHENTICATION
      then show ?thesis using auth2 n by (simp add: s r)
    next
      case WPA_PTK_AUTHENTICATION2
      then show ?thesis
        using stay [of a] stay [OF e] pmk [OF e] psk [of a] psk [OF e] n
        by (cases "wpa_key_mgmt_wpa_ieee8021x (sta_key_mgmt (sta a))") (simp_all add: s r)
    next
      case WPA_PTK_INITPMK
      then show ?thesis using start [OF e] disconnect [OF fe] n by (simp add: s r)
    next
      case WPA_PTK_INITPSK
      then show ?thesis using start [of a] disconnect [OF f] n by (simp add: s r)
    next
      case WPA_PTK_PTKSTART
      then show ?thesis using calc start [of a] disconnect [OF f] stay [of a] n by (simp add: s r key_for_def)
    next
      case WPA_PTK_PTKCALCNEGOTIATING
      then show ?thesis using calc calc2 start [of a] stay [of a] n by (simp add: s r key_for_def)
    next
      case WPA_PTK_PTKCALCNEGOTIATING2
      then show ?thesis using neg n by (simp add: s r)
    next
      case WPA_PTK_PTKINITNEGOTIATING
      then show ?thesis using calc fin neg disconnect [OF f] stay [of a] n by (simp add: s r key_for_def)
    next
      case WPA_PTK_PTKINITDONE
      then show ?thesis using stay [of a] n by (simp add: s r)
    qed
  qed
qed

lemma rank_PTK_Step:
  "sm_rank (sm_WPA_PTK_Step env a) < sm_rank a \<or>
   sm_rank (sm_WPA_PTK_Step env a) \<le> sm_rank a \<and> (sta_changed (sta (sm_WPA_PTK_Step env a)) \<longrightarrow> sta_changed (sta a))"
proof (rule ptk_step_cases)
  show "sm_rank (sm_WPA_PTK_INITIALIZE_Enter env a) < sm_rank a \<or> sm_rank (sm_WPA_PTK_INITIALIZE_Enter env a) \<le> sm_rank a \<and>
    (sta_changed (sta (sm_WPA_PTK_INITIALIZE_Enter env a)) \<longrightarrow> sta_changed (sta a))" if "Init (sta a)"
  proof -
    have "sta_changed (ctl_s (sta (sm_WPA_PTK_INITIALIZE_Enter env a))) = False"
      using ctl_D(1) [OF ctl_INITIALIZE [of env a]] that by (simp add: ctl_s_def)
    then show ?thesis using rank_INITIALIZE(1) [of env a] by (simp add: ctl_s_def)
  qed
next
  fix c assume c: "ctl c = ctl a" "sta c = sta a"
  note k = sm_rank_ctl [OF c(1)] c(2)
  show "sm_rank c < sm_rank a \<or> sm_rank c \<le> sm_rank a \<and> (sta_changed (sta c) \<longrightarrow> sta_changed (sta a))" by (simp add: k)
  show "sm_rank (sm_WPA_PTK_DISCONNECT_Enter c) < sm_rank a \<or> sm_rank (sm_WPA_PTK_DISCONNECT_Enter c) \<le> sm_rank a \<and>
      (sta_changed (sta (sm_WPA_PTK_DISCONNECT_Enter c)) \<longrightarrow> sta_changed (sta a))"
    if "Disconnect (sta a) \<or> ptk_rank (wpa_ptk_state (sta a)) > 3" using rank_DISCONNECT [of c] that by (simp add: k)
  show "sm_rank (sm_WPA_PTK_PTKSTART_Enter env c) < sm_rank a \<or> sm_rank (sm_WPA_PTK_PTKSTART_Enter env c) \<le> sm_rank a \<and>
      (sta_changed (sta (sm_WPA_PTK_PTKSTART_Enter env c)) \<longrightarrow> sta_changed (sta a))"
    if "PTKRequest (sta a) \<or> TimeoutEvt (sta a) \<and> ptk_rank (wpa_ptk_state (sta a)) > 7 \<or> ptk_rank (wpa_ptk_state (sta a)) > 9"
    using rank_PTKSTART [of c env] that by (simp add: k)
  assume "wpa_ptk_state (sta a) = WPA_PTK_AUTHENTICATION2"
  then show "sm_rank (sm_WPA_PTK_INITPMK_Enter env c) < sm_rank a \<or> sm_rank (sm_WPA_PTK_INITPMK_Enter env c) \<le> sm_rank a \<and>
      (sta_changed (sta (sm_WPA_PTK_INITPMK_Enter env c)) \<longrightarrow> sta_changed (sta a))"
    "sm_rank (sm_WPA_PTK_INITPSK_Enter env c) < sm_rank a \<or> sm_rank (sm_WPA_PTK_INITPSK_Enter env c) \<le> sm_rank a \<and>
      (sta_changed (sta (sm_WPA_PTK_INITPSK_Enter env c)) \<longrightarrow> sta_changed (sta a))"
    using rank_INITPMK [of c env] by (simp_all add: k)
qed (simp_all add: rank_DISCONNECTED rank_INITIALIZE rank_AUTHENTICATION rank_AUTHENTICATION2 rank_PTKCALCNEGOTIATING
    rank_PTKCALCNEGOTIATING2 rank_PTKINITNEGOTIATING rank_PTKINITDONE key_for_def)

lemma ctl_same:
  assumes "ctl b = ctl a"
  shows "Init (sta b) = Init (sta a)" "GUpdateStationKeys (sta b) = GUpdateStationKeys (sta a)"
    "wants_group (sta b) = wants_group (sta a)" "sta_changed (sta b) = sta_changed (sta a)"
    "EAPOLKeyReceived (sta b) = EAPOLKeyReceived (sta a)" "MICVerified (sta b) = MICVerified (sta a)"
    "PTK (sta b) = PTK (sta a)" "wpa_ptk_state (sta b) = wpa_ptk_state (sta a)" "sta_addr (sta b) = sta_addr (sta a)"
    "sta_pairwise (sta b) = sta_pairwise (sta a)" "pending_deinit (sta b) = pending_deinit (sta a)"
    "in_step_loop (sta b) = in_step_loop (sta a)" "group_changed (grp b) = group_changed (grp a)"
    "filter pair_key (auth_trace b) = filter pair_key (auth_trace a)" "sta_freed b = sta_freed a"
    "key_for pw (sta b) = key_for pw (sta a)"
proof -
  have s: "f (ctl_s (sta b)) = f (ctl_s (sta a))" for f :: "wpa_state_machine \<Rightarrow> 'x" using ctl_D(1) [OF assms] by simp
  show "Init (sta b) = Init (sta a)" using s [of Init] by (simp add: ctl_s_def)
  show "GUpdateStationKeys (sta b) = GUpdateStationKeys (sta a)" using s [of GUpdateStationKeys] by (simp add: ctl_s_def)
  show "wants_group (sta b) = wants_group (sta a)" using s [of wants_group] by (simp add: ctl_s_def wants_group_def)
  show "sta_changed (sta b) = sta_changed (sta a)" using s [of sta_changed] by (simp add: ctl_s_def)
  show "EAPOLKeyReceived (sta b) = EAPOLKeyReceived (sta a)" using s [of EAPOLKeyReceived] by (simp add: ctl_s_def)
  show "key_for pw (sta b) = key_for pw (sta a)" using s [of "key_for pw"] by (simp add: ctl_s_def key_for_def)
  show "MICVerified (sta b) = MICVerified (sta a)" using s [of MICVerified] by (simp add: ctl_s_def)
  show "PTK (sta b) = PTK (sta a)" using s [of PTK] by (simp add: ctl_s_def)
  show "wpa_ptk_state (sta b) = wpa_ptk_state (sta a)" using s [of wpa_ptk_state] by (simp add: ctl_s_def)
  show "sta_addr (sta b) = sta_addr (sta a)" using s [of sta_addr] by (simp add: ctl_s_def)
  show "sta_pairwise (sta b) = sta_pairwise (sta a)" using s [of sta_pairwise] by (simp add: ctl_s_def)
  show "pending_deinit (sta b) = pending_deinit (sta a)" using s [of pending_deinit] by (simp add: ctl_s_def)
  show "in_step_loop (sta b) = in_step_loop (sta a)" using s [of in_step_loop] by (simp add: ctl_s_def)
  show "group_changed (grp b) = group_changed (grp a)"
    using arg_cong [OF ctl_D(2) [OF assms], of group_changed] by (simp add: ctl_g_def)
qed (simp_all add: ctl_D [OF assms])

lemma group_changed_uncounted [simp]: "group_changed (uncounted s g) = group_changed g"
  by (simp add: uncounted_def)

lemma same_PTKINITDONE:
  "Init (sta (sm_WPA_PTK_PTKINITDONE_Enter env a)) = Init (sta a)"
  "group_changed (grp (sm_WPA_PTK_PTKINITDONE_Enter env a)) = group_changed (grp a)"
  "pending_deinit (sta (sm_WPA_PTK_PTKINITDONE_Enter env a)) = pending_deinit (sta a)"
proof -
  obtain p l where c: "ctl (sm_WPA_PTK_PTKINITDONE_Enter env a) =
     (ctl_s ((sta a)\<lparr>sta_changed := True, wpa_ptk_state := WPA_PTK_PTKINITDONE, EAPOLKeyReceived := False, PInitAKeys := p\<rparr>),
      ctl_g (grp a), sta_freed a, conf a, filter pair_key (auth_trace a) @ l)" using ctl_PTKINITDONE by blast
  then have s: "ctl_s (sta (sm_WPA_PTK_PTKINITDONE_Enter env a)) =
      ctl_s ((sta a)\<lparr>sta_changed := True, wpa_ptk_state := WPA_PTK_PTKINITDONE, EAPOLKeyReceived := False, PInitAKeys := p\<rparr>)"
    and g: "ctl_g (grp (sm_WPA_PTK_PTKINITDONE_Enter env a)) = ctl_g (grp a)" by (simp_all add: ctl_def)
  show "Init (sta (sm_WPA_PTK_PTKINITDONE_Enter env a)) = Init (sta a)"
    using arg_cong [OF s, of Init] by (simp add: ctl_s_def)
  show "group_changed (grp (sm_WPA_PTK_PTKINITDONE_Enter env a)) = group_changed (grp a)"
    using arg_cong [OF g, of group_changed] by (simp add: ctl_g_def)
  show "pending_deinit (sta (sm_WPA_PTK_PTKINITDONE_Enter env a)) = pending_deinit (sta a)"
    using arg_cong [OF s, of pending_deinit] by (simp add: ctl_s_def)
qed

lemma PTK_Step_same:
  "Init (sta (sm_WPA_PTK_Step env a)) = Init (sta a) \<and> group_changed (grp (sm_WPA_PTK_Step env a)) = group_changed (grp a)"
proof (rule ptk_step_cases)
  show "Init (sta (sm_WPA_PTK_AUTHENTICATION2_Enter env a)) = Init (sta a) \<and>
      group_changed (grp (sm_WPA_PTK_AUTHENTICATION2_Enter env a)) = group_changed (grp a)"
  proof -
    obtain d where c: "ctl (sm_WPA_PTK_AUTHENTICATION2_Enter env a) = ctl (upd (\<lambda>s. s\<lparr>sta_changed := True,
       wpa_ptk_state := WPA_PTK_AUTHENTICATION2, ReAuthenticationRequest := False, Disconnect := (d \<or> Disconnect s),
       TimeoutCtr := (if d then TimeoutCtr s else 0)\<rparr>) a)" using ctl_AUTHENTICATION2 by blast
    show ?thesis by (simp add: ctl_same(1,13) [OF c])
  qed
  show "Init (sta (sm_WPA_PTK_PTKCALCNEGOTIATING_Enter env a)) = Init (sta a) \<and>
      group_changed (grp (sm_WPA_PTK_PTKCALCNEGOTIATING_Enter env a)) = group_changed (grp a)"
  proof -
    obtain ok p where c: "ctl (sm_WPA_PTK_PTKCALCNEGOTIATING_Enter env a) = ctl (upd (\<lambda>s. s\<lparr>sta_changed := True,
       wpa_ptk_state := WPA_PTK_PTKCALCNEGOTIATING, EAPOLKeyReceived := False, update_snonce := False,
       MICVerified := (ok \<or> MICVerified s), PTK := (if ok then p else PTK s), PTK_valid := (ok \<or> PTK_valid s)\<rparr>) a)"
      using ctl_PTKCALCNEGOTIATING by blast
    show ?thesis by (simp add: ctl_same(1,13) [OF c])
  qed
next
  fix c assume c: "ctl c = ctl a" "sta c = sta a"
  note k = c(2) ctl_same(13) [OF c(1)]
  show "Init (sta c) = Init (sta a) \<and> group_changed (grp c) = group_changed (grp a)" by (simp add: k)
  show "Init (sta (sm_WPA_PTK_DISCONNECT_Enter c)) = Init (sta a) \<and>
      group_changed (grp (sm_WPA_PTK_DISCONNECT_Enter c)) = group_changed (grp a)"
    by (simp add: ctl_same(1,13) [OF ctl_DISCONNECT] k)
  show "Init (sta (sm_WPA_PTK_INITPMK_Enter env c)) = Init (sta a) \<and>
      group_changed (grp (sm_WPA_PTK_INITPMK_Enter env c)) = group_changed (grp a)"
    by (simp add: ctl_same(1,13) [OF ctl_INITPMK] k)
  show "Init (sta (sm_WPA_PTK_INITPSK_Enter env c)) = Init (sta a) \<and>
      group_changed (grp (sm_WPA_PTK_INITPSK_Enter env c)) = group_changed (grp a)"
    by (simp add: ctl_same(1,13) [OF ctl_INITPSK] k)
  show "Init (sta (sm_WPA_PTK_PTKSTART_Enter env c)) = Init (sta a) \<and>
      group_changed (grp (sm_WPA_PTK_PTKSTART_Enter env c)) = group_changed (grp a)"
    by (simp add: ctl_same(1,13) [OF ctl_PTKSTART] k)
qed (simp_all add: ctl_same(1,13) [OF ctl_INITIALIZE] ctl_same(1,13) [OF ctl_DISCONNECTED]
    ctl_same(1,13) [OF ctl_AUTHENTICATION] ctl_same(1,13) [OF ctl_PTKCALCNEGOTIATING2] ctl_same(1,13) [OF ctl_PTKINITNEGOTIATING]
    same_PTKINITDONE)

lemma PTK_Step_init:
  assumes "Init (sta a)"
  shows "\<not> GUpdateStationKeys (sta (sm_WPA_PTK_Step env a)) \<and> \<not> wants_group (sta (sm_WPA_PTK_Step env a))"
proof -
  have "sm_WPA_PTK_Step env a = sm_WPA_PTK_INITIALIZE_Enter env a" using assms by (simp add: sm_WPA_PTK_Step_def)
  then show ?thesis using ctl_same(2,3) [OF ctl_INITIALIZE [of env a]] by (simp add: wants_group_def)
qed

lemma rank_GROUP_Step:
  assumes init: "Init (sta a) \<Longrightarrow> \<not> GUpdateStationKeys (sta a) \<and> \<not> wants_group (sta a)"
  shows "sm_rank (sm_WPA_PTK_GROUP_Step env a) < sm_rank a \<or>
    sm_rank (sm_WPA_PTK_GROUP_Step env a) \<le> sm_rank a \<and> (sta_changed (sta (sm_WPA_PTK_GROUP_Step env a)) \<longrightarrow> sta_changed (sta a))"
proof (cases "Init (sta a) \<or> PtkGroupInit (sta a)")
  case True
  define b where "b = upd (\<lambda>s. s\<lparr>sta_changed := \<not> Init s, wpa_ptk_group_state := WPA_PTK_GROUP_IDLE, GTimeoutCtr := 0,
      PtkGroupInit := False\<rparr>) a"
  have "ctl (sm_WPA_PTK_GROUP_Step env a) = ctl (upd (\<lambda>s. s\<lparr>PtkGroupInit := False\<rparr>) (sm_WPA_PTK_GROUP_IDLE_Enter a))"
    using True by (simp add: sm_WPA_PTK_GROUP_Step_def)
  also have "\<dots> = ctl b"
    by (rule trans [OF ctl_upd_cong [OF ctl_GROUP_IDLE]]) (simp_all add: ctl_s_def b_def ctl_def)
  finally have c: "ctl (sm_WPA_PTK_GROUP_Step env a) = ctl b" .
  have g: "sta_group_rank (sta b) \<le> 1 + flag (GUpdateStationKeys (sta a) \<or> wants_group (sta a)) 10"
    by (simp add: b_def sta_group_rank_def group_rank_def wants_group_def)
  have r: "requests (sta b) + flag (PtkGroupInit (sta a)) 12 = requests (sta a)" by (simp add: b_def requests_def)
  have p: "ptk_rank (wpa_ptk_state (sta b)) = ptk_rank (wpa_ptk_state (sta a))" "key_rank (grp b) = key_rank (grp a)"
    by (simp_all add: b_def)
  show ?thesis
  proof (cases "Init (sta a)")
    case True
    then have "sta_group_rank (sta b) \<le> 1" using g init by simp
    then have "sm_rank b \<le> sm_rank a" "\<not> sta_changed (sta b)"
      using r p group_rank_bounds(1) [of "sta a"] True by (simp_all add: sm_rank_def sta_rank_def b_def)
    then show ?thesis using sm_rank_ctl [OF c] ctl_same(4) [OF c] by simp
  next
    case False
    then have "sm_rank b < sm_rank a"
      using r p g group_rank_bounds(1) [of "sta a"] True by (simp add: sm_rank_def sta_rank_def flag_def split: if_splits)
    then show ?thesis using sm_rank_ctl [OF c] by simp
  qed
next
  case False
  then have st: "sm_WPA_PTK_GROUP_Step env a = (case wpa_ptk_group_state (sta a) of
          WPA_PTK_GROUP_IDLE \<Rightarrow>
            (if GUpdateStationKeys (sta a) \<or> wants_group (sta a) then sm_WPA_PTK_GROUP_REKEYNEGOTIATING_Enter env a else a)
        | WPA_PTK_GROUP_REKEYNEGOTIATING \<Rightarrow>
            (if key_for False (sta a) \<and> MICVerified (sta a) then sm_WPA_PTK_GROUP_REKEYESTABLISHED_Enter a
             else if GTimeoutCtr (sta a) > 4 then sm_WPA_PTK_GROUP_KEYERROR_Enter a
             else if TimeoutEvt (sta a) then sm_WPA_PTK_GROUP_REKEYNEGOTIATING_Enter env a
             else a)
        | WPA_PTK_GROUP_KEYERROR \<Rightarrow> sm_WPA_PTK_GROUP_IDLE_Enter a
        | WPA_PTK_GROUP_REKEYESTABLISHED \<Rightarrow> sm_WPA_PTK_GROUP_IDLE_Enter a)"
    by (simp add: sm_WPA_PTK_GROUP_Step_def wants_group_def Let_def)
  note d = rank_defs group_rank_def key_for_def flag_def
  show ?thesis
  proof (cases "wpa_ptk_group_state (sta a)")
    case WPA_PTK_GROUP_IDLE
    then have "sm_rank (sm_WPA_PTK_GROUP_REKEYNEGOTIATING_Enter env a) < sm_rank a"
      if "GUpdateStationKeys (sta a) \<or> wants_group (sta a)"
      using that by (intro downI [OF ctl_GROUP_REKEYNEGOTIATING]) (auto simp: d)
    then show ?thesis using WPA_PTK_GROUP_IDLE by (simp add: st)
  next
    case WPA_PTK_GROUP_REKEYNEGOTIATING
    then have "sm_rank (sm_WPA_PTK_GROUP_REKEYNEGOTIATING_Enter env a) < sm_rank a" if "TimeoutEvt (sta a)" "\<not> GTimeoutCtr (sta a) > 4"
      using that by (intro downI [OF ctl_GROUP_REKEYNEGOTIATING]) (auto simp: d)
    moreover have "sm_rank (sm_WPA_PTK_GROUP_KEYERROR_Enter a) < sm_rank a" if "GTimeoutCtr (sta a) > 4"
      using that WPA_PTK_GROUP_REKEYNEGOTIATING by (intro downI [OF ctl_GROUP_KEYERROR]) (auto simp: d)
    moreover have "sm_rank (sm_WPA_PTK_GROUP_REKEYESTABLISHED_Enter a) < sm_rank a" if "key_for False (sta a)"
      using that WPA_PTK_GROUP_REKEYNEGOTIATING by (intro downI [OF ctl_GROUP_REKEYESTABLISHED]) (auto simp: d)
    ultimately show ?thesis using WPA_PTK_GROUP_REKEYNEGOTIATING by (simp add: st)
  next
    case WPA_PTK_GROUP_REKEYESTABLISHED
    then have "sm_rank (sm_WPA_PTK_GROUP_IDLE_Enter a) < sm_rank a" by (intro downI [OF ctl_GROUP_IDLE]) (auto simp: d)
    then show ?thesis using WPA_PTK_GROUP_REKEYESTABLISHED by (simp add: st)
  next
    case WPA_PTK_GROUP_KEYERROR
    then have "sm_rank (sm_WPA_PTK_GROUP_IDLE_Enter a) < sm_rank a" by (intro downI [OF ctl_GROUP_IDLE]) (auto simp: d)
    then show ?thesis using WPA_PTK_GROUP_KEYERROR by (simp add: st)
  qed
qed


lemma GROUP_Step_same: "group_changed (grp (sm_WPA_PTK_GROUP_Step env a)) = group_changed (grp a)"
proof -
  have "group_changed (grp (sm_WPA_PTK_GROUP_IDLE_Enter a)) = group_changed (grp a)"
    "group_changed (grp (sm_WPA_PTK_GROUP_REKEYNEGOTIATING_Enter env a)) = group_changed (grp a)"
    "group_changed (grp (sm_WPA_PTK_GROUP_REKEYESTABLISHED_Enter a)) = group_changed (grp a)"
    "group_changed (grp (sm_WPA_PTK_GROUP_KEYERROR_Enter a)) = group_changed (grp a)"
    by (simp_all add: ctl_same(13) [OF ctl_GROUP_IDLE] ctl_same(13) [OF ctl_GROUP_REKEYNEGOTIATING]
        ctl_same(13) [OF ctl_GROUP_REKEYESTABLISHED] ctl_same(13) [OF ctl_GROUP_KEYERROR])
  then show ?thesis by (simp add: sm_WPA_PTK_GROUP_Step_def Let_def split: wpa_ptk_group_state.splits)
qed

lemma rank_setkeysdone:
  assumes "\<not> GInit (grp a)" "wpa_group_state (grp a) = WPA_GROUP_GTK_INIT \<or> wpa_group_state (grp a) = WPA_GROUP_SETKEYS"
  shows "sm_rank (wpa_group_setkeysdone env a) < sm_rank a"
proof -
  obtain ok where c: "ctl (wpa_group_setkeysdone env a) = ctl (updg (\<lambda>g. g\<lparr>group_changed := True,
     wpa_group_state := (if ok then WPA_GROUP_SETKEYSDONE else WPA_GROUP_FATAL_FAILURE)\<rparr>)
     (if ok \<or> sta_freed a then a else upd (\<lambda>s. s\<lparr>Disconnect := True\<rparr>) a))" using ctl_setkeysdone by blast
  have d: "sta_rank ((sta a)\<lparr>Disconnect := True\<rparr>) \<le> sta_rank (sta a) + 5" by (simp add: rank_defs flag_def)
  show ?thesis unfolding sm_rank_ctl [OF c] using assms d
    by (cases "ok \<or> sta_freed a"; cases ok) (auto simp: sm_rank_def key_rank_def)
qed

lemma rank_setkeys:
  assumes r: "\<And>b. sm_rank (stepf b) \<le> sm_rank b" and a: "\<not> GInit (grp a)" "GTKReKey (grp a)"
  shows "sm_rank (wpa_group_setkeys env stepf a) < sm_rank a"
proof -
  obtain b n g h where w: "wpa_group_setkeys env stepf a = (if g then stepf b else b)"
    and c: "ctl b = ctl (updg (\<lambda>g. g\<lparr>group_changed := True, wpa_group_state := WPA_GROUP_SETKEYS, GTKReKey := False,
       GKeyDoneStations := n\<rparr>) (upd (\<lambda>s. s\<lparr>GUpdateStationKeys := h\<rparr>) a))"
    using setkeys_start by blast
  have "requests ((sta a)\<lparr>GUpdateStationKeys := h\<rparr>) = requests (sta a)" by (simp add: requests_def)
  then have "sta_rank ((sta a)\<lparr>GUpdateStationKeys := h\<rparr>) \<le> sta_rank (sta a) + 18"
    using group_rank_bounds(2) [of "(sta a)\<lparr>GUpdateStationKeys := h\<rparr>"] group_rank_bounds(1) [of "sta a"]
    by (simp add: sta_rank_def)
  moreover have "sm_rank b = sta_rank ((sta a)\<lparr>GUpdateStationKeys := h\<rparr>) + 20"
    unfolding sm_rank_ctl [OF c] using a by (simp add: sm_rank_def key_rank_def)
  moreover have "key_rank (grp a) \<ge> 60" using a by (simp add: key_rank_def)
  ultimately have "sm_rank b < sm_rank a" unfolding sm_rank_def by linarith
  then show ?thesis using w r [of b] by simp
qed

lemma rank_group_sm_step:
  assumes r: "\<And>b. sm_rank (stepf b) \<le> sm_rank b"
  shows "sm_rank (wpa_group_sm_step env stepf a) < sm_rank a \<or> sm_rank (wpa_group_sm_step env stepf a) \<le> sm_rank a \<and>
    (group_changed (grp (wpa_group_sm_step env stepf a)) \<longrightarrow> group_changed (grp a)) \<and>
    sta_changed (sta (wpa_group_sm_step env stepf a)) = sta_changed (sta a)"
proof (cases "GInit (grp a)")
  case True
  then have "wpa_group_sm_step env stepf a = wpa_group_gtk_init env a" by (simp add: wpa_group_sm_step_def)
  then show ?thesis
    using True sm_rank_ctl [OF ctl_gtk_init [of env a]] ctl_same(4,13) [OF ctl_gtk_init [of env a]]
    by (simp add: sm_rank_def key_rank_def)
next
  case False
  then show ?thesis
    using rank_setkeysdone [OF False] rank_setkeys [OF r False] by (simp add: wpa_group_sm_step_def Let_def)
qed

lemma rank_round:
  "sm_rank (sm_round env a) < sm_rank a \<or> sm_rank (sm_round env a) \<le> sm_rank a \<and>
     \<not> sta_changed (sta (sm_round env a)) \<and> \<not> group_changed (grp (sm_round env a))"
proof -
  define a1 where "a1 = updg (\<lambda>g. g\<lparr>group_changed := False\<rparr>) (upd (\<lambda>s. s\<lparr>sta_changed := False\<rparr>) a)"
  define a2 where "a2 = sm_WPA_PTK_Step env a1"
  define a3 where "a3 = sm_WPA_PTK_GROUP_Step env a2"
  have e: "sm_round env a = wpa_group_sm_step env (\<lambda>a. a) a3"
    by (simp add: sm_round_def a1_def a2_def a3_def Let_def)
  have r1: "sm_rank a1 = sm_rank a" "\<not> sta_changed (sta a1)" "\<not> group_changed (grp a1)"
    by (simp_all add: a1_def sm_rank_def rank_defs key_rank_def)
  have r2: "sm_rank a2 < sm_rank a1 \<or> sm_rank a2 \<le> sm_rank a1 \<and> \<not> sta_changed (sta a2)" "\<not> group_changed (grp a2)"
    using rank_PTK_Step [of env a1] PTK_Step_same [of env a1] r1 by (auto simp: a2_def)
  have "Init (sta a2) \<Longrightarrow> \<not> GUpdateStationKeys (sta a2) \<and> \<not> wants_group (sta a2)"
    using PTK_Step_init [of a1 env] PTK_Step_same [of env a1] by (simp add: a2_def)
  note g = rank_GROUP_Step [OF this, of env, folded a3_def]
  have r3: "sm_rank a3 < sm_rank a1 \<or> sm_rank a3 \<le> sm_rank a1 \<and> \<not> sta_changed (sta a3)" "\<not> group_changed (grp a3)"
    using g r2 GROUP_Step_same [of env a2] by (auto simp: a3_def)
  show ?thesis
    using rank_group_sm_step [of "\<lambda>a. a" env a3] r3 r1 by (auto simp: e)
qed

lemma sm_loop_total: "sm_rank a < n \<Longrightarrow> \<exists>b. sm_loop env n a = Some b \<and> sm_rank b \<le> sm_rank a"
proof (induction n arbitrary: a)
  case (Suc n)
  define b where "b = sm_round env a"
  consider "sm_rank b < sm_rank a" | "sm_rank b \<le> sm_rank a" "\<not> sta_changed (sta b)" "\<not> group_changed (grp b)"
    using rank_round [of env a] by (auto simp: b_def)
  then show ?case
  proof cases
    case 1
    then obtain c where "sm_loop env n b = Some c" "sm_rank c \<le> sm_rank b" using Suc by force
    then show ?thesis using 1 by (auto simp: b_def [symmetric] Let_def)
  next
    case 2
    then show ?thesis by (auto simp: b_def [symmetric] Let_def)
  qed
qed simp

lemma rank_no_update: "sta_rank (s\<lparr>GUpdateStationKeys := False\<rparr>) \<le> sta_rank s"
proof -
  have "sta_group_rank (s\<lparr>GUpdateStationKeys := False\<rparr>) \<le> sta_group_rank s"
    by (cases "wpa_ptk_group_state s"; simp add: sta_group_rank_def group_rank_def wants_group_def flag_def)
  then show ?thesis by (simp add: sta_rank_def requests_def)
qed

lemma rank_free: "sm_rank (wpa_free_sta_sm a) \<le> sm_rank a"
proof -
  define b where "b = (if WPA_GET_BE32 (sta_ip_addr (sta a)) \<noteq> 0 then a\<lparr>ip_pool := map_option (bitfield_clear
    (unat (WPA_GET_BE32 (sta_ip_addr (sta a)) - WPA_GET_BE32 (conf_ip_addr_start (conf a))))) (ip_pool a)\<rparr> else a)"
  have b: "sta b = sta a" "grp b = grp a" by (simp_all add: b_def)
  have "wpa_free_sta_sm a = (if GUpdateStationKeys (sta b) then uncount_sta b else b)\<lparr>sta_freed := True\<rparr>"
    unfolding wpa_free_sta_sm_def Let_def b_def [symmetric] ..
  then show ?thesis using rank_no_update [of "sta a"] by (simp add: sm_rank_def b)
qed

lemma sm_fuel: "sm_rank a < SM_FUEL"
  using sm_rank_bound [of a] by (simp add: SM_FUEL_def)

lemma rank_in_loop: "sm_rank (upd (\<lambda>s. s\<lparr>in_step_loop := v\<rparr>) a) = sm_rank a"
  by (simp add: sm_rank_def rank_defs)

lemma rank_sm_step: "sm_rank (wpa_sm_step env a) \<le> sm_rank a"
proof (cases "sta_freed a \<or> in_step_loop (sta a)")
  case False
  define a1 where "a1 = upd (\<lambda>s. s\<lparr>in_step_loop := True\<rparr>) a"
  obtain b where b: "sm_loop env SM_FUEL a1 = Some b" "sm_rank b \<le> sm_rank a1" using sm_loop_total [OF sm_fuel] by blast
  define c where "c = upd (\<lambda>s. s\<lparr>in_step_loop := False\<rparr>) b"
  have "sm_rank c \<le> sm_rank a" using b rank_in_loop by (simp add: c_def a1_def)
  moreover have "wpa_sm_step env a = (if pending_deinit (sta c) then wpa_free_sta_sm c else c)"
    using False b by (simp add: wpa_sm_step_def a1_def [symmetric] Let_def c_def)
  ultimately show ?thesis using rank_free [of c] by simp
qed (simp add: wpa_sm_step_def)

lemma group_loop_total: "sm_rank a < n \<Longrightarrow> \<exists>b. group_loop env n a = Some b"
proof (induction n arbitrary: a)
  case (Suc n)
  define a1 where "a1 = updg (\<lambda>g. g\<lparr>group_changed := False\<rparr>) a"
  define b where "b = wpa_group_sm_step env (wpa_sm_step env) a1"
  have "sm_rank a1 = sm_rank a" "\<not> group_changed (grp a1)" by (simp_all add: a1_def sm_rank_def key_rank_def)
  then have "sm_rank b < sm_rank a \<or> \<not> group_changed (grp b)"
    using rank_group_sm_step [of "wpa_sm_step env" env a1, OF rank_sm_step] by (auto simp: b_def)
  then show ?case using Suc by (auto simp: b_def [symmetric] a1_def [symmetric] Let_def)
qed simp

text \<open>
  C7: the loop of \<open>wpa_sm_step\<close> and that of \<open>wpa_rekey_gtk\<close> end in every state and for every answer of
  the program, the driver and the random number generator, within the fuel of the model.
\<close>

theorem authenticator_loops_end:
  "(\<exists>b. sm_loop env SM_FUEL a = Some b) \<and> (\<exists>c. group_loop env SM_FUEL a = Some c)"
  using sm_loop_total [OF sm_fuel] group_loop_total [OF sm_fuel] by blast

end
