(* ===== verification/WpaAuthSafety.thy ===== *)
theory WpaAuthSafety
  imports WpaAuthEnds
begin

section \<open>The key that the driver gets\<close>

definition pairwise_event :: "u32 \<Rightarrow> bytes \<Rightarrow> wpa_ptk \<Rightarrow> auth_event" where
  "pairwise_event cipher ad p = AuthSetKey 0 (wpa_cipher_to_alg cipher) ad 0 (take (wpa_cipher_key_len cipher) (tk1 p @ tk_u p))"

definition after_msg2 :: "wpa_ptk_state set" where
  "after_msg2 = {WPA_PTK_PTKCALCNEGOTIATING, WPA_PTK_PTKCALCNEGOTIATING2, WPA_PTK_PTKINITNEGOTIATING}"

text \<open>
  A frame that is not processed yet has been authenticated with the key \<open>p\<close> (\<open>ok\<close>), or it cannot
  lead to the end of the handshake; \<open>old\<close> are the pairwise keys that the driver got before.
\<close>

definition guarded :: "wpa_ptk \<Rightarrow> bool \<Rightarrow> bytes \<Rightarrow> u32 \<Rightarrow> auth_event list \<Rightarrow> authenticator \<Rightarrow> bool" where
  "guarded p ok ad cipher old a \<longleftrightarrow> sta_addr (sta a) = ad \<and> sta_pairwise (sta a) = cipher \<and>
     (wpa_ptk_state (sta a) \<in> after_msg2 \<longrightarrow> key_for True (sta a) \<longrightarrow> MICVerified (sta a) \<longrightarrow> ok \<and> PTK (sta a) = p) \<and>
     (\<exists>l. filter pair_key (auth_trace a) = old @ l \<and> (l \<noteq> [] \<longrightarrow> ok) \<and> set l \<subseteq> {pairwise_event cipher ad p})"

lemma guarded_ctl: "ctl b = ctl a \<Longrightarrow> guarded p ok ad ci old b = guarded p ok ad ci old a"
  unfolding guarded_def using ctl_same [of b a] by simp

lemmas guarded_by = guarded_ctl [THEN iffD2]

lemma guarded_upd:
  assumes "guarded p ok ad ci old a" "sta_addr (f (sta a)) = sta_addr (sta a)" "sta_pairwise (f (sta a)) = sta_pairwise (sta a)"
    "\<lbrakk>wpa_ptk_state (f (sta a)) \<in> after_msg2; key_for True (f (sta a)); MICVerified (f (sta a))\<rbrakk> \<Longrightarrow>
       wpa_ptk_state (sta a) \<in> after_msg2 \<and> key_for True (sta a) \<and> MICVerified (sta a) \<and> PTK (f (sta a)) = PTK (sta a)"
  shows "guarded p ok ad ci old (upd f a)"
  using assms unfolding guarded_def by auto

lemma guarded_updg [simp]: "guarded p ok ad ci old (updg f a) = guarded p ok ad ci old a"
  by (simp add: guarded_def)

lemma guarded_PTK_Step:
  assumes g: "guarded p ok ad ci old a"
  shows "guarded p ok ad ci old (sm_WPA_PTK_Step env a)"
proof (rule ptk_step_cases)
  show i: "guarded p ok ad ci old (sm_WPA_PTK_INITIALIZE_Enter env a)"
    by (rule guarded_by [OF ctl_INITIALIZE]) (simp, rule guarded_upd [OF g], simp_all add: after_msg2_def key_for_def)
  then show "guarded p ok ad ci old (sm_WPA_PTK_INITIALIZE_Enter env a)" .
  show "guarded p ok ad ci old (sm_WPA_PTK_DISCONNECTED_Enter a)"
    by (rule guarded_by [OF ctl_DISCONNECTED], rule guarded_upd [OF g]) (simp_all add: after_msg2_def key_for_def)
  show "guarded p ok ad ci old (sm_WPA_PTK_AUTHENTICATION_Enter a)"
    by (rule guarded_by [OF ctl_AUTHENTICATION], rule guarded_upd [OF g]) (simp_all add: after_msg2_def key_for_def)
  show "guarded p ok ad ci old (sm_WPA_PTK_AUTHENTICATION2_Enter env a)"
  proof -
    obtain d where c: "ctl (sm_WPA_PTK_AUTHENTICATION2_Enter env a) = ctl (upd (\<lambda>s. s\<lparr>sta_changed := True,
       wpa_ptk_state := WPA_PTK_AUTHENTICATION2, ReAuthenticationRequest := False, Disconnect := (d \<or> Disconnect s),
       TimeoutCtr := (if d then TimeoutCtr s else 0)\<rparr>) a)" using ctl_AUTHENTICATION2 by blast
    show ?thesis by (rule guarded_by [OF c], rule guarded_upd [OF g]) (simp_all add: after_msg2_def key_for_def)
  qed
  show "guarded p ok ad ci old (sm_WPA_PTK_PTKCALCNEGOTIATING_Enter env a)"
  proof -
    obtain v q where c: "ctl (sm_WPA_PTK_PTKCALCNEGOTIATING_Enter env a) = ctl (upd (\<lambda>s. s\<lparr>sta_changed := True,
       wpa_ptk_state := WPA_PTK_PTKCALCNEGOTIATING, EAPOLKeyReceived := False, update_snonce := False,
       MICVerified := (v \<or> MICVerified s), PTK := (if v then q else PTK s), PTK_valid := (v \<or> PTK_valid s)\<rparr>) a)"
      using ctl_PTKCALCNEGOTIATING by blast
    show ?thesis by (rule guarded_by [OF c], rule guarded_upd [OF g]) (simp_all add: after_msg2_def key_for_def)
  qed
  show "guarded p ok ad ci old (sm_WPA_PTK_PTKCALCNEGOTIATING2_Enter a)" if "wpa_ptk_state (sta a) = WPA_PTK_PTKCALCNEGOTIATING"
    using that by (intro guarded_by [OF ctl_PTKCALCNEGOTIATING2] guarded_upd [OF g]) (simp_all add: after_msg2_def key_for_def)
  show "guarded p ok ad ci old (sm_WPA_PTK_PTKINITNEGOTIATING_Enter env a)"
    if "wpa_ptk_state (sta a) = WPA_PTK_PTKCALCNEGOTIATING2 \<or> wpa_ptk_state (sta a) = WPA_PTK_PTKINITNEGOTIATING \<and> TimeoutEvt (sta a)"
    using that by (intro guarded_by [OF ctl_PTKINITNEGOTIATING] guarded_upd [OF g]) (auto simp: after_msg2_def key_for_def)
  show "guarded p ok ad ci old (sm_WPA_PTK_PTKINITDONE_Enter env a)"
    if h: "wpa_ptk_state (sta a) = WPA_PTK_PTKINITNEGOTIATING" "key_for True (sta a)" "MICVerified (sta a)"
  proof -
    obtain q l where c: "ctl (sm_WPA_PTK_PTKINITDONE_Enter env a) =
       (ctl_s ((sta a)\<lparr>sta_changed := True, wpa_ptk_state := WPA_PTK_PTKINITDONE, EAPOLKeyReceived := False, PInitAKeys := q\<rparr>),
        ctl_g (grp a), sta_freed a, conf a, filter pair_key (auth_trace a) @ l)"
      and l: "set l \<subseteq> {pairwise_event (sta_pairwise (sta a)) (sta_addr (sta a)) (PTK (sta a))}"
      using ctl_PTKINITDONE unfolding pairwise_event_def by blast
    have o: "ok" "PTK (sta a) = p" "sta_addr (sta a) = ad" "sta_pairwise (sta a) = ci"
      using g h by (simp_all add: guarded_def after_msg2_def key_for_def)
    obtain m where m: "filter pair_key (auth_trace a) = old @ m" "set m \<subseteq> {pairwise_event ci ad p}"
      using g unfolding guarded_def by blast
    define b where "b = a\<lparr>sta := (sta a)\<lparr>sta_changed := True, wpa_ptk_state := WPA_PTK_PTKINITDONE, EAPOLKeyReceived := False,
      PInitAKeys := q\<rparr>, auth_trace := filter pair_key (auth_trace a) @ filter pair_key l\<rparr>"
    have d: "ctl_s (sta (sm_WPA_PTK_PTKINITDONE_Enter env a)) = ctl_s (sta b)"
      and t: "filter pair_key (auth_trace (sm_WPA_PTK_PTKINITDONE_Enter env a)) = old @ (m @ l)"
      using c m by (simp_all add: ctl_def b_def)
    have "sta_addr (sta (sm_WPA_PTK_PTKINITDONE_Enter env a)) = ad" "sta_pairwise (sta (sm_WPA_PTK_PTKINITDONE_Enter env a)) = ci"
        "wpa_ptk_state (sta (sm_WPA_PTK_PTKINITDONE_Enter env a)) = WPA_PTK_PTKINITDONE"
      using arg_cong [OF d, of sta_addr] arg_cong [OF d, of sta_pairwise] arg_cong [OF d, of wpa_ptk_state] o
      by (simp_all add: b_def ctl_s_def)
    then show ?thesis unfolding guarded_def using t o m l by (auto simp: after_msg2_def intro: exI [of _ "m @ l"])
  qed
next
  fix c assume c: "ctl c = ctl a" "sta c = sta a"
  show gc: "guarded p ok ad ci old c" by (rule guarded_by [OF c(1) g])
  show "guarded p ok ad ci old (sm_WPA_PTK_DISCONNECT_Enter c)"
    by (rule guarded_by [OF ctl_DISCONNECT], rule guarded_upd [OF gc]) (simp_all add: after_msg2_def key_for_def)
  show "guarded p ok ad ci old (sm_WPA_PTK_INITPMK_Enter env c)"
    by (rule guarded_by [OF ctl_INITPMK], rule guarded_upd [OF gc]) (simp_all add: after_msg2_def key_for_def)
  show "guarded p ok ad ci old (sm_WPA_PTK_INITPSK_Enter env c)"
    by (rule guarded_by [OF ctl_INITPSK], rule guarded_upd [OF gc]) (simp_all add: after_msg2_def key_for_def)
  show "guarded p ok ad ci old (sm_WPA_PTK_PTKSTART_Enter env c)"
    by (rule guarded_by [OF ctl_PTKSTART], rule guarded_upd [OF gc]) (simp_all add: after_msg2_def key_for_def)
qed

lemma guarded_GROUP_Step:
  assumes g: "guarded p ok ad ci old a"
  shows "guarded p ok ad ci old (sm_WPA_PTK_GROUP_Step env a)"
proof -
  have i: "guarded p ok ad ci old (sm_WPA_PTK_GROUP_IDLE_Enter a)"
    by (rule guarded_by [OF ctl_GROUP_IDLE], rule guarded_upd [OF g]) (simp_all add: key_for_def)
  have "guarded p ok ad ci old (upd (\<lambda>s. s\<lparr>PtkGroupInit := False\<rparr>) (sm_WPA_PTK_GROUP_IDLE_Enter a))"
    by (rule guarded_upd [OF i]) (simp_all add: key_for_def)
  moreover have "guarded p ok ad ci old (sm_WPA_PTK_GROUP_REKEYNEGOTIATING_Enter env a)"
    by (rule guarded_by [OF ctl_GROUP_REKEYNEGOTIATING], rule guarded_upd [OF g]) (simp_all add: key_for_def)
  moreover have "guarded p ok ad ci old (sm_WPA_PTK_GROUP_REKEYESTABLISHED_Enter a)"
    by (rule guarded_by [OF ctl_GROUP_REKEYESTABLISHED]) (simp, rule guarded_upd [OF g], simp_all add: key_for_def)
  moreover have "guarded p ok ad ci old (sm_WPA_PTK_GROUP_KEYERROR_Enter a)"
    by (rule guarded_by [OF ctl_GROUP_KEYERROR]) (simp, rule guarded_upd [OF g], simp_all add: key_for_def)
  ultimately show ?thesis using g i by (simp add: sm_WPA_PTK_GROUP_Step_def Let_def split: wpa_ptk_group_state.splits)
qed

lemma guarded_group_sm_step:
  assumes g: "guarded p ok ad ci old a" and st: "\<And>b. guarded p ok ad ci old b \<Longrightarrow> guarded p ok ad ci old (stepf b)"
  shows "guarded p ok ad ci old (wpa_group_sm_step env stepf a)"
proof -
  have i: "guarded p ok ad ci old (wpa_group_gtk_init env a)" by (rule guarded_by [OF ctl_gtk_init]) (simp add: g)
  have d: "guarded p ok ad ci old (wpa_group_setkeysdone env a)"
  proof -
    obtain v where c: "ctl (wpa_group_setkeysdone env a) = ctl (updg (\<lambda>g. g\<lparr>group_changed := True,
       wpa_group_state := (if v then WPA_GROUP_SETKEYSDONE else WPA_GROUP_FATAL_FAILURE)\<rparr>)
       (if v \<or> sta_freed a then a else upd (\<lambda>s. s\<lparr>Disconnect := True\<rparr>) a))" using ctl_setkeysdone by blast
    have "guarded p ok ad ci old (upd (\<lambda>s. s\<lparr>Disconnect := True\<rparr>) a)" by (rule guarded_upd [OF g]) (simp_all add: key_for_def)
    then show ?thesis using g by (intro guarded_by [OF c]) simp
  qed
  have k: "guarded p ok ad ci old (wpa_group_setkeys env stepf a)"
  proof -
    obtain b n v h where w: "wpa_group_setkeys env stepf a = (if v then stepf b else b)"
      and c: "ctl b = ctl (updg (\<lambda>g. g\<lparr>group_changed := True, wpa_group_state := WPA_GROUP_SETKEYS, GTKReKey := False,
         GKeyDoneStations := n\<rparr>) (upd (\<lambda>s. s\<lparr>GUpdateStationKeys := h\<rparr>) a))"
      using setkeys_start by blast
    have "guarded p ok ad ci old b" by (rule guarded_by [OF c]) (simp, rule guarded_upd [OF g], simp_all add: key_for_def)
    then show ?thesis using w st by simp
  qed
  show ?thesis using g i d k by (simp add: wpa_group_sm_step_def Let_def)
qed

lemma guarded_round: "guarded p ok ad ci old a \<Longrightarrow> guarded p ok ad ci old (sm_round env a)"
  unfolding sm_round_def Let_def
  by (intro guarded_group_sm_step guarded_GROUP_Step guarded_PTK_Step)
    (simp, rule guarded_upd, simp_all add: key_for_def)

lemma guarded_loop: "\<lbrakk>sm_loop env n a = Some b; guarded p ok ad ci old a\<rbrakk> \<Longrightarrow> guarded p ok ad ci old b"
  by (induction n arbitrary: a) (auto simp: Let_def guarded_round split: if_splits)

lemma guarded_free: "guarded p ok ad ci old a \<Longrightarrow> guarded p ok ad ci old (wpa_free_sta_sm a)"
  by (simp add: guarded_def wpa_free_sta_sm_def Let_def key_for_def)

lemma guarded_sm_step:
  assumes "guarded p ok ad ci old a"
  shows "guarded p ok ad ci old (wpa_sm_step env a)"
proof -
  define a1 where "a1 = upd (\<lambda>s. s\<lparr>in_step_loop := True\<rparr>) a"
  obtain b where b: "sm_loop env SM_FUEL a1 = Some b" using sm_loop_total [OF sm_fuel] by blast
  have "guarded p ok ad ci old a1" unfolding a1_def by (rule guarded_upd [OF assms]) (simp_all add: key_for_def)
  then have "guarded p ok ad ci old b" using guarded_loop [OF b] by blast
  then have "guarded p ok ad ci old (upd (\<lambda>s. s\<lparr>in_step_loop := False\<rparr>) b)" by (rule guarded_upd) (simp_all add: key_for_def)
  then show ?thesis using assms by (simp add: wpa_sm_step_def a1_def [symmetric] Let_def b guarded_free)
qed

lemma guarded_group_loop: "\<lbrakk>group_loop env n a = Some b; guarded p ok ad ci old a\<rbrakk> \<Longrightarrow> guarded p ok ad ci old b"
proof (induction n arbitrary: a)
  case (Suc n)
  have "guarded p ok ad ci old (wpa_group_sm_step env (wpa_sm_step env) (updg (\<lambda>g. g\<lparr>group_changed := False\<rparr>) a))"
    using Suc.prems by (intro guarded_group_sm_step guarded_sm_step) simp_all
  then show ?case using Suc by (auto simp: Let_def split: if_splits)
qed simp

lemma guarded_rekey_gtk:
  assumes "guarded p ok ad ci old a"
  shows "guarded p ok ad ci old (wpa_rekey_gtk env a)"
proof -
  define a1 where "a1 = updg (\<lambda>g. g\<lparr>GTKReKey := True\<rparr>) a"
  obtain b where b: "group_loop env SM_FUEL a1 = Some b" using group_loop_total [OF sm_fuel] by blast
  have "guarded p ok ad ci old b" using guarded_group_loop [OF b] assms by (simp add: a1_def)
  then show ?thesis
    by (simp add: wpa_rekey_gtk_def a1_def [symmetric] Let_def b guarded_by [OF ctl_timers(1)])
qed

section \<open>Reception\<close>

definition frame_counter_ok :: "bytes \<Rightarrow> wpa_state_machine \<Rightarrow> bool" where
  "frame_counter_ok dat s \<longleftrightarrow> (let key = get_key (drop 4 dat) in
     if k_info key AND 0x800 \<noteq> 0
     then req_replay_counter_used s \<longrightarrow> memcmp_less (req_replay_counter s) (k_replay key)
     else wpa_replay_counter_valid (key_replay s) (k_replay key))"

definition ap_authentic :: "auth_env \<Rightarrow> bytes \<Rightarrow> wpa_state_machine \<Rightarrow> bool" where
  "ap_authentic env dat s \<longleftrightarrow> PTK_valid s \<and> frame_counter_ok dat s \<and> (\<exists>mem. wpa_verify_key_mic env mem (PTK s) dat)"

text \<open>What the checks leave alone.\<close>

definition rx_same :: "authenticator \<Rightarrow> authenticator \<Rightarrow> bool" where
  "rx_same a b \<longleftrightarrow> PTK (sta b) = PTK (sta a) \<and> PTK_valid (sta b) = PTK_valid (sta a) \<and> sta_addr (sta b) = sta_addr (sta a) \<and>
     sta_pairwise (sta b) = sta_pairwise (sta a) \<and> filter pair_key (auth_trace b) = filter pair_key (auth_trace a)"

lemma rx_same_refl [simp]: "rx_same a a" by (simp add: rx_same_def)

lemma rx_message_same: "rx_message env msg mem n a = (go, b) \<Longrightarrow> rx_same a b \<and> update_snonce (sta b) = update_snonce (sta a)"
  by (auto simp: rx_message_def rx_pairwise_2_def assign_ip_def rx_same_def wpa_sta_disconnect_def a_emit_def Let_def
      split: rx_msg.splits if_splits option.splits)

lemma rx_replay_same:
  assumes "rx_replay msg key a = Some b" "key = get_key (drop 4 dat)"
  shows "rx_same a b" "update_snonce (sta b) \<or> frame_counter_ok dat (sta a)"
  using assms by (auto simp: rx_replay_def rx_same_def frame_counter_ok_def Let_def split: if_splits)

lemma rx_mic_same:
  assumes "rx_mic env dat a = (go, b)"
  shows "rx_same a b" "go \<and> MICVerified (sta b) \<Longrightarrow>
    PTK_valid (sta a) \<and> \<not> update_snonce (sta a) \<and> (\<exists>mem. wpa_verify_key_mic env mem (PTK (sta a)) dat)"
proof -
  define c where "c = snd (ask (malloc_ok env) (upd (\<lambda>s. s\<lparr>MICVerified := False\<rparr>) a))"
  have c: "sta c = (sta a)\<lparr>MICVerified := False\<rparr>" "auth_trace c = auth_trace a" by (simp_all add: c_def ask_def)
  have t: "auth_trace (a_cancel k d) = auth_trace d" for k d by (simp add: a_cancel_def)
  have "rx_same a (snd (rx_mic env dat a)) \<and> (fst (rx_mic env dat a) \<and> MICVerified (sta (snd (rx_mic env dat a))) \<longrightarrow>
    PTK_valid (sta a) \<and> \<not> update_snonce (sta a) \<and> (\<exists>mem. wpa_verify_key_mic env mem (PTK (sta a)) dat))"
    unfolding rx_mic_def Let_def snd_case [of _ "ask q x" for q x] c_def [symmetric]
    by (auto simp: c t rx_same_def)
  then have "rx_same a b \<and> (go \<and> MICVerified (sta b) \<longrightarrow>
    PTK_valid (sta a) \<and> \<not> update_snonce (sta a) \<and> (\<exists>mem. wpa_verify_key_mic env mem (PTK (sta a)) dat))"
    using assms by simp
  then show "rx_same a b" "go \<and> MICVerified (sta b) \<Longrightarrow>
    PTK_valid (sta a) \<and> \<not> update_snonce (sta a) \<and> (\<exists>mem. wpa_verify_key_mic env mem (PTK (sta a)) dat)" by blast+
qed

lemma rx_checked_spec:
  assumes "rx_checked env msg dat (get_key (drop 4 dat)) a = (go, b)"
  shows "rx_same a b" "go \<and> MICVerified (sta b) \<Longrightarrow> ap_authentic env dat (sta a)"
proof -
  have "rx_same a b \<and> (go \<and> MICVerified (sta b) \<longrightarrow> ap_authentic env dat (sta a))"
  proof (cases "rx_replay msg (get_key (drop 4 dat)) a")
    case None
    then show ?thesis using assms by (simp add: rx_checked_def)
  next
    case (Some a1)
    obtain g a2 where m: "rx_message env msg (drop 99 dat) (unat (k_data_len (get_key (drop 4 dat)))) a1 = (g, a2)"
      by (cases "rx_message env msg (drop 99 dat) (unat (k_data_len (get_key (drop 4 dat)))) a1")
    note r = rx_replay_same [OF Some refl] rx_message_same [OF m]
    obtain v a3 where i: "rx_mic env dat a2 = (v, a3)" by (cases "rx_mic env dat a2")
    note w = rx_mic_same [OF i]
    have "(go, b) = (False, a2) \<or> (go, b) = (v, a3)"
      using assms by (auto simp: rx_checked_def Some m i split: if_splits)
    then show ?thesis using r w by (auto simp: rx_same_def ap_authentic_def)
  qed
  then show "rx_same a b" "go \<and> MICVerified (sta b) \<Longrightarrow> ap_authentic env dat (sta a)" by blast+
qed

lemma guarded_request:
  assumes "guarded p True ad ci old a" "rx_request env key mem n a = (go, b)"
  shows "guarded p True ad ci old b"
proof -
  have u: "guarded p True ad ci old (upd f x)" if "guarded p True ad ci old x" "f = (\<lambda>s. s\<lparr>PTKRequest := True, PTK_valid := False\<rparr>) \<or>
      f = (\<lambda>s. s\<lparr>req_replay_counter_used := True, req_replay_counter := k_replay key\<rparr>) \<or>
      f = (\<lambda>s. s\<lparr>mic_failures := mic_failures s + 1\<rparr>)" for f x
    using that by (auto intro!: guarded_upd simp: key_for_def)
  define a1 where "a1 = upd (\<lambda>s. s\<lparr>req_replay_counter_used := True, req_replay_counter := k_replay key\<rparr>) a"
  have a1: "guarded p True ad ci old a1" using u assms(1) by (simp add: a1_def)
  have n: "guarded p True ad ci old (wpa_request_new_ptk x)" if "guarded p True ad ci old x" for x
    using u [OF that] by (simp add: wpa_request_new_ptk_def)
  have e: "guarded p True ad ci old (snd (wpa_receive_error_report env v a1))" for v
  proof -
    define c where "c = snd (ask (mic_failure env) a1)"
    have c: "guarded p True ad ci old c" unfolding c_def by (rule guarded_by [OF ctl_ask a1])
    then have "guarded p True ad ci old (c\<lparr>auth_mic_failures := auth_mic_failures c + 1\<rparr>)" by (simp add: guarded_def)
    then have "guarded p True ad ci old (wpa_request_new_ptk (upd (\<lambda>s. s\<lparr>mic_failures := mic_failures s + 1\<rparr>)
      (c\<lparr>auth_mic_failures := auth_mic_failures c + 1\<rparr>)))" using u n by simp
    then show ?thesis using a1 n c
      unfolding wpa_receive_error_report_def Let_def snd_case [of _ "ask q x" for q x] c_def [symmetric] by simp
  qed
  have k: "guarded p True ad ci old (wpa_rekey_gtk env (a_cancel rekey_gtk_key a1))"
    by (intro guarded_rekey_gtk guarded_by [OF ctl_timers(2) a1])
  have "guarded p True ad ci old (snd (rx_request env key mem n a))"
    unfolding rx_request_def Let_def a1_def [symmetric] snd_case [of _ "wpa_receive_error_report env v x" for v x]
    using assms(1) a1 n e k by (auto split: option.splits)
  then show ?thesis using assms(2) by simp
qed

lemma guarded_accept:
  assumes g: "guarded p ok ad ci old a" and k: "k_info key AND 0x800 \<noteq> 0 \<or> (MICVerified (sta a) \<longrightarrow> ok \<and> PTK (sta a) = p)"
  shows "guarded p ok ad ci old (rx_accept env dat key a)"
proof -
  define c where "c = snd (ask (malloc_ok env) a)"
  have c: "guarded p ok ad ci old c" "sta c = sta a" unfolding c_def by (rule guarded_by [OF ctl_ask g]) simp
  have "guarded p ok ad ci old (upd (\<lambda>s. s\<lparr>last_rx_eapol_key := None\<rparr>) c)"
    by (rule guarded_upd [OF c(1)]) (simp_all add: key_for_def)
  moreover have "guarded p ok ad ci old (upd (\<lambda>s. s\<lparr>last_rx_eapol_key := Some dat, rx_eapol_key_secure := (k_info key AND 0x200 \<noteq> 0),
       EAPOLKeyReceived := True, EAPOLKeyPairwise := (k_info key AND 0x8 \<noteq> 0), EAPOLKeyRequest := (k_info key AND 0x800 \<noteq> 0),
       SNonce := k_nonce key\<rparr>) c)"
    using c k by (auto simp: guarded_def key_for_def)
  ultimately show ?thesis
    unfolding rx_accept_def Let_def snd_case [of _ "ask q x" for q x] c_def [symmetric]
    by (simp add: guarded_sm_step)
qed

text \<open>
  C3: when \<open>wpa_receive\<close> gives the driver a pairwise key, the frame that it received carries the MIC of the
  pairwise transient key that the station already has, and its replay counter is that of a pending
  request (for a request of the station, a new one). The key is the temporal key of that transient
  key, for the address and with the cipher of the station. It does so for every answer of the program,
  and whatever the state of the three state machines is.
\<close>

theorem ap_key_needs_mic:
  assumes "filter pair_key (auth_trace (wpa_receive env dat a)) \<noteq> filter pair_key (auth_trace a)"
  shows "ap_authentic env dat (sta a) \<and> (\<exists>n. filter pair_key (auth_trace (wpa_receive env dat a)) =
      filter pair_key (auth_trace a) @ replicate n (pairwise_event (sta_pairwise (sta a)) (sta_addr (sta a)) (PTK (sta a))))"
proof -
  define key where "key = get_key (drop 4 dat)"
  define msg where "msg = rx_class (k_info key) (unat (k_data_len key))"
  define n where "n = unat (k_data_len key)"
  let ?old = "filter pair_key (auth_trace a)" and ?ad = "sta_addr (sta a)" and ?ci = "sta_pairwise (sta a)" and ?p = "PTK (sta a)"
  obtain go b where c: "rx_checked env msg dat key a = (go, b)" by (cases "rx_checked env msg dat key a")
  note s = rx_checked_spec [OF c [unfolded key_def]]
  define ok where "ok = MICVerified (sta b)"
  have gb: "guarded ?p ok ?ad ?ci ?old b" using s(1) by (simp add: guarded_def rx_same_def ok_def)
  have gi: "guarded ?p ok ?ad ?ci ?old (rx_invalidate msg key b)"
    unfolding rx_invalidate_def by (rule guarded_upd [OF gb]) (simp_all add: Let_def key_for_def)
  have pi: "MICVerified (sta (rx_invalidate msg key b)) = ok" "PTK (sta (rx_invalidate msg key b)) = ?p"
    using s(1) by (simp_all add: rx_invalidate_def ok_def rx_same_def Let_def)
  obtain go2 d where q: "rx_request env key (drop 99 dat) n b = (go2, d)" by (cases "rx_request env key (drop 99 dat) n b")
  have gd: "guarded ?p ok ?ad ?ci ?old d"
  proof (cases ok)
    case True
    then show ?thesis using guarded_request [OF _ q] gb by simp
  next
    case False
    then have "d = b" using q by (simp add: rx_request_def ok_def)
    then show ?thesis using gb by simp
  qed
  have step: "wpa_receive env dat a = a \<or> wpa_receive env dat a = b \<or> go \<and> (wpa_receive env dat a = d \<or>
      k_info key AND 0x800 \<noteq> 0 \<and> wpa_receive env dat a = rx_accept env dat key d \<or>
      wpa_receive env dat a = rx_accept env dat key (rx_invalidate msg key b))"
    unfolding wpa_receive_def Let_def key_def [symmetric] n_def [symmetric] msg_def [unfolded n_def [symmetric], symmetric]
    by (simp add: c q)
  have "filter pair_key (auth_trace b) = ?old" using s(1) by (simp add: rx_same_def)
  then have "go \<and> guarded ?p ok ?ad ?ci ?old (wpa_receive env dat a)"
    using step assms gd guarded_accept [OF gd, of key env dat] guarded_accept [OF gi, of key env dat] pi by auto
  then obtain l where l: "go" "filter pair_key (auth_trace (wpa_receive env dat a)) = ?old @ l" "l \<noteq> [] \<longrightarrow> ok"
      "set l \<subseteq> {pairwise_event ?ci ?ad ?p}"
    unfolding guarded_def by blast
  then have "l \<noteq> []" using assms by auto
  moreover have "l = replicate (length l) (pairwise_event ?ci ?ad ?p)" using l(4) by (simp add: replicate_eqI subset_eq)
  ultimately show ?thesis using l s(2) by (metis ok_def)
qed

section \<open>An example\<close>

definition sample_conf :: wpa_auth_config where
  "sample_conf = \<lparr>conf_wpa = WPA_PROTO_RSN, conf_key_mgmt = WPA_KEY_MGMT_PSK, conf_wpa_pairwise = WPA_CIPHER_CCMP,
     conf_group = WPA_CIPHER_CCMP, conf_group_rekey = 0, conf_strict_rekey = False, conf_gmk_rekey = 0, conf_ptk_rekey = 0,
     conf_rsn_pairwise = WPA_CIPHER_CCMP, conf_rsn_preauth = False, conf_eapol_version = 2, conf_peerkey = False,
     conf_wmm_enabled = False, conf_tx_status = False, conf_ieee80211w = NO_MGMT_FRAME_PROTECTION,
     conf_group_mgmt_cipher = WPA_CIPHER_AES_128_CMAC, conf_disable_gtk = False, conf_ip_addr_go = replicate 4 0,
     conf_ip_addr_mask = replicate 4 0, conf_ip_addr_start = replicate 4 0, conf_ip_addr_end = replicate 4 0\<rparr>"

text \<open>HMAC functions that are easy to evaluate.\<close>

definition sample_auth_env :: auth_env where
  "sample_auth_env = \<lparr>auth_md5 = (\<lambda>k m. replicate 16 0),
     auth_pm = \<lparr>hmac_sha1 = (\<lambda>k m. replicate 20 (word_of_nat (length m))), hmac_sha256 = (\<lambda>k m. replicate 32 5), timer_alloc = True\<rparr>,
     auth_behind = \<lparr>addr = (\<lambda>e i. 0), len = (\<lambda>e. 0)\<rparr>, bits_behind = 0, auth_now = \<lparr>rt_sec = 100, rt_usec = 0\<rparr>,
     malloc_ok = (\<lambda>n. True), rnd = (\<lambda>k n. (True, replicate k 3)), pool_ready = (\<lambda>n. True), ntp = (\<lambda>n. replicate 8 0),
     group_ptr = replicate 8 0, stack = (\<lambda>n. replicate 64 0), set_key_res = (\<lambda>n. True), seqnum = (\<lambda>i n. None),
     eapol_var = (\<lambda>n v. True), psks = [replicate 32 1], msk = (\<lambda>n. None), mic_failure = (\<lambda>n. False)\<rparr>"

text \<open>A station that has received message 3 and its message 4.\<close>

definition sample_ap :: authenticator where
  "sample_ap = \<lparr>conf = sample_conf, auth_addr = [2, 0, 0, 0, 0, 1], auth_wpa_ie = [48, 0], auth_4way_failures = 0,
     auth_mic_failures = 0, ip_pool = None,
     grp = group_zero\<lparr>GTK_len := 16, GN := 1, GM := 2, GTKAuthenticator := True, wpa_group_state := WPA_GROUP_SETKEYSDONE\<rparr>,
     sta = sta_zero\<lparr>sta_addr := [2, 0, 0, 0, 0, 2], sta_wpa := WPA_VERSION_WPA2, sta_key_mgmt := WPA_KEY_MGMT_PSK,
       sta_pairwise := WPA_CIPHER_CCMP, sta_wpa_ie := Some [48, 0], wpa_ptk_state := WPA_PTK_PTKINITNEGOTIATING,
       Pair := True, TimeoutCtr := 1, PTK := ptk_zero\<lparr>tk1 := replicate 16 9\<rparr>, PTK_valid := True, sta_started := True,
       key_replay := \<lparr>kr_counter = [0, 0, 0, 0, 0, 0, 0, 2], kr_valid = True\<rparr> # drop 1 zero_replay\<rparr>,
     sta_freed = False, auth_loop = eloop_init, auth_trace = [], queries = 0\<rparr>"

definition sample_msg4 :: bytes where
  "sample_msg4 = [2, 3, 0, 95] @ put_key (zero_key\<lparr>k_type := 2, k_info := 0x30a, k_replay := [0, 0, 0, 0, 0, 0, 0, 2],
     k_mic := replicate 16 99\<rparr>)"

lemma sample_msg4_installs:
  "filter pair_key (auth_trace (wpa_receive sample_auth_env sample_msg4 sample_ap)) =
     [AuthSetKey 0 WPA_ALG_CCMP [2, 0, 0, 0, 0, 2] 0 (replicate 16 9)]"
  by code_simp

theorem ap_key_needs_mic_witness:
  "ap_authentic sample_auth_env sample_msg4 (sta sample_ap)"
proof -
  have "filter pair_key (auth_trace sample_ap) = []" by (simp add: sample_ap_def)
  then have "filter pair_key (auth_trace (wpa_receive sample_auth_env sample_msg4 sample_ap)) \<noteq> filter pair_key (auth_trace sample_ap)"
    by (simp add: sample_msg4_installs)
  then show ?thesis using ap_key_needs_mic [of sample_auth_env sample_msg4 sample_ap] by blast
qed

end
