(* ===== verification/WpaAuthRetry.thy ===== *)
theory WpaAuthRetry
  imports WpaAuthSafety
begin

text \<open>
  A station that answers no message of the 4-way handshake: after the last timeout the access point
  disconnects it.
\<close>

section \<open>Disconnections in the trace\<close>

definition disc :: "authenticator \<Rightarrow> auth_event list" where
  "disc a = filter ((=) StaDisconnect) (auth_trace a)"

lemma disc_simps [simp]:
  "disc (upd f a) = disc a" "disc (updg g a) = disc a" "disc (a_cancel k a) = disc a" "disc (a_register env s u k a) = disc a"
  "disc (snd (ask q a)) = disc a" "disc (wpa_auth_set_eapol var v a) = disc a" "disc (a_emit (AuthSend m e) a) = disc a"
  "disc (snd (wpa_auth_set_key env vl alg ad i key a)) = disc a" "disc (fail_4way a) = disc a"
  "disc (wpa_sta_disconnect a) = disc a @ [StaDisconnect]"
  by (simp_all add: disc_def a_cancel_def a_register_def ask_def wpa_auth_set_eapol_def a_emit_def wpa_auth_set_key_def
      fail_4way_def wpa_sta_disconnect_def)

lemma disc_send_key_data [simp]: "disc (snd (send_key_data env ver kde encr a)) = disc a"
  unfolding send_key_data_def Let_def snd_case by (simp split: option.splits)

lemma disc_send_frame [simp]: "disc (wpa_send_eapol_frame env info rsc nonce kde keyidx encr force a) = disc a"
  unfolding wpa_send_eapol_frame_def Let_def snd_case by (auto split: option.splits prod.splits)

lemma disc_send [simp]: "disc (wpa_send_eapol env info rsc nonce kde keyidx encr a) = disc a"
  unfolding wpa_send_eapol_def Let_def by simp

lemma disc_kde_add [simp]: "disc (snd (ieee80211w_kde_add env a)) = disc a"
  unfolding ieee80211w_kde_add_def Let_def snd_case by simp

lemma disc_sta_gtk [simp]: "disc (snd (sta_gtk env a)) = disc a"
  unfolding sta_gtk_def Let_def snd_case by simp

lemma disc_send_msg3 [simp]: "disc (send_msg3 env rsc gtk sec a) = disc a"
  unfolding send_msg3_def Let_def snd_case by simp

lemma disc_sta_gtk_case:
  assumes "\<And>k b. disc (f k b) = disc b"
  shows "disc (case sta_gtk env a of (None, b) \<Rightarrow> b | (Some k, b) \<Rightarrow> f k b) = disc a"
proof -
  obtain r b where r: "sta_gtk env a = (r, b)" by (cases "sta_gtk env a")
  then have "disc b = disc a" using disc_sta_gtk [of env a] by simp
  then show ?thesis using assms r by (simp split: option.splits)
qed

lemma disc_PTKSTART [simp]: "disc (sm_WPA_PTK_PTKSTART_Enter env a) = disc a"
  unfolding sm_WPA_PTK_PTKSTART_Enter_def Let_def ptk_entry_def by simp

lemma disc_PTKINITNEGOTIATING [simp]: "disc (sm_WPA_PTK_PTKINITNEGOTIATING_Enter env a) = disc a"
  unfolding sm_WPA_PTK_PTKINITNEGOTIATING_Enter_def Let_def ptk_entry_def snd_case [of _ "ask q b" for q b]
  by (simp add: disc_sta_gtk_case)

lemma disc_remove_ptk [simp]: "disc (wpa_remove_ptk env a) = disc a"
  by (simp add: wpa_remove_ptk_def Let_def)

lemma disc_INITIALIZE [simp]: "disc (sm_WPA_PTK_INITIALIZE_Enter env a) = disc a"
  unfolding sm_WPA_PTK_INITIALIZE_Enter_def Let_def ptk_entry_def init_unchanged_def uncount_sta_def by simp

section \<open>Rounds of a station at rest\<close>

definition quiet :: "wpa_ptk_state \<Rightarrow> int \<Rightarrow> bool \<Rightarrow> authenticator \<Rightarrow> bool" where
  "quiet st n evt a \<longleftrightarrow> (let s = sta a; g = grp a in
     wpa_ptk_state s = st \<and> TimeoutCtr s = n \<and> TimeoutEvt s = evt \<and> \<not> Init s \<and> \<not> Disconnect s \<and>
     \<not> DeauthenticationRequest s \<and> \<not> AuthenticationRequest s \<and> \<not> ReAuthenticationRequest s \<and> \<not> PTKRequest s \<and>
     \<not> EAPOLKeyReceived s \<and> \<not> update_snonce s \<and> \<not> pending_deinit s \<and>
     wpa_ptk_group_state s = WPA_PTK_GROUP_IDLE \<and> \<not> PtkGroupInit s \<and> \<not> GUpdateStationKeys s \<and> \<not> wants_group s \<and>
     \<not> GInit g \<and> wpa_group_state g = WPA_GROUP_SETKEYSDONE \<and> \<not> GTKReKey g \<and> \<not> group_changed g \<and> \<not> sta_freed a)"

lemma quiet_ctl:
  assumes "ctl b = ctl a" "quiet st n evt a"
  shows "quiet st n evt b"
proof -
  have "quiet st n evt c = quiet st n evt (c\<lparr>sta := ctl_s (sta c), grp := ctl_g (grp c)\<rparr>)" for c
    by (simp add: quiet_def ctl_s_def ctl_g_def wants_group_def Let_def)
  moreover have "quiet st n evt (b\<lparr>sta := x, grp := y\<rparr>) = quiet st n evt (a\<lparr>sta := x, grp := y\<rparr>)" for x y
    using ctl_D(3) [OF assms(1)] by (simp add: quiet_def)
  ultimately show ?thesis using assms(2) ctl_D(1,2) [OF assms(1)] by metis
qed

definition cleared :: "authenticator \<Rightarrow> authenticator" where
  "cleared a = updg (\<lambda>g. g\<lparr>group_changed := False\<rparr>) (upd (\<lambda>s. s\<lparr>sta_changed := False\<rparr>) a)"

lemma cleared_simps [simp]:
  "disc (cleared a) = disc a"
  "\<not> sta_changed (sta (cleared a))" "\<not> group_changed (grp (cleared a))" "in_step_loop (sta (cleared a)) = in_step_loop (sta a)"
  "auth_4way_failures (cleared a) = auth_4way_failures a" "PTK_valid (sta (cleared a)) = PTK_valid (sta a)"
  by (simp_all add: cleared_def) (simp add: upd_def updg_def)

lemma quiet_clear: "quiet st n evt a \<Longrightarrow> quiet st n evt (cleared a)"
  by (simp add: cleared_def quiet_def wants_group_def Let_def)

lemma quiet_round:
  assumes "quiet st n evt (sm_WPA_PTK_Step env (cleared a))"
  shows "sm_round env a = sm_WPA_PTK_Step env (cleared a)"
proof -
  define b where "b = sm_WPA_PTK_Step env (cleared a)"
  have "sm_WPA_PTK_GROUP_Step env b = b" "wpa_group_sm_step env (\<lambda>a. a) b = b"
    using assms unfolding b_def [symmetric]
    by (auto simp: quiet_def sm_WPA_PTK_GROUP_Step_def wpa_group_sm_step_def Let_def wants_group_def)
  then show ?thesis by (simp add: sm_round_def cleared_def [symmetric] Let_def b_def [symmetric])
qed

lemma loop_go:
  assumes "quiet st n evt a" "sm_WPA_PTK_Step env (cleared a) = b" "quiet st' n' evt' b" "sta_changed (sta b)"
  shows "sm_loop env (Suc m) a = sm_loop env m b"
proof -
  have "sm_round env a = b" using quiet_round [of st' n' evt' env a] assms(2,3) by simp
  then show ?thesis using assms(1,4) by (simp add: quiet_def Let_def)
qed

lemma loop_stop:
  assumes "quiet st n evt a" "sm_WPA_PTK_Step env (cleared a) = cleared a"
  shows "sm_loop env (Suc m) a = Some (cleared a)"
  using assms quiet_round [of st n evt env a] quiet_clear [OF assms(1)] by (simp add: quiet_def Let_def)

lemma quiet_step: "quiet st n evt a \<Longrightarrow> sm_WPA_PTK_Step env a = ptk_state_step env a"
  by (simp add: quiet_def sm_WPA_PTK_Step_def Let_def)

text \<open>The states that wait for a message of the station.\<close>

definition waiting :: "wpa_ptk_state \<Rightarrow> bool" where
  "waiting st \<longleftrightarrow> st = WPA_PTK_PTKSTART \<or> st = WPA_PTK_PTKINITNEGOTIATING"

definition resend :: "auth_env \<Rightarrow> wpa_ptk_state \<Rightarrow> authenticator \<Rightarrow> authenticator" where
  "resend env st a = (if st = WPA_PTK_PTKSTART then sm_WPA_PTK_PTKSTART_Enter env a else sm_WPA_PTK_PTKINITNEGOTIATING_Enter env a)"

lemma step_resend:
  assumes "quiet st n True a" "waiting st" "n \<le> 4"
  shows "sm_WPA_PTK_Step env a = resend env st a" "quiet st (n + 1) False (resend env st a)" "sta_changed (sta (resend env st a))"
    "disc (resend env st a) = disc a"
proof -
  have q: "wpa_ptk_state (sta a) = st" "TimeoutCtr (sta a) = n" "TimeoutEvt (sta a)" "\<not> EAPOLKeyReceived (sta a)" "\<not> update_snonce (sta a)"
    using assms(1) by (simp_all add: quiet_def Let_def)
  show "sm_WPA_PTK_Step env a = resend env st a"
    using assms(2,3) q by (auto simp: quiet_step [OF assms(1)] ptk_state_step_def Let_def waiting_def resend_def key_for_def)
  define f where "f s = s\<lparr>sta_changed := True, wpa_ptk_state := st, TimeoutEvt := False, TimeoutCtr := TimeoutCtr s + 1,
      PTKRequest := (PTKRequest s \<and> st \<noteq> WPA_PTK_PTKSTART)\<rparr>" for s :: wpa_state_machine
  have "ctl (resend env st a) = ctl (upd f a)"
  proof (cases "st = WPA_PTK_PTKSTART")
    case True
    then show ?thesis by (simp add: resend_def ctl_PTKSTART) (simp add: ctl_def f_def ctl_s_def)
  next
    case False
    then have "ctl (resend env st a) = ctl (upd (\<lambda>s. s\<lparr>sta_changed := True,
     wpa_ptk_state := WPA_PTK_PTKINITNEGOTIATING, TimeoutEvt := False, TimeoutCtr := TimeoutCtr s + 1\<rparr>) a)"
      using ctl_PTKINITNEGOTIATING by (simp add: resend_def)
    moreover have "f (sta a) = (sta a)\<lparr>sta_changed := True,
     wpa_ptk_state := WPA_PTK_PTKINITNEGOTIATING, TimeoutEvt := False, TimeoutCtr := TimeoutCtr (sta a) + 1\<rparr>"
      using False assms(2) by (simp add: f_def waiting_def)
    ultimately show ?thesis by (simp add: ctl_def)
  qed
  moreover have "quiet st (n + 1) False (upd f a)" using assms(1) by (simp add: quiet_def f_def Let_def wants_group_def)
  ultimately show "quiet st (n + 1) False (resend env st a)" "sta_changed (sta (resend env st a))"
    using quiet_ctl ctl_same(4) by (simp_all add: f_def)
  show "disc (resend env st a) = disc a" by (simp add: resend_def)
qed

lemma quiet_fields:
  assumes "quiet st n evt a"
  shows "wpa_ptk_state (sta a) = st" "TimeoutCtr (sta a) = n" "TimeoutEvt (sta a) = evt" "\<not> key_for pw (sta a)"
    "\<not> update_snonce (sta a)" "\<not> pending_deinit (sta a)"
proof -
  show "wpa_ptk_state (sta a) = st" using assms by (simp add: quiet_def Let_def)
  show "TimeoutCtr (sta a) = n" using assms by (simp add: quiet_def Let_def)
  show "TimeoutEvt (sta a) = evt" using assms by (simp add: quiet_def Let_def)
  show "\<not> key_for pw (sta a)" using assms by (simp add: quiet_def Let_def key_for_def)
  show "\<not> update_snonce (sta a)" using assms by (simp add: quiet_def Let_def)
  show "\<not> pending_deinit (sta a)" using assms by (simp add: quiet_def Let_def)
qed

lemma step_idle:
  assumes "quiet st n False a" "waiting st \<and> n \<le> 4 \<or> st = WPA_PTK_INITIALIZE"
  shows "sm_WPA_PTK_Step env a = a"
proof -
  note q = quiet_fields [OF assms(1)]
  from assms(2) consider "st = WPA_PTK_INITIALIZE" | "st = WPA_PTK_PTKSTART" "n \<le> 4" | "st = WPA_PTK_PTKINITNEGOTIATING" "n \<le> 4"
    by (auto simp: waiting_def)
  then show ?thesis by cases (simp_all add: quiet_step [OF assms(1)] ptk_state_step_def q)
qed

lemma step_give_up:
  assumes "quiet st n False a" "waiting st" "n > 4"
  shows "sm_WPA_PTK_Step env a = sm_WPA_PTK_DISCONNECT_Enter (fail_4way a)"
    "quiet WPA_PTK_DISCONNECT n False (sm_WPA_PTK_DISCONNECT_Enter (fail_4way a))"
    "sta_changed (sta (sm_WPA_PTK_DISCONNECT_Enter (fail_4way a)))"
    "disc (sm_WPA_PTK_DISCONNECT_Enter (fail_4way a)) = disc a @ [StaDisconnect]"
proof -
  show "sm_WPA_PTK_Step env a = sm_WPA_PTK_DISCONNECT_Enter (fail_4way a)"
    using assms(2,3) quiet_fields [OF assms(1)]
    by (cases "st = WPA_PTK_PTKSTART") (simp_all add: quiet_step [OF assms(1)] ptk_state_step_def waiting_def)
  have "quiet WPA_PTK_DISCONNECT n False
      (upd (\<lambda>s. s\<lparr>sta_changed := True, wpa_ptk_state := WPA_PTK_DISCONNECT, Disconnect := False\<rparr>) (fail_4way a))"
    using assms(1) by (simp add: quiet_def fail_4way_def Let_def wants_group_def)
  then show "quiet WPA_PTK_DISCONNECT n False (sm_WPA_PTK_DISCONNECT_Enter (fail_4way a))"
    by (rule quiet_ctl [OF ctl_DISCONNECT])
  show "sta_changed (sta (sm_WPA_PTK_DISCONNECT_Enter (fail_4way a)))" by (simp add: ctl_same(4) [OF ctl_DISCONNECT])
  show "disc (sm_WPA_PTK_DISCONNECT_Enter (fail_4way a)) = disc a @ [StaDisconnect]"
    by (simp add: sm_WPA_PTK_DISCONNECT_Enter_def ptk_entry_def)
qed

lemma step_disconnected:
  assumes "quiet WPA_PTK_DISCONNECT n False a"
  shows "sm_WPA_PTK_Step env a = sm_WPA_PTK_DISCONNECTED_Enter a"
    "quiet WPA_PTK_DISCONNECTED n False (sm_WPA_PTK_DISCONNECTED_Enter a)"
    "sta_changed (sta (sm_WPA_PTK_DISCONNECTED_Enter a))" "disc (sm_WPA_PTK_DISCONNECTED_Enter a) = disc a"
proof -
  have st: "wpa_ptk_state (sta a) = WPA_PTK_DISCONNECT" using assms by (simp add: quiet_def Let_def)
  show "sm_WPA_PTK_Step env a = sm_WPA_PTK_DISCONNECTED_Enter a" by (simp add: quiet_step [OF assms] ptk_state_step_def st)
  have "quiet WPA_PTK_DISCONNECTED n False
      (upd (\<lambda>s. s\<lparr>sta_changed := True, wpa_ptk_state := WPA_PTK_DISCONNECTED, DeauthenticationRequest := False\<rparr>) a)"
    using assms by (simp add: quiet_def Let_def wants_group_def)
  then show "quiet WPA_PTK_DISCONNECTED n False (sm_WPA_PTK_DISCONNECTED_Enter a)" by (rule quiet_ctl [OF ctl_DISCONNECTED])
  show "sta_changed (sta (sm_WPA_PTK_DISCONNECTED_Enter a))" by (simp add: ctl_same(4) [OF ctl_DISCONNECTED])
  show "disc (sm_WPA_PTK_DISCONNECTED_Enter a) = disc a" by (simp add: sm_WPA_PTK_DISCONNECTED_Enter_def ptk_entry_def)
qed

lemma step_initialize:
  assumes "quiet WPA_PTK_DISCONNECTED n False a"
  shows "sm_WPA_PTK_Step env a = sm_WPA_PTK_INITIALIZE_Enter env a"
    "quiet WPA_PTK_INITIALIZE 0 False (sm_WPA_PTK_INITIALIZE_Enter env a)"
    "sta_changed (sta (sm_WPA_PTK_INITIALIZE_Enter env a))" "\<not> PTK_valid (sta (sm_WPA_PTK_INITIALIZE_Enter env a))"
proof -
  have st: "wpa_ptk_state (sta a) = WPA_PTK_DISCONNECTED" and i: "\<not> Init (sta a)" and u: "\<not> GUpdateStationKeys (sta a)"
    using assms by (simp_all add: quiet_def Let_def)
  show "sm_WPA_PTK_Step env a = sm_WPA_PTK_INITIALIZE_Enter env a" by (simp add: quiet_step [OF assms] ptk_state_step_def st)
  have "quiet WPA_PTK_INITIALIZE 0 False (updg (uncounted (sta a)) (upd (\<lambda>s. s\<lparr>sta_changed := \<not> Init s,
     wpa_ptk_state := WPA_PTK_INITIALIZE, GUpdateStationKeys := False, PInitAKeys := (PInitAKeys s \<and> sta_wpa s \<noteq> WPA_VERSION_WPA),
     Pair := True, PTK_valid := False, PTK := ptk_zero, TimeoutCtr := 0\<rparr>) a))"
    using assms u by (simp add: quiet_def Let_def wants_group_def uncounted_def)
  then show "quiet WPA_PTK_INITIALIZE 0 False (sm_WPA_PTK_INITIALIZE_Enter env a)" by (rule quiet_ctl [OF ctl_INITIALIZE])
  show "sta_changed (sta (sm_WPA_PTK_INITIALIZE_Enter env a))" using i by (simp add: ctl_same(4) [OF ctl_INITIALIZE])
  have "PTK_valid (ctl_s (sta (sm_WPA_PTK_INITIALIZE_Enter env a))) = False"
    using ctl_D(1) [OF ctl_INITIALIZE [of env a]] by (simp add: ctl_s_def)
  then show "\<not> PTK_valid (sta (sm_WPA_PTK_INITIALIZE_Enter env a))" by (simp add: ctl_s_def)
qed

section \<open>Timeouts\<close>

lemma fuel_Suc: "SM_FUEL = Suc (Suc (Suc (Suc (Suc 295))))"
  by (simp add: SM_FUEL_def)

lemma loop_resend:
  assumes "quiet st n True a" "waiting st" "n \<le> 3"
  shows "\<exists>b. sm_loop env SM_FUEL a = Some b \<and> quiet st (n + 1) False b \<and> disc b = disc a"
proof -
  define b where "b = resend env st (cleared a)"
  have q: "quiet st n True (cleared a)" using assms(1) by (rule quiet_clear)
  have n: "n \<le> 4" using assms(3) by simp
  note r = step_resend [OF q assms(2) n, of env, folded b_def]
  have "sm_WPA_PTK_Step env (cleared b) = cleared b"
    using assms r(2) by (intro step_idle [of st "n + 1"] quiet_clear) simp_all
  then have "sm_loop env SM_FUEL a = Some (cleared b)"
    unfolding fuel_Suc loop_go [OF assms(1) r(1,2,3)] by (rule loop_stop [OF r(2)])
  then show ?thesis using r quiet_clear [OF r(2)] by simp
qed

lemma loop_give_up:
  assumes "quiet st 4 True a" "waiting st"
  shows "\<exists>b. sm_loop env SM_FUEL a = Some b \<and> quiet WPA_PTK_INITIALIZE 0 False b \<and> disc b = disc a @ [StaDisconnect] \<and>
    \<not> PTK_valid (sta b)"
proof -
  define b where "b = resend env st (cleared a)"
  have q: "quiet st 4 True (cleared a)" using assms(1) by (rule quiet_clear)
  note r = step_resend [OF q assms(2) order.refl, of env, folded b_def]
  define c where "c = sm_WPA_PTK_DISCONNECT_Enter (fail_4way (cleared b))"
  have n: "4 + 1 > (4 :: int)" by simp
  note rc = step_give_up [OF quiet_clear [OF r(2)] assms(2) n, folded c_def]
  define d where "d = sm_WPA_PTK_DISCONNECTED_Enter (cleared c)"
  note rd = step_disconnected [OF quiet_clear [OF rc(2)], folded d_def]
  define e where "e = sm_WPA_PTK_INITIALIZE_Enter env (cleared d)"
  note re = step_initialize [OF quiet_clear [OF rd(2)], of env, folded e_def]
  have s: "sm_WPA_PTK_Step env (cleared e) = cleared e" by (rule step_idle [OF quiet_clear [OF re(2)]]) (rule disjI2, rule refl)
  have "sm_loop env SM_FUEL a = Some (cleared e)"
    unfolding fuel_Suc loop_go [OF assms(1) r(1,2,3)] loop_go [OF r(2) rc(1,2,3)] loop_go [OF rc(2) rd(1,2,3)]
      loop_go [OF rd(2) re(1,2,3)] by (rule loop_stop [OF re(2) s])
  moreover have "disc (cleared e) = disc a @ [StaDisconnect]" using r(4) rc(4) rd(4) by (simp add: e_def)
  ultimately show ?thesis using re quiet_clear [OF re(2)] by simp
qed

lemma quiet_timeout:
  assumes "quiet st n False a"
  shows "quiet st n True (upd (\<lambda>s. s\<lparr>in_step_loop := v\<rparr>) (upd (\<lambda>s. s\<lparr>pending_1_of_4_timeout := False, TimeoutEvt := True\<rparr>) a))"
  using assms by (simp add: quiet_def Let_def wants_group_def)

lemma quiet_in_loop: "quiet st n evt (upd (\<lambda>s. s\<lparr>in_step_loop := v\<rparr>) a) = quiet st n evt a"
  by (simp add: quiet_def Let_def wants_group_def)

lemma timeout_result:
  assumes "quiet st n evt a" "\<not> in_step_loop (sta a)" "quiet st' n' evt' b"
    "sm_loop env SM_FUEL (upd (\<lambda>s. s\<lparr>in_step_loop := True\<rparr>) (upd (\<lambda>s. s\<lparr>pending_1_of_4_timeout := False, TimeoutEvt := True\<rparr>) a)) = Some b"
  shows "wpa_send_eapol_timeout env a = upd (\<lambda>s. s\<lparr>in_step_loop := False\<rparr>) b"
proof -
  have "\<not> sta_freed a" using assms(1) by (simp add: quiet_def Let_def)
  then show ?thesis using assms(2,4) quiet_fields(6) [OF assms(3)] by (simp add: wpa_send_eapol_timeout_def wpa_sm_step_def Let_def)
qed

lemma timeout_resend:
  assumes "quiet st n False a" "\<not> in_step_loop (sta a)" "waiting st" "n \<le> 3"
  shows "quiet st (n + 1) False (wpa_send_eapol_timeout env a)" "\<not> in_step_loop (sta (wpa_send_eapol_timeout env a))"
    "disc (wpa_send_eapol_timeout env a) = disc a"
proof -
  obtain b where b: "sm_loop env SM_FUEL (upd (\<lambda>s. s\<lparr>in_step_loop := True\<rparr>)
      (upd (\<lambda>s. s\<lparr>pending_1_of_4_timeout := False, TimeoutEvt := True\<rparr>) a)) = Some b" "quiet st (n + 1) False b" "disc b = disc a"
    using loop_resend [OF quiet_timeout [OF assms(1)] assms(3,4), of env True] by auto
  note t = timeout_result [OF assms(1,2) b(2,1)]
  show "quiet st (n + 1) False (wpa_send_eapol_timeout env a)" "\<not> in_step_loop (sta (wpa_send_eapol_timeout env a))"
    "disc (wpa_send_eapol_timeout env a) = disc a" using b by (simp_all add: t quiet_in_loop)
qed

lemma timeout_give_up:
  assumes "quiet st 4 False a" "\<not> in_step_loop (sta a)" "waiting st"
  shows "wpa_ptk_state (sta (wpa_send_eapol_timeout env a)) = WPA_PTK_INITIALIZE" "\<not> PTK_valid (sta (wpa_send_eapol_timeout env a))"
    "disc (wpa_send_eapol_timeout env a) = disc a @ [StaDisconnect]"
proof -
  obtain b where b: "sm_loop env SM_FUEL (upd (\<lambda>s. s\<lparr>in_step_loop := True\<rparr>)
      (upd (\<lambda>s. s\<lparr>pending_1_of_4_timeout := False, TimeoutEvt := True\<rparr>) a)) = Some b" "quiet WPA_PTK_INITIALIZE 0 False b"
      "disc b = disc a @ [StaDisconnect]" "\<not> PTK_valid (sta b)"
    using loop_give_up [OF quiet_timeout [OF assms(1)] assms(3), of env True] by auto
  note t = timeout_result [OF assms(1,2) b(2,1)]
  show "wpa_ptk_state (sta (wpa_send_eapol_timeout env a)) = WPA_PTK_INITIALIZE" "\<not> PTK_valid (sta (wpa_send_eapol_timeout env a))"
    "disc (wpa_send_eapol_timeout env a) = disc a @ [StaDisconnect]"
    using b quiet_fields(1) [OF b(2)] by (simp_all add: t)
qed


definition sample_waiting :: authenticator where
  "sample_waiting = upd (\<lambda>s. s\<lparr>wpa_ptk_state := WPA_PTK_PTKSTART, PTK_valid := False\<rparr>) sample_ap"


end
