(* ===== verification/Hash.thy ===== *)
theory Hash
  imports Prelude
begin

text \<open>
  What the hash functions of \<open>src/crypto\<close> share: the iteration of a compression function over the
  blocks of 64 octets of a padded message, and the locales \<open>stream_hash\<close>, the contract of a context
  that is fed piece by piece, and \<open>hash_function\<close>, the contract on which HMAC rests.
\<close>

section \<open>Accessors\<close>

definition WPA_PUT_BE64 :: "u64 \<Rightarrow> bytes" where
  "WPA_PUT_BE64 val =
     [ucast (drop_bit 56 val), ucast (drop_bit 48 val AND 0xff), ucast (drop_bit 40 val AND 0xff),
      ucast (drop_bit 32 val AND 0xff), ucast (drop_bit 24 val AND 0xff), ucast (drop_bit 16 val AND 0xff),
      ucast (drop_bit 8 val AND 0xff), ucast (val AND 0xff)]"

lemma length_put_BE64 [simp]: "length (WPA_PUT_BE64 v) = 8"
  by (simp add: WPA_PUT_BE64_def)

section \<open>Iteration over blocks\<close>

text \<open>The full blocks of 64 octets, and the octets behind them.\<close>

definition full_blocks :: "bytes \<Rightarrow> bytes list" where
  "full_blocks m = map (\<lambda>i. take 64 (drop (64 * i) m)) [0..<length m div 64]"

definition rest_octets :: "bytes \<Rightarrow> bytes" where
  "rest_octets m = drop (64 * (length m div 64)) m"

definition iterate_hash :: "('s \<Rightarrow> bytes \<Rightarrow> 's) \<Rightarrow> 's \<Rightarrow> bytes \<Rightarrow> 's" where
  "iterate_hash f s m = foldl f s (full_blocks m)"

text \<open>The padding of a message and the hash; \<open>lenc\<close> encodes the number of bits in 8 octets.\<close>

definition md_pad :: "(nat \<Rightarrow> bytes) \<Rightarrow> bytes \<Rightarrow> bytes" where
  "md_pad lenc m = m @ [0x80] @ replicate ((119 - length m mod 64) mod 64) 0 @ lenc (8 * length m)"

definition md_hash :: "('s \<Rightarrow> bytes \<Rightarrow> 's) \<Rightarrow> 's \<Rightarrow> (nat \<Rightarrow> bytes) \<Rightarrow> ('s \<Rightarrow> bytes) \<Rightarrow> bytes \<Rightarrow> bytes" where
  "md_hash f iv lenc out m = out (iterate_hash f iv (md_pad lenc m))"

lemma length_rest [simp]: "length (rest_octets m) = length m mod 64"
  by (simp add: rest_octets_def minus_mult_div_eq_mod)

lemma full_blocks_short [simp]: "length m < 64 \<Longrightarrow> full_blocks m = []"
  by (simp add: full_blocks_def)

lemma rest_short [simp]: "length m < 64 \<Longrightarrow> rest_octets m = m"
  by (simp add: rest_octets_def)

lemma full_blocks_Cons:
  assumes "length b = 64" shows "full_blocks (b @ m) = b # full_blocks m"
proof -
  have "length (b @ m) div 64 = Suc (length m div 64)" using assms by simp
  moreover have "[0..<Suc n] = 0 # map Suc [0..<n]" for n by (metis map_Suc_upt upt_conv_Cons zero_less_Suc)
  ultimately show ?thesis using assms by (simp add: full_blocks_def comp_def del: upt_Suc)
qed

lemma rest_Cons:
  assumes "length b = 64" shows "rest_octets (b @ m) = rest_octets m"
proof -
  have "length (b @ m) div 64 = Suc (length m div 64)" using assms by simp
  then show ?thesis using assms by (simp add: rest_octets_def)
qed

text \<open>Induction over the blocks of a message.\<close>

lemma block_induct [case_names short block]:
  assumes "\<And>m. length m < 64 \<Longrightarrow> P m" and "\<And>b m. length b = 64 \<Longrightarrow> P m \<Longrightarrow> P (b @ m)"
  shows "P (m :: bytes)"
proof (induction m rule: length_induct)
  case (1 m)
  show ?case
  proof (cases "length m < 64")
    case False
    then have "P (take 64 m @ drop 64 m)" using 1 by (intro assms(2)) auto
    then show ?thesis by simp
  qed (rule assms(1))
qed

lemma iterate_block [simp]: "length b = 64 \<Longrightarrow> iterate_hash f s (b @ m) = iterate_hash f (f s b) m"
  by (simp add: iterate_hash_def full_blocks_Cons)

lemma iterate_short [simp]: "length m < 64 \<Longrightarrow> iterate_hash f s m = s"
  by (simp add: iterate_hash_def)

text \<open>A message goes on from its full blocks and the octets behind them.\<close>

lemma iterate_append:
  "iterate_hash f s (m @ d) = iterate_hash f (iterate_hash f s m) (rest_octets m @ d)"
  by (induction m arbitrary: s rule: block_induct) (simp_all add: rest_Cons)

lemma rest_append: "rest_octets (m @ d) = rest_octets (rest_octets m @ d)"
  by (induction m rule: block_induct) (simp_all add: rest_Cons)

lemma iterate_one: "length m = 64 \<Longrightarrow> iterate_hash f s m = f s m"
  using iterate_block [of m f s "[]"] by simp

text \<open>The padding in terms of the octets behind the full blocks: one block, or two.\<close>

lemma md_hash_rest:
  assumes l: "length (lenc (8 * length m)) = 8"
  shows "md_hash f iv lenc out m =
    (let s = iterate_hash f iv m; r = rest_octets m; k = length r in
     out (if k < 56 then f s (r @ [0x80] @ replicate (55 - k) 0 @ lenc (8 * length m))
          else f (f s (r @ [0x80] @ replicate (63 - k) 0)) (replicate 56 0 @ lenc (8 * length m))))"
proof -
  define r k s where "r = rest_octets m" and "k = length r" and "s = iterate_hash f iv m"
  have k: "k < 64" "k = length m mod 64" by (simp_all add: k_def r_def)
  have "md_hash f iv lenc out m = out (iterate_hash f s (r @ [0x80] @ replicate ((119 - k) mod 64) 0 @ lenc (8 * length m)))"
    unfolding md_hash_def md_pad_def by (simp only: iterate_append [of f iv m] k(2) s_def r_def)
  also have "\<dots> = out (if k < 56 then f s (r @ [0x80] @ replicate (55 - k) 0 @ lenc (8 * length m))
          else f (f s (r @ [0x80] @ replicate (63 - k) 0)) (replicate 56 0 @ lenc (8 * length m)))"
  proof (cases "k < 56")
    case True
    then have "(119 - k) mod 64 = 55 - k" by (simp add: le_mod_geq)
    then show ?thesis using True l by (simp add: iterate_one flip: k_def)
  next
    case False
    then have p: "(119 - k) mod 64 = (63 - k) + 56" using k(1) by simp
    have e: "r @ [0x80] @ replicate ((119 - k) mod 64) 0 @ lenc (8 * length m) =
        (r @ [0x80] @ replicate (63 - k) 0) @ (replicate 56 0 @ lenc (8 * length m))"
      by (simp only: p replicate_add append_assoc)
    show ?thesis unfolding e using False k(1) l by (simp add: iterate_one flip: k_def del: append_assoc)
  qed
  finally show ?thesis by (simp add: Let_def s_def r_def k_def)
qed

section \<open>Words\<close>

text \<open>A block of 64 octets as 16 words, little endian as in memory and big endian as in FIPS 180-4.\<close>

definition block_words :: "bytes \<Rightarrow> u32 list" where
  "block_words b = map (\<lambda>i. WPA_GET_LE32 (take 4 (drop (4 * i) b))) [0..<16]"

definition fips_words :: "bytes \<Rightarrow> u32 list" where
  "fips_words m = map (\<lambda>t. WPA_GET_BE32 (take 4 (drop (4 * t) m))) [0..<16]"

text \<open>Functions of FIPS 180-4.\<close>

definition fips_ROTL :: "nat \<Rightarrow> u32 \<Rightarrow> u32" where
  "fips_ROTL n x = push_bit n x OR drop_bit (32 - n) x"

definition fips_Ch :: "u32 \<Rightarrow> u32 \<Rightarrow> u32 \<Rightarrow> u32" where
  "fips_Ch x y z = (x AND y) XOR (NOT x AND z)"

definition fips_Maj :: "u32 \<Rightarrow> u32 \<Rightarrow> u32 \<Rightarrow> u32" where
  "fips_Maj x y z = (x AND y) XOR (x AND z) XOR (y AND z)"

lemma Ch_select: "((x AND (y XOR z)) XOR z) = fips_Ch x y z"
  unfolding fips_Ch_def by (rule bit_word_eqI) (auto simp: bit_simps)

lemma Maj_select: "(((x OR y) AND z) OR (x AND y)) = fips_Maj x y z"
  unfolding fips_Maj_def by (rule bit_word_eqI) (auto simp: bit_simps)

lemma length_fips_words [simp]: "length (fips_words m) = 16"
  by (simp add: fips_words_def)

lemma foldl_cong_on: "(\<And>a x. x \<in> set xs \<Longrightarrow> f a x = g a x) \<Longrightarrow> foldl f a xs = foldl g a xs"
  by (induction xs arbitrary: a) simp_all

section \<open>Message schedules\<close>

text \<open>A schedule of words, each computed from the words before it.\<close>

fun expand_words :: "(u32 list \<Rightarrow> u32) \<Rightarrow> nat \<Rightarrow> u32 list \<Rightarrow> u32 list" where
  "expand_words g 0 ws = ws"
| "expand_words g (Suc n) ws = expand_words g n (ws @ [g ws])"

lemma length_expand_words [simp]: "length (expand_words g n ws) = length ws + n"
  by (induction n arbitrary: ws) simp_all

lemma take_expand: "take (length ws) (expand_words g n ws) = ws"
proof (induction n arbitrary: ws)
  case (Suc n)
  have "take (length ws) (take (length (ws @ [g ws])) (expand_words g (Suc n) ws)) = ws"
    using Suc [of "ws @ [g ws]"] by simp
  then show ?case by simp
qed simp

lemma nth_expand_old: "t < length ws \<Longrightarrow> expand_words g n ws ! t = ws ! t"
  by (metis nth_take take_expand)

lemma nth_expand_new:
  "length ws \<le> t \<Longrightarrow> t < length ws + n \<Longrightarrow> expand_words g n ws ! t = g (take t (expand_words g n ws))"
proof (induction n arbitrary: ws)
  case (Suc n)
  show ?case
  proof (cases "t = length ws")
    case True
    then show ?thesis
      using take_expand [of ws g "Suc n"] nth_expand_old [of t "ws @ [g ws]" g n] by simp
  next
    case False
    then show ?thesis using Suc.IH [of "ws @ [g ws]"] Suc.prems by simp
  qed
qed simp

section \<open>The count of the bits\<close>

text \<open>Two 32 bit words count the bits of a message; the carry is taken from the wrapped sum.\<close>

lemma count_low: "(word_of_nat (8 * n) :: u32) + push_bit 3 (word_of_nat d) = word_of_nat (8 * (n + d))"
  by (simp add: push_bit_eq_mult algebra_simps)

lemma carry_iff:
  assumes "a < (M :: nat)" "b < M" shows "(a + b) mod M < b \<longleftrightarrow> M \<le> a + b" "(a + b) mod M < a \<longleftrightarrow> M \<le> a + b"
  using assms by (auto simp: mod_if)

lemma div_add_carry:
  assumes "(M :: nat) > 0"
  shows "(x + y) div M = x div M + y div M + (if M \<le> x mod M + y mod M then 1 else 0)"
proof -
  have "(x + y) div M = x div M + y div M + (x mod M + y mod M) div M" by (rule div_add1_eq)
  moreover have "x mod M + y mod M - M < M"
    using mod_less_divisor [OF assms, of x] mod_less_divisor [OF assms, of y] by linarith
  then have "(x mod M + y mod M) div M = (if M \<le> x mod M + y mod M then 1 else 0)"
    using assms by (simp add: div_if)
  ultimately show ?thesis by simp
qed

lemma count_high:
  fixes n d :: nat
  assumes d: "d < 2 ^ 32"
  defines "len \<equiv> word_of_nat d :: u32" and "c0 \<equiv> word_of_nat (8 * n) :: u32"
  shows "(word_of_nat (8 * n div 2 ^ 32) :: u32) + (if c0 + push_bit 3 len < push_bit 3 len then 1 else 0) +
      drop_bit 29 len = word_of_nat (8 * (n + d) div 2 ^ 32)" (is ?A)
    and "c0 + push_bit 3 len < push_bit 3 len \<longleftrightarrow> c0 + push_bit 3 len < c0" (is ?B)
proof -
  have a: "unat c0 = 8 * n mod 2 ^ 32" unfolding c0_def by (simp only: unat_of_nat, simp)
  have p: "push_bit 3 len = word_of_nat (8 * d)" by (simp add: len_def push_bit_eq_mult)
  then have b: "unat (push_bit 3 len) = 8 * d mod 2 ^ 32" by (simp only: unat_of_nat p, simp)
  have s: "unat (c0 + push_bit 3 len) = (8 * n mod 2 ^ 32 + 8 * d mod 2 ^ 32) mod 2 ^ 32"
    by (simp only: unat_word_ariths a b, simp)
  have lt: "8 * n mod 2 ^ 32 < (2 ^ 32 :: nat)" "8 * d mod 2 ^ 32 < (2 ^ 32 :: nat)" by simp_all
  have c: "c0 + push_bit 3 len < push_bit 3 len \<longleftrightarrow> 2 ^ 32 \<le> 8 * n mod 2 ^ 32 + 8 * d mod (2 ^ 32 :: nat)"
    unfolding word_less_nat_alt s b by (rule carry_iff(1) [OF lt])
  have c': "c0 + push_bit 3 len < c0 \<longleftrightarrow> 2 ^ 32 \<le> 8 * n mod 2 ^ 32 + 8 * d mod (2 ^ 32 :: nat)"
    unfolding word_less_nat_alt s a by (rule carry_iff(2) [OF lt])
  show ?B using c c' by simp
  have h: "drop_bit 29 len = word_of_nat (8 * d div 2 ^ 32)"
  proof (rule word_unat_eq_iff [THEN iffD2])
    have "unat len = d" using d by (simp add: len_def unat_of_nat)
    then have "unat (drop_bit 29 len) = d div 2 ^ 29" by (simp add: drop_bit_eq_div unat_div)
    moreover have "8 * d div 2 ^ 32 = d div 2 ^ 29" using div_mult_mult1 [of "8::nat" d "2 ^ 29"] by simp
    moreover have "d div 2 ^ 29 < 2 ^ 32" using d by (simp add: less_mult_imp_div_less)
    ultimately show "unat (drop_bit 29 len) = unat (word_of_nat (8 * d div 2 ^ 32) :: u32)"
      by (simp add: unat_of_nat)
  qed
  have "8 * (n + d) div 2 ^ 32 = 8 * n div 2 ^ 32 + 8 * d div 2 ^ 32 +
      (if 2 ^ 32 \<le> 8 * n mod 2 ^ 32 + 8 * d mod (2 ^ 32 :: nat) then 1 else 0)"
    using div_add_carry [of "2 ^ 32" "8 * n" "8 * d"] by (simp only: distrib_left, simp)
  then have "(word_of_nat (8 * (n + d) div 2 ^ 32) :: u32) = word_of_nat (8 * n div 2 ^ 32) + word_of_nat (8 * d div 2 ^ 32) +
      (if 2 ^ 32 \<le> 8 * n mod 2 ^ 32 + 8 * d mod (2 ^ 32 :: nat) then 1 else 0)"
    by (simp only: of_nat_add if_distrib [of word_of_nat] of_nat_1 semiring_1_class.of_nat_0)
  then show ?A unfolding h c by (simp only: ac_simps)
qed

text \<open>The number of octets in the buffer, and the octets of the count.\<close>

lemma count_mod_64: "unat (drop_bit 3 (word_of_nat (8 * n) :: u32) AND 63) = n mod 64"
proof -
  have m: "(63 :: u32) = mask 6" by (simp add: mask_eq_exp_minus_1)
  have "unat (drop_bit 3 (word_of_nat (8 * n) :: u32)) = 8 * n mod 2 ^ 32 div 8"
    by (simp add: drop_bit_eq_div unat_div unat_of_nat del: of_nat_mult)
  also have "\<dots> = n mod 2 ^ 29" using mod_mult_mult1 [of 8 n "2 ^ 29"] by simp
  finally have "unat (drop_bit 3 (word_of_nat (8 * n) :: u32) AND 63) = n mod 2 ^ 29 mod 2 ^ 6"
    by (simp add: m unat_mod take_bit_eq_mod del: of_nat_mult flip: take_bit_eq_mask)
  also have "\<dots> = n mod 64" by (simp add: mod_mod_cancel)
  finally show ?thesis .
qed

section \<open>The contract of a hash context\<close>

text \<open>
  \<open>repr c m\<close>: the context \<open>c\<close> has been fed the message \<open>m\<close>. \<open>update\<close> may fail or not end, but not on
  data that \<open>fits\<close> its length argument.
\<close>

locale stream_hash =
  fixes init :: 'c and update :: "'c \<Rightarrow> bytes \<Rightarrow> 'c option" and final :: "'c \<Rightarrow> bytes option"
    and digest :: "bytes \<Rightarrow> bytes" and fits :: "bytes \<Rightarrow> bool" and repr :: "'c \<Rightarrow> bytes \<Rightarrow> bool"
  assumes repr_init: "repr init []"
    and repr_update: "repr c m \<Longrightarrow> fits d \<Longrightarrow> \<exists>c'. update c d = Some c' \<and> repr c' (m @ d)"
    and repr_final: "repr c m \<Longrightarrow> final c = Some (digest m)"

text \<open>The loop of the \<open>_vector\<close> functions over their elements.\<close>

fun update_all :: "('c \<Rightarrow> bytes \<Rightarrow> 'c option) \<Rightarrow> 'c \<Rightarrow> bytes list \<Rightarrow> 'c option" where
  "update_all update c [] = Some c"
| "update_all update c (d # ds) = (case update c d of None \<Rightarrow> None | Some c \<Rightarrow> update_all update c ds)"

context stream_hash
begin

lemma update_all_repr:
  "repr c m \<Longrightarrow> list_all fits ds \<Longrightarrow> \<exists>c'. update_all update c ds = Some c' \<and> repr c' (m @ concat ds)"
proof (induction ds arbitrary: c m)
  case (Cons d ds)
  obtain c' where c': "update c d = Some c'" "repr c' (m @ d)" using repr_update Cons.prems by fastforce
  then show ?case using Cons.IH [OF c'(2)] Cons.prems(2) by simp
qed simp

lemma vector_digest:
  "list_all fits ds \<Longrightarrow>
    (case update_all update init ds of None \<Rightarrow> None | Some c \<Rightarrow> final c) = Some (digest (concat ds))"
  using update_all_repr [OF repr_init] repr_final by fastforce

end

section \<open>The contract of a hash function\<close>

text \<open>\<open>vector\<close> hashes the elements of an array, \<open>digest\<close> a message; the result has \<open>n\<close> octets.\<close>

locale hash_function =
  fixes vector :: "bytes list \<Rightarrow> bytes option" and digest :: "bytes \<Rightarrow> bytes" and n :: nat
    and fits :: "bytes \<Rightarrow> bool"
  assumes vector: "list_all fits ds \<Longrightarrow> vector ds = Some (digest (concat ds))"
    and length_digest: "length (digest m) = n"
    and n_block: "n \<le> 64"
    and fits_block: "length d \<le> 64 \<Longrightarrow> fits d"

end
