(* ===== verification/Sha1.thy ===== *)
theory Sha1
  imports Hash
begin

text \<open>
  SHA-1, \<open>src/crypto/sha1-internal.c\<close>: the compression function with its unrolled rounds and the message
  schedule in the 16 words of the block, and the context with its buffer and count of bits. The machine
  is little endian. It is shown to compute the SHA-1 of FIPS 180-4 of the concatenated elements.
\<close>

section \<open>Compression\<close>

definition rol :: "u32 \<Rightarrow> nat \<Rightarrow> u32" where
  "rol val bits = push_bit bits val OR drop_bit (32 - bits) val"

text \<open>\<open>blk0\<close> swaps the octets of a word of the block, \<open>blk\<close> replaces one by a new word.\<close>

definition blk0 :: "nat \<Rightarrow> u32 list \<Rightarrow> u32 list" where
  "blk0 i l = l[i := (rol (l ! i) 24 AND 0xFF00FF00) OR (rol (l ! i) 8 AND 0x00FF00FF)]"

definition blk :: "nat \<Rightarrow> u32 list \<Rightarrow> u32 list" where
  "blk i l = l[i mod 16 := rol (l ! ((i + 13) mod 16) XOR l ! ((i + 8) mod 16) XOR l ! ((i + 2) mod 16) XOR l ! (i mod 16)) 1]"

type_synonym sha1_vars = "u32 \<times> u32 \<times> u32 \<times> u32 \<times> u32"

text \<open>The macros \<open>R0\<close> to \<open>R4\<close>: \<open>z\<close> and \<open>w\<close> are assigned.\<close>

definition R0 :: "nat \<Rightarrow> sha1_vars \<times> u32 list \<Rightarrow> sha1_vars \<times> u32 list" where
  "R0 i = (\<lambda>((v, w, x, y, z), l). let l = blk0 i l in
     ((v, rol w 30, x, y, z + (((w AND (x XOR y)) XOR y) + l ! i + 0x5A827999 + rol v 5)), l))"

definition R1 :: "nat \<Rightarrow> sha1_vars \<times> u32 list \<Rightarrow> sha1_vars \<times> u32 list" where
  "R1 i = (\<lambda>((v, w, x, y, z), l). let l = blk i l in
     ((v, rol w 30, x, y, z + (((w AND (x XOR y)) XOR y) + l ! (i mod 16) + 0x5A827999 + rol v 5)), l))"

definition R2 :: "nat \<Rightarrow> sha1_vars \<times> u32 list \<Rightarrow> sha1_vars \<times> u32 list" where
  "R2 i = (\<lambda>((v, w, x, y, z), l). let l = blk i l in
     ((v, rol w 30, x, y, z + ((w XOR x XOR y) + l ! (i mod 16) + 0x6ED9EBA1 + rol v 5)), l))"

definition R3 :: "nat \<Rightarrow> sha1_vars \<times> u32 list \<Rightarrow> sha1_vars \<times> u32 list" where
  "R3 i = (\<lambda>((v, w, x, y, z), l). let l = blk i l in
     ((v, rol w 30, x, y, z + ((((w OR x) AND y) OR (w AND x)) + l ! (i mod 16) + 0x8F1BBCDC + rol v 5)), l))"

definition R4 :: "nat \<Rightarrow> sha1_vars \<times> u32 list \<Rightarrow> sha1_vars \<times> u32 list" where
  "R4 i = (\<lambda>((v, w, x, y, z), l). let l = blk i l in
     ((v, rol w 30, x, y, z + ((w XOR x XOR y) + l ! (i mod 16) + 0xCA62C1D6 + rol v 5)), l))"

text \<open>Operation \<open>i\<close>, and the permutation of the variables in the call of the next one.\<close>

definition sha1_op :: "sha1_vars \<times> u32 list \<Rightarrow> nat \<Rightarrow> sha1_vars \<times> u32 list" where
  "sha1_op s i =
    (case (if i < 16 then R0 i s else if i < 20 then R1 i s else if i < 40 then R2 i s
       else if i < 60 then R3 i s else R4 i s) of
     ((v, w, x, y, z), l) \<Rightarrow> ((z, v, w, x, y), l))"

definition SHA1Transform :: "u32 list \<Rightarrow> bytes \<Rightarrow> u32 list" where
  "SHA1Transform state buffer =
    (case foldl sha1_op ((state ! 0, state ! 1, state ! 2, state ! 3, state ! 4), block_words buffer) [0..<80] of
     ((a, b, c, d, e), l) \<Rightarrow> [state ! 0 + a, state ! 1 + b, state ! 2 + c, state ! 3 + d, state ! 4 + e])"

section \<open>Context\<close>

record SHA1Context =
  sha1_state :: "u32 list"
  sha1_count :: "u32 list"
  sha1_buffer :: bytes

definition SHA1Init :: "SHA1Context \<Rightarrow> SHA1Context" where
  "SHA1Init c = c\<lparr>sha1_state := [0x67452301, 0xEFCDAB89, 0x98BADCFE, 0x10325476, 0xC3D2E1F0], sha1_count := [0, 0]\<rparr>"

text \<open>
  The loop over whole blocks. \<open>None\<close>: the data is read behind its end; the sum of \<open>i\<close> and 63 wraps for
  lengths near 4 GB. The fuel is above the number of blocks.
\<close>

fun sha1_blocks :: "nat \<Rightarrow> bytes \<Rightarrow> u32 \<Rightarrow> u32 \<Rightarrow> u32 list \<Rightarrow> (u32 \<times> u32 list) option" where
  "sha1_blocks 0 dat len i st = None"
| "sha1_blocks (Suc n) dat len i st =
    (if i + 63 < len then
       (if length dat < unat i + 64 then None
        else sha1_blocks n dat len (i + 64) (SHA1Transform st (take 64 (drop (unat i) dat))))
     else Some (i, st))"

definition sha1_add_count :: "u32 list \<Rightarrow> u32 \<Rightarrow> u32 list" where
  "sha1_add_count cnt len =
    (let c0 = cnt ! 0 + push_bit 3 len;
         c1 = (if c0 < push_bit 3 len then cnt ! 1 + 1 else cnt ! 1) in
     [c0, c1 + drop_bit 29 len])"

text \<open>\<open>None\<close> also if the copy would write behind the buffer.\<close>

definition SHA1Update :: "SHA1Context \<Rightarrow> bytes \<Rightarrow> u32 \<Rightarrow> SHA1Context option" where
  "SHA1Update c dat len =
    (let j = drop_bit 3 (sha1_count c ! 0) AND 63;
         c = c\<lparr>sha1_count := sha1_add_count (sha1_count c) len\<rparr> in
     case (if j + len > 63 then
        (let i = 64 - j; buf = buf_put (sha1_buffer c) (unat j) (take (unat i) dat) in
         case sha1_blocks (length dat) dat len i (SHA1Transform (sha1_state c) buf) of
           None \<Rightarrow> None
         | Some (i, st) \<Rightarrow> Some (0, i, c\<lparr>sha1_buffer := buf, sha1_state := st\<rparr>))
      else Some (j, 0, c)) of
       None \<Rightarrow> None
     | Some (j, i, c) \<Rightarrow>
         (if unat j + unat (len - i) > 64 then None
          else Some (c\<lparr>sha1_buffer := buf_put (sha1_buffer c) (unat j) (take (unat (len - i)) (drop (unat i) dat))\<rparr>)))"

text \<open>The loop that pads; fewer than 64 zeros are appended.\<close>

fun sha1_pad_loop :: "nat \<Rightarrow> SHA1Context \<Rightarrow> SHA1Context option" where
  "sha1_pad_loop 0 c = None"
| "sha1_pad_loop (Suc n) c =
    (if sha1_count c ! 0 AND 504 \<noteq> 448 then
       (case SHA1Update c [0] 1 of None \<Rightarrow> None | Some c \<Rightarrow> sha1_pad_loop n c)
     else Some c)"

definition finalcount :: "u32 list \<Rightarrow> bytes" where
  "finalcount cnt = map (\<lambda>i. ucast (drop_bit ((3 - i mod 4) * 8) (cnt ! (if i \<ge> 4 then 0 else 1)) AND 255)) [0..<8]"

definition sha1_digest :: "u32 list \<Rightarrow> bytes" where
  "sha1_digest st = map (\<lambda>i. ucast (drop_bit ((3 - i mod 4) * 8) (st ! (i div 4)) AND 255)) [0..<20]"

definition SHA1Final :: "SHA1Context \<Rightarrow> bytes option" where
  "SHA1Final c =
    (case SHA1Update c [0x80] 1 of None \<Rightarrow> None | Some c' \<Rightarrow>
     case sha1_pad_loop 64 c' of None \<Rightarrow> None | Some c' \<Rightarrow>
     case SHA1Update c' (finalcount (sha1_count c)) 8 of None \<Rightarrow> None | Some c' \<Rightarrow>
       Some (sha1_digest (sha1_state c')))"

text \<open>
  The context is a local variable: \<open>junk\<close> is its memory before it is written. A length is converted to \<open>u32\<close>.
\<close>

definition sha1_local :: "(nat \<Rightarrow> u8) \<Rightarrow> SHA1Context" where
  "sha1_local junk = \<lparr>sha1_state = [], sha1_count = [], sha1_buffer = map junk [0..<64]\<rparr>"

definition sha1_update_elem :: "SHA1Context \<Rightarrow> bytes \<Rightarrow> SHA1Context option" where
  "sha1_update_elem c d = SHA1Update c d (word_of_nat (length d))"

definition sha1_vector :: "(nat \<Rightarrow> u8) \<Rightarrow> bytes list \<Rightarrow> bytes option" where
  "sha1_vector junk ds =
    (case update_all sha1_update_elem (SHA1Init (sha1_local junk)) ds of None \<Rightarrow> None | Some c \<Rightarrow> SHA1Final c)"

section \<open>SHA-1 of FIPS 180-4\<close>

definition fips_sha1_W :: "bytes \<Rightarrow> u32 list" where
  "fips_sha1_W m = expand_words (\<lambda>ws. let t = length ws in
     fips_ROTL 1 (ws ! (t - 3) XOR ws ! (t - 8) XOR ws ! (t - 14) XOR ws ! (t - 16))) 64 (fips_words m)"

definition fips_f :: "nat \<Rightarrow> u32 \<Rightarrow> u32 \<Rightarrow> u32 \<Rightarrow> u32" where
  "fips_f t x y z = (if t < 20 then fips_Ch x y z else if t < 40 then x XOR y XOR z
     else if t < 60 then fips_Maj x y z else x XOR y XOR z)"

definition fips_K :: "nat \<Rightarrow> u32" where
  "fips_K t = (if t < 20 then 0x5a827999 else if t < 40 then 0x6ed9eba1 else if t < 60 then 0x8f1bbcdc else 0xca62c1d6)"

definition fips_sha1_round :: "u32 list \<Rightarrow> sha1_vars \<Rightarrow> nat \<Rightarrow> sha1_vars" where
  "fips_sha1_round W = (\<lambda>(a, b, c, d, e) t.
     (fips_ROTL 5 a + fips_f t b c d + e + fips_K t + W ! t, a, fips_ROTL 30 b, c, d))"

definition fips_sha1_block :: "u32 list \<Rightarrow> bytes \<Rightarrow> u32 list" where
  "fips_sha1_block H m =
    (case foldl (fips_sha1_round (fips_sha1_W m)) (H ! 0, H ! 1, H ! 2, H ! 3, H ! 4) [0..<80] of
     (a, b, c, d, e) \<Rightarrow> [a + H ! 0, b + H ! 1, c + H ! 2, d + H ! 3, e + H ! 4])"

definition fips_sha1 :: "bytes \<Rightarrow> bytes" where
  "fips_sha1 = md_hash fips_sha1_block [0x67452301, 0xefcdab89, 0x98badcfe, 0x10325476, 0xc3d2e1f0]
     (\<lambda>n. WPA_PUT_BE64 (word_of_nat n)) (\<lambda>H. concat (map WPA_PUT_BE32 H))"

section \<open>The compression function\<close>

lemma rol_rotl: "rol v n = fips_ROTL n v"
  by (simp add: rol_def fips_ROTL_def)

lemma swap_mask: "(0xFF00FF00 :: u32) = push_bit 24 (mask 8) OR push_bit 8 (mask 8)"
    "(0x00FF00FF :: u32) = push_bit 16 (mask 8) OR mask 8"
  by (simp_all add: mask_eq_exp_minus_1)

lemma blk0_swap:
  assumes "v = WPA_GET_LE32 b"
  shows "(rol v 24 AND 0xFF00FF00) OR (rol v 8 AND 0x00FF00FF) = WPA_GET_BE32 b"
  unfolding assms swap_mask rol_def endian_defs
proof (rule bit_word_eqI, goal_cases)
  case (1 n)
  consider "n < 8" | "8 \<le> n" "n < 16" | "16 \<le> n" "n < 24" | "24 \<le> n" by linarith
  then show ?case using 1 by cases (auto simp: bit_simps dest: bit_imp_le_length)
qed

lemma fips_sha1_W_nth:
  "t < 16 \<Longrightarrow> fips_sha1_W m ! t = fips_words m ! t"
  "16 \<le> t \<Longrightarrow> t < 80 \<Longrightarrow> fips_sha1_W m ! t = fips_ROTL 1 (fips_sha1_W m ! (t - 3) XOR fips_sha1_W m ! (t - 8) XOR
     fips_sha1_W m ! (t - 14) XOR fips_sha1_W m ! (t - 16))"
proof -
  define g where "g = (\<lambda>ws. let t = length ws in
     fips_ROTL 1 (ws ! (t - 3) XOR ws ! (t - 8) XOR ws ! (t - 14) XOR ws ! (t - 16)))"
  have W: "fips_sha1_W m = expand_words g 64 (fips_words m)" by (simp add: fips_sha1_W_def g_def)
  show "t < 16 \<Longrightarrow> fips_sha1_W m ! t = fips_words m ! t" unfolding W by (rule nth_expand_old) simp
  assume t: "16 \<le> t" "t < 80"
  have "fips_sha1_W m ! t = g (take t (fips_sha1_W m))" unfolding W by (rule nth_expand_new) (use t in simp_all)
  moreover have "length (fips_sha1_W m) = 80" by (simp add: W)
  ultimately show "fips_sha1_W m ! t = fips_ROTL 1 (fips_sha1_W m ! (t - 3) XOR fips_sha1_W m ! (t - 8) XOR
     fips_sha1_W m ! (t - 14) XOR fips_sha1_W m ! (t - 16))"
    using t by (simp add: g_def)
qed

text \<open>The 16 words of the block after \<open>n\<close> operations: the last 16 words of the schedule.\<close>

definition sha1_window :: "bytes \<Rightarrow> nat \<Rightarrow> u32 list \<Rightarrow> bool" where
  "sha1_window m n l \<longleftrightarrow> length l = 16 \<and> (\<forall>t. t < n \<and> n \<le> t + 16 \<longrightarrow> l ! (t mod 16) = fips_sha1_W m ! t) \<and>
     (\<forall>k. n \<le> k \<and> k < 16 \<longrightarrow> l ! k = WPA_GET_LE32 (take 4 (drop (4 * k) m)))"

lemma window_blk0:
  assumes "sha1_window m n l" "n < 16"
  shows "sha1_window m (Suc n) (blk0 n l)" "blk0 n l ! n = fips_sha1_W m ! n"
proof -
  have l: "length l = 16" "l ! n = WPA_GET_LE32 (take 4 (drop (4 * n) m))" using assms by (auto simp: sha1_window_def)
  have "blk0 n l ! n = WPA_GET_BE32 (take 4 (drop (4 * n) m))"
    using blk0_swap [OF l(2)] l(1) assms(2) by (simp add: blk0_def)
  then show e: "blk0 n l ! n = fips_sha1_W m ! n"
    using assms(2) by (simp add: fips_sha1_W_nth(1) fips_words_def)
  show "sha1_window m (Suc n) (blk0 n l)"
    unfolding sha1_window_def
  proof (intro conjI allI impI)
    fix t assume t: "t < Suc n \<and> Suc n \<le> t + 16"
    show "blk0 n l ! (t mod 16) = fips_sha1_W m ! t"
    proof (cases "t = n")
      case False
      then have "blk0 n l ! (t mod 16) = l ! (t mod 16)" using t assms(2) by (simp add: blk0_def)
      then show ?thesis using t False assms by (auto simp: sha1_window_def)
    qed (use e assms(2) in simp)
  qed (use assms in \<open>auto simp: sha1_window_def blk0_def\<close>)
qed

lemma window_blk:
  assumes w: "sha1_window m n l" and n: "16 \<le> n" "n < 80"
  shows "sha1_window m (Suc n) (blk n l)" "blk n l ! (n mod 16) = fips_sha1_W m ! n"
proof -
  have l: "length l = 16" and L: "\<And>t. t < n \<Longrightarrow> n \<le> t + 16 \<Longrightarrow> l ! (t mod 16) = fips_sha1_W m ! t"
    using w by (auto simp: sha1_window_def)
  have "n + 13 = (n - 3) + 16" "n + 8 = (n - 8) + 16" "n + 2 = (n - 14) + 16" "n = (n - 16) + 16"
    using n(1) by linarith+
  then have i: "(n + 13) mod 16 = (n - 3) mod 16" "(n + 8) mod 16 = (n - 8) mod 16" "(n + 2) mod 16 = (n - 14) mod 16"
    "n mod 16 = (n - 16) mod 16"
    by (metis mod_add_self2)+
  have x: "l ! ((n + 13) mod 16) = fips_sha1_W m ! (n - 3)" "l ! ((n + 8) mod 16) = fips_sha1_W m ! (n - 8)"
      "l ! ((n + 2) mod 16) = fips_sha1_W m ! (n - 14)" "l ! (n mod 16) = fips_sha1_W m ! (n - 16)"
    unfolding i by (rule L; use n in simp)+
  show e: "blk n l ! (n mod 16) = fips_sha1_W m ! n"
    unfolding fips_sha1_W_nth(2) [OF n] blk_def x rol_rotl using l by simp
  show "sha1_window m (Suc n) (blk n l)"
    unfolding sha1_window_def
  proof (intro conjI allI impI)
    fix t assume t: "t < Suc n \<and> Suc n \<le> t + 16"
    show "blk n l ! (t mod 16) = fips_sha1_W m ! t"
    proof (cases "t = n")
      case False
      have "n mod 16 \<noteq> t mod 16"
      proof
        assume "n mod 16 = t mod 16"
        then have "16 dvd n - t" by (metis mod_eq_dvd_iff_nat nat_less_le t False less_Suc_eq_le)
        then show False using t False by (auto dest!: dvd_imp_le)
      qed
      then have "blk n l ! (t mod 16) = l ! (t mod 16)" by (simp add: blk_def)
      then show ?thesis using L [of t] t False by simp
    qed (use e in simp)
  qed (use l n in \<open>auto simp: blk_def\<close>)
qed

text \<open>One operation is one round of the standard.\<close>

lemma sum5: "z + (f + w + k + r) = r + f + z + k + (w :: u32)"
  by (simp add: ac_simps)

lemma sha1_op_round:
  assumes w: "sha1_window m n l" and n: "n < 80"
  shows "\<exists>l'. sha1_op (s, l) n = (fips_sha1_round (fips_sha1_W m) s n, l') \<and> sha1_window m (Suc n) l'"
proof -
  obtain v w' x y z where s: "s = (v, w', x, y, z)" by (cases s)
  note rs = rol_rotl Ch_select Maj_select
  show ?thesis
  proof (cases "n < 16")
    case True
    then show ?thesis using window_blk0 [OF w True]
      by (simp add: sha1_op_def R0_def s fips_sha1_round_def fips_f_def fips_K_def rs Let_def sum5)
  next
    case False
    then have k: "16 \<le> n" by simp
    note wb = window_blk [OF w k n]
    consider "n < 20" | "20 \<le> n" "n < 40" | "40 \<le> n" "n < 60" | "60 \<le> n" by linarith
    then show ?thesis
    proof cases
      case 1
      then show ?thesis using k wb
        by (simp add: sha1_op_def R1_def s fips_sha1_round_def fips_f_def fips_K_def rs Let_def sum5)
    next
      case 2
      then show ?thesis using k wb
        by (simp add: sha1_op_def R2_def s fips_sha1_round_def fips_f_def fips_K_def rs Let_def sum5)
    next
      case 3
      then show ?thesis using k wb Maj_select [of w' x y]
        by (simp add: sha1_op_def R3_def s fips_sha1_round_def fips_f_def fips_K_def rs Let_def sum5)
    next
      case 4
      then show ?thesis using k wb
        by (simp add: sha1_op_def R4_def s fips_sha1_round_def fips_f_def fips_K_def rs Let_def sum5)
    qed
  qed
qed

lemma sha1_ops_rounds:
  assumes w: "sha1_window m 0 l" and n: "n \<le> 80"
  shows "\<exists>l'. foldl sha1_op (s, l) [0..<n] = (foldl (fips_sha1_round (fips_sha1_W m)) s [0..<n], l') \<and> sha1_window m n l'"
  using n
proof (induction n)
  case (Suc n)
  then obtain l' where "foldl sha1_op (s, l) [0..<n] = (foldl (fips_sha1_round (fips_sha1_W m)) s [0..<n], l')"
      "sha1_window m n l'" by auto
  then show ?case using sha1_op_round [of m n l'] Suc.prems by simp
qed (use w in simp)

lemma sha1_transform_fips: "SHA1Transform st m = fips_sha1_block st m"
proof -
  have "sha1_window m 0 (block_words m)" by (simp add: sha1_window_def block_words_def)
  then show ?thesis
    using sha1_ops_rounds [of m "block_words m" 80 "(st ! 0, st ! 1, st ! 2, st ! 3, st ! 4)"]
    by (auto simp: SHA1Transform_def fips_sha1_block_def add.commute split: prod.splits)
qed
section \<open>The context\<close>

abbreviation sha1_iv :: "u32 list" where
  "sha1_iv \<equiv> [0x67452301, 0xEFCDAB89, 0x98BADCFE, 0x10325476, 0xC3D2E1F0]"

text \<open>The length of an element for which none of the \<open>u32\<close> sums of \<open>SHA1Update\<close> wraps.\<close>

definition sha1_fits :: "bytes \<Rightarrow> bool" where
  "sha1_fits d \<longleftrightarrow> length d < 2 ^ 32 - 64"

definition sha1_fed :: "SHA1Context \<Rightarrow> bytes \<Rightarrow> bool" where
  "sha1_fed c m \<longleftrightarrow> sha1_state c = iterate_hash fips_sha1_block sha1_iv m \<and>
     sha1_count c = [word_of_nat (8 * length m), word_of_nat (8 * length m div 2 ^ 32)] \<and>
     length (sha1_buffer c) = 64 \<and> take (length m mod 64) (sha1_buffer c) = rest_octets m"

lemma sha1_transform_eq: "SHA1Transform = fips_sha1_block"
  by (intro ext sha1_transform_fips)

lemma sha1_blocks_iterate:
  assumes l: "unat len = length dat" "length dat < 2 ^ 32 - 64"
  shows "unat i \<le> length dat \<Longrightarrow> (length dat - unat i) div 64 < n \<Longrightarrow>
    sha1_blocks n dat len i st = Some (word_of_nat (unat i + 64 * ((length dat - unat i) div 64)),
      iterate_hash fips_sha1_block st (drop (unat i) dat))"
proof (induction n arbitrary: i st)
  case (Suc n)
  have i: "unat i + 64 < 2 ^ 32" using l Suc.prems(1) by simp
  have u: "unat (i + 63) = unat i + 63" "unat (i + 64) = unat i + 64"
    using i by (simp_all add: unat_word_ariths)
  have c: "i + 63 < len \<longleftrightarrow> unat i + 64 \<le> length dat"
    unfolding word_less_nat_alt u(1) l(1) by linarith
  show ?case
  proof (cases "unat i + 64 \<le> length dat")
    case True
    define k where "k = (length dat - unat (i + 64)) div 64"
    have d: "(length dat - unat i) div 64 = Suc k"
      unfolding k_def u using True by (simp add: div_if)
    have p: "take 64 (drop (unat i) dat) @ drop (unat (i + 64)) dat = drop (unat i) dat"
      by (metis append_take_drop_id drop_drop u(2) add.commute)
    have "length (take 64 (drop (unat i) dat)) = 64" using True by simp
    then have e: "iterate_hash fips_sha1_block st (drop (unat i) dat) =
        iterate_hash fips_sha1_block (fips_sha1_block st (take 64 (drop (unat i) dat))) (drop (unat (i + 64)) dat)"
      using iterate_block [of "take 64 (drop (unat i) dat)" fips_sha1_block st "drop (unat (i + 64)) dat"]
      by (simp only: p)
    have "sha1_blocks n dat len (i + 64) (fips_sha1_block st (take 64 (drop (unat i) dat))) =
      Some (word_of_nat (unat (i + 64) + 64 * k),
        iterate_hash fips_sha1_block (fips_sha1_block st (take 64 (drop (unat i) dat))) (drop (unat (i + 64)) dat))"
      unfolding k_def by (rule Suc.IH) (use True Suc.prems d in \<open>simp_all add: u flip: k_def\<close>)
    then show ?thesis using True c by (simp add: sha1_transform_eq e d u)
  next
    case False
    then show ?thesis using c Suc.prems by simp
  qed
qed simp

lemma sha1_add_count_bits:
  assumes "n < 2 ^ 32"
  shows "sha1_add_count [word_of_nat (8 * L), word_of_nat (8 * L div 2 ^ 32)] (word_of_nat n) =
    [word_of_nat (8 * (L + n)), word_of_nat (8 * (L + n) div 2 ^ 32)]"
proof -
  have "(if c then x + 1 else x) + y = x + (if c then 1 else 0) + y" for c and x y :: u32 by simp
  then show ?thesis
    unfolding sha1_add_count_def Let_def nth_Cons_0 nth_Cons_Suc One_nat_def
    by (simp only: count_low [of L n] count_high(1) [OF assms, of L, unfolded count_low])
qed

lemma sha1_fed_init: "sha1_fed (SHA1Init (sha1_local junk)) []"
  by (simp add: sha1_fed_def SHA1Init_def sha1_local_def)
lemma sha1_fed_full:
  assumes fed: "sha1_fed c m" and fits: "sha1_fits d" and full: "64 \<le> length m mod 64 + length d"
  shows "\<exists>c'. sha1_update_elem c d = Some c' \<and> sha1_fed c' (m @ d)"
proof -
  define k n where "k = length m mod 64" and "n = length d"
  define len j where "len = (word_of_nat n :: u32)" and "j = drop_bit 3 (word_of_nat (8 * length m) :: u32) AND 63"
  have fed': "sha1_state c = iterate_hash fips_sha1_block sha1_iv m"
    "sha1_count c = [word_of_nat (8 * length m), word_of_nat (8 * length m div 2 ^ 32)]"
    "length (sha1_buffer c) = 64" "take k (sha1_buffer c) = rest_octets m"
    using fed by (simp_all add: sha1_fed_def k_def)
  have k: "k < 64" "unat j = k" by (simp_all add: k_def j_def count_mod_64 del: of_nat_mult)
  have n: "n < 2 ^ 32 - 64" "unat len = n" "64 \<le> k + n"
    using fits full by (simp_all add: sha1_fits_def n_def len_def unat_of_nat k_def)
  have cond: "j + len > 63"
    unfolding word_less_nat_alt using k n by (simp add: unat_word_ariths)
  have i: "unat (64 - j) = 64 - k" using k by (simp add: unat_sub_if')
  define b where "b = rest_octets m @ take (64 - k) d"
  have b: "length b = 64" using n(3) k(1) by (simp add: b_def n_def flip: k_def)
  have put: "buf_put (sha1_buffer c) k (take (64 - k) d) = b"
    using fed'(3,4) n(3) by (simp add: buf_put_def b_def n_def)
  define q where "q = (n - (64 - k)) div 64"
  define e where "e = drop (64 - k) d"
  have le: "length e = n - (64 - k)" by (simp add: e_def n_def)
  have split: "rest_octets m @ d = b @ e" by (simp add: b_def e_def)
  have st: "iterate_hash fips_sha1_block sha1_iv (m @ d) =
      iterate_hash fips_sha1_block (fips_sha1_block (sha1_state c) b) e"
    unfolding iterate_append [of _ _ m] split fed'(1) by (rule iterate_block [OF b])
  have rest: "rest_octets (m @ d) = drop (64 * q) e"
    unfolding rest_append [of m] split rest_Cons [OF b] by (simp add: rest_octets_def le q_def)
  have blocks: "sha1_blocks n d len (64 - j) (fips_sha1_block (sha1_state c) b) =
      Some (word_of_nat (64 - k + 64 * q), iterate_hash fips_sha1_block (fips_sha1_block (sha1_state c) b) e)"
  proof -
    have "(n - (64 - k)) div 64 < n" using n(3) k(1) by (simp add: less_eq_div_iff_mult_less_eq div_less_iff_less_mult)
    then show ?thesis
      using sha1_blocks_iterate [of len d "64 - j" n "fips_sha1_block (sha1_state c) b"] n i
      by (simp add: q_def e_def flip: n_def)
  qed
  have q: "64 - k + 64 * q \<le> n" "n - (64 - k + 64 * q) < 64"
    using n(3) k(1) unfolding q_def by (auto simp: minus_mult_div_eq_mod [symmetric])
  define x where "x = 64 - k + 64 * q"
  have ux: "unat (word_of_nat x :: u32) = x" "unat (len - word_of_nat x) = n - x"
  proof -
    have "x < 2 ^ 32" using q(1) n(1) by (simp add: x_def)
    then show *: "unat (word_of_nat x :: u32) = x" by (simp add: unat_of_nat)
    show "unat (len - word_of_nat x) = n - x" using q(1) n(2) * by (simp add: unat_sub_if' flip: x_def)
  qed
  have tail: "take (n - x) (drop x d) = drop (64 * q) e"
    by (simp add: e_def x_def n_def add.commute)
  have len1: "length (drop (64 * q) e) < 64" using q le by (simp add: add.commute)
  define c' where "c' = c\<lparr>sha1_count := [word_of_nat (8 * (length m + n)), word_of_nat (8 * (length m + n) div 2 ^ 32)],
     sha1_buffer := buf_put b 0 (drop (64 * q) e),
     sha1_state := iterate_hash fips_sha1_block (fips_sha1_block (sha1_state c) b) e\<rparr>"
  have n32: "n < 2 ^ 32" using n(1) by simp
  note cnt = sha1_add_count_bits [OF n32, of "length m"]
  have "SHA1Update c d len = Some c'"
    unfolding SHA1Update_def Let_def fed'(2) nth_Cons_0 j_def [symmetric] cnt [folded len_def]
    using cond blocks k(2) i put ux q len1
    by (simp add: c'_def sha1_transform_eq tail flip: n_def x_def len_def del: of_nat_mult of_nat_add)
  moreover have "sha1_fed c' (m @ d)"
  proof -
    have "length (m @ d) mod 64 = length (drop (64 * q) e)"
      using arg_cong [OF rest, of length] by simp
    then show ?thesis using b len1
      by (simp add: sha1_fed_def c'_def st rest buf_put_def del: of_nat_mult of_nat_add flip: n_def)
  qed
  ultimately show ?thesis by (auto simp: sha1_update_elem_def len_def n_def)
qed

lemma sha1_fed_part:
  assumes fed: "sha1_fed c m" and part: "length m mod 64 + length d < 64"
  shows "\<exists>c'. sha1_update_elem c d = Some c' \<and> sha1_fed c' (m @ d)"
proof -
  define k n where "k = length m mod 64" and "n = length d"
  define len j where "len = (word_of_nat n :: u32)" and "j = drop_bit 3 (word_of_nat (8 * length m) :: u32) AND 63"
  have fed': "sha1_state c = iterate_hash fips_sha1_block sha1_iv m"
    "sha1_count c = [word_of_nat (8 * length m), word_of_nat (8 * length m div 2 ^ 32)]"
    "length (sha1_buffer c) = 64" "take k (sha1_buffer c) = rest_octets m"
    using fed by (simp_all add: sha1_fed_def k_def)
  have k: "unat j = k" by (simp_all add: k_def j_def count_mod_64 del: of_nat_mult)
  have n: "k + n < 64" "unat len = n"
    using part by (simp_all add: n_def len_def unat_of_nat k_def)
  have cond: "\<not> j + len > 63"
    unfolding word_less_nat_alt using k n by (simp add: unat_word_ariths)
  have n32: "n < 2 ^ 32" using n(1) by simp
  note cnt = sha1_add_count_bits [OF n32, of "length m"]
  define c' where "c' = c\<lparr>sha1_count := [word_of_nat (8 * (length m + n)), word_of_nat (8 * (length m + n) div 2 ^ 32)],
     sha1_buffer := buf_put (sha1_buffer c) k d\<rparr>"
  have "SHA1Update c d len = Some c'"
    unfolding SHA1Update_def Let_def fed'(2) nth_Cons_0 j_def [symmetric] cnt [folded len_def]
    using cond k n by (simp add: c'_def n_def len_def del: of_nat_mult of_nat_add)
  moreover have "sha1_fed c' (m @ d)"
  proof -
    have s: "length (rest_octets m @ d) < 64" using n(1) by (simp add: k_def n_def)
    have "iterate_hash fips_sha1_block sha1_iv (m @ d) = sha1_state c"
      unfolding iterate_append [of _ _ m] fed'(1) using s by simp
    moreover have r: "rest_octets (m @ d) = rest_octets m @ d" unfolding rest_append [of m] using s by simp
    moreover have "length (m @ d) mod 64 = k + n" using arg_cong [OF r, of length] by (simp add: k_def n_def)
    moreover have "length (sha1_buffer c) \<ge> k + n" using fed'(3) n(1) by simp
    ultimately show ?thesis using fed'(3,4)
      by (simp add: sha1_fed_def c'_def n_def del: of_nat_mult of_nat_add)
  qed
  ultimately show ?thesis by (auto simp: sha1_update_elem_def len_def n_def)
qed

lemma sha1_fed_update:
  "sha1_fed c m \<Longrightarrow> sha1_fits d \<Longrightarrow> \<exists>c'. sha1_update_elem c d = Some c' \<and> sha1_fed c' (m @ d)"
  using sha1_fed_full sha1_fed_part by (metis not_le)

text \<open>The padding loop stops when 8 octets are missing.\<close>

lemma count_504: "(word_of_nat (8 * n) :: u32) AND 504 = word_of_nat (8 * (n mod 64))"
proof -
  have m: "(504 :: u32) = push_bit 3 (mask 6)" by (simp add: mask_eq_exp_minus_1)
  have e: "(word_of_nat (8 * n) :: u32) = push_bit 3 (word_of_nat n)" by (simp add: push_bit_eq_mult)
  have a: "(word_of_nat n :: u32) AND mask 6 = word_of_nat (n mod 64)"
    by (rule word_unat_eq_iff [THEN iffD2])
      (simp add: unat_mod unat_of_nat take_bit_eq_mod mod_mod_cancel flip: take_bit_eq_mask)
  have "(word_of_nat (8 * n) :: u32) AND 504 = push_bit 3 (word_of_nat n AND mask 6)"
    unfolding m e by (simp only: push_bit_and)
  then show ?thesis by (simp add: a push_bit_eq_mult)
qed

lemma count_448: "(word_of_nat (8 * n) :: u32) AND 504 = 448 \<longleftrightarrow> n mod 64 = 56"
proof -
  have "unat (word_of_nat (8 * (n mod 64)) :: u32) = 8 * (n mod 64)"
    by (simp only: unat_of_nat) simp
  then have "word_of_nat (8 * (n mod 64)) = (448 :: u32) \<longleftrightarrow> 8 * (n mod 64) = 448"
    unfolding word_unat_eq_iff by simp
  moreover have "8 * k = 448 \<longleftrightarrow> k = 56" for k :: nat by linarith
  ultimately show ?thesis unfolding count_504 by simp
qed

lemma sha1_pad_fed:
  "sha1_fed c m \<Longrightarrow> (120 - length m mod 64) mod 64 < n \<Longrightarrow>
     \<exists>c'. sha1_pad_loop n c = Some c' \<and> sha1_fed c' (m @ replicate ((120 - length m mod 64) mod 64) 0)"
proof (induction n arbitrary: c m)
  case (Suc n)
  have cnt: "sha1_count c ! 0 = word_of_nat (8 * length m)" using Suc.prems(1) by (simp add: sha1_fed_def)
  show ?case
  proof (cases "length m mod 64 = 56")
    case True
    then show ?thesis using Suc.prems count_448 [of "length m"] by (simp add: cnt del: of_nat_mult)
  next
    case False
    define r where "r = length m mod 64"
    have r: "r < 64" "r \<noteq> 56" using False by (simp_all add: r_def)
    have z: "(120 - r) mod 64 = Suc ((120 - length (m @ [0 :: u8]) mod 64) mod 64)"
    proof -
      have "length (m @ [0 :: u8]) mod 64 = (if r = 63 then 0 else Suc r)"
        by (simp add: r_def mod_Suc)
      moreover have "(120 - r) mod 64 = (if r < 56 then 56 - r else 120 - r)"
        "r < 63 \<Longrightarrow> (119 - r) mod 64 = (if r < 56 then 55 - r else 119 - r)" "(120 :: nat) mod 64 = 56"
        using r by (auto simp: mod_if)
      ultimately show ?thesis using r by auto
    qed
    obtain c' where c': "SHA1Update c [0] 1 = Some c'" "sha1_fed c' (m @ [0])"
      using sha1_fed_update [OF Suc.prems(1), of "[0]"] by (auto simp: sha1_fits_def sha1_update_elem_def)
    have "sha1_pad_loop (Suc n) c = sha1_pad_loop n c'"
      using False count_448 [of "length m"] c'(1) by (simp add: cnt del: of_nat_mult)
    moreover have "(120 - length (m @ [0 :: u8]) mod 64) mod 64 < n"
      using Suc.prems(2) z unfolding r_def by linarith
    ultimately show ?thesis
      using Suc.IH [OF c'(2)] z by (simp flip: r_def)
  qed
qed simp

text \<open>The octets of the count and of the result are big endian.\<close>

lemma finalcount_bits: "finalcount [word_of_nat (8 * n), word_of_nat (8 * n div 2 ^ 32)] = WPA_PUT_BE64 (word_of_nat (8 * n))"
proof -
  define w where "w = (word_of_nat (8 * n) :: u64)"
  have lo: "(word_of_nat (8 * n) :: u32) = ucast w"
    by (rule word_unat_eq_iff [THEN iffD2])
      (simp add: w_def unat_of_nat unsigned_ucast_eq take_bit_eq_mod mod_mod_cancel del: of_nat_mult)
  have hi: "(word_of_nat (8 * n div 2 ^ 32) :: u32) = ucast (drop_bit 32 w)"
  proof (rule word_unat_eq_iff [THEN iffD2])
    have "unat (drop_bit 32 w) = 8 * n mod 2 ^ 64 div 2 ^ 32"
      by (simp add: w_def drop_bit_eq_div unat_div unat_of_nat del: of_nat_mult)
    also have "\<dots> = 8 * n div 2 ^ 32 mod 2 ^ 32" using div_exp_mod_exp_eq [of "8 * n" 32 32] by simp
    finally show "unat (word_of_nat (8 * n div 2 ^ 32) :: u32) = unat (ucast (drop_bit 32 w) :: u32)"
      by (simp add: unat_of_nat unsigned_ucast_eq take_bit_eq_mod del: of_nat_mult)
  qed
  have f: "(255 :: 'b::len word) = mask 8" by (simp add: mask_eq_exp_minus_1)
  have l: "k \<le> 24 \<Longrightarrow> (ucast (drop_bit k (ucast w :: u32) AND 255) :: u8) = ucast (drop_bit k w AND 255)" for k
    unfolding f by (rule bit_word_eqI) (auto simp: bit_simps)
  have h: "k \<le> 24 \<Longrightarrow> (ucast (drop_bit k (ucast (drop_bit 32 w) :: u32) AND 255) :: u8) = ucast (drop_bit (32 + k) w AND 255)" for k
    unfolding f by (rule bit_word_eqI) (auto simp: bit_simps ac_simps)
  have t: "(ucast (drop_bit 56 w AND 255) :: u8) = ucast (drop_bit 56 w)"
    unfolding f by (rule bit_word_eqI) (auto simp: bit_simps)
  have u: "[0..<8] = [0, 1, 2, 3, 4, 5, 6, 7 :: nat]" by (simp add: upt_rec)
  show ?thesis unfolding lo hi w_def [symmetric] finalcount_def WPA_PUT_BE64_def u list.map
    using l [of 0] l [of 8] l [of 16] l [of 24] h [of 0] h [of 8] h [of 16] h [of 24] t by simp
qed

lemma sha1_digest_bytes: "length st = 5 \<Longrightarrow> sha1_digest st = concat (map WPA_PUT_BE32 st)"
proof -
  assume "length st = 5"
  then obtain a b c d e where st: "st = [a, b, c, d, e]" by (auto simp: length_Suc_conv numeral_eq_Suc)
  have u: "[0..<20] = [0, 1, 2, 3, 4, 5, 6, 7, 8, 9, 10, 11, 12, 13, 14, 15, 16, 17, 18, 19 :: nat]"
    by (simp add: upt_rec)
  show ?thesis unfolding sha1_digest_def u st by (simp add: WPA_PUT_BE32_def)
qed

lemma length_fips_sha1_block [simp]: "length (fips_sha1_block H m) = 5"
  by (simp add: fips_sha1_block_def split: prod.splits)

lemma length_iterate_sha1 [simp]: "length H = 5 \<Longrightarrow> length (iterate_hash fips_sha1_block H m) = 5"
  by (induction m arbitrary: H rule: block_induct) simp_all

lemma sha1_fed_final:
  assumes "sha1_fed c m" shows "SHA1Final c = Some (fips_sha1 m)"
proof -
  define z where "z = replicate ((119 - length m mod 64) mod 64) (0 :: u8)"
  have l: "(120 - length (m @ [0x80 :: u8]) mod 64) mod 64 = (119 - length m mod 64) mod 64"
  proof -
    have "length (m @ [0x80 :: u8]) mod 64 = (if length m mod 64 = 63 then 0 else Suc (length m mod 64))"
      by (simp add: mod_Suc)
    then show ?thesis by simp
  qed
  obtain c1 where c1: "SHA1Update c [0x80] 1 = Some c1" "sha1_fed c1 (m @ [0x80])"
    using sha1_fed_update [OF assms, of "[0x80]"] by (auto simp: sha1_fits_def sha1_update_elem_def)
  obtain c2 where c2: "sha1_pad_loop 64 c1 = Some c2" "sha1_fed c2 (m @ [0x80] @ z)"
    using sha1_pad_fed [OF c1(2), of 64, unfolded l] by (auto simp: z_def)
  have cnt: "finalcount (sha1_count c) = WPA_PUT_BE64 (word_of_nat (8 * length m))"
    using assms finalcount_bits [of "length m"] by (simp add: sha1_fed_def del: of_nat_mult)
  obtain c3 where c3: "SHA1Update c2 (finalcount (sha1_count c)) 8 = Some c3"
      "sha1_fed c3 (m @ [0x80] @ z @ WPA_PUT_BE64 (word_of_nat (8 * length m)))"
    using sha1_fed_update [OF c2(2), of "finalcount (sha1_count c)"]
    by (auto simp: sha1_fits_def sha1_update_elem_def cnt simp del: of_nat_mult)
  have "fips_sha1 m = sha1_digest (sha1_state c3)"
    using c3(2) by (simp add: fips_sha1_def md_hash_def md_pad_def z_def sha1_fed_def sha1_digest_bytes del: of_nat_mult)
  then show ?thesis using c1(1) c2(1) c3(1) by (simp add: SHA1Final_def)
qed

interpretation sha1: stream_hash "SHA1Init (sha1_local junk)" sha1_update_elem SHA1Final fips_sha1 sha1_fits sha1_fed for junk
  by unfold_locales (rule sha1_fed_init sha1_fed_update sha1_fed_final; assumption)+

lemma sha1_vector_fips: "list_all sha1_fits ds \<Longrightarrow> sha1_vector junk ds = Some (fips_sha1 (concat ds))"
  unfolding sha1_vector_def by (rule sha1.vector_digest)
end
