(* ===== verification/Md5.thy ===== *)
theory Md5
  imports Hash
begin

text \<open>
  MD5, \<open>src/crypto/md5-internal.c\<close>: the compression function with its unrolled steps, and the context with its
  buffer and count of bits, on a little endian machine. It is shown to compute the MD5 of RFC 1321 of
  the concatenated elements.
\<close>

section \<open>Compression\<close>

definition F1 :: "u32 \<Rightarrow> u32 \<Rightarrow> u32 \<Rightarrow> u32" where "F1 x y z = z XOR (x AND (y XOR z))"
definition F2 :: "u32 \<Rightarrow> u32 \<Rightarrow> u32 \<Rightarrow> u32" where "F2 x y z = F1 z x y"
definition F3 :: "u32 \<Rightarrow> u32 \<Rightarrow> u32 \<Rightarrow> u32" where "F3 x y z = x XOR y XOR z"
definition F4 :: "u32 \<Rightarrow> u32 \<Rightarrow> u32 \<Rightarrow> u32" where "F4 x y z = y XOR (x OR NOT z)"

type_synonym md5_vars = "u32 \<times> u32 \<times> u32 \<times> u32"

text \<open>The macro assigns \<open>w\<close>; the next step is called with the variables shifted by one.\<close>

definition MD5STEP :: "(u32 \<Rightarrow> u32 \<Rightarrow> u32 \<Rightarrow> u32) \<Rightarrow> u32 \<Rightarrow> nat \<Rightarrow> md5_vars \<Rightarrow> md5_vars" where
  "MD5STEP f dat s = (\<lambda>(w, x, y, z).
     let w = w + (f x y z + dat); w = push_bit s w OR drop_bit (32 - s) w in (w + x, x, y, z))"

text \<open>The index into the block, the constant and the shift of each step, in the order of the code.\<close>

definition md5_steps :: "(nat \<times> u32 \<times> nat) list" where
  "md5_steps =
    [(0, 0xd76aa478, 7), (1, 0xe8c7b756, 12), (2, 0x242070db, 17), (3, 0xc1bdceee, 22),
     (4, 0xf57c0faf, 7), (5, 0x4787c62a, 12), (6, 0xa8304613, 17), (7, 0xfd469501, 22),
     (8, 0x698098d8, 7), (9, 0x8b44f7af, 12), (10, 0xffff5bb1, 17), (11, 0x895cd7be, 22),
     (12, 0x6b901122, 7), (13, 0xfd987193, 12), (14, 0xa679438e, 17), (15, 0x49b40821, 22),
     (1, 0xf61e2562, 5), (6, 0xc040b340, 9), (11, 0x265e5a51, 14), (0, 0xe9b6c7aa, 20),
     (5, 0xd62f105d, 5), (10, 0x02441453, 9), (15, 0xd8a1e681, 14), (4, 0xe7d3fbc8, 20),
     (9, 0x21e1cde6, 5), (14, 0xc33707d6, 9), (3, 0xf4d50d87, 14), (8, 0x455a14ed, 20),
     (13, 0xa9e3e905, 5), (2, 0xfcefa3f8, 9), (7, 0x676f02d9, 14), (12, 0x8d2a4c8a, 20),
     (5, 0xfffa3942, 4), (8, 0x8771f681, 11), (11, 0x6d9d6122, 16), (14, 0xfde5380c, 23),
     (1, 0xa4beea44, 4), (4, 0x4bdecfa9, 11), (7, 0xf6bb4b60, 16), (10, 0xbebfbc70, 23),
     (13, 0x289b7ec6, 4), (0, 0xeaa127fa, 11), (3, 0xd4ef3085, 16), (6, 0x04881d05, 23),
     (9, 0xd9d4d039, 4), (12, 0xe6db99e5, 11), (15, 0x1fa27cf8, 16), (2, 0xc4ac5665, 23),
     (0, 0xf4292244, 6), (7, 0x432aff97, 10), (14, 0xab9423a7, 15), (5, 0xfc93a039, 21),
     (12, 0x655b59c3, 6), (3, 0x8f0ccc92, 10), (10, 0xffeff47d, 15), (1, 0x85845dd1, 21),
     (8, 0x6fa87e4f, 6), (15, 0xfe2ce6e0, 10), (6, 0xa3014314, 15), (13, 0x4e0811a1, 21),
     (4, 0xf7537e82, 6), (11, 0xbd3af235, 10), (2, 0x2ad7d2bb, 15), (9, 0xeb86d391, 21)]"

definition md5_step :: "u32 list \<Rightarrow> md5_vars \<Rightarrow> nat \<Rightarrow> md5_vars" where
  "md5_step inp v i =
    (case md5_steps ! i of (k, t, s) \<Rightarrow>
       (case MD5STEP (if i < 16 then F1 else if i < 32 then F2 else if i < 48 then F3 else F4) (inp ! k + t) s v of
          (w, x, y, z) \<Rightarrow> (z, w, x, y)))"

definition MD5Transform :: "u32 list \<Rightarrow> u32 list \<Rightarrow> u32 list" where
  "MD5Transform buf inp =
    (case foldl (md5_step inp) (buf ! 0, buf ! 1, buf ! 2, buf ! 3) [0..<64] of
       (a, b, c, d) \<Rightarrow> [buf ! 0 + a, buf ! 1 + b, buf ! 2 + c, buf ! 3 + d])"

section \<open>Context\<close>

record MD5Context =
  md5_buf :: "u32 list"
  md5_bits :: "u32 list"
  md5_in :: bytes

definition MD5Init :: "MD5Context \<Rightarrow> MD5Context" where
  "MD5Init c = c\<lparr>md5_buf := [0x67452301, 0xefcdab89, 0x98badcfe, 0x10325476], md5_bits := [0, 0]\<rparr>"

definition md5_add_bits :: "u32 list \<Rightarrow> u32 \<Rightarrow> u32 list" where
  "md5_add_bits bits len =
    (let t = bits ! 0; b0 = t + push_bit 3 len; b1 = (if b0 < t then bits ! 1 + 1 else bits ! 1) in
     [b0, b1 + drop_bit 29 len])"

text \<open>The loop over whole blocks; the octets behind them are copied to the start of the buffer.\<close>

function md5_blocks :: "bytes \<Rightarrow> MD5Context \<Rightarrow> MD5Context" where
  "md5_blocks dat c =
    (if length dat \<ge> 64 then
       (let inp = take 64 dat in
        md5_blocks (drop 64 dat) (c\<lparr>md5_in := inp, md5_buf := MD5Transform (md5_buf c) (block_words inp)\<rparr>))
     else c\<lparr>md5_in := buf_put (md5_in c) 0 dat\<rparr>)"
  by pat_completeness auto
termination by (relation "measure (\<lambda>(dat, c). length dat)") auto

declare md5_blocks.simps [simp del]

definition MD5Update :: "MD5Context \<Rightarrow> bytes \<Rightarrow> u32 \<Rightarrow> MD5Context" where
  "MD5Update c dat len =
    (let dat = take (unat len) dat;
         t = unat (drop_bit 3 (md5_bits c ! 0) AND 0x3f);
         c = c\<lparr>md5_bits := md5_add_bits (md5_bits c) len\<rparr> in
     if t \<noteq> 0 then
       (let room = 64 - t in
        if length dat < room then c\<lparr>md5_in := buf_put (md5_in c) t dat\<rparr>
        else
          (let inp = buf_put (md5_in c) t (take room dat) in
           md5_blocks (drop room dat) (c\<lparr>md5_in := inp, md5_buf := MD5Transform (md5_buf c) (block_words inp)\<rparr>)))
     else md5_blocks dat c)"

text \<open>The words of the state in memory.\<close>

definition MD5Final :: "MD5Context \<Rightarrow> bytes" where
  "MD5Final c =
    (let cnt = unat (drop_bit 3 (md5_bits c ! 0) AND 0x3F);
         inp = buf_put (md5_in c) cnt [0x80];
         room = 64 - 1 - cnt;
         (buf, inp) =
           (if room < 8 then
              (let inp = buf_put inp (cnt + 1) (replicate room 0) in
               (MD5Transform (md5_buf c) (block_words inp), buf_put inp 0 (replicate 56 0)))
            else (md5_buf c, buf_put inp (cnt + 1) (replicate (room - 8) 0)));
         inp = buf_put inp 56 (WPA_PUT_LE32 (md5_bits c ! 0) @ WPA_PUT_LE32 (md5_bits c ! 1));
         buf = MD5Transform buf (block_words inp) in
     concat (map WPA_PUT_LE32 buf))"

text \<open>\<open>junk\<close> is the memory of the local context before it is written. A length is converted to \<open>unsigned\<close>.\<close>

definition md5_local :: "(nat \<Rightarrow> u8) \<Rightarrow> MD5Context" where
  "md5_local junk = \<lparr>md5_buf = [], md5_bits = [], md5_in = map junk [0..<64]\<rparr>"

definition md5_update_elem :: "MD5Context \<Rightarrow> bytes \<Rightarrow> MD5Context option" where
  "md5_update_elem c d = Some (MD5Update c d (word_of_nat (length d)))"

definition md5_vector :: "(nat \<Rightarrow> u8) \<Rightarrow> bytes list \<Rightarrow> bytes option" where
  "md5_vector junk ds =
    (case update_all md5_update_elem (MD5Init (md5_local junk)) ds of None \<Rightarrow> None | Some c \<Rightarrow> Some (MD5Final c))"

section \<open>MD5 of RFC 1321\<close>

text \<open>\<open>rfc1321_T\<close> is the table of the integer parts of \<open>4294967296 * abs (sin (i + 1))\<close>.\<close>

definition rfc1321_T :: "u32 list" where
  "rfc1321_T =
    [0xd76aa478, 0xe8c7b756, 0x242070db, 0xc1bdceee, 0xf57c0faf, 0x4787c62a, 0xa8304613, 0xfd469501,
     0x698098d8, 0x8b44f7af, 0xffff5bb1, 0x895cd7be, 0x6b901122, 0xfd987193, 0xa679438e, 0x49b40821,
     0xf61e2562, 0xc040b340, 0x265e5a51, 0xe9b6c7aa, 0xd62f105d, 0x02441453, 0xd8a1e681, 0xe7d3fbc8,
     0x21e1cde6, 0xc33707d6, 0xf4d50d87, 0x455a14ed, 0xa9e3e905, 0xfcefa3f8, 0x676f02d9, 0x8d2a4c8a,
     0xfffa3942, 0x8771f681, 0x6d9d6122, 0xfde5380c, 0xa4beea44, 0x4bdecfa9, 0xf6bb4b60, 0xbebfbc70,
     0x289b7ec6, 0xeaa127fa, 0xd4ef3085, 0x04881d05, 0xd9d4d039, 0xe6db99e5, 0x1fa27cf8, 0xc4ac5665,
     0xf4292244, 0x432aff97, 0xab9423a7, 0xfc93a039, 0x655b59c3, 0x8f0ccc92, 0xffeff47d, 0x85845dd1,
     0x6fa87e4f, 0xfe2ce6e0, 0xa3014314, 0x4e0811a1, 0xf7537e82, 0xbd3af235, 0x2ad7d2bb, 0xeb86d391]"

definition rfc1321_F :: "nat \<Rightarrow> u32 \<Rightarrow> u32 \<Rightarrow> u32 \<Rightarrow> u32" where
  "rfc1321_F i x y z =
    (if i < 16 then (x AND y) OR (NOT x AND z)
     else if i < 32 then (x AND z) OR (y AND NOT z)
     else if i < 48 then x XOR y XOR z
     else y XOR (x OR NOT z))"

definition rfc1321_k :: "nat \<Rightarrow> nat" where
  "rfc1321_k i = (if i < 16 then i else if i < 32 then (5 * i + 1) mod 16
     else if i < 48 then (3 * i + 5) mod 16 else (7 * i) mod 16)"

definition rfc1321_s :: "nat \<Rightarrow> nat" where
  "rfc1321_s i = (if i < 16 then [7, 12, 17, 22] ! (i mod 4) else if i < 32 then [5, 9, 14, 20] ! (i mod 4)
     else if i < 48 then [4, 11, 16, 23] ! (i mod 4) else [6, 10, 15, 21] ! (i mod 4))"

text \<open>One operation \<open>a = b + ((a + F(b,c,d) + X[k] + T[i]) <<< s)\<close>.\<close>

definition rfc1321_op :: "u32 list \<Rightarrow> md5_vars \<Rightarrow> nat \<Rightarrow> md5_vars" where
  "rfc1321_op X = (\<lambda>(a, b, c, d) i.
     (d, b + fips_ROTL (rfc1321_s i) (a + rfc1321_F i b c d + X ! rfc1321_k i + rfc1321_T ! i), b, c))"

definition rfc1321_block :: "u32 list \<Rightarrow> bytes \<Rightarrow> u32 list" where
  "rfc1321_block H m =
    (case foldl (rfc1321_op (block_words m)) (H ! 0, H ! 1, H ! 2, H ! 3) [0..<64] of
       (a, b, c, d) \<Rightarrow> [a + H ! 0, b + H ! 1, c + H ! 2, d + H ! 3])"

text \<open>The length is appended with its low order word first.\<close>

definition rfc1321_len :: "nat \<Rightarrow> bytes" where
  "rfc1321_len n = WPA_PUT_LE32 (word_of_nat n) @ WPA_PUT_LE32 (word_of_nat (n div 2 ^ 32))"

definition rfc1321 :: "bytes \<Rightarrow> bytes" where
  "rfc1321 = md_hash rfc1321_block [0x67452301, 0xefcdab89, 0x98badcfe, 0x10325476] rfc1321_len
     (\<lambda>H. concat (map WPA_PUT_LE32 H))"

section \<open>The compression function\<close>

lemma md5_tables: "md5_steps = zip (map rfc1321_k [0..<64]) (zip rfc1321_T (map rfc1321_s [0..<64]))"
  by (simp add: md5_steps_def rfc1321_k_def rfc1321_T_def rfc1321_s_def upt_rec_numeral upt_rec)

lemma length_T: "length rfc1321_T = 64"
  by (simp add: rfc1321_T_def)

lemma md5_step_table: "i < 64 \<Longrightarrow> md5_steps ! i = (rfc1321_k i, rfc1321_T ! i, rfc1321_s i)"
  by (simp add: md5_tables length_T)

lemma md5_functions:
  "F1 x y z = (x AND y) OR (NOT x AND z)" "F2 x y z = (x AND z) OR (y AND NOT z)"
  unfolding F2_def F1_def by (rule bit_word_eqI; auto simp: bit_simps)+

lemma md5_step_rfc: "i < 64 \<Longrightarrow> md5_step X v i = rfc1321_op X v i"
  by (cases v)
    (auto simp: md5_step_def md5_step_table MD5STEP_def rfc1321_op_def rfc1321_F_def md5_functions F3_def F4_def
      fips_ROTL_def Let_def ac_simps)

lemma md5_transform_rfc: "MD5Transform H (block_words m) = rfc1321_block H m"
proof -
  have "foldl (md5_step (block_words m)) v [0..<64] = foldl (rfc1321_op (block_words m)) v [0..<64]" for v
    by (rule foldl_cong_on) (simp add: md5_step_rfc)
  then show ?thesis by (simp add: MD5Transform_def rfc1321_block_def add.commute)
qed

section \<open>The context\<close>

abbreviation md5_iv :: "u32 list" where
  "md5_iv \<equiv> [0x67452301, 0xefcdab89, 0x98badcfe, 0x10325476]"

definition md5_fits :: "bytes \<Rightarrow> bool" where
  "md5_fits d \<longleftrightarrow> length d < 2 ^ 32"

text \<open>What the context must hold when the message \<open>m\<close> has been processed, the count of bits aside.\<close>

definition md5_holds :: "MD5Context \<Rightarrow> bytes \<Rightarrow> bool" where
  "md5_holds c m \<longleftrightarrow> md5_buf c = iterate_hash rfc1321_block md5_iv m \<and>
     length (md5_in c) = 64 \<and> take (length m mod 64) (md5_in c) = rest_octets m"

definition md5_fed :: "MD5Context \<Rightarrow> bytes \<Rightarrow> bool" where
  "md5_fed c m \<longleftrightarrow> md5_holds c m \<and>
     md5_bits c = [word_of_nat (8 * length m), word_of_nat (8 * length m div 2 ^ 32)]"

lemma md5_fed_init: "md5_fed (MD5Init (md5_local junk)) []"
  by (simp add: md5_fed_def md5_holds_def MD5Init_def md5_local_def)

lemma md5_add_bits_bits:
  assumes "n < 2 ^ 32"
  shows "md5_add_bits [word_of_nat (8 * L), word_of_nat (8 * L div 2 ^ 32)] (word_of_nat n) =
    [word_of_nat (8 * (L + n)), word_of_nat (8 * (L + n) div 2 ^ 32)]"
proof -
  have "(if c then x + 1 else x) + y = x + (if c then 1 else 0) + y" for c and x y :: u32 by simp
  then show ?thesis
    unfolding md5_add_bits_def Let_def nth_Cons_0 nth_Cons_Suc One_nat_def
    by (simp only: count_low [of L n] count_high [OF assms, of L, unfolded count_low] flip: count_high(2) [OF assms, of L, unfolded count_low])
qed

text \<open>Whole blocks are taken when the buffer is empty, that is when the message ends with a block.\<close>

lemma md5_blocks_holds:
  "md5_buf c = iterate_hash rfc1321_block md5_iv m \<Longrightarrow> length (md5_in c) = 64 \<Longrightarrow> length m mod 64 = 0 \<Longrightarrow>
     md5_holds (md5_blocks dat c) (m @ dat) \<and> md5_bits (md5_blocks dat c) = md5_bits c"
proof (induction dat c arbitrary: m rule: md5_blocks.induct)
  case (1 dat c)
  have r: "rest_octets m = []" using 1(4) by (metis length_0_conv length_rest)
  show ?case
  proof (cases "64 \<le> length dat")
    case True
    define c' where "c' = c\<lparr>md5_in := take 64 dat, md5_buf := MD5Transform (md5_buf c) (block_words (take 64 dat))\<rparr>"
    have b: "length (take 64 dat) = 64" using True by simp
    have "md5_buf c' = iterate_hash rfc1321_block md5_iv (m @ take 64 dat)"
      unfolding iterate_append [of _ _ m] r using 1(2) by (simp add: c'_def md5_transform_rfc iterate_one [OF b])
    moreover have "length (m @ take 64 dat) mod 64 = 0" using 1(4) True by simp
    ultimately have "md5_holds (md5_blocks (drop 64 dat) c') ((m @ take 64 dat) @ drop 64 dat) \<and>
        md5_bits (md5_blocks (drop 64 dat) c') = md5_bits c'"
      using 1(1) [OF True refl, folded c'_def, of "m @ take 64 dat"] b by (simp add: c'_def)
    moreover have "md5_blocks dat c = md5_blocks (drop 64 dat) c'"
      using True by (subst md5_blocks.simps) (simp add: c'_def Let_def)
    ultimately show ?thesis by (simp add: c'_def)
  next
    case False
    then have "md5_blocks dat c = c\<lparr>md5_in := buf_put (md5_in c) 0 dat\<rparr>" by (subst md5_blocks.simps) simp
    moreover have "iterate_hash rfc1321_block md5_iv (m @ dat) = md5_buf c" "rest_octets (m @ dat) = dat"
      using False 1(2) by (simp_all add: iterate_append [of _ _ m] rest_append [of m] r)
    moreover have "length (m @ dat) mod 64 = length dat"
      using False 1(4) by (simp add: mod_add_left_eq [symmetric])
    ultimately show ?thesis using False 1(3) by (simp add: md5_holds_def buf_put_def)
  qed
qed

lemma md5_fed_update:
  assumes fed: "md5_fed c m" and fits: "md5_fits d"
  shows "\<exists>c'. md5_update_elem c d = Some c' \<and> md5_fed c' (m @ d)"
proof -
  define n where "n = length d"
  define c1 where "c1 = c\<lparr>md5_bits := md5_add_bits (md5_bits c) (word_of_nat n)\<rparr>"
  define t where "t = length m mod 64"
  have bits: "md5_bits c1 = [word_of_nat (8 * length (m @ d)), word_of_nat (8 * length (m @ d) div 2 ^ 32)]"
    using fed fits md5_add_bits_bits [of n "length m"]
    by (simp add: c1_def md5_fed_def md5_fits_def n_def del: of_nat_mult of_nat_add)
  have st: "md5_buf c1 = iterate_hash rfc1321_block md5_iv m" "length (md5_in c1) = 64" "take t (md5_in c1) = rest_octets m"
    using fed by (simp_all add: c1_def md5_fed_def md5_holds_def t_def)
  have u: "unat (drop_bit 3 (md5_bits c ! 0) AND 63) = t"
    using fed by (simp add: md5_fed_def count_mod_64 t_def del: of_nat_mult)
  have len: "take (unat (word_of_nat n :: u32)) d = d" using fits by (simp add: md5_fits_def n_def unat_of_nat)
  have t: "t < 64" by (simp add: t_def)
  have upd: "MD5Update c d (word_of_nat n) =
    (if t \<noteq> 0 then
       if n < 64 - t then c1\<lparr>md5_in := buf_put (md5_in c1) t d\<rparr>
       else let inp = buf_put (md5_in c1) t (take (64 - t) d) in
         md5_blocks (drop (64 - t) d) (c1\<lparr>md5_in := inp, md5_buf := MD5Transform (md5_buf c1) (block_words inp)\<rparr>)
     else md5_blocks d c1)"
    unfolding MD5Update_def Let_def u len c1_def by (simp flip: n_def)
  consider "t = 0" | "t \<noteq> 0" "n < 64 - t" | "t \<noteq> 0" "64 - t \<le> n" by linarith
  then have "md5_holds (MD5Update c d (word_of_nat n)) (m @ d) \<and> md5_bits (MD5Update c d (word_of_nat n)) = md5_bits c1"
  proof cases
    case 1
    then show ?thesis unfolding upd using md5_blocks_holds [of c1 m d] st by (simp add: t_def)
  next
    case 2
    have s: "length (rest_octets m @ d) < 64" using 2 t by (simp add: n_def flip: t_def)
    have "iterate_hash rfc1321_block md5_iv (m @ d) = md5_buf c1" "rest_octets (m @ d) = rest_octets m @ d"
      using s st by (simp_all add: iterate_append [of _ _ m] rest_append [of m])
    moreover have "length (m @ d) mod 64 = t + n"
      using arg_cong [OF calculation(2), of length] by (simp add: n_def t_def)
    ultimately show ?thesis unfolding upd using 2 st t by (simp add: md5_holds_def n_def)
  next
    case 3
    define b where "b = rest_octets m @ take (64 - t) d"
    have b: "length b = 64" using 3 t by (simp add: b_def n_def flip: t_def)
    have put: "buf_put (md5_in c1) t (take (64 - t) d) = b"
      using st 3 t by (simp add: buf_put_def b_def n_def)
    define c2 where "c2 = c1\<lparr>md5_in := b, md5_buf := MD5Transform (md5_buf c1) (block_words b)\<rparr>"
    have "md5_buf c2 = iterate_hash rfc1321_block md5_iv (m @ take (64 - t) d)"
      unfolding iterate_append [of _ _ m] b_def [symmetric] using b st
      by (simp add: c2_def iterate_one md5_transform_rfc)
    moreover have "length (m @ take (64 - t) d) mod 64 = 0"
    proof -
      have "length (m @ take (64 - t) d) mod 64 = length (rest_octets (m @ take (64 - t) d))" by simp
      also have "\<dots> = length (rest_octets (b @ []))" unfolding rest_append [of m] b_def [symmetric] by simp
      finally show ?thesis using b by (simp only: rest_Cons, simp)
    qed
    ultimately show ?thesis
      unfolding upd Let_def put c2_def [symmetric]
      using 3 md5_blocks_holds [of c2 "m @ take (64 - t) d" "drop (64 - t) d"] b by (simp add: c2_def)
  qed
  then show ?thesis by (simp add: md5_update_elem_def md5_fed_def bits n_def)
qed


text \<open>The padding writes the octets of \<open>md_hash_rest\<close>.\<close>

lemma md5_fed_final:
  assumes fed: "md5_fed c m" shows "MD5Final c = rfc1321 m"
proof -
  define k where "k = length m mod 64"
  define r where "r = rest_octets m"
  define lenb where "lenb = rfc1321_len (8 * length m)"
  have st: "md5_buf c = iterate_hash rfc1321_block md5_iv m" "length (md5_in c) = 64" "take k (md5_in c) = r"
    using fed by (simp_all add: md5_fed_def md5_holds_def k_def r_def)
  have u: "unat (drop_bit 3 (md5_bits c ! 0) AND 63) = k"
    using fed by (simp add: md5_fed_def count_mod_64 k_def del: of_nat_mult)
  have bits: "WPA_PUT_LE32 (md5_bits c ! 0) @ WPA_PUT_LE32 (md5_bits c ! 1) = lenb"
    using fed by (simp add: md5_fed_def lenb_def rfc1321_len_def del: of_nat_mult)
  have k: "k < 64" "length r = k" "length lenb = 8" by (simp_all add: k_def r_def lenb_def rfc1321_len_def)
  have ref: "rfc1321 m = concat (map WPA_PUT_LE32
      (if k < 56 then rfc1321_block (md5_buf c) (r @ [0x80] @ replicate (55 - k) 0 @ lenb)
       else rfc1321_block (rfc1321_block (md5_buf c) (r @ [0x80] @ replicate (63 - k) 0)) (replicate 56 0 @ lenb)))"
    unfolding rfc1321_def by (subst md_hash_rest) (simp_all add: Let_def st k lenb_def rfc1321_len_def r_def k_def)
  show ?thesis
  proof (cases "k < 56")
    case True
    have "buf_put (buf_put (buf_put (md5_in c) k [0x80]) (k + 1) (replicate (63 - k - 8) 0)) 56 lenb =
        r @ [0x80] @ replicate (55 - k) 0 @ lenb"
      using True st k by (simp add: buf_put_def drop_Cons' take_Cons')
    moreover have "\<not> 63 - k < 8" using True by simp
    ultimately show ?thesis using True k unfolding MD5Final_def Let_def u bits ref
      by (simp add: md5_transform_rfc)
  next
    case False
    have "buf_put (buf_put (md5_in c) k [0x80]) (k + 1) (replicate (63 - k) 0) = r @ [0x80] @ replicate (63 - k) 0"
      using False st k by (simp add: buf_put_def drop_Cons')
    moreover have "buf_put (buf_put (r @ [0x80] @ replicate (63 - k) 0) 0 (replicate 56 0)) 56 lenb = replicate 56 0 @ lenb"
      using False k by (simp add: buf_put_def)
    moreover have "63 - k < 8" using False k by simp
    ultimately show ?thesis using False k unfolding MD5Final_def Let_def u bits ref
      by (simp add: md5_transform_rfc)
  qed
qed

interpretation md5: stream_hash "MD5Init (md5_local junk)" md5_update_elem "\<lambda>c. Some (MD5Final c)" rfc1321 md5_fits md5_fed for junk
  by unfold_locales (use md5_fed_init md5_fed_update md5_fed_final in auto)

lemma md5_vector_rfc: "list_all md5_fits ds \<Longrightarrow> md5_vector junk ds = Some (rfc1321 (concat ds))"
  unfolding md5_vector_def by (rule md5.vector_digest)

end
