(* ===== verification/Sha256.thy ===== *)
theory Sha256
  imports Hash
begin

text \<open>
  SHA-256, \<open>src/crypto/sha256-internal.c\<close>: the compression function, and the state that is fed with pieces of a
  message. It is shown to compute the SHA-256 of FIPS 180-4 of the concatenated elements.
\<close>

section \<open>Compression\<close>

definition K256 :: "u32 list" where
  "K256 =
    concat [
      [0x428a2f98, 0x71374491, 0xb5c0fbcf, 0xe9b5dba5, 0x3956c25b, 0x59f111f1, 0x923f82a4, 0xab1c5ed5],
      [0xd807aa98, 0x12835b01, 0x243185be, 0x550c7dc3, 0x72be5d74, 0x80deb1fe, 0x9bdc06a7, 0xc19bf174],
      [0xe49b69c1, 0xefbe4786, 0x0fc19dc6, 0x240ca1cc, 0x2de92c6f, 0x4a7484aa, 0x5cb0a9dc, 0x76f988da],
      [0x983e5152, 0xa831c66d, 0xb00327c8, 0xbf597fc7, 0xc6e00bf3, 0xd5a79147, 0x06ca6351, 0x14292967],
      [0x27b70a85, 0x2e1b2138, 0x4d2c6dfc, 0x53380d13, 0x650a7354, 0x766a0abb, 0x81c2c92e, 0x92722c85],
      [0xa2bfe8a1, 0xa81a664b, 0xc24b8b70, 0xc76c51a3, 0xd192e819, 0xd6990624, 0xf40e3585, 0x106aa070],
      [0x19a4c116, 0x1e376c08, 0x2748774c, 0x34b0bcb5, 0x391c0cb3, 0x4ed8aa4a, 0x5b9cca4f, 0x682e6ff3],
      [0x748f82ee, 0x78a5636f, 0x84c87814, 0x8cc70208, 0x90befffa, 0xa4506ceb, 0xbef9a3f7, 0xc67178f2]]"

definition RORc :: "u32 \<Rightarrow> nat \<Rightarrow> u32" where
  "RORc x y = drop_bit (y mod 32) x OR push_bit (32 - y mod 32) x"

definition Ch256 :: "u32 \<Rightarrow> u32 \<Rightarrow> u32 \<Rightarrow> u32" where "Ch256 x y z = z XOR (x AND (y XOR z))"
definition Maj256 :: "u32 \<Rightarrow> u32 \<Rightarrow> u32 \<Rightarrow> u32" where "Maj256 x y z = ((x OR y) AND z) OR (x AND y)"
definition Sigma0 :: "u32 \<Rightarrow> u32" where "Sigma0 x = RORc x 2 XOR RORc x 13 XOR RORc x 22"
definition Sigma1 :: "u32 \<Rightarrow> u32" where "Sigma1 x = RORc x 6 XOR RORc x 11 XOR RORc x 25"
definition Gamma0 :: "u32 \<Rightarrow> u32" where "Gamma0 x = RORc x 7 XOR RORc x 18 XOR drop_bit 3 x"
definition Gamma1 :: "u32 \<Rightarrow> u32" where "Gamma1 x = RORc x 17 XOR RORc x 19 XOR drop_bit 10 x"

definition sha256_W :: "bytes \<Rightarrow> u32 list" where
  "sha256_W buf = expand_words (\<lambda>W. let i = length W in
     Gamma1 (W ! (i - 2)) + W ! (i - 7) + Gamma0 (W ! (i - 15)) + W ! (i - 16)) 48
     (map (\<lambda>i. WPA_GET_BE32 (drop (4 * i) buf)) [0..<16])"

text \<open>The macro \<open>RND\<close> on \<open>S[0]\<close> to \<open>S[7]\<close>, and the shift of the array by one.\<close>

definition RND :: "u32 list \<Rightarrow> u32 list \<Rightarrow> nat \<Rightarrow> u32 list" where
  "RND W S i =
    (let t0 = S ! 7 + Sigma1 (S ! 4) + Ch256 (S ! 4) (S ! 5) (S ! 6) + K256 ! i + W ! i;
         t1 = Sigma0 (S ! 0) + Maj256 (S ! 0) (S ! 1) (S ! 2) in
     [S ! 0, S ! 1, S ! 2, S ! 3 + t0, S ! 4, S ! 5, S ! 6, t0 + t1])"

definition shift_S :: "u32 list \<Rightarrow> u32 list" where
  "shift_S S = [S ! 7, S ! 0, S ! 1, S ! 2, S ! 3, S ! 4, S ! 5, S ! 6]"

definition sha256_compress :: "u32 list \<Rightarrow> bytes \<Rightarrow> u32 list" where
  "sha256_compress st buf =
    (let W = sha256_W buf; S = foldl (\<lambda>S i. shift_S (RND W S i)) (map (\<lambda>i. st ! i) [0..<8]) [0..<64] in
     map (\<lambda>i. st ! i + S ! i) [0..<8])"

section \<open>State\<close>

text \<open>\<open>curlen\<close> is a \<open>u32\<close> that stays below 64.\<close>

record sha256_state =
  md_length :: u64
  md_state :: "u32 list"
  md_curlen :: nat
  md_octets :: bytes

definition sha256_init :: "sha256_state \<Rightarrow> sha256_state" where
  "sha256_init md = md\<lparr>md_curlen := 0, md_length := 0,
     md_state := [0x6A09E667, 0xBB67AE85, 0x3C6EF372, 0xA54FF53A, 0x510E527F, 0x9B05688C, 0x1F83D9AB, 0x5BE0CD19]\<rparr>"

text \<open>\<open>None\<close> is the result -1.\<close>

function sha256_process_loop :: "bytes \<Rightarrow> sha256_state \<Rightarrow> sha256_state" where
  "sha256_process_loop inp md =
    (if length inp > 0 \<and> md_curlen md < 64 then
       (if md_curlen md = 0 \<and> length inp \<ge> 64 then
          sha256_process_loop (drop 64 inp)
            (md\<lparr>md_state := sha256_compress (md_state md) (take 64 inp), md_length := md_length md + 64 * 8\<rparr>)
        else
          (let n = min (length inp) (64 - md_curlen md);
               md = md\<lparr>md_octets := buf_put (md_octets md) (md_curlen md) (take n inp), md_curlen := md_curlen md + n\<rparr> in
           sha256_process_loop (drop n inp)
             (if md_curlen md = 64
              then md\<lparr>md_state := sha256_compress (md_state md) (md_octets md), md_length := md_length md + 8 * 64, md_curlen := 0\<rparr>
              else md)))
     else md)"
  by pat_completeness auto
termination by (relation "measure (\<lambda>(inp, md). length inp)") auto

declare sha256_process_loop.simps [simp del]

definition sha256_process :: "sha256_state \<Rightarrow> bytes \<Rightarrow> sha256_state option" where
  "sha256_process md inp = (if md_curlen md \<ge> 64 then None else Some (sha256_process_loop inp md))"

text \<open>A loop that appends zeros up to the offset \<open>n\<close>.\<close>

definition pad_zeros :: "nat \<Rightarrow> sha256_state \<Rightarrow> sha256_state" where
  "pad_zeros n md = md\<lparr>md_octets := buf_put (md_octets md) (md_curlen md) (replicate (n - md_curlen md) 0),
     md_curlen := max n (md_curlen md)\<rparr>"

definition sha256_done :: "sha256_state \<Rightarrow> bytes option" where
  "sha256_done md =
    (if md_curlen md \<ge> 64 then None
     else
       (let md = md\<lparr>md_length := md_length md + word_of_nat (md_curlen md * 8),
              md_octets := buf_put (md_octets md) (md_curlen md) [0x80], md_curlen := md_curlen md + 1\<rparr>;
            md = (if md_curlen md > 56 then
                    (let md = pad_zeros 64 md in
                     md\<lparr>md_state := sha256_compress (md_state md) (md_octets md), md_curlen := 0\<rparr>)
                  else md);
            md = pad_zeros 56 md;
            md = md\<lparr>md_octets := buf_put (md_octets md) 56 (WPA_PUT_BE64 (md_length md))\<rparr>;
            st = sha256_compress (md_state md) (md_octets md) in
        Some (concat (map WPA_PUT_BE32 st))))"

definition sha256_local :: "(nat \<Rightarrow> u8) \<Rightarrow> sha256_state" where
  "sha256_local junk = \<lparr>md_length = 0, md_state = [], md_curlen = 0, md_octets = map junk [0..<64]\<rparr>"

definition sha256_vector :: "(nat \<Rightarrow> u8) \<Rightarrow> bytes list \<Rightarrow> bytes option" where
  "sha256_vector junk ds =
    (case update_all sha256_process (sha256_init (sha256_local junk)) ds of None \<Rightarrow> None | Some md \<Rightarrow> sha256_done md)"

section \<open>SHA-256 of FIPS 180-4\<close>

definition fips_ROTR :: "nat \<Rightarrow> u32 \<Rightarrow> u32" where
  "fips_ROTR n x = drop_bit n x OR push_bit (32 - n) x"

definition fips_Sigma0 :: "u32 \<Rightarrow> u32" where
  "fips_Sigma0 x = fips_ROTR 2 x XOR fips_ROTR 13 x XOR fips_ROTR 22 x"

definition fips_Sigma1 :: "u32 \<Rightarrow> u32" where
  "fips_Sigma1 x = fips_ROTR 6 x XOR fips_ROTR 11 x XOR fips_ROTR 25 x"

definition fips_sigma0 :: "u32 \<Rightarrow> u32" where
  "fips_sigma0 x = fips_ROTR 7 x XOR fips_ROTR 18 x XOR drop_bit 3 x"

definition fips_sigma1 :: "u32 \<Rightarrow> u32" where
  "fips_sigma1 x = fips_ROTR 17 x XOR fips_ROTR 19 x XOR drop_bit 10 x"

definition fips_sha256_W :: "bytes \<Rightarrow> u32 list" where
  "fips_sha256_W m = expand_words (\<lambda>W. let t = length W in
     fips_sigma1 (W ! (t - 2)) + W ! (t - 7) + fips_sigma0 (W ! (t - 15)) + W ! (t - 16)) 48 (fips_words m)"

type_synonym sha256_vars = "u32 \<times> u32 \<times> u32 \<times> u32 \<times> u32 \<times> u32 \<times> u32 \<times> u32"

definition fips_sha256_round :: "u32 list \<Rightarrow> sha256_vars \<Rightarrow> nat \<Rightarrow> sha256_vars" where
  "fips_sha256_round W = (\<lambda>(a, b, c, d, e, f, g, h) t.
     let T1 = h + fips_Sigma1 e + fips_Ch e f g + K256 ! t + W ! t; T2 = fips_Sigma0 a + fips_Maj a b c in
     (T1 + T2, a, b, c, d + T1, e, f, g))"

definition fips_sha256_block :: "u32 list \<Rightarrow> bytes \<Rightarrow> u32 list" where
  "fips_sha256_block H m =
    (case foldl (fips_sha256_round (fips_sha256_W m)) (H ! 0, H ! 1, H ! 2, H ! 3, H ! 4, H ! 5, H ! 6, H ! 7) [0..<64] of
       (a, b, c, d, e, f, g, h) \<Rightarrow>
         [a + H ! 0, b + H ! 1, c + H ! 2, d + H ! 3, e + H ! 4, f + H ! 5, g + H ! 6, h + H ! 7])"

abbreviation sha256_iv :: "u32 list" where
  "sha256_iv \<equiv> [0x6a09e667, 0xbb67ae85, 0x3c6ef372, 0xa54ff53a, 0x510e527f, 0x9b05688c, 0x1f83d9ab, 0x5be0cd19]"

definition fips_sha256 :: "bytes \<Rightarrow> bytes" where
  "fips_sha256 = md_hash fips_sha256_block sha256_iv (\<lambda>n. WPA_PUT_BE64 (word_of_nat n)) (\<lambda>H. concat (map WPA_PUT_BE32 H))"

text \<open>
  The table, which \<open>fips_sha256\<close> shares with the code, holds the first 32 bits of the fractional parts of the
  cube roots of the first 64 primes: \<open>k\<close> is the largest number with \<open>(c + k / 2^32)^3 \<le> p\<close>, where \<open>c\<close> is the integral part of the root.
\<close>

definition primes_64 :: "nat list" where
  "primes_64 =
    [2, 3, 5, 7, 11, 13, 17, 19, 23, 29, 31, 37, 41, 43, 47, 53, 59, 61, 67, 71, 73, 79,
     83, 89, 97, 101, 103, 107, 109, 113, 127, 131, 137, 139, 149, 151, 157, 163, 167, 173, 179, 181, 191, 193,
     197, 199, 211, 223, 227, 229, 233, 239, 241, 251, 257, 263, 269, 271, 277, 281, 283, 293, 307, 311]"

definition cube_root :: "nat \<Rightarrow> nat" where
  "cube_root p = (if p < 8 then 1 else if p < 27 then 2 else if p < 64 then 3 else if p < 125 then 4 else if p < 216 then 5 else 6)"

definition root_fraction :: "nat \<Rightarrow> nat \<Rightarrow> bool" where
  "root_fraction p k \<longleftrightarrow> (cube_root p * 2 ^ 32 + k) ^ 3 \<le> p * 2 ^ 96 \<and> p * 2 ^ 96 < (cube_root p * 2 ^ 32 + k + 1) ^ 3"

lemma K256_cube_roots: "list_all2 (\<lambda>p k. root_fraction p (unat k)) primes_64 K256"
  unfolding primes_64_def K256_def concat.simps append.simps list_all2_Cons list_all2_Nil
  by (simp add: root_fraction_def cube_root_def)

section \<open>The compression function\<close>

lemma rotr: "0 < n \<Longrightarrow> n < 32 \<Longrightarrow> RORc x n = fips_ROTR n x"
  by (simp add: RORc_def fips_ROTR_def)

lemma sha256_functions:
  "Sigma0 = fips_Sigma0" "Sigma1 = fips_Sigma1" "Gamma0 = fips_sigma0" "Gamma1 = fips_sigma1"
  "Ch256 = fips_Ch" "Maj256 = fips_Maj"
  by (auto simp: fun_eq_iff Sigma0_def fips_Sigma0_def Sigma1_def fips_Sigma1_def Gamma0_def fips_sigma0_def
    Gamma1_def fips_sigma1_def rotr Ch256_def Ch_select [symmetric] Maj256_def Maj_select xor.commute)

lemma get_BE32_take: "WPA_GET_BE32 (take 4 b) = WPA_GET_BE32 b"
  by (simp add: WPA_GET_BE32_def)

lemma sha256_W_fips: "sha256_W m = fips_sha256_W m"
  by (simp add: sha256_W_def fips_sha256_W_def sha256_functions fips_words_def get_BE32_take)

definition sha256_list :: "sha256_vars \<Rightarrow> u32 list" where
  "sha256_list = (\<lambda>(a, b, c, d, e, f, g, h). [a, b, c, d, e, f, g, h])"

lemma prod_cases8:
  obtains a b c d e f g h where "v = (a, b, c, d, e, f, g, h)"
  by (cases v) auto

lemma sha256_round_fips: "shift_S (RND W (sha256_list v) i) = sha256_list (fips_sha256_round W v i)"
  by (rule prod_cases8 [of v]) (simp add: sha256_list_def shift_S_def RND_def fips_sha256_round_def sha256_functions Let_def)

lemma sha256_rounds_fips:
  "foldl (\<lambda>S i. shift_S (RND W S i)) (sha256_list v) is = sha256_list (foldl (fips_sha256_round W) v is)"
  by (induction "is" arbitrary: v) (simp_all add: sha256_round_fips)

lemma sha256_compress_fips: "sha256_compress st m = fips_sha256_block st m"
proof -
  have u: "[0..<8] = [0, 1, 2, 3, 4, 5, 6, 7 :: nat]" by (simp add: upt_rec)
  define v where "v = (st ! 0, st ! 1, st ! 2, st ! 3, st ! 4, st ! 5, st ! 6, st ! 7)"
  have "map (\<lambda>i. st ! i) [0..<8] = sha256_list v" by (simp add: u sha256_list_def v_def)
  then have S: "foldl (\<lambda>S i. shift_S (RND (sha256_W m) S i)) (map (\<lambda>i. st ! i) [0..<8]) [0..<64] =
      sha256_list (foldl (fips_sha256_round (fips_sha256_W m)) v [0..<64])"
    by (simp only: sha256_rounds_fips sha256_W_fips)
  obtain a b c d e f g h where v: "foldl (fips_sha256_round (fips_sha256_W m)) v [0..<64] = (a, b, c, d, e, f, g, h)"
    by (rule prod_cases8)
  show ?thesis
    unfolding sha256_compress_def Let_def S fips_sha256_block_def v_def [symmetric] v
    by (simp add: u sha256_list_def add.commute)
qed

lemma sha256_compress_eq: "sha256_compress = fips_sha256_block"
  by (intro ext sha256_compress_fips)

section \<open>The state\<close>

text \<open>\<open>md_length\<close> counts the bits of the whole blocks only.\<close>

definition sha256_fed :: "sha256_state \<Rightarrow> bytes \<Rightarrow> bool" where
  "sha256_fed md m \<longleftrightarrow> md_state md = iterate_hash fips_sha256_block sha256_iv m \<and>
     md_curlen md = length m mod 64 \<and> md_length md = word_of_nat (512 * (length m div 64)) \<and>
     length (md_octets md) = 64 \<and> take (length m mod 64) (md_octets md) = rest_octets m"

lemma sha256_fed_init: "sha256_fed (sha256_init (sha256_local junk)) []"
  by (simp add: sha256_fed_def sha256_init_def sha256_local_def)

lemma sha256_fed_block:
  assumes fed: "sha256_fed md m" and e: "length m mod 64 = 0" and b: "length b = 64"
  shows "sha256_fed (md\<lparr>md_state := sha256_compress (md_state md) b, md_length := md_length md + 512\<rparr>) (m @ b)"
proof -
  have r: "rest_octets m = []" using e by (metis length_0_conv length_rest)
  have "rest_octets (m @ b) = []" using rest_Cons [OF b, of "[]"] by (simp add: rest_append [of m] r)
  moreover have "(length m + 64) div 64 = length m div 64 + 1" by simp
  ultimately show ?thesis using fed b e
    by (simp add: sha256_fed_def sha256_compress_eq iterate_append [of _ _ m] r iterate_one)
qed

text \<open>Octets for the buffer: it stays short of a block, or is compressed when it is full.\<close>

lemma sha256_fed_part:
  assumes fed: "sha256_fed md m" and part: "length m mod 64 + length d \<le> 64" "d \<noteq> []"
  defines "md1 \<equiv> md\<lparr>md_octets := buf_put (md_octets md) (md_curlen md) d, md_curlen := md_curlen md + length d\<rparr>"
  shows "sha256_fed (if md_curlen md1 = 64
     then md1\<lparr>md_state := sha256_compress (md_state md1) (md_octets md1), md_length := md_length md1 + 512, md_curlen := 0\<rparr>
     else md1) (m @ d)"
proof -
  define k where "k = length m mod 64"
  have st: "md_state md = iterate_hash fips_sha256_block sha256_iv m" "md_curlen md = k"
    "md_length md = word_of_nat (512 * (length m div 64))" "length (md_octets md) = 64" "take k (md_octets md) = rest_octets m"
    using fed by (simp_all add: sha256_fed_def k_def)
  have kd: "k + length d \<le> 64" "k < 64" using part by (simp_all add: k_def)
  have put: "take (k + length d) (buf_put (md_octets md) k d) = rest_octets m @ d"
    using st kd by simp
  have len: "length (rest_octets m @ d) = k + length d" by (simp add: k_def)
  show ?thesis
  proof (cases "k + length d = 64")
    case True
    have b: "length (rest_octets m @ d) = 64" using True len by simp
    have "buf_put (md_octets md) k d = rest_octets m @ d" using put st kd True by (metis length_buf_put order_refl take_all)
    moreover have "rest_octets (m @ d) = []" using rest_Cons [OF b, of "[]"] by (simp add: rest_append [of m])
    moreover have "iterate_hash fips_sha256_block sha256_iv (m @ d) = fips_sha256_block (md_state md) (rest_octets m @ d)"
      unfolding iterate_append [of _ _ m] st(1) by (rule iterate_one [OF b])
    moreover have m: "length (m @ d) = 64 * (length m div 64 + 1)"
      using True by (simp add: k_def) (metis add.assoc add.commute mult_div_mod_eq)
    moreover have "length (m @ d) div 64 = length m div 64 + 1" "length (m @ d) mod 64 = 0"
      unfolding m by simp_all
    ultimately show ?thesis using True st b by (simp add: md1_def sha256_fed_def sha256_compress_eq del: length_append)
  next
    case False
    have s: "length (rest_octets m @ d) < 64" using False len kd by simp
    have r: "rest_octets (m @ d) = rest_octets m @ d" "iterate_hash fips_sha256_block sha256_iv (m @ d) = md_state md"
      using s by (simp_all add: rest_append [of m] iterate_append [of _ _ m] st)
    have "length (m @ d) mod 64 = k + length d" using arg_cong [OF r(1), of length] len by simp
    moreover have "length (m @ d) div 64 = length m div 64"
    proof -
      have "length (m @ d) = 64 * (length m div 64) + (k + length d)" by (simp add: k_def)
      then show ?thesis using False kd by simp
    qed
    ultimately show ?thesis using False st kd put r by (simp add: md1_def sha256_fed_def del: length_append)
  qed
qed

lemma sha256_fed_loop: "sha256_fed md m \<Longrightarrow> sha256_fed (sha256_process_loop inp md) (m @ inp)"
proof (induction inp md arbitrary: m rule: sha256_process_loop.induct)
  case (1 inp md)
  have cur: "md_curlen md = length m mod 64" using 1(3) by (simp add: sha256_fed_def)
  show ?case
  proof (cases "inp = []")
    case True
    then show ?thesis using 1(3) by (subst sha256_process_loop.simps) simp
  next
    case False
    show ?thesis
    proof (cases "md_curlen md = 0 \<and> length inp \<ge> 64")
      case True
      define md' where "md' = md\<lparr>md_state := sha256_compress (md_state md) (take 64 inp), md_length := md_length md + 64 * 8\<rparr>"
      have ih: "sha256_fed md' m \<Longrightarrow> sha256_fed (sha256_process_loop (drop 64 inp) md') (m @ drop 64 inp)" for m
        using 1(1) [folded md'_def] False True by auto
      have "sha256_fed md' (m @ take 64 inp)"
        using sha256_fed_block [OF 1(3), of "take 64 inp"] True cur by (simp add: md'_def)
      then have "sha256_fed (sha256_process_loop (drop 64 inp) md') ((m @ take 64 inp) @ drop 64 inp)"
        by (rule ih)
      moreover have "sha256_process_loop inp md = sha256_process_loop (drop 64 inp) md'"
        using True False by (subst sha256_process_loop.simps) (simp add: md'_def)
      ultimately show ?thesis by simp
    next
      case nb: False
      define n where "n = min (length inp) (64 - md_curlen md)"
      define md1 where "md1 = md\<lparr>md_octets := buf_put (md_octets md) (md_curlen md) (take n inp), md_curlen := md_curlen md + n\<rparr>"
      define md2 where "md2 = (if md_curlen md1 = 64
         then md1\<lparr>md_state := sha256_compress (md_state md1) (md_octets md1), md_length := md_length md1 + 8 * 64, md_curlen := 0\<rparr>
         else md1)"
      have n: "0 < n" "n \<le> length inp" "length m mod 64 + n \<le> 64" using False cur by (auto simp: n_def)
      have cond: "0 < length inp" "md_curlen md < 64" using False cur by simp_all
      have ih: "sha256_fed md2 m \<Longrightarrow> sha256_fed (sha256_process_loop (drop n inp) md2) (m @ drop n inp)" for m
        using 1(2) [OF _ nb n_def md1_def, folded md2_def] False cur by auto
      have ne: "take n inp \<noteq> []" "length (take n inp) = n" using n False by auto
      have "sha256_fed md2 (m @ take n inp)"
        using sha256_fed_part [OF 1(3) _ ne(1), unfolded ne(2), OF n(3)]
        by (cases "md_curlen md + n = 64") (simp_all add: md2_def md1_def)
      then have "sha256_fed (sha256_process_loop (drop n inp) md2) ((m @ take n inp) @ drop n inp)"
        by (rule ih)
      moreover have "sha256_process_loop inp md = sha256_process_loop (drop n inp) md2"
        unfolding md2_def md1_def n_def
        by (subst sha256_process_loop.simps) (simp only: cond nb if_True if_False Let_def simp_thms)
      ultimately show ?thesis by simp
    qed
  qed
qed

lemma sha256_fed_update: "sha256_fed md m \<Longrightarrow> \<exists>md'. sha256_process md d = Some md' \<and> sha256_fed md' (m @ d)"
  using sha256_fed_loop by (simp add: sha256_process_def sha256_fed_def [of md])


text \<open>The padding writes the octets of \<open>md_hash_rest\<close>.\<close>

lemma sha256_fed_final:
  assumes fed: "sha256_fed md m" shows "sha256_done md = Some (fips_sha256 m)"
proof -
  define k where "k = length m mod 64"
  define r where "r = rest_octets m"
  define lenb where "lenb = WPA_PUT_BE64 (word_of_nat (8 * length m))"
  have st: "md_state md = iterate_hash fips_sha256_block sha256_iv m" "length (md_octets md) = 64"
      "take k (md_octets md) = r" "md_curlen md = k"
    using fed by (simp_all add: sha256_fed_def k_def r_def)
  have bits: "WPA_PUT_BE64 (md_length md + word_of_nat (k * 8)) = lenb"
  proof -
    have "512 * (length m div 64) + k * 8 = 8 * length m" by (simp add: k_def minus_mult_div_eq_mod [symmetric])
    then have "(word_of_nat (512 * (length m div 64)) :: u64) + word_of_nat (k * 8) = word_of_nat (8 * length m)"
      by (metis of_nat_add)
    then show ?thesis using fed by (simp add: sha256_fed_def lenb_def)
  qed
  have k: "k < 64" "length r = k" "length lenb = 8" by (simp_all add: k_def r_def lenb_def)
  have ref: "fips_sha256 m = concat (map WPA_PUT_BE32
      (if k < 56 then fips_sha256_block (md_state md) (r @ [0x80] @ replicate (55 - k) 0 @ lenb)
       else fips_sha256_block (fips_sha256_block (md_state md) (r @ [0x80] @ replicate (63 - k) 0)) (replicate 56 0 @ lenb)))"
    unfolding fips_sha256_def by (subst md_hash_rest) (simp_all add: Let_def st k lenb_def r_def k_def)
  show ?thesis
  proof (cases "k < 56")
    case True
    have "buf_put (buf_put (buf_put (md_octets md) k [0x80]) (k + 1) (replicate (56 - (k + 1)) 0)) 56 lenb =
        r @ [0x80] @ replicate (55 - k) 0 @ lenb"
      using True st k by (simp add: buf_put_def drop_Cons' take_Cons')
    then show ?thesis using True k bits unfolding sha256_done_def Let_def ref
      by (simp add: st sha256_compress_eq pad_zeros_def)
  next
    case False
    have "buf_put (buf_put (md_octets md) k [0x80]) (k + 1) (replicate (64 - (k + 1)) 0) = r @ [0x80] @ replicate (63 - k) 0"
      using False st k by (simp add: buf_put_def drop_Cons')
    moreover have "buf_put (buf_put (r @ [0x80] @ replicate (63 - k) 0) 0 (replicate 56 0)) 56 lenb = replicate 56 0 @ lenb"
      using False k by (simp add: buf_put_def)
    ultimately show ?thesis using False k bits unfolding sha256_done_def Let_def ref
      by (simp add: st sha256_compress_eq pad_zeros_def)
  qed
qed

interpretation sha256: stream_hash "sha256_init (sha256_local junk)" sha256_process sha256_done fips_sha256
    "\<lambda>d. True" sha256_fed for junk
  by unfold_locales (use sha256_fed_init sha256_fed_update sha256_fed_final in auto)

lemma sha256_vector_fips: "sha256_vector junk ds = Some (fips_sha256 (concat ds))"
  unfolding sha256_vector_def by (rule sha256.vector_digest) (simp add: list_all_iff)

end
