(* ===== verification/Hmac.thy ===== *)
theory Hmac
  imports Sha1 Md5 Sha256
begin

text \<open>
  HMAC over the three hash functions, \<open>src/crypto/sha1.c\<close>, \<open>md5.c\<close> and \<open>sha256.c\<close>, and what is derived with it: the key
  of a passphrase (\<open>sha1-pbkdf2.c\<close>), the pseudo random functions of TLS (\<open>sha1-tlsprf.c\<close>, \<open>sha256-tlsprf.c\<close>) and of
  EAP-FAST (\<open>sha1-tprf.c\<close>), and the CHAP response (\<open>src/eap_common/chap.c\<close>). HMAC is shown once, in the locale
  \<open>hash_function\<close>, to be that of RFC 2104, and the locale is interpreted for the three hash functions.
\<close>

section \<open>HMAC\<close>

text \<open>The three functions differ in the hash only. \<open>k_pad\<close> is the padded key combined with an octet.\<close>

definition k_pad :: "u8 \<Rightarrow> bytes \<Rightarrow> bytes" where
  "k_pad x key = map (\<lambda>b. b XOR x) (buf_put (replicate 64 0) 0 key)"

definition hmac_vector :: "(bytes list \<Rightarrow> bytes option) \<Rightarrow> bytes \<Rightarrow> bytes list \<Rightarrow> bytes option" where
  "hmac_vector vec key ds =
    (if length ds > 5 then None
     else
       (case (if length key > 64 then vec [key] else Some key) of
          None \<Rightarrow> None
        | Some key \<Rightarrow>
            (case vec (k_pad 0x36 key # ds) of
               None \<Rightarrow> None
             | Some mac \<Rightarrow> vec [k_pad 0x5c key, mac])))"

definition hmac_sha1_vector :: "(nat \<Rightarrow> u8) \<Rightarrow> bytes \<Rightarrow> bytes list \<Rightarrow> bytes option" where
  "hmac_sha1_vector junk key ds = hmac_vector (sha1_vector junk) key ds"

definition hmac_sha1 :: "(nat \<Rightarrow> u8) \<Rightarrow> bytes \<Rightarrow> bytes \<Rightarrow> bytes option" where
  "hmac_sha1 junk key dat = hmac_sha1_vector junk key [dat]"

definition hmac_md5_vector :: "(nat \<Rightarrow> u8) \<Rightarrow> bytes \<Rightarrow> bytes list \<Rightarrow> bytes option" where
  "hmac_md5_vector junk key ds = hmac_vector (md5_vector junk) key ds"

definition hmac_md5 :: "(nat \<Rightarrow> u8) \<Rightarrow> bytes \<Rightarrow> bytes \<Rightarrow> bytes option" where
  "hmac_md5 junk key dat = hmac_md5_vector junk key [dat]"

definition hmac_sha256_vector :: "(nat \<Rightarrow> u8) \<Rightarrow> bytes \<Rightarrow> bytes list \<Rightarrow> bytes option" where
  "hmac_sha256_vector junk key ds = hmac_vector (sha256_vector junk) key ds"

definition hmac_sha256 :: "(nat \<Rightarrow> u8) \<Rightarrow> bytes \<Rightarrow> bytes \<Rightarrow> bytes option" where
  "hmac_sha256 junk key dat = hmac_sha256_vector junk key [dat]"

definition chap_md5 :: "(nat \<Rightarrow> u8) \<Rightarrow> u8 \<Rightarrow> bytes \<Rightarrow> bytes \<Rightarrow> bytes option" where
  "chap_md5 junk ident secret challenge = md5_vector junk [[ident], secret, challenge]"

text \<open>RFC 2104, for blocks of 64 octets.\<close>

definition rfc2104 :: "(bytes \<Rightarrow> bytes) \<Rightarrow> bytes \<Rightarrow> bytes \<Rightarrow> bytes" where
  "rfc2104 H K txt =
    (let K = (if length K > 64 then H K else K); K0 = K @ replicate (64 - length K) 0 in
     H (xor_bytes K0 (replicate 64 0x5c) @ H (xor_bytes K0 (replicate 64 0x36) @ txt)))"

lemma k_pad_xor: "length key \<le> 64 \<Longrightarrow> k_pad x key = xor_bytes (key @ replicate (64 - length key) 0) (replicate 64 x)"
  by (rule nth_equalityI) (auto simp: k_pad_def buf_put_def nth_append)

context hash_function
begin

lemma hmac_rfc:
  assumes "length ds \<le> 5" "list_all fits ds" "fits key"
  shows "hmac_vector vector key ds = Some (rfc2104 digest key (concat ds))"
proof -
  define k where "k = (if length key > 64 then digest key else key)"
  have k: "(if length key > 64 then vector [key] else Some key) = Some k"
    using vector [of "[key]"] assms(3) by (simp add: k_def)
  have lk: "length k \<le> 64" using n_block by (simp add: k_def length_digest)
  have kp: "fits (k_pad x k)" for x
    by (rule fits_block) (use lk in \<open>simp add: k_pad_def\<close>)
  have m: "fits (digest t)" for t by (rule fits_block) (simp add: length_digest n_block)
  have "vector (k_pad 0x36 k # ds) = Some (digest (k_pad 0x36 k @ concat ds))"
    using vector [of "k_pad 0x36 k # ds"] kp assms(2) by simp
  moreover have "vector [k_pad 0x5c k, digest t] = Some (digest (k_pad 0x5c k @ digest t))" for t
    using vector [of "[k_pad 0x5c k, digest t]"] kp m by simp
  ultimately show ?thesis
    using assms(1) k unfolding hmac_vector_def rfc2104_def
    by (simp add: Let_def flip: k_def k_pad_xor [OF lk])
qed

lemma hmac_too_many: "length ds > 5 \<Longrightarrow> hmac_vector vector key ds = None"
  by (simp add: hmac_vector_def)

lemma length_rfc2104: "length (rfc2104 digest key txt) = n"
  by (simp add: rfc2104_def Let_def length_digest)

end

lemma length_fips_sha1: "length (fips_sha1 m) = 20"
  by (simp add: fips_sha1_def md_hash_def length_concat sum_list_triv comp_def)

lemma length_rfc1321_block [simp]: "length (rfc1321_block H m) = 4"
  by (simp add: rfc1321_block_def split: prod.splits)

lemma length_iterate_md5 [simp]: "length H = 4 \<Longrightarrow> length (iterate_hash rfc1321_block H m) = 4"
  by (induction m arbitrary: H rule: block_induct) simp_all

lemma length_rfc1321: "length (rfc1321 m) = 16"
  by (simp add: rfc1321_def md_hash_def length_concat sum_list_triv comp_def)

lemma length_fips_sha256_block [simp]: "length (fips_sha256_block H m) = 8"
  by (simp add: fips_sha256_block_def split: prod.splits)

lemma length_iterate_sha256 [simp]: "length H = 8 \<Longrightarrow> length (iterate_hash fips_sha256_block H m) = 8"
  by (induction m arbitrary: H rule: block_induct) simp_all

lemma length_fips_sha256: "length (fips_sha256 m) = 32"
  by (simp add: fips_sha256_def md_hash_def length_concat sum_list_triv comp_def)

interpretation sha1_mac: hash_function "sha1_vector junk" fips_sha1 20 sha1_fits for junk
  by unfold_locales (simp_all add: sha1_vector_fips length_fips_sha1 sha1_fits_def)

interpretation md5_mac: hash_function "md5_vector junk" rfc1321 16 md5_fits for junk
  by unfold_locales (simp_all add: md5_vector_rfc length_rfc1321 md5_fits_def)

interpretation sha256_mac: hash_function "sha256_vector junk" fips_sha256 32 "\<lambda>d. True" for junk
  by unfold_locales (simp_all add: sha256_vector_fips length_fips_sha256)

section \<open>The key of a passphrase\<close>

text \<open>The iterations after the first; \<open>digest\<close> is combined with each result.\<close>

fun pbkdf2_iterations :: "(nat \<Rightarrow> u8) \<Rightarrow> bytes \<Rightarrow> nat \<Rightarrow> bytes \<Rightarrow> bytes \<Rightarrow> bytes option" where
  "pbkdf2_iterations junk pass 0 tmp digest = Some digest"
| "pbkdf2_iterations junk pass (Suc n) tmp digest =
    (case hmac_sha1 junk pass tmp of
       None \<Rightarrow> None
     | Some tmp2 \<Rightarrow> pbkdf2_iterations junk pass n tmp2 (xor_bytes digest tmp2))"

definition pbkdf2_sha1_f :: "(nat \<Rightarrow> u8) \<Rightarrow> bytes \<Rightarrow> bytes \<Rightarrow> nat \<Rightarrow> u32 \<Rightarrow> bytes option" where
  "pbkdf2_sha1_f junk pass ssid iterations cnt =
    (case hmac_sha1_vector junk pass [ssid, WPA_PUT_BE32 cnt] of
       None \<Rightarrow> None
     | Some tmp \<Rightarrow> pbkdf2_iterations junk pass (iterations - 1) tmp tmp)"

text \<open>\<open>left\<close> octets are still to be written; the result is what is written.\<close>

function pbkdf2_loop :: "(nat \<Rightarrow> u8) \<Rightarrow> bytes \<Rightarrow> bytes \<Rightarrow> nat \<Rightarrow> u32 \<Rightarrow> nat \<Rightarrow> bytes option" where
  "pbkdf2_loop junk pass ssid iterations cnt left =
    (if left > 0 then
       (case pbkdf2_sha1_f junk pass ssid iterations (cnt + 1) of
          None \<Rightarrow> None
        | Some digest \<Rightarrow>
            (let plen = (if left > 20 then 20 else left) in
             case pbkdf2_loop junk pass ssid iterations (cnt + 1) (left - plen) of
               None \<Rightarrow> None
             | Some out \<Rightarrow> Some (take plen digest @ out)))
     else Some [])"
  by pat_completeness auto
termination by (relation "measure (\<lambda>(junk, pass, ssid, iterations, cnt, left). left)") auto

declare pbkdf2_loop.simps [simp del]

definition pbkdf2_sha1 :: "(nat \<Rightarrow> u8) \<Rightarrow> bytes \<Rightarrow> bytes \<Rightarrow> nat \<Rightarrow> nat \<Rightarrow> bytes option" where
  "pbkdf2_sha1 junk pass ssid iterations buflen = pbkdf2_loop junk pass ssid iterations 0 buflen"

text \<open>PBKDF2 of RFC 8018 with a pseudo random function of 20 octets.\<close>

fun rfc8018_U :: "(bytes \<Rightarrow> bytes) \<Rightarrow> bytes \<Rightarrow> nat \<Rightarrow> bytes" where
  "rfc8018_U prf salt_i 0 = prf salt_i"
| "rfc8018_U prf salt_i (Suc j) = prf (rfc8018_U prf salt_i j)"

definition rfc8018_F :: "(bytes \<Rightarrow> bytes) \<Rightarrow> bytes \<Rightarrow> nat \<Rightarrow> nat \<Rightarrow> bytes" where
  "rfc8018_F prf salt c i =
     fold (\<lambda>j acc. xor_bytes acc (rfc8018_U prf (salt @ WPA_PUT_BE32 (word_of_nat i)) j)) [1..<c]
       (rfc8018_U prf (salt @ WPA_PUT_BE32 (word_of_nat i)) 0)"

definition rfc8018_PBKDF2 :: "(bytes \<Rightarrow> bytes) \<Rightarrow> bytes \<Rightarrow> nat \<Rightarrow> nat \<Rightarrow> bytes" where
  "rfc8018_PBKDF2 prf salt c dkLen = take dkLen (concat (map (rfc8018_F prf salt c) [1..<1 + (dkLen + 19) div 20]))"

lemma hmac_sha1_rfc: "sha1_fits key \<Longrightarrow> sha1_fits d \<Longrightarrow> hmac_sha1 junk key d = Some (rfc2104 fips_sha1 key d)"
  using sha1_mac.hmac_rfc [of "[d]" key junk] by (simp add: hmac_sha1_def hmac_sha1_vector_def)

lemma fits_mac: "sha1_fits (rfc2104 fips_sha1 key d)"
  using sha1_mac.length_rfc2104 by (simp add: sha1_fits_def)

lemma pbkdf2_iterations_fold:
  assumes "sha1_fits pass"
  shows "pbkdf2_iterations junk pass n (rfc8018_U (rfc2104 fips_sha1 pass) s j) acc =
    Some (fold (\<lambda>j acc. xor_bytes acc (rfc8018_U (rfc2104 fips_sha1 pass) s j)) [j + 1..<j + 1 + n] acc)"
proof (induction n arbitrary: j acc)
  case (Suc n)
  have "sha1_fits (rfc8018_U (rfc2104 fips_sha1 pass) s j)" if "j > 0 \<or> True" for j
    by (cases j) (simp_all add: fits_mac)
  then have "hmac_sha1 junk pass (rfc8018_U (rfc2104 fips_sha1 pass) s j) = Some (rfc8018_U (rfc2104 fips_sha1 pass) s (Suc j))"
    using assms by (simp add: hmac_sha1_rfc)
  moreover have "[j + 1..<j + 1 + Suc n] = (j + 1) # [Suc j + 1..<Suc j + 1 + n]"
    by (subst upt_conv_Cons) simp_all
  ultimately show ?case using Suc.IH [of "Suc j"] by simp
qed simp

lemma pbkdf2_sha1_f_rfc:
  assumes "sha1_fits pass" "sha1_fits ssid"
  shows "pbkdf2_sha1_f junk pass ssid c (word_of_nat i) = Some (rfc8018_F (rfc2104 fips_sha1 pass) ssid c i)"
proof -
  have "hmac_sha1_vector junk pass [ssid, WPA_PUT_BE32 (word_of_nat i)] =
      Some (rfc8018_U (rfc2104 fips_sha1 pass) (ssid @ WPA_PUT_BE32 (word_of_nat i)) 0)"
    using sha1_mac.hmac_rfc [of "[ssid, WPA_PUT_BE32 (word_of_nat i)]" pass junk] assms
    by (simp add: hmac_sha1_vector_def sha1_fits_def)
  then show ?thesis
    using pbkdf2_iterations_fold [OF assms(1), of junk "c - 1" "ssid @ WPA_PUT_BE32 (word_of_nat i)" 0]
    by (cases c) (simp_all add: pbkdf2_sha1_f_def rfc8018_F_def)
qed

lemma length_rfc8018_U: "length (rfc8018_U (rfc2104 fips_sha1 pass) s j) = 20"
  using sha1_mac.length_rfc2104 by (cases j) simp_all

lemma length_rfc8018_F: "length (rfc8018_F (rfc2104 fips_sha1 pass) salt c i) = 20"
proof -
  have "length acc = 20 \<Longrightarrow> length (fold (\<lambda>j acc. xor_bytes acc (rfc8018_U (rfc2104 fips_sha1 pass) s j)) js acc) = 20" for s js acc
    by (induction js arbitrary: acc) (simp_all add: length_rfc8018_U)
  then show ?thesis unfolding rfc8018_F_def using length_rfc8018_U by blast
qed

lemma pbkdf2_loop_rfc:
  assumes "sha1_fits pass" "sha1_fits ssid"
  shows "pbkdf2_loop junk pass ssid c (word_of_nat i) left =
    Some (take left (concat (map (rfc8018_F (rfc2104 fips_sha1 pass) ssid c) [i + 1..<i + 1 + (left + 19) div 20])))"
proof (induction left arbitrary: i rule: less_induct)
  case (less left)
  define F where "F = rfc8018_F (rfc2104 fips_sha1 pass) ssid c"
  have f: "pbkdf2_sha1_f junk pass ssid c (word_of_nat i + 1) = Some (F (i + 1))"
    using pbkdf2_sha1_f_rfc [OF assms, of junk c "i + 1"] by (simp add: F_def add.commute)
  have lF: "length (F k) = 20" for k by (simp add: F_def length_rfc8018_F)
  show ?case
  proof (cases "left = 0")
    case True
    then show ?thesis by (subst pbkdf2_loop.simps) simp
  next
    case False
    define p where "p = (if left > 20 then 20 else left)"
    have p: "p \<le> left" "p > 0" "p \<le> 20" "(left + 19) div 20 = Suc ((left - p + 19) div 20)" "left - p > 0 \<Longrightarrow> p = 20"
      using False by (auto simp: p_def div_if)
    have ih: "pbkdf2_loop junk pass ssid c (word_of_nat i + 1) (left - p) =
        Some (take (left - p) (concat (map F [i + 2..<i + 2 + (left - p + 19) div 20])))"
      using less.IH [of "left - p" "i + 1"] p by (simp add: F_def add.commute)
    define xs where "xs = [i + 2..<i + 2 + (left - p + 19) div 20]"
    have "[i + 1..<i + 1 + (left + 19) div 20] = (i + 1) # xs"
      unfolding p(4) xs_def by (subst upt_conv_Cons) simp_all
    then have e: "take left (concat (map F [i + 1..<i + 1 + (left + 19) div 20])) =
        take p (F (i + 1)) @ take (left - p) (concat (map F xs))"
      using lF [of "i + 1"] by (auto simp: p_def)
    have "pbkdf2_loop junk pass ssid c (word_of_nat i) left = Some (take p (F (i + 1)) @ take (left - p) (concat (map F xs)))"
      using False f ih [folded xs_def] by (subst pbkdf2_loop.simps) (simp add: Let_def flip: p_def)
    then show ?thesis unfolding F_def [symmetric] e .
  qed
qed

lemma pbkdf2_sha1_rfc:
  assumes "sha1_fits pass" "sha1_fits ssid"
  shows "pbkdf2_sha1 junk pass ssid c n = Some (rfc8018_PBKDF2 (rfc2104 fips_sha1 pass) ssid c n)"
  using pbkdf2_loop_rfc [OF assms, of junk c 0 n] by (simp add: pbkdf2_sha1_def rfc8018_PBKDF2_def)

section \<open>The vector functions compute the standards\<close>

text \<open>
  C17: \<open>sha1_vector\<close>, \<open>md5_vector\<close> and \<open>sha256_vector\<close>, which feed the elements piecewise through their streaming
  contexts with unrolled rounds and a message schedule in place, never fail and compute SHA-1 and SHA-256 of
  FIPS 180-4 and MD5 of RFC 1321 of the concatenated elements, whatever the number and the lengths of the
  elements (below \<open>2^32 - 64\<close> octets each for SHA-1, below \<open>2^32\<close> for MD5) and the octets of the contexts before.
\<close>

theorem hash_vectors_standard:
  assumes "list_all sha1_fits ds" "list_all md5_fits ds"
  shows "sha1_vector junk1 ds = Some (fips_sha1 (concat ds)) \<and> md5_vector junk2 ds = Some (rfc1321 (concat ds)) \<and>
    sha256_vector junk3 ds' = Some (fips_sha256 (concat ds'))"
  using sha1_vector_fips md5_vector_rfc sha256_vector_fips assms by blast

theorem hash_vectors_standard_witness:
  "sha1_vector (\<lambda>_. 0) [[97], [], [98, 99]] = Some (fips_sha1 [97, 98, 99]) \<and>
   md5_vector (\<lambda>_. 0) [[97], [], [98, 99]] = Some (rfc1321 [97, 98, 99]) \<and>
   sha256_vector (\<lambda>_. 0) [[97], [98]] = Some (fips_sha256 [97, 98])"
  using hash_vectors_standard [of "[[97], [], [98, 99]]" "\<lambda>_. 0" "\<lambda>_. 0" "\<lambda>_. 0" "[[97], [98]]"]
  by (simp add: sha1_fits_def md5_fits_def)

text \<open>
  C18: The HMAC functions compute HMAC of RFC 2104 with a block of 64 octets for at most five elements, keys that
  are longer than a block included, and refuse six elements or more, for which their arrays have no room.
\<close>

theorem hmac_standard:
  assumes "sha1_fits key" "md5_fits key" "list_all sha1_fits ds" "list_all md5_fits ds"
  shows "hmac_sha1_vector junk1 key ds = (if length ds > 5 then None else Some (rfc2104 fips_sha1 key (concat ds))) \<and>
    hmac_md5_vector junk2 key ds = (if length ds > 5 then None else Some (rfc2104 rfc1321 key (concat ds))) \<and>
    hmac_sha256_vector junk3 key' ds' = (if length ds' > 5 then None else Some (rfc2104 fips_sha256 key' (concat ds')))"
proof -
  have "hmac_sha1_vector junk1 key ds = (if length ds > 5 then None else Some (rfc2104 fips_sha1 key (concat ds)))"
    using sha1_mac.hmac_rfc [of ds key junk1] sha1_mac.hmac_too_many [of ds junk1 key] assms
    by (simp add: hmac_sha1_vector_def)
  moreover have "hmac_md5_vector junk2 key ds = (if length ds > 5 then None else Some (rfc2104 rfc1321 key (concat ds)))"
    using md5_mac.hmac_rfc [of ds key junk2] md5_mac.hmac_too_many [of ds junk2 key] assms
    by (simp add: hmac_md5_vector_def)
  moreover have "hmac_sha256_vector junk3 key' ds' =
      (if length ds' > 5 then None else Some (rfc2104 fips_sha256 key' (concat ds')))"
    using sha256_mac.hmac_rfc [where ds = ds' and key = key' and junk = junk3]
      sha256_mac.hmac_too_many [where ds = ds' and key = key' and junk = junk3]
    by (simp add: hmac_sha256_vector_def list_all_iff)
  ultimately show ?thesis by blast
qed

theorem hmac_standard_witness:
  "hmac_sha1_vector (\<lambda>_. 0) (replicate 80 7) [[1], [2]] = Some (rfc2104 fips_sha1 (replicate 80 7) [1, 2]) \<and>
   hmac_md5_vector (\<lambda>_. 0) (replicate 80 7) [[1], [2]] = Some (rfc2104 rfc1321 (replicate 80 7) [1, 2]) \<and>
   hmac_sha256_vector (\<lambda>_. 0) [9] [[], [], [], [], [], []] = None"
  using hmac_standard [of "replicate 80 7" "[[1], [2]]" "\<lambda>_. 0" "\<lambda>_. 0" "\<lambda>_. 0" "[9]" "[[], [], [], [], [], []]"]
  by (simp add: sha1_fits_def md5_fits_def)

text \<open>
  C19: \<open>pbkdf2_sha1\<close> never fails and computes PBKDF2 of RFC 8018 with HMAC-SHA1, the key of a WPA passphrase: the
  loop that overwrites the digest in place and writes blocks until the buffer is full is the truncated
  concatenation of the blocks of the standard.
\<close>

theorem pbkdf2_standard:
  assumes "sha1_fits passphrase" "sha1_fits ssid"
  shows "pbkdf2_sha1 junk passphrase ssid iterations n =
    Some (rfc8018_PBKDF2 (rfc2104 fips_sha1 passphrase) ssid iterations n)"
  by (rule pbkdf2_sha1_rfc [OF assms])

theorem pbkdf2_standard_witness:
  "pbkdf2_sha1 (\<lambda>_. 0) [112, 97, 115, 115] [73, 69, 69, 69] 4096 32 =
     Some (rfc8018_PBKDF2 (rfc2104 fips_sha1 [112, 97, 115, 115]) [73, 69, 69, 69] 4096 32)"
  by (rule pbkdf2_standard) (simp_all add: sha1_fits_def)

end
