(* ===== verification/TlsPrf.thy ===== *)
theory TlsPrf
  imports Hmac
begin

text \<open>
  The pseudo random functions of TLS, \<open>src/crypto/sha1-tlsprf.c\<close> (RFC 2246) and \<open>sha256-tlsprf.c\<close> (RFC 5246), and the one
  of EAP-FAST, \<open>sha1-tprf.c\<close> (RFC 4851). The TLS functions ignore the result of the HMAC functions: \<open>kept\<close> is
  the value of a buffer after a call, its old value when the call failed. A label is the list of its
  characters without the NUL.
\<close>

definition kept :: "bytes \<Rightarrow> bytes option \<Rightarrow> bytes" where
  "kept old res = (case res of Some x \<Rightarrow> x | None \<Rightarrow> old)"

lemma kept_Some [simp]: "kept old (Some x) = x"
  by (simp add: kept_def)

section \<open>TLS 1.2\<close>

function tls_prf_sha256_loop :: "(nat \<Rightarrow> u8) \<Rightarrow> bytes \<Rightarrow> bytes \<Rightarrow> bytes \<Rightarrow> bytes \<Rightarrow> bytes \<Rightarrow> nat \<Rightarrow> nat \<Rightarrow> bytes" where
  "tls_prf_sha256_loop junk secret label seed A P pos outlen =
    (if pos < outlen then
       (let P = kept P (hmac_sha256_vector junk secret [A, label, seed]);
            A = kept A (hmac_sha256 junk secret A);
            clen = (if outlen - pos > 32 then 32 else outlen - pos) in
        take clen P @ tls_prf_sha256_loop junk secret label seed A P (pos + clen) outlen)
     else [])"
  by pat_completeness auto
termination by (relation "measure (\<lambda>(junk, secret, label, seed, A, P, pos, outlen). outlen - pos)") auto

declare tls_prf_sha256_loop.simps [simp del]

text \<open>The result is what is written to \<open>out\<close>; \<open>A0\<close> and \<open>P0\<close> are the local arrays before they are written.\<close>

definition tls_prf_sha256 :: "(nat \<Rightarrow> u8) \<Rightarrow> bytes \<Rightarrow> bytes \<Rightarrow> bytes \<Rightarrow> bytes \<Rightarrow> bytes \<Rightarrow> nat \<Rightarrow> bytes" where
  "tls_prf_sha256 junk A0 P0 secret label seed outlen =
     tls_prf_sha256_loop junk secret label seed (kept A0 (hmac_sha256_vector junk secret [label, seed])) P0 0 outlen"

section \<open>TLS 1.0\<close>

text \<open>The state of one of the two streams: \<open>A\<close>, \<open>P\<close> and the position in \<open>P\<close>.\<close>

type_synonym prf_stream = "bytes \<times> bytes \<times> nat"

definition md5_refill :: "(nat \<Rightarrow> u8) \<Rightarrow> bytes \<Rightarrow> bytes \<Rightarrow> bytes \<Rightarrow> prf_stream \<Rightarrow> prf_stream" where
  "md5_refill junk S1 label seed = (\<lambda>(A, P, pos).
     if pos = 16 then (kept A (hmac_md5 junk S1 A), kept P (hmac_md5_vector junk S1 [A, label, seed]), 0) else (A, P, pos))"

definition sha1_refill :: "(nat \<Rightarrow> u8) \<Rightarrow> bytes \<Rightarrow> bytes \<Rightarrow> bytes \<Rightarrow> prf_stream \<Rightarrow> prf_stream" where
  "sha1_refill junk S2 label seed = (\<lambda>(A, P, pos).
     if pos = 20 then (kept A (hmac_sha1 junk S2 A), kept P (hmac_sha1_vector junk S2 [A, label, seed]), 0) else (A, P, pos))"

fun tls_prf_loop :: "(prf_stream \<Rightarrow> prf_stream) \<Rightarrow> (prf_stream \<Rightarrow> prf_stream) \<Rightarrow> nat \<Rightarrow> prf_stream \<Rightarrow> prf_stream \<Rightarrow> bytes" where
  "tls_prf_loop refill5 refill1 0 m s = []"
| "tls_prf_loop refill5 refill1 (Suc n) m s =
    (case (refill5 m, refill1 s) of
       ((A5, P5, pos5), (A1, P1, pos1)) \<Rightarrow>
         (P5 ! pos5 XOR P1 ! pos1) # tls_prf_loop refill5 refill1 n (A5, P5, pos5 + 1) (A1, P1, pos1 + 1))"

text \<open>\<open>None\<close> is the result -1; \<open>A5\<close>, \<open>P5\<close>, \<open>A1\<close> and \<open>P1\<close> are the local arrays before they are written.\<close>

definition tls_prf_sha1_md5 ::
    "(nat \<Rightarrow> u8) \<Rightarrow> bytes \<Rightarrow> bytes \<Rightarrow> bytes \<Rightarrow> bytes \<Rightarrow> bytes \<Rightarrow> bytes \<Rightarrow> bytes \<Rightarrow> nat \<Rightarrow> bytes option" where
  "tls_prf_sha1_md5 junk A5 P5 A1 P1 secret label seed outlen =
    (if length secret mod 2 = 1 then None
     else
       (let half = (length secret + 1) div 2; S1 = take half secret; S2 = take half (drop half secret);
            A5 = kept A5 (hmac_md5_vector junk S1 [label, seed]);
            A1 = kept A1 (hmac_sha1_vector junk S2 [label, seed]) in
        Some (tls_prf_loop (md5_refill junk S1 label seed) (sha1_refill junk S2 label seed) outlen (A5, P5, 16) (A1, P1, 20))))"

section \<open>EAP-FAST\<close>

text \<open>\<open>hash\<close> is the previous block, empty at first.\<close>

function t_prf_loop :: "(nat \<Rightarrow> u8) \<Rightarrow> bytes \<Rightarrow> bytes \<Rightarrow> bytes \<Rightarrow> bytes \<Rightarrow> bytes \<Rightarrow> u8 \<Rightarrow> nat \<Rightarrow> nat \<Rightarrow> bytes option" where
  "t_prf_loop junk key label seed output_len hash cnt pos buf_len =
    (if pos < buf_len then
       (let cnt = cnt + 1; plen = buf_len - pos in
        case hmac_sha1_vector junk key [hash, label @ [0], seed, output_len, [cnt]] of
          None \<Rightarrow> None
        | Some hash \<Rightarrow>
            (if plen \<ge> 20 then
               (case t_prf_loop junk key label seed output_len hash cnt (pos + 20) buf_len of
                  None \<Rightarrow> None
                | Some out \<Rightarrow> Some (hash @ out))
             else Some (take plen hash)))
     else Some [])"
  by pat_completeness auto
termination by (relation "measure (\<lambda>(junk, key, label, seed, output_len, hash, cnt, pos, buf_len). buf_len - pos)") auto

declare t_prf_loop.simps [simp del]

definition sha1_t_prf :: "(nat \<Rightarrow> u8) \<Rightarrow> bytes \<Rightarrow> bytes \<Rightarrow> bytes \<Rightarrow> nat \<Rightarrow> bytes option" where
  "sha1_t_prf junk key label seed buf_len =
     t_prf_loop junk key label seed (WPA_PUT_BE16 (word_of_nat buf_len)) [] 0 0 buf_len"

section \<open>The standards\<close>

text \<open>\<open>P_hash\<close> of RFC 2246 and RFC 5246: \<open>A(0) = seed, A(i) = HMAC(secret, A(i - 1))\<close>.\<close>

fun rfc5246_A :: "(bytes \<Rightarrow> bytes) \<Rightarrow> bytes \<Rightarrow> nat \<Rightarrow> bytes" where
  "rfc5246_A mac seed 0 = seed"
| "rfc5246_A mac seed (Suc i) = mac (rfc5246_A mac seed i)"

definition rfc5246_P :: "(bytes \<Rightarrow> bytes) \<Rightarrow> bytes \<Rightarrow> nat \<Rightarrow> bytes" where
  "rfc5246_P mac seed n = concat (map (\<lambda>i. mac (rfc5246_A mac seed i @ seed)) [1..<1 + n])"

lemma length_P:
  "(\<And>x. length (mac x) = k) \<Longrightarrow> length (rfc5246_P mac seed n) = k * n"
  by (simp add: rfc5246_P_def length_concat comp_def sum_list_triv del: upt_Suc)

text \<open>Octet \<open>k\<close> of a stream is octet \<open>k mod l\<close> of block \<open>k div l\<close>.\<close>

lemma nth_P:
  assumes m: "\<And>x. length (mac x) = l" and k: "k < l * n"
  shows "rfc5246_P mac seed n ! k = mac (rfc5246_A mac seed (k div l + 1) @ seed) ! (k mod l)"
  using k
proof (induction n)
  case (Suc n)
  have s: "rfc5246_P mac seed (Suc n) = rfc5246_P mac seed n @ mac (rfc5246_A mac seed (n + 1) @ seed)"
    by (simp add: rfc5246_P_def)
  show ?case
  proof (cases "k < l * n")
    case True
    then show ?thesis using Suc.IH by (simp add: s nth_append length_P [OF m])
  next
    case False
    then have "l > 0" and d: "l * n \<le> k" "k < l * n + l" using Suc.prems by (auto intro: gr0I)
    then have "k div l = n" by (simp add: div_nat_eqI)
    moreover from this have "k mod l = k - l * n" by (simp add: modulo_nat_def mult.commute)
    ultimately show ?thesis using False by (simp add: s nth_append length_P [OF m])
  qed
qed simp

section \<open>Equivalence\<close>

lemma hmac_sha256_rfc: "hmac_sha256_vector junk key ds = Some (rfc2104 fips_sha256 key (concat ds))" if "length ds \<le> 5"
  using sha256_mac.hmac_rfc [where ds = ds and key = key and junk = junk] that by (simp add: hmac_sha256_vector_def list_all_iff)

lemma length_hmac_sha256: "length (rfc2104 fips_sha256 key x) = 32"
  by (rule sha256_mac.length_rfc2104)

lemma tls_prf_sha256_loop_P:
  defines "mac secret \<equiv> rfc2104 fips_sha256 secret"
  shows "pos = 32 * i \<Longrightarrow> (outlen - pos + 31) div 32 \<le> n \<Longrightarrow>
    tls_prf_sha256_loop junk secret label seed (rfc5246_A (mac secret) (label @ seed) (i + 1)) P pos outlen =
      take (outlen - pos) (drop pos (rfc5246_P (mac secret) (label @ seed) (i + n)))"
proof (induction n arbitrary: i pos P)
  case 0
  then show ?case by (subst tls_prf_sha256_loop.simps) auto
next
  case (Suc n)
  define A where "A = rfc5246_A (mac secret) (label @ seed)"
  define blk where "blk j = mac secret (A j @ label @ seed)" for j
  have lb: "length (blk j) = 32" for j by (simp add: blk_def mac_def length_hmac_sha256)
  have lp: "length (rfc5246_P (mac secret) (label @ seed) j) = 32 * j" for j
    by (rule length_P) (simp add: mac_def length_hmac_sha256)
  show ?case
  proof (cases "pos < outlen")
    case False
    then show ?thesis by (subst tls_prf_sha256_loop.simps) simp
  next
    case True
    define clen where "clen = (if outlen - pos > 32 then 32 else outlen - pos)"
    have dr: "drop pos (rfc5246_P (mac secret) (label @ seed) (i + Suc n)) =
        blk (i + 1) @ drop (pos + 32) (rfc5246_P (mac secret) (label @ seed) (i + Suc n))"
    proof -
      have u: "[1..<1 + (i + Suc n)] = [1..<1 + i] @ (i + 1) # [i + 2..<1 + (i + Suc n)]"
      proof -
        have "[1..<1 + i + Suc n] = [1..<1 + i] @ [1 + i..<1 + i + Suc n]" by (rule upt_add_eq_append) simp
        moreover have "[1 + i..<1 + i + Suc n] = (1 + i) # [Suc (1 + i)..<1 + i + Suc n]" by (rule upt_conv_Cons) simp
        ultimately show ?thesis by (simp del: upt_Suc)
      qed
      have "rfc5246_P (mac secret) (label @ seed) (i + Suc n) = rfc5246_P (mac secret) (label @ seed) i @ blk (i + 1) @
          concat (map (\<lambda>j. mac secret (rfc5246_A (mac secret) (label @ seed) j @ (label @ seed))) [i + 2..<1 + (i + Suc n)])"
        unfolding rfc5246_P_def u map_append concat_append list.map concat.simps blk_def A_def append_assoc by (rule refl)
      then show ?thesis using Suc.prems(1) by (simp add: lp lb)
    qed
    have step: "tls_prf_sha256_loop junk secret label seed (A (i + 1)) P pos outlen =
        take clen (blk (i + 1)) @ tls_prf_sha256_loop junk secret label seed (A (i + 2)) (blk (i + 1)) (pos + clen) outlen"
      using True by (subst tls_prf_sha256_loop.simps)
        (simp add: hmac_sha256_rfc hmac_sha256_def Let_def clen_def blk_def A_def mac_def)
    show ?thesis
    proof (cases "outlen - pos > 32")
      case True
      have "outlen - pos + 31 = outlen - (pos + 32) + 31 + 32" using True by simp
      then have "(outlen - pos + 31) div 32 = (outlen - (pos + 32) + 31 + 32) div 32" by (rule arg_cong)
      also have "\<dots> = (outlen - (pos + 32) + 31) div 32 + 1" by (rule div_add_self2) simp
      finally have "(outlen - (pos + 32) + 31) div 32 \<le> n" using Suc.prems(2) by linarith
      then have "tls_prf_sha256_loop junk secret label seed (A (i + 2)) (blk (i + 1)) (pos + 32) outlen =
          take (outlen - (pos + 32)) (drop (pos + 32) (rfc5246_P (mac secret) (label @ seed) (i + Suc n)))"
        using Suc.IH [of "pos + 32" "i + 1" "blk (i + 1)"] Suc.prems(1) by (simp add: A_def)
      then show ?thesis unfolding A_def [symmetric] step dr using True lb by (simp add: clen_def)
    next
      case False
      then have "tls_prf_sha256_loop junk secret label seed (A (i + 2)) (blk (i + 1)) (pos + clen) outlen = []"
        using \<open>pos < outlen\<close> by (subst tls_prf_sha256_loop.simps) (simp add: clen_def)
      then show ?thesis unfolding A_def [symmetric] step dr using False lb by (simp add: clen_def)
    qed
  qed
qed

lemma tls_prf_sha256_rfc:
  "tls_prf_sha256 junk A0 P0 secret label seed outlen =
     take outlen (rfc5246_P (rfc2104 fips_sha256 secret) (label @ seed) ((outlen + 31) div 32))"
  using tls_prf_sha256_loop_P [of 0 0 outlen "(outlen + 31) div 32" junk secret label seed P0]
  by (simp add: tls_prf_sha256_def hmac_sha256_rfc)

text \<open>
  The state of a stream of blocks of \<open>l\<close> octets when \<open>i\<close> octets have been taken: before the first octet of a
  block the position is behind the last block.
\<close>

definition stream_at :: "(bytes \<Rightarrow> bytes) \<Rightarrow> bytes \<Rightarrow> nat \<Rightarrow> nat \<Rightarrow> prf_stream \<Rightarrow> bool" where
  "stream_at mac seed l i = (\<lambda>(A, P, pos).
     if i mod l = 0 then pos = l \<and> A = rfc5246_A mac seed (i div l + 1)
     else pos = i mod l \<and> A = rfc5246_A mac seed (i div l + 2) \<and> P = mac (rfc5246_A mac seed (i div l + 1) @ seed))"

definition stream_refill :: "(bytes \<Rightarrow> bytes) \<Rightarrow> bytes \<Rightarrow> nat \<Rightarrow> prf_stream \<Rightarrow> prf_stream" where
  "stream_refill mac seed l = (\<lambda>(A, P, pos). if pos = l then (mac A, mac (A @ seed), 0) else (A, P, pos))"

lemma stream_step:
  assumes m: "\<And>x. length (mac x) = l" and l: "0 < l" and st: "stream_at mac seed l i s" and n: "i < l * n"
    and r: "stream_refill mac seed l s = (A, P, pos)"
  shows "P ! pos = rfc5246_P mac seed n ! i" "stream_at mac seed l (i + 1) (A, P, pos + 1)"
proof -
  obtain A0 P0 pos0 where s: "s = (A0, P0, pos0)" by (cases s)
  have lt: "i mod l < l" using l by simp
  have x: "pos = i mod l" "P = mac (rfc5246_A mac seed (i div l + 1) @ seed)" "A = rfc5246_A mac seed (i div l + 2)"
    using st r lt by (auto simp: s stream_at_def stream_refill_def split: if_splits)
  show "P ! pos = rfc5246_P mac seed n ! i" unfolding x by (rule nth_P [OF m n, symmetric])
  show "stream_at mac seed l (i + 1) (A, P, pos + 1)"
  proof (cases "Suc (i mod l) = l")
    case True
    then show ?thesis by (simp add: stream_at_def x mod_Suc div_Suc)
  next
    case False
    then show ?thesis by (simp add: stream_at_def x mod_Suc div_Suc)
  qed
qed

lemma tls_prf_loop_P:
  assumes m: "\<And>x. length (mac5 x) = l5" "\<And>x. length (mac1 x) = l1" and l: "0 < l5" "0 < l1"
  shows "stream_at mac5 seed l5 i s5 \<Longrightarrow> stream_at mac1 seed l1 i s1 \<Longrightarrow> i + n \<le> l5 * k5 \<Longrightarrow> i + n \<le> l1 * k1 \<Longrightarrow>
    tls_prf_loop (stream_refill mac5 seed l5) (stream_refill mac1 seed l1) n s5 s1 =
      map (\<lambda>j. rfc5246_P mac5 seed k5 ! j XOR rfc5246_P mac1 seed k1 ! j) [i..<i + n]"
proof (induction n arbitrary: i s5 s1)
  case (Suc n)
  obtain A5 P5 pos5 where r5: "stream_refill mac5 seed l5 s5 = (A5, P5, pos5)" by (cases "stream_refill mac5 seed l5 s5")
  obtain A1 P1 pos1 where r1: "stream_refill mac1 seed l1 s1 = (A1, P1, pos1)" by (cases "stream_refill mac1 seed l1 s1")
  have i: "i < l5 * k5" "i < l1 * k1" using Suc.prems by simp_all
  note s5 = stream_step [OF m(1) l(1) Suc.prems(1) i(1) r5] and s1 = stream_step [OF m(2) l(2) Suc.prems(2) i(2) r1]
  have "[i..<i + Suc n] = i # [i + 1..<i + 1 + n]" by (subst upt_conv_Cons) simp_all
  then show ?case using Suc.IH [OF s5(2) s1(2)] Suc.prems(3,4) s5(1) s1(1) by (simp add: r5 r1)
qed simp

lemma hmac_md5_rfc:
  "length ds \<le> 5 \<Longrightarrow> list_all md5_fits ds \<Longrightarrow> md5_fits key \<Longrightarrow> hmac_md5_vector junk key ds = Some (rfc2104 rfc1321 key (concat ds))"
  using md5_mac.hmac_rfc [where ds = ds and key = key and junk = junk] by (simp add: hmac_md5_vector_def)

lemma hmac_sha1_vector_rfc:
  "length ds \<le> 5 \<Longrightarrow> list_all sha1_fits ds \<Longrightarrow> sha1_fits key \<Longrightarrow>
     hmac_sha1_vector junk key ds = Some (rfc2104 fips_sha1 key (concat ds))"
  using sha1_mac.hmac_rfc [where ds = ds and key = key and junk = junk] by (simp add: hmac_sha1_vector_def)

lemma tls_prf_loop_refill:
  assumes "\<And>s. Q s \<Longrightarrow> f s = f' s \<and> (\<forall>A P pos. f' s = (A, P, pos) \<longrightarrow> Q (A, P, pos + 1))"
    and "\<And>s. R s \<Longrightarrow> g s = g' s \<and> (\<forall>A P pos. g' s = (A, P, pos) \<longrightarrow> R (A, P, pos + 1))"
  shows "Q s \<Longrightarrow> R t \<Longrightarrow> tls_prf_loop f g n s t = tls_prf_loop f' g' n s t"
proof (induction n arbitrary: s t)
  case (Suc n)
  obtain A5 P5 pos5 A1 P1 pos1 where e: "f' s = (A5, P5, pos5)" "g' t = (A1, P1, pos1)"
    by (cases "f' s", cases "g' t")
  then have "f s = (A5, P5, pos5)" "g t = (A1, P1, pos1)" "Q (A5, P5, pos5 + 1)" "R (A1, P1, pos1 + 1)"
    using assms Suc.prems by auto
  then show ?case using Suc.IH e by simp
qed simp

lemma tls_prf_sha1_md5_rfc:
  assumes "length secret mod 2 = 0" "sha1_fits secret" "sha1_fits label" "sha1_fits seed"
  defines "half \<equiv> length secret div 2"
  shows "tls_prf_sha1_md5 junk A5 P5 A1 P1 secret label seed outlen =
    Some (xor_bytes
      (take outlen (rfc5246_P (rfc2104 rfc1321 (take half secret)) (label @ seed) ((outlen + 15) div 16)))
      (take outlen (rfc5246_P (rfc2104 fips_sha1 (drop half secret)) (label @ seed) ((outlen + 19) div 20))))"
proof -
  define S1 S2 where "S1 = take half secret" and "S2 = drop half secret"
  define m5 m1 where "m5 = rfc2104 rfc1321 S1" and "m1 = rfc2104 fips_sha1 S2"
  have h: "(length secret + 1) div 2 = half" "length secret = 2 * half" using assms(1) by (auto simp: half_def)
  then have S2: "take half S2 = S2" by (simp add: S2_def)
  have f5: "md5_fits d" if "sha1_fits d" for d using that by (simp add: md5_fits_def sha1_fits_def)
  have fS: "md5_fits S1" "sha1_fits S2" using assms(2) f5 by (simp_all add: S1_def S2_def sha1_fits_def md5_fits_def)
  have len: "length (m5 x) = 16" "length (m1 x) = 20" for x
    by (simp_all add: m5_def m1_def md5_mac.length_rfc2104 sha1_mac.length_rfc2104)
  have A: "hmac_md5_vector junk S1 [label, seed] = Some (m5 (label @ seed))"
      "hmac_sha1_vector junk S2 [label, seed] = Some (m1 (label @ seed))"
    using hmac_md5_rfc [of "[label, seed]" S1 junk] hmac_sha1_vector_rfc [of "[label, seed]" S2 junk] fS f5 assms(3,4)
    by (simp_all add: m5_def m1_def)
  have r5: "length (fst s) = 16 \<Longrightarrow> md5_refill junk S1 label seed s = stream_refill m5 (label @ seed) 16 s" for s
    using hmac_md5_rfc [of "[fst s]" S1 junk] hmac_md5_rfc [of "[fst s, label, seed]" S1 junk] fS f5 assms(3,4)
    by (cases s) (simp add: md5_refill_def stream_refill_def hmac_md5_def m5_def md5_fits_def)
  have r1: "length (fst s) = 20 \<Longrightarrow> sha1_refill junk S2 label seed s = stream_refill m1 (label @ seed) 20 s" for s
    using hmac_sha1_vector_rfc [of "[fst s]" S2 junk] hmac_sha1_vector_rfc [of "[fst s, label, seed]" S2 junk] fS assms(3,4)
    by (cases s) (simp add: sha1_refill_def stream_refill_def hmac_sha1_def m1_def sha1_fits_def)
  define k5 k1 where "k5 = (outlen + 15) div 16" and "k1 = (outlen + 19) div 20"
  have k: "outlen \<le> 16 * k5" "outlen \<le> 20 * k1" by (simp_all add: k5_def k1_def)
  have "tls_prf_loop (md5_refill junk S1 label seed) (sha1_refill junk S2 label seed) outlen
      (m5 (label @ seed), P5, 16) (m1 (label @ seed), P1, 20) =
    tls_prf_loop (stream_refill m5 (label @ seed) 16) (stream_refill m1 (label @ seed) 20) outlen
      (m5 (label @ seed), P5, 16) (m1 (label @ seed), P1, 20)"
    by (rule tls_prf_loop_refill [where Q = "\<lambda>s. length (fst s) = 16" and R = "\<lambda>s. length (fst s) = 20"])
      (auto simp: r5 r1 len stream_refill_def split: if_splits)
  also have "\<dots> = map (\<lambda>j. rfc5246_P m5 (label @ seed) k5 ! j XOR rfc5246_P m1 (label @ seed) k1 ! j) [0..<0 + outlen]"
    by (rule tls_prf_loop_P) (use k in \<open>simp_all add: len stream_at_def\<close>)
  also have "\<dots> = xor_bytes (take outlen (rfc5246_P m5 (label @ seed) k5)) (take outlen (rfc5246_P m1 (label @ seed) k1))"
    by (rule nth_equalityI) (use k in \<open>simp_all add: length_P [OF len(1)] length_P [OF len(2)]\<close>)
  finally show ?thesis
    unfolding tls_prf_sha1_md5_def Let_def h(1) S1_def [symmetric] S2_def [symmetric] S2 using assms(1)
    by (simp add: A m5_def m1_def k5_def k1_def)
qed

text \<open>
  C20: \<open>tls_prf_sha1_md5\<close> and \<open>tls_prf_sha256\<close> compute the pseudo random functions of TLS 1.0 (RFC 2246) and TLS 1.2
  (RFC 5246) with SHA-256 for every length of the output. The loop that mixes the octets of the MD5 and the
  SHA-1 stream, refilling each when it is used up, is the exclusive or of the two streams; the secret
  must have an even length, otherwise the halves would overlap and the function fails.
\<close>

theorem tls_prf_standard:
  assumes "sha1_fits secret" "sha1_fits label" "sha1_fits seed"
  defines "half \<equiv> length secret div 2"
  shows "tls_prf_sha1_md5 junk A5 P5 A1 P1 secret label seed outlen =
      (if length secret mod 2 = 1 then None
       else Some (xor_bytes
         (take outlen (rfc5246_P (rfc2104 rfc1321 (take half secret)) (label @ seed) ((outlen + 15) div 16)))
         (take outlen (rfc5246_P (rfc2104 fips_sha1 (drop half secret)) (label @ seed) ((outlen + 19) div 20))))) \<and>
    tls_prf_sha256 junk A0 P0 secret' label' seed' outlen =
      take outlen (rfc5246_P (rfc2104 fips_sha256 secret') (label' @ seed') ((outlen + 31) div 32))"
  using tls_prf_sha1_md5_rfc [of secret label seed junk A5 P5 A1 P1 outlen] assms
  by (simp add: tls_prf_sha256_rfc half_def not_mod_2_eq_1_eq_0 tls_prf_sha1_md5_def)

theorem tls_prf_standard_witness:
  "tls_prf_sha1_md5 (\<lambda>_. 0) [] [] [] [] [1, 2] [107] [3] 40 =
     Some (xor_bytes (take 40 (rfc5246_P (rfc2104 rfc1321 [1]) [107, 3] 3))
       (take 40 (rfc5246_P (rfc2104 fips_sha1 [2]) [107, 3] 2)))"
  using tls_prf_standard [of "[1, 2]" "[107]" "[3]" "\<lambda>_. 0" "[]" "[]" "[]" "[]" 40 "[]" "[]" "[]" "[]" "[]"]
  by (simp add: sha1_fits_def)

end
