(* ===== verification/Base64.thy ===== *)
theory Base64
  imports Prelude
begin

text \<open>
  Base64 encoding and decoding, \<open>src/utils/base64.c\<close>, with line feeds after 72 characters. \<open>size_t\<close> has 64 bits.
\<close>

section \<open>Encoding\<close>

definition base64_table :: bytes where
  "base64_table = map of_char ''ABCDEFGHIJKLMNOPQRSTUVWXYZabcdefghijklmnopqrstuvwxyz0123456789+/''"

text \<open>The allocated size, in \<open>size_t\<close> arithmetic.\<close>

definition encode_size :: "nat \<Rightarrow> u64" where
  "encode_size len =
    (let olen = word_of_nat len * 4 div 3 + 4; olen = olen + olen div 72 in olen + 1)"

text \<open>The octets behind the last group of three, with the padding and the last line feed.\<close>

definition b64 :: "u8 \<Rightarrow> u8" where
  "b64 i = base64_table ! unat i"

definition encode_rest :: "bytes \<Rightarrow> nat \<Rightarrow> bytes" where
  "encode_rest inp line_len =
    (let (out, line_len) =
       (case inp of
          [] \<Rightarrow> ([], line_len)
        | [a] \<Rightarrow> ([b64 (drop_bit 2 a), b64 (push_bit 4 (a AND 0x03)), 0x3d, 0x3d], line_len + 4)
        | a # b # _ \<Rightarrow> ([b64 (drop_bit 2 a), b64 (push_bit 4 (a AND 0x03) OR drop_bit 4 b),
            b64 (push_bit 2 (b AND 0x0f)), 0x3d], line_len + 4)) in
     out @ (if line_len \<noteq> 0 then [10] else []))"

fun encode_loop :: "bytes \<Rightarrow> nat \<Rightarrow> bytes" where
  "encode_loop (a # b # c # inp) line_len =
    [b64 (drop_bit 2 a), b64 (push_bit 4 (a AND 0x03) OR drop_bit 4 b),
     b64 (push_bit 2 (b AND 0x0f) OR drop_bit 6 c), b64 (c AND 0x3f)] @
    (if line_len + 4 \<ge> 72 then 10 # encode_loop inp 0 else encode_loop inp (line_len + 4))"
| "encode_loop inp line_len = encode_rest inp line_len"

text \<open>\<open>mem\<close> is the outcome of the allocation; the result does not show the NUL behind it.\<close>

definition base64_encode :: "bool \<Rightarrow> bytes \<Rightarrow> bytes option" where
  "base64_encode mem src =
    (if encode_size (length src) < word_of_nat (length src) then None
     else if \<not> mem then None
     else Some (encode_loop src 0))"

section \<open>Decoding\<close>

definition dtable :: bytes where
  "dtable = (fold (\<lambda>i t. t[unat (base64_table ! i) := word_of_nat i]) [0..<64] (replicate 256 0x80))[0x3d := 0]"

text \<open>\<open>block\<close> holds the values of the characters of the current group; \<open>None\<close> is invalid padding.\<close>

definition decode_block :: "bytes \<Rightarrow> bytes" where
  "decode_block block =
    [push_bit 2 (block ! 0) OR drop_bit 4 (block ! 1), push_bit 4 (block ! 1) OR drop_bit 2 (block ! 2),
     push_bit 6 (block ! 2) OR block ! 3]"

fun decode_loop :: "bytes \<Rightarrow> bytes \<Rightarrow> nat \<Rightarrow> bytes \<Rightarrow> bytes option" where
  "decode_loop [] block pad out = Some out"
| "decode_loop (c # src) block pad out =
    (let tmp = dtable ! unat c in
     if tmp = 0x80 then decode_loop src block pad out
     else
       (let pad = (if c = 0x3d then pad + 1 else pad); block = block @ [tmp] in
        if length block = 4 then
          (let out = out @ decode_block block in
           if pad \<noteq> 0 then
             (if pad = 1 then Some (take (length out - 1) out)
              else if pad = 2 then Some (take (length out - 2) out)
              else None)
           else decode_loop src [] pad out)
        else decode_loop src block pad out))"

definition base64_decode :: "bool \<Rightarrow> bytes \<Rightarrow> bytes option" where
  "base64_decode mem src =
    (let cnt = length (filter (\<lambda>c. dtable ! unat c \<noteq> 0x80) src) in
     if cnt = 0 \<or> cnt mod 4 \<noteq> 0 then None
     else if \<not> mem then None
     else decode_loop src [] 0 [])"

section \<open>The table and its inverse\<close>

lemma base64_table_eq: "base64_table = [
    65, 66, 67, 68, 69, 70, 71, 72, 73, 74, 75, 76, 77, 78, 79, 80, 81, 82, 83, 84, 85, 86, 87, 88, 89, 90,
    97, 98, 99, 100, 101, 102, 103, 104, 105, 106, 107, 108, 109, 110, 111, 112, 113, 114, 115, 116, 117, 118,
    119, 120, 121, 122, 48, 49, 50, 51, 52, 53, 54, 55, 56, 57, 43, 47]"
  by code_simp

lemma dtable_eq: "dtable = [
    128, 128, 128, 128, 128, 128, 128, 128, 128, 128, 128, 128, 128, 128, 128, 128, 128, 128, 128, 128, 128,
    128, 128, 128, 128, 128, 128, 128, 128, 128, 128, 128, 128, 128, 128, 128, 128, 128, 128, 128, 128, 128,
    128, 62, 128, 128, 128, 63, 52, 53, 54, 55, 56, 57, 58, 59, 60, 61, 128, 128, 128, 0, 128, 128, 128, 0, 1,
    2, 3, 4, 5, 6, 7, 8, 9, 10, 11, 12, 13, 14, 15, 16, 17, 18, 19, 20, 21, 22, 23, 24, 25, 128, 128, 128,
    128, 128, 128, 26, 27, 28, 29, 30, 31, 32, 33, 34, 35, 36, 37, 38, 39, 40, 41, 42, 43, 44, 45, 46, 47, 48,
    49, 50, 51, 128, 128, 128, 128, 128, 128, 128, 128, 128, 128, 128, 128, 128, 128, 128, 128, 128, 128, 128,
    128, 128, 128, 128, 128, 128, 128, 128, 128, 128, 128, 128, 128, 128, 128, 128, 128, 128, 128, 128, 128,
    128, 128, 128, 128, 128, 128, 128, 128, 128, 128, 128, 128, 128, 128, 128, 128, 128, 128, 128, 128, 128,
    128, 128, 128, 128, 128, 128, 128, 128, 128, 128, 128, 128, 128, 128, 128, 128, 128, 128, 128, 128, 128,
    128, 128, 128, 128, 128, 128, 128, 128, 128, 128, 128, 128, 128, 128, 128, 128, 128, 128, 128, 128, 128,
    128, 128, 128, 128, 128, 128, 128, 128, 128, 128, 128, 128, 128, 128, 128, 128, 128, 128, 128, 128, 128,
    128, 128, 128, 128, 128, 128, 128, 128, 128]"
  unfolding dtable_def base64_table_eq by code_simp

lemma tables: "list_all (\<lambda>i. dtable ! unat (base64_table ! i) = word_of_nat i \<and> base64_table ! i \<noteq> 0x3d) [0..<64]"
  unfolding dtable_eq base64_table_eq by code_simp

lemma b64_lookup:
  assumes "i < 64" shows "dtable ! unat (b64 i) = i" "b64 i \<noteq> 0x3d"
proof -
  have "unat i < 64" using assms by (simp add: word_less_nat_alt)
  then have "dtable ! unat (base64_table ! unat i) = word_of_nat (unat i) \<and> base64_table ! unat i \<noteq> 0x3d"
    using tables unfolding list_all_iff by (metis atLeast0LessThan atLeastLessThan_upt lessThan_iff)
  then show "dtable ! unat (b64 i) = i" "b64 i \<noteq> 0x3d" by (simp_all add: b64_def)
qed

lemma dtable_special: "dtable ! 10 = 0x80" "dtable ! 61 = 0"
  unfolding dtable_eq by simp_all

text \<open>The values of the four characters of a group.\<close>

lemma less_64: "take_bit 6 x = x \<Longrightarrow> x < (64 :: u8)"
proof -
  assume "take_bit 6 x = x"
  moreover have "unat (take_bit 6 x) = unat x mod 2 ^ 6" by (simp add: take_bit_eq_mod unat_mod)
  ultimately have "unat x = unat x mod 64" by simp
  then have "unat x < 64" by (metis mod_less_divisor zero_less_numeral)
  then show ?thesis by (simp add: word_less_nat_alt)
qed

lemma octet_masks: "(0x03 :: u8) = mask 2" "(0x0f :: u8) = mask 4" "(0x3f :: u8) = mask 6"
  by (simp_all add: mask_eq_exp_minus_1)

lemma sextets:
  "drop_bit 2 (a :: u8) < 64" "push_bit 4 (a AND 0x03) OR drop_bit 4 b < (64 :: u8)"
  "push_bit 2 (b AND 0x0f) OR drop_bit 6 c < (64 :: u8)" "c AND 0x3f < (64 :: u8)"
  "push_bit 4 (a AND 0x03) < (64 :: u8)" "push_bit 2 (b AND 0x0f) < (64 :: u8)"
  unfolding octet_masks by (rule less_64, rule bit_word_eqI; auto simp: bit_simps dest: bit_imp_le_length)+

lemma groups:
  fixes a b c :: u8
  shows "push_bit 2 (drop_bit 2 a) OR drop_bit 4 (push_bit 4 (a AND 0x03) OR drop_bit 4 b) = a"
    "push_bit 4 (push_bit 4 (a AND 0x03) OR drop_bit 4 b) OR drop_bit 2 (push_bit 2 (b AND 0x0f) OR drop_bit 6 c) = b"
    "push_bit 6 (push_bit 2 (b AND 0x0f) OR drop_bit 6 c) OR (c AND 0x3f) = c"
    "push_bit 2 (drop_bit 2 a) OR drop_bit 4 (push_bit 4 (a AND 0x03)) = a"
    "push_bit 4 (push_bit 4 (a AND 0x03) OR drop_bit 4 b) OR drop_bit 2 (push_bit 2 (b AND 0x0f)) = b"
proof -
  have s: "Suc (Suc (n - 2)) = (if 2 \<le> n then n else 2)" "4 + (n - 4) = (if 4 \<le> n then n else 4)"
    "6 + (n - 6) = (if 6 \<le> n then n else 6)" for n :: nat by presburger+
  show "push_bit 2 (drop_bit 2 a) OR drop_bit 4 (push_bit 4 (a AND 0x03) OR drop_bit 4 b) = a"
    "push_bit 4 (push_bit 4 (a AND 0x03) OR drop_bit 4 b) OR drop_bit 2 (push_bit 2 (b AND 0x0f) OR drop_bit 6 c) = b"
    "push_bit 6 (push_bit 2 (b AND 0x0f) OR drop_bit 6 c) OR (c AND 0x3f) = c"
    "push_bit 2 (drop_bit 2 a) OR drop_bit 4 (push_bit 4 (a AND 0x03)) = a"
    "push_bit 4 (push_bit 4 (a AND 0x03) OR drop_bit 4 b) OR drop_bit 2 (push_bit 2 (b AND 0x0f)) = b"
    unfolding octet_masks by (rule bit_word_eqI; auto simp: bit_simps s split: if_splits dest: bit_imp_le_length)+
qed

section \<open>Round trip\<close>

lemma decode_char: "i < 64 \<Longrightarrow> decode_loop (b64 i # src) block pad out =
    (if length block = 3 then
       (let out = out @ decode_block (block @ [i]) in
        if pad \<noteq> 0 then
          (if pad = 1 then Some (take (length out - 1) out) else if pad = 2 then Some (take (length out - 2) out) else None)
        else decode_loop src [] pad out)
     else decode_loop src (block @ [i]) pad out)"
  using b64_lookup [of i] by (auto simp: Let_def)

lemma decode_group:
  assumes "i < 64" "j < 64" "k < 64" "l < 64"
  shows "decode_loop (b64 i # b64 j # b64 k # b64 l # src) [] 0 out = decode_loop src [] 0 (out @ decode_block [i, j, k, l])"
  using assms by (simp add: decode_char Let_def del: decode_loop.simps push_bit_and push_bit_or drop_bit_and drop_bit_or)

lemma decode_newline: "decode_loop (10 # src) block pad out = decode_loop src block pad out"
  by (simp add: dtable_special)

lemma decode_pad: "decode_loop (0x3d # src) block pad out =
    (if length block = 3 then
       (let out = out @ decode_block (block @ [0]) in
        if pad = 0 then Some (take (length out - 1) out) else if pad = 1 then Some (take (length out - 2) out) else None)
     else decode_loop src (block @ [0]) (pad + 1) out)"
  by (simp add: dtable_special Let_def)

lemma decode_encode_loop: "decode_loop (encode_loop src n) [] 0 out = Some (out @ src)"
proof (induction src n arbitrary: out rule: encode_loop.induct [case_names group none one two])
  case (group a b c inp n)
  have "decode_block [drop_bit 2 a, push_bit 4 (a AND 0x03) OR drop_bit 4 b, push_bit 2 (b AND 0x0f) OR drop_bit 6 c, c AND 0x3f] = [a, b, c]"
    by (simp add: decode_block_def groups del: push_bit_and push_bit_or drop_bit_and drop_bit_or)
  then show ?case using group
    by (simp add: decode_group sextets decode_newline del: decode_loop.simps push_bit_and push_bit_or drop_bit_and drop_bit_or)
next
  case (none n)
  show ?case by (simp add: encode_rest_def dtable_special)
next
  case (one a n)
  have "decode_loop (encode_rest [a] n) [] 0 out = decode_loop ([b64 (drop_bit 2 a), b64 (push_bit 4 (a AND 0x03)), 0x3d, 0x3d] @ [10]) [] 0 out"
    by (simp add: encode_rest_def)
  also have "\<dots> = Some (out @ [a])"
    by (simp add: decode_char decode_pad sextets Let_def decode_block_def groups del: decode_loop.simps push_bit_and push_bit_or drop_bit_and drop_bit_or)
  finally show ?case by simp
next
  case (two a b n)
  have "decode_loop (encode_rest [a, b] n) [] 0 out =
      decode_loop ([b64 (drop_bit 2 a), b64 (push_bit 4 (a AND 0x03) OR drop_bit 4 b), b64 (push_bit 2 (b AND 0x0f)), 0x3d] @ [10]) [] 0 out"
    by (simp add: encode_rest_def)
  also have "\<dots> = Some (out @ [a, b])"
    by (simp add: decode_char decode_pad sextets Let_def decode_block_def groups del: decode_loop.simps push_bit_and push_bit_or drop_bit_and drop_bit_or)
  finally show ?case by simp
qed

text \<open>The characters that are not line feeds come in groups of four.\<close>

abbreviation b64_char :: "u8 \<Rightarrow> bool" where
  "b64_char c \<equiv> dtable ! unat c \<noteq> 0x80"

lemma b64_char_b64: "i < 64 \<Longrightarrow> b64_char (b64 i)"
  using b64_lookup(1) [of i] by auto

lemma groups_Suc: "(length (a # b # c # inp) + 2) div 3 = (length inp + 2) div 3 + 1"
  by simp

lemma count_encode: "length (filter b64_char (encode_loop src n)) = 4 * ((length src + 2) div 3)"
proof (induction src n rule: encode_loop.induct)
  case (1 a b c inp n)
  then show ?case unfolding groups_Suc
    by (simp add: b64_char_b64 sextets dtable_special del: push_bit_and push_bit_or drop_bit_and drop_bit_or)
qed (simp_all add: encode_rest_def b64_char_b64 sextets dtable_special del: push_bit_and push_bit_or drop_bit_and drop_bit_or)

text \<open>The length with the line feeds: \<open>n\<close> characters of the current line are written.\<close>

lemma length_encode:
  "n mod 4 = 0 \<Longrightarrow> n < 72 \<Longrightarrow>
     length (encode_loop src n) = 4 * ((length src + 2) div 3) + (n + 4 * ((length src + 2) div 3) + 71) div 72"
proof (induction src n rule: encode_loop.induct)
  case (1 a b c inp n)
  define k where "k = (length inp + 2) div 3"
  have k: "(length (a # b # c # inp) + 2) div 3 = k + 1" "Suc (Suc (length inp)) div 3 = k" by (simp_all add: k_def)
  show ?case
  proof (cases "n + 4 \<ge> 72")
    case True
    then have "n = 68" using 1(3,4) by presburger
    then show ?thesis unfolding k(1) using 1(1) by (simp add: k(2))
  next
    case False
    then show ?thesis unfolding k(1) using 1(2) [OF False] 1(3) by (simp add: algebra_simps k(2))
  qed
qed (auto simp: encode_rest_def div_if)

lemma encode_size_nat:
  assumes "len < 2 ^ 64" "\<not> encode_size len < word_of_nat len"
  shows "len < 2 ^ 62 \<and> unat (encode_size len) = (4 * len div 3 + 4) + (4 * len div 3 + 4) div 72 + 1"
proof -
  define q where "q = (4 * len mod 2 ^ 64) div 3"
  have q: "q < 2 ^ 63" unfolding q_def by (rule div_less_iff_less_mult [THEN iffD2]) simp_all
  have "unat (word_of_nat len * 4 div 3 + 4 :: u64) = q + 4"
  proof -
    have "unat (word_of_nat len * 4 :: u64) = 4 * len mod 2 ^ 64"
      by (simp add: unat_word_ariths unat_of_nat mod_mult_right_eq mult.commute)
    then have "unat (word_of_nat len * 4 div 3 :: u64) = q" by (simp add: unat_div q_def)
    then show ?thesis using q by (simp add: unat_word_ariths)
  qed
  moreover have "(q + 4) div 72 \<le> q + 4" by simp
  ultimately have s: "unat (encode_size len) = (q + 4) + (q + 4) div 72 + 1"
    using q by (simp add: encode_size_def Let_def unat_word_ariths unat_div)
  have ge: "len \<le> (q + 4) + (q + 4) div 72 + 1"
    using assms by (simp add: word_less_nat_alt s unat_of_nat)
  have "len < 2 ^ 62"
  proof (rule ccontr)
    assume a: "\<not> len < 2 ^ 62"
    define r where "r = 4 * len mod 2 ^ 64"
    define d where "d = 4 * len div 2 ^ 64"
    have "4 * len = 2 ^ 64 * d + r" unfolding r_def d_def by (rule mult_div_mod_eq [symmetric])
    then have "4 * len = 18446744073709551616 * d + r" by simp
    moreover have "1 \<le> d" using a by (simp add: d_def div_greater_zero_iff Suc_le_eq)
    moreover have "3 * q \<le> r" "r < 18446744073709551616" by (simp_all add: q_def r_def)
    moreover have "72 * ((q + 4) div 72) \<le> q + 4" by simp
    ultimately show False using ge by linarith
  qed
  then show ?thesis using s by (simp add: q_def)
qed

lemma decode_count:
  assumes "src \<noteq> []"
  shows "length (filter b64_char (encode_loop src 0)) \<noteq> 0" "length (filter b64_char (encode_loop src 0)) mod 4 = 0"
  using assms by (cases src; simp add: count_encode)+

text \<open>
  C21: \<open>base64_decode\<close> inverts \<open>base64_encode\<close> on every octet string that is not empty; of the empty string the
  encoding is empty too and is refused. The padding and the line feeds are part of the encoding.
\<close>

theorem base64_roundtrip:
  assumes "base64_encode mem src = Some out"
  shows "base64_decode True out = (if src = [] then None else Some src)"
proof -
  have out: "out = encode_loop src 0" using assms by (simp add: base64_encode_def split: if_splits)
  show ?thesis
    using decode_count [of src] decode_encode_loop [of src 0 "[]"]
    by (cases "src = []") (simp_all add: base64_decode_def out Let_def encode_rest_def)
qed

theorem base64_roundtrip_witness:
  "base64_encode True [0, 255] = Some [65, 80, 56, 61, 10] \<and> base64_decode True [65, 80, 56, 61, 10] = Some [0, 255]"
proof -
  have "base64_encode True [0, 255] = Some [65, 80, 56, 61, 10]" by code_simp
  then show ?thesis using base64_roundtrip [of True "[0, 255]"] by simp
qed

text \<open>
  C22: The buffer that \<open>base64_encode\<close> allocates has room for the encoding, its line feeds and the NUL behind it, for
  every length of a \<open>size_t\<close>: whenever the size has wrapped around, the encoding is refused.
\<close>

theorem base64_encode_fits:
  assumes "length src < 2 ^ 64" "base64_encode mem src = Some out"
  shows "length out + 1 \<le> unat (encode_size (length src))"
proof -
  have n: "\<not> encode_size (length src) < word_of_nat (length src)" and out: "out = encode_loop src 0"
    using assms(2) by (simp_all add: base64_encode_def split: if_splits)
  define g where "g = (length src + 2) div 3"
  define k where "k = 4 * length src div 3"
  have "4 * g \<le> k + 3" unfolding g_def k_def by presburger
  moreover have "length out = 4 * g + (4 * g + 71) div 72" using length_encode [of 0 src] by (simp add: out g_def)
  moreover have "unat (encode_size (length src)) = (k + 4) + (k + 4) div 72 + 1"
    using encode_size_nat [OF assms(1) n] by (simp add: k_def)
  moreover have "(4 * g + 71) div 72 \<le> (k + 4) div 72 + 1"
  proof -
    have "4 * g + 71 \<le> (k + 4) + 72" using \<open>4 * g \<le> k + 3\<close> by simp
    then have "(4 * g + 71) div 72 \<le> ((k + 4) + 72) div 72" by (rule div_le_mono)
    then show ?thesis by simp
  qed
  ultimately show ?thesis by linarith
qed

theorem base64_encode_fits_witness:
  "length [65, 80, 56, 61, 10 :: u8] + 1 \<le> unat (encode_size (length [0, 255 :: u8]))"
proof -
  have "base64_encode True [0, 255] = Some [65, 80, 56, 61, 10]" by code_simp
  then show ?thesis by (intro base64_encode_fits) simp_all
qed

end
