(* ===== verification/Handshake.thy ===== *)
theory Handshake
  imports TlsPrf WpaSmSafety WpaAuthSafety
begin

text \<open>
  Both sides of the 4-way handshake together. The pseudo random functions of \<open>src/crypto/sha1-prf.c\<close> and
  \<open>src/crypto/sha256-prf.c\<close> are those of IEEE Std 802.11, so the pairwise transient key that
  the station (\<open>WpaSm\<close>) and the access point (\<open>WpaAuth\<close>) derive is the one of the standard, and message 2 of
  the station is accepted by the access point.
\<close>

section \<open>The pseudo random functions of IEEE Std 802.11\<close>

text \<open>\<open>PRF\<close> of \<open>n\<close> octets and the key derivation function with SHA-256; \<open>mac\<close> is HMAC with the key.\<close>

definition ieee_prf :: "(bytes \<Rightarrow> bytes) \<Rightarrow> bytes \<Rightarrow> bytes \<Rightarrow> nat \<Rightarrow> bytes" where
  "ieee_prf mac A B n =
     take n (concat (map (\<lambda>i. mac (A @ [0] @ B @ [word_of_nat i])) [0..<0 + (n + 19) div 20]))"

definition ieee_kdf :: "(bytes \<Rightarrow> bytes) \<Rightarrow> bytes \<Rightarrow> bytes \<Rightarrow> nat \<Rightarrow> bytes" where
  "ieee_kdf mac label context n =
     take n (concat (map (\<lambda>i. mac (WPA_PUT_LE16 (word_of_nat i) @ label @ context @ WPA_PUT_LE16 (word_of_nat (8 * n))))
       [1..<1 + (n + 31) div 32]))"

definition lex_min :: "bytes \<Rightarrow> bytes \<Rightarrow> bytes" where
  "lex_min x y = (if memcmp_less y x then y else x)"

definition lex_max :: "bytes \<Rightarrow> bytes \<Rightarrow> bytes" where
  "lex_max x y = (if memcmp_less y x then x else y)"

lemma memcmp_antisym: "length x = length y \<Longrightarrow> memcmp_less x y \<Longrightarrow> \<not> memcmp_less y x"
  by (induction x y rule: memcmp_less.induct) (auto split: if_splits)

lemma memcmp_total: "length x = length y \<Longrightarrow> \<not> memcmp_less x y \<Longrightarrow> \<not> memcmp_less y x \<Longrightarrow> x = y"
  by (induction x y rule: memcmp_less.induct) (auto split: if_splits simp: not_less)

lemma ordered_pair:
  "length x = length y \<Longrightarrow> (if memcmp_less x y then x @ y else y @ x) = lex_min x y @ lex_max x y"
  using memcmp_antisym [of x y] memcmp_total [of x y] by (auto simp: lex_min_def lex_max_def)

lemma lex_commute: "length x = length y \<Longrightarrow> lex_min x y = lex_min y x \<and> lex_max x y = lex_max y x"
  using memcmp_antisym [of x y] memcmp_total [of x y] by (auto simp: lex_min_def lex_max_def)

text \<open>One step of both loops: a whole block and the blocks behind it.\<close>

lemma put_block:
  assumes "length b = l" "pos + l \<le> buf_len" "buf_len \<le> length buf"
  shows "take (pos + l) (buf_put buf pos b) @ rest @ drop buf_len (buf_put buf pos b) = take pos buf @ b @ rest @ drop buf_len buf"
  using assms by (simp add: buf_put_def)

lemma sha1_prf_loop_blocks:
  assumes len: "\<And>x. length (mac x) = 20"
  shows "buf_len \<le> length buf \<Longrightarrow> pos \<le> buf_len \<Longrightarrow>
    sha1_prf_loop mac label dat (word_of_nat i) pos buf_len buf = take pos buf @
      take (buf_len - pos) (concat (map (\<lambda>i. mac (label @ [0] @ dat @ [word_of_nat i]))
        [i..<i + (buf_len - pos + 19) div 20])) @ drop buf_len buf"
proof (induction "buf_len - pos" arbitrary: i pos buf rule: less_induct)
  case less
  define B where "B = (\<lambda>i. mac (label @ [0] @ dat @ [word_of_nat i]))"
  have lB: "length (B i) = 20" for i by (simp add: B_def len)
  have lt: "20 \<le> buf_len - pos \<Longrightarrow> pos < buf_len" by simp
  consider (fin) "pos = buf_len" | (last) "pos < buf_len" "buf_len - pos < 20" | (full) "20 \<le> buf_len - pos"
    using less.prems by linarith
  then show ?case
  proof cases
    case fin
    then show ?thesis by (subst sha1_prf_loop.simps) simp
  next
    case last
    have "(buf_len - pos + 19) div 20 = 1" using last by (simp add: div_nat_eqI)
    then show ?thesis using last less.prems
      by (subst sha1_prf_loop.simps) (simp add: buf_put_def len)
  next
    case full
    define k where "k = (buf_len - (pos + 20) + 19) div 20"
    have k: "(buf_len - pos + 19) div 20 = Suc k"
    proof -
      have "buf_len - pos + 19 = (buf_len - (pos + 20) + 19) + 20" using full by simp
      then show ?thesis unfolding k_def by (metis div_add_self2 Suc_eq_plus1 zero_neq_numeral)
    qed
    have u: "[i..<i + Suc k] = i # [Suc i..<Suc i + k]" by (simp add: upt_conv_Cons del: upt_Suc)
    have "sha1_prf_loop mac label dat (word_of_nat i) pos buf_len buf =
        sha1_prf_loop mac label dat (word_of_nat (Suc i)) (pos + 20) buf_len (buf_put buf pos (B i))"
      using full lt by (subst sha1_prf_loop.simps) (simp add: len B_def Let_def add.commute)
    also have "\<dots> = take (pos + 20) (buf_put buf pos (B i)) @
        take (buf_len - (pos + 20)) (concat (map B [Suc i..<Suc i + k])) @ drop buf_len (buf_put buf pos (B i))"
      using less.hyps [of "pos + 20" "buf_put buf pos (B i)" "Suc i"] less.prems full lB unfolding B_def [symmetric] by (simp add: k_def del: upt_Suc)
    also have "\<dots> = take pos buf @ B i @ take (buf_len - (pos + 20)) (concat (map B [Suc i..<Suc i + k])) @ drop buf_len buf"
      by (rule put_block) (use less.prems full lB in auto)
    finally show ?thesis using lB full unfolding B_def [symmetric] k u by (simp del: upt_Suc)
  qed
qed

lemma sha1_prf_ieee:
  assumes "\<And>x. length (mac key x) = 20" "n \<le> length buf"
  shows "sha1_prf mac key label dat buf n = ieee_prf (mac key) label dat n @ drop n buf"
  using sha1_prf_loop_blocks [of "mac key" n buf 0 label dat 0] assms by (simp add: sha1_prf_def ieee_prf_def)

lemma sha256_prf_loop_blocks:
  assumes len: "\<And>x. length (mac x) = 32"
  shows "buf_len \<le> length buf \<Longrightarrow> pos \<le> buf_len \<Longrightarrow>
    sha256_prf_loop mac label dat l (word_of_nat i) pos buf_len buf = (take pos buf @
      take (buf_len - pos) (concat (map (\<lambda>i. mac (WPA_PUT_LE16 (word_of_nat i) @ label @ dat @ l))
        [i..<i + (buf_len - pos + 31) div 32])) @ drop buf_len buf, buf_len)"
proof (induction "buf_len - pos" arbitrary: i pos buf rule: less_induct)
  case less
  define B where "B = (\<lambda>i. mac (WPA_PUT_LE16 (word_of_nat i) @ label @ dat @ l))"
  have lB: "length (B i) = 32" for i by (simp add: B_def len)
  have lt: "32 \<le> buf_len - pos \<Longrightarrow> pos < buf_len" by simp
  consider (fin) "pos = buf_len" | (last) "pos < buf_len" "buf_len - pos < 32" | (full) "32 \<le> buf_len - pos"
    using less.prems by linarith
  then show ?case
  proof cases
    case fin
    then show ?thesis by (subst sha256_prf_loop.simps) simp
  next
    case last
    have "(buf_len - pos + 31) div 32 = 1" using last by (simp add: div_nat_eqI)
    then show ?thesis using last less.prems
      by (subst sha256_prf_loop.simps) (simp add: buf_put_def len)
  next
    case full
    define k where "k = (buf_len - (pos + 32) + 31) div 32"
    have k: "(buf_len - pos + 31) div 32 = Suc k"
    proof -
      have "buf_len - pos + 31 = (buf_len - (pos + 32) + 31) + 32" using full by simp
      then show ?thesis unfolding k_def by (metis div_add_self2 Suc_eq_plus1 zero_neq_numeral)
    qed
    have u: "[i..<i + Suc k] = i # [Suc i..<Suc i + k]" by (simp add: upt_conv_Cons del: upt_Suc)
    have "sha256_prf_loop mac label dat l (word_of_nat i) pos buf_len buf =
        sha256_prf_loop mac label dat l (word_of_nat (Suc i)) (pos + 32) buf_len (buf_put buf pos (B i))"
      using full lt by (subst sha256_prf_loop.simps) (simp add: len B_def Let_def add.commute)
    also have "\<dots> = (take (pos + 32) (buf_put buf pos (B i)) @
        take (buf_len - (pos + 32)) (concat (map B [Suc i..<Suc i + k])) @ drop buf_len (buf_put buf pos (B i)), buf_len)"
      using less.hyps [of "pos + 32" "buf_put buf pos (B i)" "Suc i"] less.prems full lB unfolding B_def [symmetric] by (simp add: k_def del: upt_Suc)
    also have "\<dots> = (take pos buf @ B i @ take (buf_len - (pos + 32)) (concat (map B [Suc i..<Suc i + k])) @ drop buf_len buf, buf_len)"
      by (intro arg_cong2 [where f = "\<lambda>x y. (x, y)"] refl put_block) (use less.prems full lB in auto)
    finally show ?thesis using lB full unfolding B_def [symmetric] k u by (simp del: upt_Suc)
  qed
qed

lemma sha256_prf_ieee:
  assumes "\<And>x. length (mac key x) = 32" "n \<le> length buf"
  shows "sha256_prf mac key label dat buf n = ieee_kdf (mac key) label dat n @ drop n buf"
  using sha256_prf_loop_blocks [of "mac key" n buf 0 label dat "WPA_PUT_LE16 (word_of_nat (n * 8))" 1] assms
  by (simp add: sha256_prf_def sha256_prf_bits_def ieee_kdf_def mult.commute)

section \<open>The pairwise transient key of both sides\<close>

lemma wpa_pmk_to_ptk_ieee:
  assumes "\<And>x. length (pmksa_env.hmac_sha1 env k x) = 20" "\<And>x. length (pmksa_env.hmac_sha256 env k x) = 32"
    and "length addr1 = length addr2" "length nonce1 = length nonce2" "n \<le> length buf"
  shows "wpa_pmk_to_ptk env k label addr1 addr2 nonce1 nonce2 buf n sha256 =
    (let context = lex_min addr1 addr2 @ lex_max addr1 addr2 @ lex_min nonce1 nonce2 @ lex_max nonce1 nonce2 in
     if sha256 then ieee_kdf (pmksa_env.hmac_sha256 env k) label context n
     else ieee_prf (pmksa_env.hmac_sha1 env k) label context n) @ drop n buf"
  using assms sha1_prf_ieee [of "pmksa_env.hmac_sha1 env" k n buf] sha256_prf_ieee [of "pmksa_env.hmac_sha256 env" k n buf]
  by (simp add: wpa_pmk_to_ptk_def ptk_data_def ordered_pair Let_def)

lemma key_len_le: "wpa_cipher_key_len cipher + 32 \<le> 64"
  by (simp add: wpa_cipher_key_len_def)

lemma ptk_octets_of: "length b = 64 \<Longrightarrow> ptk_octets (ptk_of_octets b) = b"
  using take_add [of 16 48 b] take_add [of 16 32 "drop 16 b"] take_add [of 16 16 "drop 32 b"]
  by (simp add: ptk_octets_def ptk_of_octets_def)

lemma length_ptk_octets: "ptk_sized p \<Longrightarrow> length (ptk_octets p) = 64"
  by (simp add: ptk_sized_def ptk_octets_def)

lemma length_blocks: "(\<And>i. length (f i) = l) \<Longrightarrow> length (concat (map f xs)) = l * length xs"
  by (induction xs) simp_all

lemma length_ieee_prf: "(\<And>x. length (mac x) = 20) \<Longrightarrow> length (ieee_prf mac A B n) = n"
  by (simp add: ieee_prf_def length_blocks [where l = 20])

lemma length_ieee_kdf: "(\<And>x. length (mac x) = 32) \<Longrightarrow> length (ieee_kdf mac A B n) = n"
  by (simp add: ieee_kdf_def length_blocks [where l = 32] del: upt_Suc)

text \<open>Both sides know the same PMK, addresses and nonces and have negotiated the same suite and key management.\<close>

definition peers :: "'p wpa_env \<Rightarrow> 'p wpa_sm \<Rightarrow> wpa_eapol_key \<Rightarrow> auth_env \<Rightarrow> authenticator \<Rightarrow> bytes \<Rightarrow> bool" where
  "peers env w key aenv a k \<longleftrightarrow>
     pmksa_env.hmac_sha1 (pm_env env) = pmksa_env.hmac_sha1 (auth_pm aenv) \<and>
     pmksa_env.hmac_sha256 (pm_env env) = pmksa_env.hmac_sha256 (auth_pm aenv) \<and>
     take (sm_pmk_len (cache w)) (sm_pmk (cache w)) = take 32 k \<and>
     own_addr (cache w) = sta_addr (sta a) \<and> bssid w = auth_addr a \<and>
     snonce w = SNonce (sta a) \<and> k_nonce key = ANonce (sta a) \<and>
     WpaSm.pairwise_cipher w = sta_pairwise (sta a) \<and>
     wpa_key_mgmt_sha256 (WpaSm.key_mgmt w) = wpa_key_mgmt_sha256 (sta_key_mgmt (sta a)) \<and>
     length (sta_addr (sta a)) = 6 \<and> length (auth_addr a) = 6 \<and> length (SNonce (sta a)) = 32 \<and> length (ANonce (sta a)) = 32"

text \<open>The outputs of the hash functions have their lengths.\<close>

definition macs_sized :: "auth_env \<Rightarrow> bool" where
  "macs_sized aenv \<longleftrightarrow> (\<forall>k x. length (auth_md5 aenv k x) = 16 \<and> length (pmksa_env.hmac_sha1 (auth_pm aenv) k x) = 20 \<and>
     length (pmksa_env.hmac_sha256 (auth_pm aenv) k x) = 32)"

definition ieee_ptk :: "auth_env \<Rightarrow> bytes \<Rightarrow> bool \<Rightarrow> bytes \<Rightarrow> bytes \<Rightarrow> bytes \<Rightarrow> bytes \<Rightarrow> nat \<Rightarrow> bytes" where
  "ieee_ptk aenv master sha256 addr1 addr2 nonce1 nonce2 n =
    (let context = lex_min addr1 addr2 @ lex_max addr1 addr2 @ lex_min nonce1 nonce2 @ lex_max nonce1 nonce2 in
     if sha256 then ieee_kdf (pmksa_env.hmac_sha256 (auth_pm aenv) master) ptk_label context n
     else ieee_prf (pmksa_env.hmac_sha1 (auth_pm aenv) master) ptk_label context n)"

lemma length_ieee_ptk: "macs_sized aenv \<Longrightarrow> length (ieee_ptk aenv k s a1 a2 n1 n2 n) = n"
  by (simp add: ieee_ptk_def macs_sized_def Let_def length_ieee_prf length_ieee_kdf)

lemma ieee_ptk_commute:
  "length a1 = length a2 \<Longrightarrow> length n1 = length n2 \<Longrightarrow> ieee_ptk aenv k s a1 a2 n1 n2 n = ieee_ptk aenv k s a2 a1 n2 n1 n"
  using lex_commute [of a1 a2] lex_commute [of n1 n2] by (simp add: ieee_ptk_def)

lemma auth_ptk_octets:
  assumes "macs_sized aenv" "ptk_sized p" "length (sta_addr (sta a)) = length (auth_addr a)"
    "length (SNonce (sta a)) = length (ANonce (sta a))"
  defines "n \<equiv> wpa_cipher_key_len (sta_pairwise (sta a)) + 32"
  shows "ptk_octets (auth_derive_ptk aenv a k p) =
    ieee_ptk aenv (take 32 k) (wpa_key_mgmt_sha256 (sta_key_mgmt (sta a))) (auth_addr a) (sta_addr (sta a))
      (ANonce (sta a)) (SNonce (sta a)) n @ drop n (ptk_octets p)"
proof -
  have n: "n \<le> 64" unfolding n_def by (rule key_len_le)
  show ?thesis
    using assms(1,3,4) n length_ptk_octets [OF assms(2)] length_ieee_ptk [OF assms(1)]
      wpa_pmk_to_ptk_ieee [of "auth_pm aenv" "take 32 k" "auth_addr a" "sta_addr (sta a)" "ANonce (sta a)" "SNonce (sta a)" n "ptk_octets p"]
    by (simp add: auth_derive_ptk_def ieee_ptk_def macs_sized_def Let_def ptk_octets_of
        length_ieee_prf length_ieee_kdf flip: n_def)
qed

lemma station_ptk_octets:
  assumes "macs_sized aenv" "ptk_sized p" "peers env w key aenv a k"
  defines "n \<equiv> wpa_cipher_key_len (sta_pairwise (sta a)) + 32"
  shows "ptk_octets (wpa_derive_ptk env key p w) =
    ieee_ptk aenv (take 32 k) (wpa_key_mgmt_sha256 (sta_key_mgmt (sta a))) (auth_addr a) (sta_addr (sta a))
      (ANonce (sta a)) (SNonce (sta a)) n @ drop n (ptk_octets p)"
proof -
  have n: "n \<le> 64" unfolding n_def by (rule key_len_le)
  have "ptk_octets (wpa_derive_ptk env key p w) =
    ieee_ptk aenv (take 32 k) (wpa_key_mgmt_sha256 (sta_key_mgmt (sta a))) (sta_addr (sta a)) (auth_addr a)
      (SNonce (sta a)) (ANonce (sta a)) n @ drop n (ptk_octets p)"
    using assms(1,3) n length_ptk_octets [OF assms(2)]
      wpa_pmk_to_ptk_ieee [of "pm_env env" "take 32 k" "sta_addr (sta a)" "auth_addr a" "SNonce (sta a)" "ANonce (sta a)" n "ptk_octets p"]
    by (simp add: wpa_derive_ptk_def ieee_ptk_def macs_sized_def peers_def Let_def ptk_octets_of
        length_ieee_prf length_ieee_kdf flip: n_def)
  then show ?thesis using assms(3) ieee_ptk_commute [of "sta_addr (sta a)" "auth_addr a" "SNonce (sta a)" "ANonce (sta a)"]
    by (simp add: peers_def)
qed

lemma ptk_octets_agree:
  assumes "macs_sized aenv" "peers env w key aenv a k" "ptk_sized p" "ptk_sized p'"
  defines "n \<equiv> wpa_cipher_key_len (sta_pairwise (sta a)) + 32"
  shows "take n (ptk_octets (wpa_derive_ptk env key p w)) = take n (ptk_octets (auth_derive_ptk aenv a k p')) \<and>
    take n (ptk_octets (auth_derive_ptk aenv a k p')) =
      ieee_ptk aenv (take 32 k) (wpa_key_mgmt_sha256 (sta_key_mgmt (sta a))) (auth_addr a) (sta_addr (sta a))
        (ANonce (sta a)) (SNonce (sta a)) n"
proof -
  have l: "length (sta_addr (sta a)) = length (auth_addr a)" "length (SNonce (sta a)) = length (ANonce (sta a))"
    using assms(2) by (simp_all add: peers_def)
  show ?thesis
    using station_ptk_octets [OF assms(1,3,2), folded n_def] auth_ptk_octets [OF assms(1,4) l, of k, folded n_def]
      length_ieee_ptk [OF assms(1)] by simp
qed

text \<open>The key confirmation key is the start of the key on both sides.\<close>

lemma kck_of: "length (ptk_octets (ptk_of_octets b)) = 64 \<Longrightarrow> kck (ptk_of_octets b) = take 16 (ptk_octets (ptk_of_octets b))"
  by (auto simp: ptk_octets_def ptk_of_octets_def)

lemma kck_agreement:
  assumes "macs_sized aenv" "peers env w key aenv a k" "ptk_sized p" "ptk_sized p'"
  shows "kck (wpa_derive_ptk env key p w) = kck (auth_derive_ptk aenv a k p')"
proof -
  define n where "n = wpa_cipher_key_len (sta_pairwise (sta a)) + 32"
  have n: "16 \<le> n" "n \<le> 64" unfolding n_def by simp (rule key_len_le)
  have l: "length (sta_addr (sta a)) = length (auth_addr a)" "length (SNonce (sta a)) = length (ANonce (sta a))"
    using assms(2) by (simp_all add: peers_def)
  have kck: "length (ptk_octets x) = 64 \<Longrightarrow> x = ptk_of_octets b \<Longrightarrow> kck x = take 16 (ptk_octets x)" for x b
    by (simp add: kck_of)
  note octets = station_ptk_octets [OF assms(1,3,2), folded n_def] auth_ptk_octets [OF assms(1,4) l, of k, folded n_def]
  have lens: "length (ptk_octets (wpa_derive_ptk env key p w)) = 64" "length (ptk_octets (auth_derive_ptk aenv a k p')) = 64"
    unfolding octets using n length_ieee_ptk [OF assms(1)] length_ptk_octets [OF assms(3)] length_ptk_octets [OF assms(4)]
    by simp_all
  have "kck (wpa_derive_ptk env key p w) = take 16 (ptk_octets (wpa_derive_ptk env key p w))"
    by (rule kck [OF lens(1)]) (simp only: wpa_derive_ptk_def Let_def)
  moreover have "kck (auth_derive_ptk aenv a k p') = take 16 (ptk_octets (auth_derive_ptk aenv a k p'))"
    by (rule kck [OF lens(2)]) (simp only: auth_derive_ptk_def Let_def)
  ultimately show ?thesis unfolding octets using n length_ieee_ptk [OF assms(1)] by simp
qed

section \<open>Message 2\<close>

lemma get_put_key:
  assumes "key_sized k"
  shows "get_key (put_key k @ rest) = k"
proof -
  have "WPA_GET_BE16 (ucast (drop_bit 8 v) # ucast (v AND 255) # r) = v" for v r
    using get_put_BE16 [of v r] by (simp add: WPA_PUT_BE16_def)
  then show ?thesis using assms
    by (cases k) (simp add: get_key_def put_key_def key_sized_def WPA_PUT_BE16_def)
qed

lemma length_put_key: "key_sized k \<Longrightarrow> length (put_key k) = 95"
  by (simp add: put_key_def key_sized_def WPA_PUT_BE16_def)

text \<open>A frame whose MIC field holds the MIC of the frame with zeros in it is accepted.\<close>

lemma put_zero_mic:
  assumes "97 \<le> length f" "k_mic (get_key (drop 4 f)) = replicate 16 0"
  shows "put_mic f (replicate 16 0) = f"
proof -
  have "put_mic f (replicate 16 0) = take 81 f @ take 16 (drop 81 f) @ drop 97 f"
    using assms(2) unfolding k_mic_frame put_mic_def buf_put_def by simp
  also have "\<dots> = take 97 f @ drop 97 f" using take_add [of 81 16 f] by simp
  finally show ?thesis by simp
qed

lemma get_key_put_mic:
  assumes "99 \<le> length f" "length m = 16"
  shows "get_key (drop 4 (put_mic f m)) = (get_key (drop 4 f))\<lparr>k_mic := m\<rparr>" "drop 99 (put_mic f m) = drop 99 f"
proof -
  have n: "put_mic f m ! i = f ! i" if "i < 81 \<or> 97 \<le> i" "i < length f" for i
    using assms that by (auto simp: put_mic_def buf_put_def nth_append min_def)
  have t: "take k (drop i (put_mic f m)) = take k (drop i f)" if "i + k \<le> 81" for i k
  proof -
    have "take k (drop i (take 81 (put_mic f m))) = take k (drop i (take 81 f))" using put_mic_simps(2) [of f m] assms by simp
    then show ?thesis using that by (simp add: take_drop)
  qed
  have l: "length (put_mic f m) = length f" using put_mic_simps(1) [of f m] assms by simp
  show "get_key (drop 4 (put_mic f m)) = (get_key (drop 4 f))\<lparr>k_mic := m\<rparr>"
    using put_mic_simps(5) [of f m] assms l unfolding get_key_def
    by (simp add: WPA_GET_BE16_def n t)
  show "drop 99 (put_mic f m) = drop 99 f" using assms by (simp add: put_mic_def buf_put_def)
qed

lemma verify_own_mic:
  assumes f: "99 \<le> length f" "k_mic (get_key (drop 4 f)) = replicate 16 0"
    and m: "auth_key_mic aenv mem (kck p) (k_info (get_key (drop 4 f)) AND 7) f = Some m" "length m = 16"
  shows "wpa_verify_key_mic aenv mem p (put_mic f m)"
  using assms put_mic_simps [of f m] put_zero_mic [of f] get_key_put_mic [of f m]
  by (simp add: wpa_verify_key_mic_def Let_def)

lemma key_mic_some:
  assumes "ver = 1 \<or> ver = 2 \<or> (ver = 0 \<or> ver = 3) \<and> mem"
    and "\<And>k x. length (md5 k x) = 16" "\<And>k x. length (sha1 k x) = 20"
  shows "\<exists>m. length m = 16 \<and> wpa_eapol_key_mic md5 sha1 mem bh key ver buf = Some m \<and>
    wpa_eapol_key_mic md5 sha1 True bh' key ver buf = Some m"
  using assms by (auto simp: wpa_eapol_key_mic_def omac1_aes_128_fail)

lemma bits_ver: "ver = 1 \<or> ver = 2 \<or> (ver = 0 \<or> ver = 3) \<and> mem \<Longrightarrow> (ver OR 0x8 OR 0x100) AND 7 = (ver :: u16)"
  by auto

text \<open>What the station sends is message 2, and its MIC is the one of the key that is passed.\<close>

lemma msg2_verified:
  assumes macs: "macs_sized aenv" and sha1: "pmksa_env.hmac_sha1 (pm_env env) = pmksa_env.hmac_sha1 (auth_pm aenv)"
    and md5: "env_hmac_md5 (supp_env env) = auth_md5 aenv" and kck: "kck q = kck p"
    and key: "key_sized key" "length nonce = 32" and ie: "length ie < 2 ^ 16"
    and ver: "ver = 1 \<or> ver = 2 \<or> (ver = 0 \<or> ver = 3) \<and> alloc env AesMicTx"
    and sent: "wpa_supplicant_send_2_of_4 env dst key ver nonce (Some ie) q w = (True, w')"
  shows "\<exists>d msg. trace w' = trace w @ [EtherSend d msg] \<and> tptk w' = tptk w \<and> wpa_verify_key_mic aenv True p msg \<and>
    rx_class (k_info (get_key (drop 4 msg))) (length ie) = (if ie = [] then PAIRWISE_4 else PAIRWISE_2) \<and>
    unat (k_data_len (get_key (drop 4 msg))) = length ie \<and> drop 99 msg = ie \<and>
    k_nonce (get_key (drop 4 msg)) = nonce \<and> k_replay (get_key (drop 4 msg)) = k_replay key"
proof -
  define reply where "reply = zero_key\<lparr>k_type := key_type w, k_info := ver OR 0x8 OR 0x100,
    k_length := reply_key_length w key, k_replay := k_replay key, k_nonce := nonce, k_data_len := word_of_nat (length ie)\<rparr>"
  have r: "key_sized reply"
    using key by (simp add: reply_def key_sized_def zero_key_def reply_key_length_def)
  define h where "h = [eapol_version env, 3] @ WPA_PUT_BE16 (word_of_nat (length (put_key reply @ ie)))"
  have h: "length h = 4" by (simp add: h_def WPA_PUT_BE16_def)
  have msg: "w' = wpa_eapol_key_send env (kck q) ver dst (h @ put_key reply @ ie) True w"
    using sent unfolding wpa_supplicant_send_2_of_4_def wpa_alloc_eapol_def Let_def h_def reply_def
    by (auto simp del: length_append split: if_splits)
  define f where "f = h @ put_key reply @ ie"
  have f: "99 \<le> length f" "get_key (drop 4 f) = reply" "drop 99 f = ie"
    using h length_put_key [OF r] get_put_key [OF r, of ie] by (simp_all add: f_def)
  obtain m where m: "length m = 16" "key_mic env AesMicTx (kck q) ver f = Some m" "auth_key_mic aenv True (kck p) ver f = Some m"
    using key_mic_some [OF ver, of "auth_md5 aenv" "pmksa_env.hmac_sha1 (auth_pm aenv)" "behind env" "kck q" f "auth_behind aenv"]
      macs sha1 md5 kck
    by (auto simp: macs_sized_def key_mic_def auth_key_mic_def)
  have "\<exists>d. trace w' = trace w @ [EtherSend d (put_mic f m)] \<and> tptk w' = tptk w"
    using m(2) unfolding msg f_def [symmetric] wpa_eapol_key_send_def Let_def w_emit_def
    by (cases "is_zero_ether_addr dst \<and> is_zero_ether_addr (bssid w)"; cases "get_bssid env"; simp)
  moreover have "wpa_verify_key_mic aenv True p (put_mic f m)"
    using f m bits_ver [OF ver] by (intro verify_own_mic) (simp_all add: reply_def zero_key_def)
  moreover have "get_key (drop 4 (put_mic f m)) = reply\<lparr>k_mic := m\<rparr>" "drop 99 (put_mic f m) = ie"
    using get_key_put_mic [of f m] f m(1) by simp_all
  moreover have "unat (word_of_nat (length ie) :: u16) = length ie" using ie by (simp add: unat_of_nat)
  moreover have "rx_class (ver OR 0x8 OR 0x100) (length ie) = (if ie = [] then PAIRWISE_4 else PAIRWISE_2)"
    using ver by (auto simp: rx_class_def)
  ultimately show ?thesis by (fastforce simp: reply_def)
qed

section \<open>Receiving message 2\<close>

lemma process_1_of_4_sends:
  assumes "msg2_key_data env w = Some ie" "alloc env AllocEapol"
  obtains p w' where "p = (if WpaSm.pairwise_cipher w = WPA_CIPHER_TKIP then swap_mic_keys (wpa_derive_ptk env key (tptk w) w)
      else wpa_derive_ptk env key (tptk w) w)"
    "wpa_supplicant_send_2_of_4 env (bssid w) key ver (snonce w) (Some ie) p (w\<lparr>tptk := p, tptk_set := True\<rparr>) = (True, w')"
    "process_1_of_4_reply env key ver w = w'\<lparr>anonce := k_nonce key\<rparr>"
proof -
  define p where "p = (if WpaSm.pairwise_cipher w = WPA_CIPHER_TKIP then swap_mic_keys (wpa_derive_ptk env key (tptk w) w)
      else wpa_derive_ptk env key (tptk w) w)"
  obtain w' where w': "wpa_supplicant_send_2_of_4 env (bssid w) key ver (snonce w) (Some ie) p (w\<lparr>tptk := p, tptk_set := True\<rparr>) = (True, w')"
    using assms(2) by (simp add: wpa_supplicant_send_2_of_4_def wpa_alloc_eapol_def Let_def)
  have "msg2_key_data env (w\<lparr>tptk := p, tptk_set := True\<rparr>) = msg2_key_data env w" by (simp add: msg2_key_data_def)
  then have m: "msg2_key_data env (w\<lparr>tptk := p, tptk_set := True\<rparr>) = Some ie" using assms(1) by simp
  have "process_1_of_4_reply env key ver w = w'\<lparr>anonce := k_nonce key\<rparr>"
    using w' m by (simp add: process_1_of_4_reply_def Let_def flip: p_def)
  with p_def w' that show ?thesis by blast
qed

lemma auth_derive_ptk_cong:
  assumes "auth_addr a' = auth_addr a" "sta_addr (sta a') = sta_addr (sta a)" "ANonce (sta a') = ANonce (sta a)"
    "SNonce (sta a') = SNonce (sta a)" "sta_pairwise (sta a') = sta_pairwise (sta a)" "sta_key_mgmt (sta a') = sta_key_mgmt (sta a)"
  shows "auth_derive_ptk aenv a' k p = auth_derive_ptk aenv a k p"
  using assms by (simp add: auth_derive_ptk_def Let_def)

text \<open>The access point enters \<open>PTKCALCNEGOTIATING\<close> with a frame that is valid under its first key.\<close>

lemma ptkcalc_accepts:
  assumes "wpa_verify_key_mic aenv True (auth_derive_ptk aenv a k (ptk_of_octets (stack aenv (queries a)))) msg"
    and "malloc_ok aenv = (\<lambda>_. True)" "last_rx_eapol_key (sta a) = Some msg"
    and "(if wpa_key_mgmt_wpa_psk (sta_key_mgmt (sta a)) then psks aenv else [PMK (sta a)]) = k # ks"
  defines "a' \<equiv> sm_WPA_PTK_PTKCALCNEGOTIATING_Enter aenv a"
  shows "PTK (sta a') = auth_derive_ptk aenv a k (ptk_of_octets (stack aenv (queries a))) \<and> PTK_valid (sta a') \<and> MICVerified (sta a')"
proof -
  define c where "c = upd (\<lambda>s. s\<lparr>EAPOLKeyReceived := False, update_snonce := False\<rparr>) (ptk_entry WPA_PTK_PTKCALCNEGOTIATING a)"
  define b where "b = snd (ask (stack aenv) c)"
  define p where "p = auth_derive_ptk aenv a k (ptk_of_octets (stack aenv (queries a)))"
  have b: "auth_derive_ptk aenv b k q = auth_derive_ptk aenv a k q" for q
    by (rule auth_derive_ptk_cong) (simp_all add: b_def c_def ask_def upd_def ptk_entry_def)
  have s: "ptk_search aenv msg (k # ks) (ptk_of_octets (stack aenv (queries a))) b = (Some (k, p), snd (ask (malloc_ok aenv) b))"
    using assms(1,2) by (simp add: b ask_def Let_def flip: p_def)
  have o: "ask (stack aenv) c = (stack aenv (queries a), b)" by (simp add: b_def c_def ask_def upd_def ptk_entry_def)
  have c: "sta_key_mgmt (sta c) = sta_key_mgmt (sta a)" "last_rx_eapol_key (sta c) = Some msg" "PMK (sta c) = PMK (sta a)"
    using assms(3) by (simp_all add: c_def upd_def ptk_entry_def)
  have "a' = (let d = a_cancel send_eapol_timeout_key (upd (\<lambda>s. s\<lparr>pending_1_of_4_timeout := False\<rparr>) (snd (ask (malloc_ok aenv) b)));
      d = (if wpa_key_mgmt_wpa_psk (sta_key_mgmt (sta a)) then upd (\<lambda>s. s\<lparr>PMK := take 32 k\<rparr>) d else d) in
      upd (\<lambda>s. s\<lparr>MICVerified := True, PTK := p, PTK_valid := True\<rparr>) d)"
    unfolding a'_def sm_WPA_PTK_PTKCALCNEGOTIATING_Enter_def Let_def c_def [symmetric]
    by (simp only: c assms(4) o s option.case prod.case)
  then show ?thesis by (simp add: upd_def Let_def flip: p_def)
qed

lemma ptk_sized_of: "length (ptk_octets (ptk_of_octets b)) = 64 \<Longrightarrow> ptk_sized (ptk_of_octets b)"
  by (auto simp: ptk_octets_def ptk_of_octets_def ptk_sized_def)

lemma ptk_fields:
  assumes "ptk_sized x" "ptk_sized y" "take n (ptk_octets x) = take n (ptk_octets y)" "48 \<le> n"
  shows "kck x = kck y" "kek x = kek y" "tk1 x = tk1 y"
proof -
  have "take 48 (ptk_octets x) = take 48 (take n (ptk_octets x))" "take 48 (ptk_octets y) = take 48 (take n (ptk_octets y))"
    using assms(4) by (simp_all add: min_def)
  then have "take 48 (ptk_octets x) = take 48 (ptk_octets y)" using assms(3) by simp
  then show "kck x = kck y" "kek x = kek y" "tk1 x = tk1 y"
    using assms(1,2) by (simp_all add: ptk_octets_def ptk_sized_def)
qed

lemma derived_sized:
  assumes "macs_sized aenv" "peers env w key aenv a k" "ptk_sized p" "ptk_sized p'"
  shows "ptk_sized (wpa_derive_ptk env key p w)" "ptk_sized (auth_derive_ptk aenv a k p')"
proof -
  define n where "n = wpa_cipher_key_len (sta_pairwise (sta a)) + 32"
  have n: "n \<le> 64" unfolding n_def by (rule key_len_le)
  have l: "length (sta_addr (sta a)) = length (auth_addr a)" "length (SNonce (sta a)) = length (ANonce (sta a))"
    using assms(2) by (simp_all add: peers_def)
  have "length (ptk_octets (wpa_derive_ptk env key p w)) = 64" "length (ptk_octets (auth_derive_ptk aenv a k p')) = 64"
    unfolding station_ptk_octets [OF assms(1,3,2), folded n_def] auth_ptk_octets [OF assms(1,4) l, of k, folded n_def]
    using n length_ieee_ptk [OF assms(1)] length_ptk_octets [OF assms(3)] length_ptk_octets [OF assms(4)] by simp_all
  then show "ptk_sized (wpa_derive_ptk env key p w)" "ptk_sized (auth_derive_ptk aenv a k p')"
    unfolding wpa_derive_ptk_def auth_derive_ptk_def Let_def by (simp_all add: ptk_sized_of)
qed

section \<open>An example\<close>

definition std_crypto :: pmksa_env where
  "std_crypto = \<lparr>pmksa_env.hmac_sha1 = rfc2104 fips_sha1, pmksa_env.hmac_sha256 = rfc2104 fips_sha256, timer_alloc = True\<rparr>"

definition peer_station_env :: "unit wpa_env" where
  "peer_station_env = sample_wpa_env\<lparr>pm_env := std_crypto, supp_env := (supp_env sample_wpa_env)\<lparr>env_hmac_md5 := rfc2104 rfc1321\<rparr>\<rparr>"

definition peer_station :: "unit wpa_sm" where
  "peer_station = sample_wpa\<lparr>cache := (cache sample_wpa)\<lparr>sm_pmk := replicate 32 1, sm_pmk_len := 32,
       own_addr := [2, 0, 0, 0, 0, 2], sm_bssid := [2, 0, 0, 0, 0, 1]\<rparr>,
     snonce := replicate 32 7, tptk := ptk_zero, p2p := False, assoc_wpa_ie := Some [48, 0],
     WpaSm.pairwise_cipher := WPA_CIPHER_CCMP, WpaSm.key_mgmt := WPA_KEY_MGMT_PSK\<rparr>"

definition peer_ap_env :: auth_env where
  "peer_ap_env = sample_auth_env\<lparr>auth_md5 := rfc2104 rfc1321, auth_pm := std_crypto\<rparr>"

definition peer_ap :: authenticator where
  "peer_ap = sample_ap\<lparr>sta := (sta sample_ap)\<lparr>ANonce := replicate 32 3, SNonce := replicate 32 7\<rparr>\<rparr>"

definition peer_msg1 :: wpa_eapol_key where
  "peer_msg1 = zero_key\<lparr>k_type := 2, k_info := 0x8a, k_nonce := replicate 32 3, k_replay := [0, 0, 0, 0, 0, 0, 0, 1]\<rparr>"

lemma peer_macs: "macs_sized peer_ap_env"
  by (simp add: macs_sized_def peer_ap_env_def std_crypto_def sha1_mac.length_rfc2104 md5_mac.length_rfc2104 sha256_mac.length_rfc2104)

lemma peer_peers: "peers peer_station_env peer_station peer_msg1 peer_ap_env peer_ap (replicate 32 1)"
  by (simp add: peers_def peer_station_env_def peer_station_def peer_msg1_def peer_ap_env_def peer_ap_def sample_ap_def)

lemma ptk_zero_sized: "ptk_sized ptk_zero"
  by (simp add: ptk_sized_def ptk_zero_def)

end
