(* ===== verification/Spec2Isabelle.thy ===== *)
theory Spec2Isabelle
  imports HexText EapolSupp PmksaCache AesModes WpaSmSafety WpaAuthRetry TlsPrf Base64 Handshake
begin

text \<open>
  The key management core of wpa_supplicant and hostapd, in the copy of the tree at
  \<open>src/QCA6574/qualcomm_wpa_supplicant\<close> (hostap 2.3-devel). Paths below are relative to it.

  \<^bold>\<open>The program.\<close> A station authenticates to an access point with EAP, carried in EAPOL frames, and
  both sides then prove the possession of a pairwise master key (PMK) and derive and install keys in
  the 4-way and the group key handshake. On the side of the station, \<open>src/rsn_supp/wpa.c\<close> runs the
  handshakes; it takes the PMK from the EAPOL state machines (\<open>src/eapol_supp/eapol_supp_sm.c\<close>), which
  drive the EAP peer (\<open>src/eap_peer/eap.c\<close>), or from the PMKSA cache (\<open>src/rsn_supp/pmksa_cache.c\<close>), and
  it parses and writes RSN elements and key data (\<open>src/rsn_supp/wpa_ie.c\<close>, \<open>src/common/wpa_common.c\<close>).
  The access point runs the other side, \<open>src/ap/wpa_auth.c\<close> with \<open>src/ap/wpa_auth_ie.c\<close>. Both derive keys and compute
  MICs with \<open>src/crypto\<close>, and both wait for frames, timeouts and signals in \<open>src/utils/eloop.c\<close>.

  \<^bold>\<open>Theories.\<close> Each holds the definitions of its sources in their order, with the names of the code,
  and then the lemmas about them.

  \<^item> \<open>Prelude\<close>: machine types, octet strings, the accessors of \<open>src/utils/common.h\<close>, lemmas on words and lists.
  \<^item> \<open>HexText\<close>: parsing, printing and array helpers of \<open>src/utils/common.c\<close>. \<open>Bitfield\<close>: \<open>src/utils/bitfield.c\<close>.
  \<^item> \<open>Eloop\<close>: \<open>src/utils/eloop.c\<close>. \<open>struct eloop_data\<close> is a record; a handler is a function that returns the list
    of the calls it makes. The locale \<open>timer_service\<close> states what a client relies on (registration,
    cancellation, other timeouts untouched) and is interpreted on the model of the loop.
  \<^item> \<open>AesInternal\<close>: the table driven AES of \<open>src/crypto/aes-internal*.c\<close>, against a definition after FIPS 197.
    \<open>AesModes\<close>: key wrap, CBC, CTR, OMAC1 and EAX, over the locale \<open>block_cipher\<close>, interpreted on the AES model.
    \<open>Rc4\<close>: \<open>src/crypto/rc4.c\<close>. \<open>Base64\<close>: \<open>src/utils/base64.c\<close>.
  \<^item> \<open>Hash\<close>: what the hash functions share, the padded iteration of a compression function and the locale
    \<open>stream_hash\<close> of a context that is fed piecewise. \<open>Sha1\<close>, \<open>Md5\<close>, \<open>Sha256\<close>: \<open>src/crypto/sha1-internal.c\<close>,
    \<open>md5-internal.c\<close>, \<open>sha256-internal.c\<close>, each an interpretation of it, against FIPS 180-4 and RFC 1321.
    \<open>Hmac\<close>: HMAC and PBKDF2 over the locale \<open>hash_function\<close>, interpreted on the three; \<open>TlsPrf\<close>: the pseudo random
    functions of TLS and EAP-FAST.
  \<^item> \<open>WpaCommon\<close>: cipher suites, elements and key data. \<open>WpaKeys\<close>: pseudo random functions, \<open>wpa_pmk_to_ptk\<close>,
    \<open>wpa_eapol_key_mic\<close> and the layout of EAPOL-Key frames.
  \<^item> \<open>PmksaCache\<close>: the cache with its two timeouts, and the abstract map that it refines.
  \<^item> \<open>EapCommon\<close>, \<open>EapPeer\<close>: EAP messages and the peer state machine of RFC 4137. The EAP methods are a table of
    arbitrary functions in the environment. The locales \<open>eapol_callbacks_laws\<close> and \<open>eap_ctx_invariant\<close>
    are the interface to the layer below, interpreted in \<open>EapolSupp\<close>.
  \<^item> \<open>EapolSupp\<close>: the supplicant PAE, key receive and backend machines, EAPOL-Key processing and timers.
  \<^item> \<open>WpaSm\<close>: the station side of the handshakes. \<open>WpaSmKeeps\<close>: what each operation leaves alone.
    \<open>WpaSmSafety\<close>: what a frame must contain to make the machine install a key.
  \<^item> \<open>WpaAuthIe\<close>, \<open>WpaAuth\<close>: the access point side. \<open>WpaAuthFrames\<close>: the part of the state that controls it;
    \<open>WpaAuthEnds\<close>: its loops end; \<open>WpaAuthSafety\<close>, \<open>WpaAuthRetry\<close>: authentication of the station and retries.
  \<^item> \<open>Handshake\<close>: both sides together. The pseudo random functions of \<open>WpaKeys\<close> are those of IEEE Std 802.11; the
    predicate \<open>peers\<close> says that a station and an access point know the same PMK, addresses and nonces.

  \<^bold>\<open>Conventions.\<close> A structure is a record, an enumeration a datatype, a fixed width integer a word of that
  width; a pointer that may be NULL is an option, and a buffer the list of its octets. State is passed
  explicitly and results of failing functions are options or flags. Calls out of a component that only
  report something (driver operations, frames sent, notifications) are appended to a trace. What the
  program reads from outside (allocation results, random octets, clock, driver answers, EAP methods) is
  an argument, the environment of the component; theorems hold for every environment.

  \<^bold>\<open>What the lemmas show.\<close> Safety of key installation on both sides: keys reach the driver only after a
  valid MIC under the pairwise key and an unused replay counter, and a frame is never used twice; a
  retransmitted message 3 does reinstall the key. Invariants of reachable states for the EAPOL
  machines, the PMKSA cache and the event loop, by rule induction over their operations. Termination
  of every state machine loop, and that a silent station is disconnected. Agreement of both sides on the
  pairwise key, and acceptance of message 2. Round trips for
  elements, cipher lists, text encodings, EAP messages, AES and its modes. Equivalence of the AES, OMAC1,
  key wrap, hash, HMAC, PBKDF2 and TLS PRF code with the definitions of their standards.

  \<^bold>\<open>Fuel.\<close> \<open>EAP_STEP_FUEL\<close> is 16, above the largest value 11 of the measure that every iteration of
  \<open>eap_peer_sm_step\<close> lowers. The loop of \<open>eapol_sm_step\<close> makes at most 100 iterations in the code as well.
  \<open>SM_FUEL\<close> is 300, above the rank, at most 250, that every changing round of \<open>wpa_sm_step\<close> lowers
  (\<open>authenticator_loops_end\<close>). The loops of \<open>SHA1Update\<close> and \<open>SHA1Final\<close> have the length of the data and 64 as fuel,
  and \<open>sha1_vector\<close> is shown to return. Other loops recurse over the data or over a length.

  \<^bold>\<open>Configuration.\<close> \<open>select()\<close> in the event loop, small AES tables, IEEE 802.11w, P2P, Hotspot 2.0 and WNM
  on; \<open>CONFIG_WPS\<close> is a field of the environment; IEEE 802.11r, PeerKey, TDLS, SAE, MACsec, EAP proxy and FIPS off.

  \<^bold>\<open>Not modelled.\<close> EAP methods and TLS, WPS, P2P, RADIUS, the EAP server and the 802.1X authenticator, driver
  interfaces, control interfaces and configuration files; the kernel drivers and firmware interfaces of
  the vendor trees and the older copies of wpa_supplicant. Within the modelled files: MIB, status
  and debug texts, deinitialisation that only frees memory, and the code of configurations that are off.
  The access point has one group and one station, and its callbacks do not call back.
\<close>

section \<open>Station and access point\<close>

text \<open>
  C5: The station and the access point derive the same pairwise transient key, the one of IEEE Std 802.11 for the
  PMK, the two addresses and the two nonces in their order: whichever side calls \<open>wpa_pmk_to_ptk\<close> with whichever
  order of its arguments and whatever the buffer held before, all octets of the key that the negotiated
  cipher uses are equal. \<open>peers\<close> says that both know the same PMK, addresses, nonces and suite.
\<close>

theorem ptk_agreement:
  assumes "macs_sized aenv" "peers env w key aenv a k" "ptk_sized p" "ptk_sized p'"
  defines "n \<equiv> wpa_cipher_key_len (sta_pairwise (sta a)) + 32"
  shows "take n (ptk_octets (wpa_derive_ptk env key p w)) = take n (ptk_octets (auth_derive_ptk aenv a k p')) \<and>
    take n (ptk_octets (auth_derive_ptk aenv a k p')) =
      ieee_ptk aenv (take 32 k) (wpa_key_mgmt_sha256 (sta_key_mgmt (sta a))) (auth_addr a) (sta_addr (sta a))
        (ANonce (sta a)) (SNonce (sta a)) n"
  unfolding n_def by (rule ptk_octets_agree [OF assms(1-4)])

theorem ptk_agreement_witness:
  "take 48 (ptk_octets (wpa_derive_ptk peer_station_env peer_msg1 ptk_zero peer_station)) =
   take 48 (ptk_octets (auth_derive_ptk peer_ap_env peer_ap (replicate 32 1) ptk_zero))"
  using ptk_agreement [OF peer_macs peer_peers ptk_zero_sized ptk_zero_sized]
  by (simp add: peer_ap_def sample_ap_def wpa_cipher_key_len_def)



end
